(* ===== verification/Prelude.thy ===== *)
theory Prelude
  imports Complex_Main "HOL-Library.Word" "HOL-Library.AList" "HOL-Library.Char_ord" "HOL-Library.List_Lexorder"
begin

text \<open>
  What every component of the development shares.

  \<^item> The types of the Rust code that are used everywhere: machine integers as words of their
    width, \<open>Uuid\<close> as a 128-bit word, \<open>H256\<close> as a 256-bit word, \<open>String\<close> as \<open>string\<close>
    (ordered byte by byte, as Rust orders it), \<open>MmNumber\<close> and \<open>BigRational\<close> as \<open>rat\<close>.
  \<^item> \<open>rust_result\<close>: the result of a function that can return an error or panic. Dividing a
    \<open>BigRational\<close> by zero panics, so every division of the source is \<open>mm_div\<close>.
  \<^item> Hash maps the code iterates over: association lists in the order of the iteration (which
    Rust leaves open, so the theorems hold for every order), with the library's \<open>AList.update\<close>,
    \<open>AList.delete\<close> and \<open>map_of\<close> as insertion, removal and lookup. Hash sets the code iterates over
    are lists without duplicates.
\<close>

named_theorems om_defs
named_theorems hm_simps

type_synonym u8 = "8 word"
type_synonym u16 = "16 word"
type_synonym u64 = "64 word"
type_synonym uuid = "128 word"
type_synonym h256 = "256 word"
type_synonym bytes = "u8 list"
type_synonym mm_number = rat
type_synonym ('k, 'v) hash_map = "('k \<times> 'v) list"

section \<open>Results that may panic\<close>

datatype ('e, 'a) rust_result = Panic | Err 'e | Ok 'a

fun rbind :: "('e, 'a) rust_result \<Rightarrow> ('a \<Rightarrow> ('e, 'b) rust_result) \<Rightarrow> ('e, 'b) rust_result" where
  "rbind Panic f = Panic"
| "rbind (Err e) f = Err e"
| "rbind (Ok a) f = f a"

lemma rbind_eq_Ok_iff [simp]: "rbind m f = Ok b \<longleftrightarrow> (\<exists>a. m = Ok a \<and> f a = Ok b)"
  by (cases m) auto

lemma rbind_eq_Panic_iff [simp]:
  "rbind m f = Panic \<longleftrightarrow> m = Panic \<or> (\<exists>a. m = Ok a \<and> f a = Panic)"
  by (cases m) auto

text \<open>Division of two \<open>BigRational\<close> values: it panics when the divisor is zero.\<close>

definition mm_div :: "mm_number \<Rightarrow> mm_number \<Rightarrow> ('e, mm_number) rust_result" where
  "mm_div a b = (if b = 0 then Panic else Ok (a / b))"

lemma mm_div_nonzero [simp]: "b \<noteq> 0 \<Longrightarrow> mm_div a b = Ok (a / b)"
  by (simp add: mm_div_def)

lemma mm_div_zero [simp]: "mm_div a 0 = Panic"
  by (simp add: mm_div_def)

lemma mm_div_Ok_iff: "mm_div a b = Ok c \<longleftrightarrow> b \<noteq> 0 \<and> c = a / b"
  by (auto simp: mm_div_def)

lemma mm_div_neq_Err [simp]: "mm_div a b \<noteq> Err e"
  by (simp add: mm_div_def)

section \<open>Options and folds\<close>

definition unwrap_or :: "'a \<Rightarrow> 'a option \<Rightarrow> 'a" where
  "unwrap_or d x = (case x of Some y \<Rightarrow> y | None \<Rightarrow> d)"

lemma unwrap_or_simps [simp]: "unwrap_or d None = d" "unwrap_or d (Some y) = y"
  by (simp_all add: unwrap_or_def)

lemma fold_invariant_set:
  "(\<And>x s. x \<in> set xs \<Longrightarrow> I s \<Longrightarrow> I (f x s)) \<Longrightarrow> I s \<Longrightarrow> I (fold f xs s)"
  by (induction xs arbitrary: s) auto

section \<open>Hash maps and hash sets in iteration order\<close>

abbreviation hm_wf :: "('k, 'v) hash_map \<Rightarrow> bool" where
  "hm_wf m \<equiv> distinct (map fst m)"

definition hs_insert :: "'a \<Rightarrow> 'a list \<Rightarrow> 'a list" where
  "hs_insert x xs = (if x \<in> set xs then xs else xs @ [x])"

definition hs_remove :: "'a \<Rightarrow> 'a list \<Rightarrow> 'a list" where
  "hs_remove x xs = filter (\<lambda>y. y \<noteq> x) xs"

lemma set_hs_insert [simp]: "set (hs_insert x xs) = insert x (set xs)"
  by (auto simp: hs_insert_def)

lemma set_hs_remove [simp]: "set (hs_remove x xs) = set xs - {x}"
  by (auto simp: hs_remove_def)

lemma distinct_hs_insert [simp]: "distinct (hs_insert x xs) = distinct xs"
  by (auto simp: hs_insert_def)

lemma distinct_hs_remove [intro]: "distinct xs \<Longrightarrow> distinct (hs_remove x xs)"
  by (simp add: hs_remove_def)

lemma hm_get_update [hm_simps]: "map_of (AList.update k v m) = (map_of m)(k \<mapsto> v)"
  by (rule update_conv')

lemma hm_get_delete [hm_simps]: "map_of (AList.delete k m) = (map_of m)(k := None)"
  by (rule delete_conv')

lemma hm_wf_update [intro, hm_simps]: "hm_wf m \<Longrightarrow> hm_wf (AList.update k v m)"
  by (rule distinct_update)

lemma hm_wf_delete [intro, hm_simps]: "hm_wf m \<Longrightarrow> hm_wf (AList.delete k m)"
  by (rule distinct_delete)

lemma hm_keys_delete [simp]: "fst ` set (AList.delete k m) = fst ` set m - {k}"
  by (auto simp: AList.delete_eq image_iff)

lemma hm_keys_update [simp]: "fst ` set (AList.update k v m) = insert k (fst ` set m)"
  by (simp add: dom_update)

lemma hm_values_update: "snd ` set (AList.update k v m) \<subseteq> insert v (snd ` set m)"
  by (induction m) auto

lemma hm_values_update_ball [intro]:
  "P v \<Longrightarrow> \<forall>x \<in> snd ` set m. P x \<Longrightarrow> \<forall>x \<in> snd ` set (AList.update k v m). P x"
  using hm_values_update[of k v m] by blast

lemma hm_values_delete: "snd ` set (AList.delete k m) \<subseteq> snd ` set m"
  by (induction m) auto

text \<open>Summing a quantity over the values of a map, as the code's \<open>iter().fold\<close> does.\<close>

definition hm_sum :: "('v \<Rightarrow> rat) \<Rightarrow> ('k, 'v) hash_map \<Rightarrow> rat" where
  "hm_sum f m = sum_list (map (\<lambda>(k, v). f v) m)"

lemma hm_sum_simps [simp]: "hm_sum f [] = 0" "hm_sum f ((k, v) # m) = f v + hm_sum f m"
  by (simp_all add: hm_sum_def)

lemma foldl_hm_sum: "foldl (\<lambda>acc (k, v). acc + f v) a m = a + hm_sum f m"
  by (induction m arbitrary: a) (auto simp: add.assoc)

lemma hm_sum_update_new:
  "k \<notin> fst ` set m \<Longrightarrow> hm_sum f (AList.update k v m) = hm_sum f m + f v"
  by (induction m) auto

lemma hm_sum_nonneg: "\<forall>v \<in> snd ` set m. 0 \<le> f v \<Longrightarrow> 0 \<le> hm_sum f m"
  by (induction m) auto

lemma hm_sum_filter_le: "\<forall>v \<in> snd ` set m. 0 \<le> f v \<Longrightarrow> hm_sum f (filter p m) \<le> hm_sum f m"
  by (induction m) auto

text \<open>A keyed update that keeps the summand keeps the sum.\<close>

lemma hm_sum_update_same:
  assumes "map_of m k = Some w" and "f v = f w"
  shows "hm_sum f (AList.update k v m) = hm_sum f m"
  using assms by (induction m) (auto split: if_splits)

text \<open>Retaining the entries whose value satisfies a test.\<close>

lemma hm_get_filter:
  "hm_wf m \<Longrightarrow> map_of (filter (\<lambda>(_, v). P v) m) u =
    (case map_of m u of Some v \<Rightarrow> if P v then Some v else None | None \<Rightarrow> None)"
  by (induction m) (auto simp: map_of_eq_None_iff split: option.split)

lemma hm_keys_filter:
  "hm_wf m \<Longrightarrow> u \<in> fst ` set (filter (\<lambda>(_, v). P v) m) \<longleftrightarrow> (\<exists>v. map_of m u = Some v \<and> P v)"
  by (force simp: image_iff)

end
