(* ===== verification/Order_Types.thy ===== *)
theory Order_Types
  imports Prelude
begin

text \<open>
  The data of the order matching service: the constants and structs of
  \<open>mm2_main/src/lp_ordermatch.rs\<close>, the settings and enums of
  \<open>mm2_rpc/src/data/legacy/orders.rs\<close>, the swap version of \<open>swap_versioning.rs\<close> and the peer
  messages of \<open>lp_ordermatch/new_protocol.rs\<close> with their conversions.

  Every struct is a record whose fields carry the struct's initials (\<open>mo_\<close> for \<open>MakerOrder\<close>,
  \<open>to_\<close> for \<open>TakerOrder\<close>, \<open>tr_\<close> for \<open>TakerRequest\<close>, ...). The field \<open>order_metadata\<close> exists only
  under the feature \<open>ibc-routing-for-swaps\<close>, which is off by default, and is left out.
\<close>

section \<open>Constants\<close>

definition MIN_ORDER_KEEP_ALIVE_INTERVAL :: u64 where
  "MIN_ORDER_KEEP_ALIVE_INTERVAL = 30"

definition MAKER_ORDER_TIMEOUT :: u64 where
  "MAKER_ORDER_TIMEOUT = MIN_ORDER_KEEP_ALIVE_INTERVAL * 3"

definition TAKER_ORDER_TIMEOUT :: u64 where
  "TAKER_ORDER_TIMEOUT = 30"

definition ORDER_MATCH_TIMEOUT :: u64 where
  "ORDER_MATCH_TIMEOUT = 30"

definition ORDERBOOK_REQUESTING_TIMEOUT :: u64 where
  "ORDERBOOK_REQUESTING_TIMEOUT = MIN_ORDER_KEEP_ALIVE_INTERVAL * 2"

definition MAX_ORDERS_NUMBER_IN_ORDERBOOK_RESPONSE :: nat where
  "MAX_ORDERS_NUMBER_IN_ORDERBOOK_RESPONSE = 1000"

definition SWAP_VERSION_DEFAULT :: u8 where
  "SWAP_VERSION_DEFAULT = 2"

section \<open>Settings and enums\<close>

record order_confirmations_settings =
  base_confs :: u64
  base_nota :: bool
  rel_confs :: u64
  rel_nota :: bool

definition conf_reversed :: "order_confirmations_settings \<Rightarrow> order_confirmations_settings" where
  "conf_reversed s = \<lparr>base_confs = rel_confs s, base_nota = rel_nota s,
     rel_confs = base_confs s, rel_nota = base_nota s\<rparr>"

lemma conf_reversed_involutive [simp]: "conf_reversed (conf_reversed s) = s"
  by (simp add: conf_reversed_def)

datatype taker_action = Buy | Sell

datatype order_type = FillOrKill | GoodTillCancelled

datatype match_by = MatchAny | MatchOrders "uuid list" | MatchPubkeys "h256 list"

record swap_version =
  sv_version :: u8

definition legacy_swap_version :: u8 where
  "legacy_swap_version = 1"

definition swap_version_is_legacy :: "swap_version \<Rightarrow> bool" where
  "swap_version_is_legacy v \<longleftrightarrow> sv_version v = legacy_swap_version"

definition swap_version_from :: "u8 \<Rightarrow> swap_version" where
  "swap_version_from v = \<lparr>sv_version = v\<rparr>"

definition default_swap_method :: string where
  "default_swap_method = ''htlc''"

text \<open>\<open>SerializableSecp256k1Keypair\<close>: the library's key pair, of which the code uses the secret
  (to sign messages) and the hexadecimal form of the public key (to name the order's owner).\<close>

record keypair =
  kp_public_hex :: string
  kp_private :: bytes

section \<open>Requests, reservations and matches\<close>

record taker_request =
  tr_base :: string
  tr_rel :: string
  tr_base_amount :: mm_number
  tr_rel_amount :: mm_number
  tr_action :: taker_action
  tr_uuid :: uuid
  tr_sender_pubkey :: h256
  tr_dest_pub_key :: h256
  tr_match_by :: match_by
  tr_conf_settings :: "order_confirmations_settings option"
  tr_base_protocol_info :: "bytes option"
  tr_rel_protocol_info :: "bytes option"
  tr_swap_version :: swap_version
  tr_swap_method :: string

record taker_connect =
  tc_taker_order_uuid :: uuid
  tc_maker_order_uuid :: uuid
  tc_sender_pubkey :: h256
  tc_dest_pub_key :: h256

record maker_reserved =
  mr_base :: string
  mr_rel :: string
  mr_base_amount :: mm_number
  mr_rel_amount :: mm_number
  mr_taker_order_uuid :: uuid
  mr_maker_order_uuid :: uuid
  mr_sender_pubkey :: h256
  mr_dest_pub_key :: h256
  mr_conf_settings :: "order_confirmations_settings option"
  mr_base_protocol_info :: "bytes option"
  mr_rel_protocol_info :: "bytes option"
  mr_swap_version :: swap_version

record maker_connected =
  mc_taker_order_uuid :: uuid
  mc_maker_order_uuid :: uuid
  mc_method :: string
  mc_sender_pubkey :: h256
  mc_dest_pub_key :: h256

record maker_match =
  mm_request :: taker_request
  mm_reserved :: maker_reserved
  mm_connect :: "taker_connect option"
  mm_connected :: "maker_connected option"
  mm_last_updated :: u64

record taker_match =
  tm_reserved :: maker_reserved
  tm_connect :: taker_connect
  tm_connected :: "maker_connected option"
  tm_last_updated :: u64

section \<open>Orders\<close>

record historical_order =
  ho_max_base_vol :: "mm_number option"
  ho_min_base_vol :: "mm_number option"
  ho_price :: "mm_number option"
  ho_updated_at :: "u64 option"
  ho_conf_settings :: "order_confirmations_settings option"

record taker_order =
  to_created_at :: u64
  to_request :: taker_request
  to_matches :: "(uuid, taker_match) hash_map"
  to_min_volume :: mm_number
  to_order_type :: order_type
  to_timeout :: u64
  to_save_in_history :: bool
  to_base_orderbook_ticker :: "string option"
  to_rel_orderbook_ticker :: "string option"
  to_p2p_privkey :: "keypair option"

record maker_order =
  mo_max_base_vol :: mm_number
  mo_min_base_vol :: mm_number
  mo_price :: mm_number
  mo_created_at :: u64
  mo_updated_at :: "u64 option"
  mo_base :: string
  mo_rel :: string
  mo_matches :: "(uuid, maker_match) hash_map"
  mo_started_swaps :: "uuid list"
  mo_uuid :: uuid
  mo_conf_settings :: "order_confirmations_settings option"
  mo_changes_history :: "historical_order list option"
  mo_save_in_history :: bool
  mo_base_orderbook_ticker :: "string option"
  mo_rel_orderbook_ticker :: "string option"
  mo_p2p_privkey :: "keypair option"
  mo_swap_version :: swap_version
  mo_swap_method :: string
  mo_timeout_in_minutes :: "u16 option"

end
