(* ===== verification/Order_Messages.thy ===== *)
theory Order_Messages
  imports Order_Types
begin

text \<open>
  The peer messages of \<open>lp_ordermatch/new_protocol.rs\<close> and their conversions to and from the
  structs of \<open>lp_ordermatch.rs\<close>. \<open>CompactUuid\<close> is a \<open>Uuid\<close> that is encoded in 16 bytes, so it is
  the uuid here. A trie root hash (\<open>H64\<close>) is a 64-bit word.
\<close>

type_synonym h64 = u64

section \<open>Messages\<close>

record np_maker_order_created =
  npc_uuid :: uuid
  npc_base :: string
  npc_rel :: string
  npc_price :: rat
  npc_max_volume :: rat
  npc_min_volume :: rat
  npc_created_at :: u64
  npc_conf_settings :: order_confirmations_settings
  npc_timestamp :: u64
  npc_pair_trie_root :: h64
  npc_base_protocol_info :: bytes
  npc_rel_protocol_info :: bytes

record np_maker_order_cancelled =
  npx_uuid :: uuid
  npx_timestamp :: u64
  npx_pair_trie_root :: h64

record maker_order_updated_v1 =
  v1_uuid :: uuid
  v1_new_price :: "rat option"
  v1_new_max_volume :: "rat option"
  v1_new_min_volume :: "rat option"
  v1_timestamp :: u64
  v1_pair_trie_root :: h64

record maker_order_updated_v2 =
  v2_uuid :: uuid
  v2_new_price :: "rat option"
  v2_new_max_volume :: "rat option"
  v2_new_min_volume :: "rat option"
  v2_timestamp :: u64
  v2_pair_trie_root :: h64
  v2_conf_settings :: "order_confirmations_settings option"

datatype maker_order_updated = V1 maker_order_updated_v1 | V2 maker_order_updated_v2

record np_taker_request =
  npt_base :: string
  npt_rel :: string
  npt_base_amount :: rat
  npt_rel_amount :: rat
  npt_action :: taker_action
  npt_uuid :: uuid
  npt_match_by :: match_by
  npt_conf_settings :: order_confirmations_settings
  npt_base_protocol_info :: "bytes option"
  npt_rel_protocol_info :: "bytes option"
  npt_swap_version :: swap_version
  npt_swap_method :: string

record np_maker_reserved =
  npr_base :: string
  npr_rel :: string
  npr_base_amount :: rat
  npr_rel_amount :: rat
  npr_taker_order_uuid :: uuid
  npr_maker_order_uuid :: uuid
  npr_conf_settings :: order_confirmations_settings
  npr_base_protocol_info :: "bytes option"
  npr_rel_protocol_info :: "bytes option"
  npr_swap_version :: swap_version

record np_taker_connect =
  npk_taker_order_uuid :: uuid
  npk_maker_order_uuid :: uuid

record np_maker_connected =
  npd_taker_order_uuid :: uuid
  npd_maker_order_uuid :: uuid

record np_pubkey_keep_alive =
  npa_trie_roots :: "(string, h64) hash_map"
  npa_timestamp :: u64

datatype ordermatch_message =
    MakerOrderCreatedMsg np_maker_order_created
  | MakerOrderUpdatedMsg maker_order_updated
  | PubkeyKeepAliveMsg np_pubkey_keep_alive
  | MakerOrderCancelledMsg np_maker_order_cancelled
  | TakerRequestMsg np_taker_request
  | MakerReservedMsg np_maker_reserved
  | TakerConnectMsg np_taker_connect
  | MakerConnectedMsg np_maker_connected

section \<open>The update message\<close>

definition upd_new :: "u64 \<Rightarrow> uuid \<Rightarrow> maker_order_updated" where
  "upd_new now u = V2 \<lparr>v2_uuid = u, v2_new_price = None, v2_new_max_volume = None,
     v2_new_min_volume = None, v2_timestamp = now, v2_pair_trie_root = 0, v2_conf_settings = None\<rparr>"

fun with_new_price :: "rat \<Rightarrow> maker_order_updated \<Rightarrow> maker_order_updated" where
  "with_new_price p (V1 m) = V1 (m\<lparr>v1_new_price := Some p\<rparr>)"
| "with_new_price p (V2 m) = V2 (m\<lparr>v2_new_price := Some p\<rparr>)"

fun with_new_max_volume :: "rat \<Rightarrow> maker_order_updated \<Rightarrow> maker_order_updated" where
  "with_new_max_volume v (V1 m) = V1 (m\<lparr>v1_new_max_volume := Some v\<rparr>)"
| "with_new_max_volume v (V2 m) = V2 (m\<lparr>v2_new_max_volume := Some v\<rparr>)"

fun with_new_min_volume :: "rat \<Rightarrow> maker_order_updated \<Rightarrow> maker_order_updated" where
  "with_new_min_volume v (V1 m) = V1 (m\<lparr>v1_new_min_volume := Some v\<rparr>)"
| "with_new_min_volume v (V2 m) = V2 (m\<lparr>v2_new_min_volume := Some v\<rparr>)"

fun with_new_conf_settings :: "order_confirmations_settings \<Rightarrow> maker_order_updated \<Rightarrow> maker_order_updated" where
  "with_new_conf_settings c (V1 m) = V1 m"
| "with_new_conf_settings c (V2 m) = V2 (m\<lparr>v2_conf_settings := Some c\<rparr>)"

fun new_price :: "maker_order_updated \<Rightarrow> mm_number option" where
  "new_price (V1 m) = v1_new_price m"
| "new_price (V2 m) = v2_new_price m"

fun new_max_volume :: "maker_order_updated \<Rightarrow> mm_number option" where
  "new_max_volume (V1 m) = v1_new_max_volume m"
| "new_max_volume (V2 m) = v2_new_max_volume m"

fun new_min_volume :: "maker_order_updated \<Rightarrow> mm_number option" where
  "new_min_volume (V1 m) = v1_new_min_volume m"
| "new_min_volume (V2 m) = v2_new_min_volume m"

fun new_conf_settings :: "maker_order_updated \<Rightarrow> order_confirmations_settings option" where
  "new_conf_settings (V1 m) = None"
| "new_conf_settings (V2 m) = v2_conf_settings m"

fun upd_uuid :: "maker_order_updated \<Rightarrow> uuid" where
  "upd_uuid (V1 m) = v1_uuid m"
| "upd_uuid (V2 m) = v2_uuid m"

text \<open>The getters of a message built by setters: each setter writes its own field only.\<close>

lemma upd_new_gets [simp]:
  "new_price (upd_new t u) = None" "new_max_volume (upd_new t u) = None"
  "new_min_volume (upd_new t u) = None" "new_conf_settings (upd_new t u) = None"
  "upd_uuid (upd_new t u) = u"
  by (simp_all add: upd_new_def)

lemma upd_with_price_gets [simp]:
  "new_price (with_new_price p m) = Some p" "new_max_volume (with_new_price p m) = new_max_volume m"
  "new_min_volume (with_new_price p m) = new_min_volume m"
  "new_conf_settings (with_new_price p m) = new_conf_settings m"
  "upd_uuid (with_new_price p m) = upd_uuid m"
  by (cases m; simp)+

lemma upd_with_max_gets [simp]:
  "new_price (with_new_max_volume v m) = new_price m" "new_max_volume (with_new_max_volume v m) = Some v"
  "new_min_volume (with_new_max_volume v m) = new_min_volume m"
  "new_conf_settings (with_new_max_volume v m) = new_conf_settings m"
  "upd_uuid (with_new_max_volume v m) = upd_uuid m"
  by (cases m; simp)+

lemma upd_with_min_gets [simp]:
  "new_price (with_new_min_volume v m) = new_price m"
  "new_max_volume (with_new_min_volume v m) = new_max_volume m"
  "new_min_volume (with_new_min_volume v m) = Some v"
  "new_conf_settings (with_new_min_volume v m) = new_conf_settings m"
  "upd_uuid (with_new_min_volume v m) = upd_uuid m"
  by (cases m; simp)+

lemma upd_with_conf_gets [simp]:
  "new_price (with_new_conf_settings c m) = new_price m"
  "new_max_volume (with_new_conf_settings c m) = new_max_volume m"
  "new_min_volume (with_new_conf_settings c m) = new_min_volume m"
  "upd_uuid (with_new_conf_settings c m) = upd_uuid m"
  by (cases m; simp)+

section \<open>Conversions\<close>

definition tr_from_new_proto_and_pubkey :: "np_taker_request \<Rightarrow> h256 \<Rightarrow> taker_request" where
  "tr_from_new_proto_and_pubkey m sender = \<lparr>
     tr_base = npt_base m, tr_rel = npt_rel m,
     tr_base_amount = npt_base_amount m, tr_rel_amount = npt_rel_amount m,
     tr_action = npt_action m, tr_uuid = npt_uuid m,
     tr_sender_pubkey = sender, tr_dest_pub_key = 0,
     tr_match_by = npt_match_by m, tr_conf_settings = Some (npt_conf_settings m),
     tr_base_protocol_info = npt_base_protocol_info m,
     tr_rel_protocol_info = npt_rel_protocol_info m,
     tr_swap_version = npt_swap_version m, tr_swap_method = npt_swap_method m\<rparr>"

definition mr_from_new_proto_and_pubkey :: "np_maker_reserved \<Rightarrow> h256 \<Rightarrow> maker_reserved" where
  "mr_from_new_proto_and_pubkey m sender = \<lparr>
     mr_base = npr_base m, mr_rel = npr_rel m,
     mr_base_amount = npr_base_amount m, mr_rel_amount = npr_rel_amount m,
     mr_taker_order_uuid = npr_taker_order_uuid m, mr_maker_order_uuid = npr_maker_order_uuid m,
     mr_sender_pubkey = sender, mr_dest_pub_key = 0,
     mr_conf_settings = Some (npr_conf_settings m),
     mr_base_protocol_info = npr_base_protocol_info m,
     mr_rel_protocol_info = npr_rel_protocol_info m,
     mr_swap_version = npr_swap_version m\<rparr>"

definition tc_from_new_proto :: "np_taker_connect \<Rightarrow> taker_connect" where
  "tc_from_new_proto m = \<lparr>tc_taker_order_uuid = npk_taker_order_uuid m,
     tc_maker_order_uuid = npk_maker_order_uuid m, tc_sender_pubkey = 0, tc_dest_pub_key = 0\<rparr>"

definition mc_from_new_proto :: "np_maker_connected \<Rightarrow> maker_connected" where
  "mc_from_new_proto m = \<lparr>mc_taker_order_uuid = npd_taker_order_uuid m,
     mc_maker_order_uuid = npd_maker_order_uuid m, mc_method = [],
     mc_sender_pubkey = 0, mc_dest_pub_key = 0\<rparr>"

text \<open>The conversions into messages. \<open>conf_settings.unwrap()\<close> panics where there are none.\<close>

definition msg_of_maker_reserved :: "maker_reserved \<Rightarrow> (unit, ordermatch_message) rust_result" where
  "msg_of_maker_reserved r = (case mr_conf_settings r of
     None \<Rightarrow> Panic
   | Some c \<Rightarrow> Ok (MakerReservedMsg \<lparr>
       npr_base = mr_base r, npr_rel = mr_rel r,
       npr_base_amount = mr_base_amount r, npr_rel_amount = mr_rel_amount r,
       npr_taker_order_uuid = mr_taker_order_uuid r, npr_maker_order_uuid = mr_maker_order_uuid r,
       npr_conf_settings = c,
       npr_base_protocol_info = mr_base_protocol_info r,
       npr_rel_protocol_info = mr_rel_protocol_info r,
       npr_swap_version = mr_swap_version r\<rparr>))"

definition msg_of_taker_connect :: "taker_connect \<Rightarrow> ordermatch_message" where
  "msg_of_taker_connect c = TakerConnectMsg \<lparr>npk_taker_order_uuid = tc_taker_order_uuid c,
     npk_maker_order_uuid = tc_maker_order_uuid c\<rparr>"

definition msg_of_maker_connected :: "maker_connected \<Rightarrow> ordermatch_message" where
  "msg_of_maker_connected c = MakerConnectedMsg \<lparr>npd_taker_order_uuid = mc_taker_order_uuid c,
     npd_maker_order_uuid = mc_maker_order_uuid c\<rparr>"

definition to_base_ticker :: "taker_order \<Rightarrow> string" where
  "to_base_ticker t = (case to_base_orderbook_ticker t of Some x \<Rightarrow> x | None \<Rightarrow> tr_base (to_request t))"

definition to_rel_ticker :: "taker_order \<Rightarrow> string" where
  "to_rel_ticker t = (case to_rel_orderbook_ticker t of Some x \<Rightarrow> x | None \<Rightarrow> tr_rel (to_request t))"

definition msg_of_taker_order :: "taker_order \<Rightarrow> (unit, ordermatch_message) rust_result" where
  "msg_of_taker_order t = (let r = to_request t in case tr_conf_settings r of
     None \<Rightarrow> Panic
   | Some c \<Rightarrow> Ok (TakerRequestMsg \<lparr>
       npt_base = to_base_ticker t, npt_rel = to_rel_ticker t,
       npt_base_amount = tr_base_amount r, npt_rel_amount = tr_rel_amount r,
       npt_action = tr_action r, npt_uuid = tr_uuid r, npt_match_by = tr_match_by r,
       npt_conf_settings = c,
       npt_base_protocol_info = tr_base_protocol_info r,
       npt_rel_protocol_info = tr_rel_protocol_info r,
       npt_swap_version = tr_swap_version r, npt_swap_method = tr_swap_method r\<rparr>))"

text \<open>A reservation survives the trip to the taker but for the two keys, which the receiver
  replaces: the sender's by the key that signed the message, the destination by zero.\<close>

lemma maker_reserved_over_wire:
  assumes "msg_of_maker_reserved r = Ok (MakerReservedMsg m)"
  shows "mr_from_new_proto_and_pubkey m sender = r\<lparr>mr_sender_pubkey := sender, mr_dest_pub_key := 0\<rparr>"
  using assms
  by (auto simp: msg_of_maker_reserved_def mr_from_new_proto_and_pubkey_def split: option.splits)

text \<open>A taker's request reaches the maker under the tickers of the orderbook.\<close>

lemma taker_request_over_wire:
  assumes "msg_of_taker_order t = Ok (TakerRequestMsg m)"
  shows "tr_from_new_proto_and_pubkey m sender =
    (to_request t)\<lparr>tr_base := to_base_ticker t, tr_rel := to_rel_ticker t,
       tr_sender_pubkey := sender, tr_dest_pub_key := 0\<rparr>"
  using assms
  by (auto simp: msg_of_taker_order_def tr_from_new_proto_and_pubkey_def Let_def split: option.splits)

end
