(* ===== verification/Order_Builders.thy ===== *)
theory Order_Builders
  imports Order_Messages
begin

text \<open>
  How orders come to be: \<open>MakerOrderBuilder\<close>, \<open>TakerOrderBuilder\<close>, their validation functions and
  the conversion of a timed-out taker order into a maker order
  (\<open>mm2_main/src/lp_ordermatch.rs\<close>).

  A coin is the record \<open>mm_coin\<close> of the \<open>MmCoin\<close> trait methods that order matching calls: the
  coins themselves (UTXO, Ethereum, Tendermint, ...) are behind that trait. What \<open>build\<close> draws from
  its surroundings (the clock, a fresh uuid, a random key pair) is the record \<open>build_env\<close>.
\<close>

section \<open>Coins and the surroundings\<close>

datatype coin_variant =
    UtxoCoinVariant | EthCoinVariant | TendermintVariant | TendermintTokenVariant
  | LightningCoinVariant | SiaCoinVariant | OtherCoinVariant

datatype secret_hash_algo = DHASH160 | SHA256

record mm_coin =
  coin_ticker :: string
  coin_variant :: coin_variant
  min_trading_vol :: mm_number
  required_confirmations :: u64
  requires_notarization :: bool
  is_privacy :: bool
  coin_protocol_info :: "mm_number option \<Rightarrow> bytes"
  is_coin_protocol_supported :: "bytes option \<Rightarrow> mm_number option \<Rightarrow> u64 \<Rightarrow> bool \<Rightarrow> bool"
  maker_locktime_multiplier :: rat
  secret_hash_algo_v2 :: secret_hash_algo

record build_env =
  be_now_ms :: u64
  be_new_uuid :: uuid
  be_random_keypair :: keypair

section \<open>Maker orders\<close>

record maker_order_builder =
  mob_max_base_vol :: mm_number
  mob_min_base_vol :: "mm_number option"
  mob_price :: mm_number
  mob_base_coin :: mm_coin
  mob_rel_coin :: mm_coin
  mob_base_orderbook_ticker :: "string option"
  mob_rel_orderbook_ticker :: "string option"
  mob_conf_settings :: "order_confirmations_settings option"
  mob_save_in_history :: bool
  mob_swap_version :: u8
  mob_swap_method :: string
  mob_timeout_in_minutes :: "u16 option"

datatype maker_order_build_error =
    MakerBaseEqualRel
  | MaxBaseVolTooLow mm_number mm_number
  | MinBaseVolTooLow mm_number mm_number
  | PriceTooLow mm_number mm_number
  | RelVolTooLow mm_number mm_number
  | ConfSettingsNotSet
  | MakerMaxBaseVolBelowMinBaseVol mm_number mm_number

definition validate_price :: "mm_number \<Rightarrow> (maker_order_build_error, unit) rust_result" where
  "validate_price price = (let min_price = 0 in
     if price \<le> min_price then Err (PriceTooLow price min_price) else Ok ())"

definition validate_and_get_min_vol ::
    "mm_number \<Rightarrow> mm_number \<Rightarrow> mm_number option \<Rightarrow> mm_number
       \<Rightarrow> (maker_order_build_error, mm_number) rust_result" where
  "validate_and_get_min_vol min_base_amount min_rel_amount min_base_vol price =
     rbind (mm_div min_rel_amount price) (\<lambda>base_min_by_rel.
       let threshold = max min_base_amount base_min_by_rel;
           actual = (case min_base_vol of Some v \<Rightarrow> v | None \<Rightarrow> threshold)
       in if actual < threshold then Err (MinBaseVolTooLow actual threshold) else Ok actual)"

definition validate_max_vol ::
    "mm_number \<Rightarrow> mm_number \<Rightarrow> mm_number \<Rightarrow> mm_number option \<Rightarrow> mm_number
       \<Rightarrow> (maker_order_build_error, unit) rust_result" where
  "validate_max_vol min_base_amount min_rel_amount max_base_vol min_base_vol price =
     rbind (case min_base_vol of
        Some m \<Rightarrow> if max_base_vol < m then Err (MakerMaxBaseVolBelowMinBaseVol m max_base_vol) else Ok ()
      | None \<Rightarrow> Ok ())
     (\<lambda>_. if max_base_vol < min_base_amount then Err (MaxBaseVolTooLow max_base_vol min_base_amount)
       else let rel_vol = max_base_vol * price in
         if rel_vol < min_rel_amount then Err (RelVolTooLow rel_vol min_rel_amount) else Ok ())"

text \<open>The builder's constructor and setters.\<close>

definition mob_new :: "mm_coin \<Rightarrow> mm_coin \<Rightarrow> maker_order_builder" where
  "mob_new base_coin rel_coin = \<lparr>
     mob_max_base_vol = 0, mob_min_base_vol = None, mob_price = 0,
     mob_base_coin = base_coin, mob_rel_coin = rel_coin,
     mob_base_orderbook_ticker = None, mob_rel_orderbook_ticker = None,
     mob_conf_settings = None, mob_save_in_history = True,
     mob_swap_version = SWAP_VERSION_DEFAULT, mob_swap_method = default_swap_method,
     mob_timeout_in_minutes = None\<rparr>"

definition mob_with_max_base_vol :: "mm_number \<Rightarrow> maker_order_builder \<Rightarrow> maker_order_builder" where
  "mob_with_max_base_vol vol b = b\<lparr>mob_max_base_vol := vol\<rparr>"

definition mob_with_min_base_vol :: "mm_number option \<Rightarrow> maker_order_builder \<Rightarrow> maker_order_builder" where
  "mob_with_min_base_vol vol b = b\<lparr>mob_min_base_vol := vol\<rparr>"

definition mob_with_price :: "mm_number \<Rightarrow> maker_order_builder \<Rightarrow> maker_order_builder" where
  "mob_with_price price b = b\<lparr>mob_price := price\<rparr>"

definition mob_with_conf_settings ::
    "order_confirmations_settings \<Rightarrow> maker_order_builder \<Rightarrow> maker_order_builder" where
  "mob_with_conf_settings c b = b\<lparr>mob_conf_settings := Some c\<rparr>"

definition mob_with_save_in_history :: "bool \<Rightarrow> maker_order_builder \<Rightarrow> maker_order_builder" where
  "mob_with_save_in_history h b = b\<lparr>mob_save_in_history := h\<rparr>"

definition mob_with_base_orderbook_ticker :: "string option \<Rightarrow> maker_order_builder \<Rightarrow> maker_order_builder" where
  "mob_with_base_orderbook_ticker t b = b\<lparr>mob_base_orderbook_ticker := t\<rparr>"

definition mob_with_rel_orderbook_ticker :: "string option \<Rightarrow> maker_order_builder \<Rightarrow> maker_order_builder" where
  "mob_with_rel_orderbook_ticker t b = b\<lparr>mob_rel_orderbook_ticker := t\<rparr>"

definition mob_with_swap_method :: "string \<Rightarrow> maker_order_builder \<Rightarrow> maker_order_builder" where
  "mob_with_swap_method m b = b\<lparr>mob_swap_method := m\<rparr>"

definition mob_set_timeout :: "u16 \<Rightarrow> maker_order_builder \<Rightarrow> maker_order_builder" where
  "mob_set_timeout t b = b\<lparr>mob_timeout_in_minutes := Some t\<rparr>"

definition mob_set_legacy_swap_v :: "maker_order_builder \<Rightarrow> maker_order_builder" where
  "mob_set_legacy_swap_v b = b\<lparr>mob_swap_version := legacy_swap_version\<rparr>"

definition maker_order_build ::
    "build_env \<Rightarrow> maker_order_builder \<Rightarrow> (maker_order_build_error, maker_order) rust_result" where
  "maker_order_build env b =
    (if coin_ticker (mob_base_coin b) = coin_ticker (mob_rel_coin b) then Err MakerBaseEqualRel
     else if mob_conf_settings b = None then Err ConfSettingsNotSet
     else let min_base_amount = min_trading_vol (mob_base_coin b);
              min_rel_amount = min_trading_vol (mob_rel_coin b) in
       rbind (validate_price (mob_price b)) (\<lambda>_.
       rbind (validate_and_get_min_vol min_base_amount min_rel_amount (mob_min_base_vol b) (mob_price b))
         (\<lambda>actual_min_base_vol.
       rbind (validate_max_vol min_base_amount min_rel_amount (mob_max_base_vol b) (mob_min_base_vol b)
                (mob_price b)) (\<lambda>_.
       let created_at = be_now_ms env;
           p2p_privkey = (if is_privacy (mob_base_coin b) then Some (be_random_keypair env) else None)
       in Ok \<lparr>
         mo_max_base_vol = mob_max_base_vol b,
         mo_min_base_vol = actual_min_base_vol,
         mo_price = mob_price b,
         mo_created_at = created_at,
         mo_updated_at = Some created_at,
         mo_base = coin_ticker (mob_base_coin b),
         mo_rel = coin_ticker (mob_rel_coin b),
         mo_matches = [],
         mo_started_swaps = [],
         mo_uuid = be_new_uuid env,
         mo_conf_settings = mob_conf_settings b,
         mo_changes_history = None,
         mo_save_in_history = mob_save_in_history b,
         mo_base_orderbook_ticker = mob_base_orderbook_ticker b,
         mo_rel_orderbook_ticker = mob_rel_orderbook_ticker b,
         mo_p2p_privkey = p2p_privkey,
         mo_swap_version = swap_version_from (mob_swap_version b),
         mo_swap_method = mob_swap_method b,
         mo_timeout_in_minutes = mob_timeout_in_minutes b\<rparr>))))"

section \<open>Taker orders\<close>

record taker_order_builder =
  tob_base_coin :: mm_coin
  tob_rel_coin :: mm_coin
  tob_base_orderbook_ticker :: "string option"
  tob_rel_orderbook_ticker :: "string option"
  tob_base_amount :: mm_number
  tob_rel_amount :: mm_number
  tob_sender_pubkey :: h256
  tob_action :: taker_action
  tob_match_by :: match_by
  tob_order_type :: order_type
  tob_conf_settings :: "order_confirmations_settings option"
  tob_min_volume :: "mm_number option"
  tob_timeout :: u64
  tob_save_in_history :: bool
  tob_swap_version :: u8
  tob_swap_method :: string

datatype taker_order_build_error =
    TakerBaseEqualRel
  | BaseAmountTooLow mm_number mm_number
  | RelAmountTooLow mm_number mm_number
  | MinVolumeTooLow mm_number mm_number
  | TakerMaxBaseVolBelowMinBaseVol mm_number mm_number
  | SenderPubkeyIsZero
  | ConfsSettingsNotSet

definition tob_new :: "mm_coin \<Rightarrow> mm_coin \<Rightarrow> taker_order_builder" where
  "tob_new base_coin rel_coin = \<lparr>
     tob_base_coin = base_coin, tob_rel_coin = rel_coin,
     tob_base_orderbook_ticker = None, tob_rel_orderbook_ticker = None,
     tob_base_amount = 0, tob_rel_amount = 0, tob_sender_pubkey = 0,
     tob_action = Buy, tob_match_by = MatchAny, tob_order_type = GoodTillCancelled,
     tob_conf_settings = None, tob_min_volume = None, tob_timeout = TAKER_ORDER_TIMEOUT,
     tob_save_in_history = True, tob_swap_version = SWAP_VERSION_DEFAULT,
     tob_swap_method = default_swap_method\<rparr>"

definition tob_with_base_amount :: "mm_number \<Rightarrow> taker_order_builder \<Rightarrow> taker_order_builder" where
  "tob_with_base_amount vol b = b\<lparr>tob_base_amount := vol\<rparr>"

definition tob_with_rel_amount :: "mm_number \<Rightarrow> taker_order_builder \<Rightarrow> taker_order_builder" where
  "tob_with_rel_amount vol b = b\<lparr>tob_rel_amount := vol\<rparr>"

definition tob_with_min_volume :: "mm_number option \<Rightarrow> taker_order_builder \<Rightarrow> taker_order_builder" where
  "tob_with_min_volume vol b = b\<lparr>tob_min_volume := vol\<rparr>"

definition tob_with_action :: "taker_action \<Rightarrow> taker_order_builder \<Rightarrow> taker_order_builder" where
  "tob_with_action a b = b\<lparr>tob_action := a\<rparr>"

definition tob_with_match_by :: "match_by \<Rightarrow> taker_order_builder \<Rightarrow> taker_order_builder" where
  "tob_with_match_by m b = b\<lparr>tob_match_by := m\<rparr>"

definition tob_with_order_type :: "order_type \<Rightarrow> taker_order_builder \<Rightarrow> taker_order_builder" where
  "tob_with_order_type t b = b\<lparr>tob_order_type := t\<rparr>"

definition tob_with_conf_settings ::
    "order_confirmations_settings \<Rightarrow> taker_order_builder \<Rightarrow> taker_order_builder" where
  "tob_with_conf_settings c b = b\<lparr>tob_conf_settings := Some c\<rparr>"

definition tob_with_sender_pubkey :: "h256 \<Rightarrow> taker_order_builder \<Rightarrow> taker_order_builder" where
  "tob_with_sender_pubkey k b = b\<lparr>tob_sender_pubkey := k\<rparr>"

definition tob_with_timeout :: "u64 \<Rightarrow> taker_order_builder \<Rightarrow> taker_order_builder" where
  "tob_with_timeout t b = b\<lparr>tob_timeout := t\<rparr>"

definition tob_with_save_in_history :: "bool \<Rightarrow> taker_order_builder \<Rightarrow> taker_order_builder" where
  "tob_with_save_in_history h b = b\<lparr>tob_save_in_history := h\<rparr>"

definition tob_with_base_orderbook_ticker :: "string option \<Rightarrow> taker_order_builder \<Rightarrow> taker_order_builder" where
  "tob_with_base_orderbook_ticker t b = b\<lparr>tob_base_orderbook_ticker := t\<rparr>"

definition tob_with_rel_orderbook_ticker :: "string option \<Rightarrow> taker_order_builder \<Rightarrow> taker_order_builder" where
  "tob_with_rel_orderbook_ticker t b = b\<lparr>tob_rel_orderbook_ticker := t\<rparr>"

definition tob_with_swap_method :: "string \<Rightarrow> taker_order_builder \<Rightarrow> taker_order_builder" where
  "tob_with_swap_method m b = b\<lparr>tob_swap_method := m\<rparr>"

definition tob_set_legacy_swap_v :: "taker_order_builder \<Rightarrow> taker_order_builder" where
  "tob_set_legacy_swap_v b = b\<lparr>tob_swap_version := legacy_swap_version\<rparr>"

definition taker_order_build ::
    "build_env \<Rightarrow> taker_order_builder \<Rightarrow> (taker_order_build_error, taker_order) rust_result" where
  "taker_order_build env b =
    (let min_base_amount = min_trading_vol (tob_base_coin b);
         min_rel_amount = min_trading_vol (tob_rel_coin b) in
     if coin_ticker (tob_base_coin b) = coin_ticker (tob_rel_coin b) then Err TakerBaseEqualRel
     else if tob_base_amount b < min_base_amount then Err (BaseAmountTooLow (tob_base_amount b) min_base_amount)
     else if tob_rel_amount b < min_rel_amount then Err (RelAmountTooLow (tob_rel_amount b) min_rel_amount)
     else if tob_sender_pubkey b = 0 then Err SenderPubkeyIsZero
     else if tob_conf_settings b = None then Err ConfsSettingsNotSet
     else
       rbind (mm_div (tob_rel_amount b) (tob_base_amount b)) (\<lambda>price.
       rbind (mm_div min_rel_amount price) (\<lambda>base_min_by_rel.
       let base_min_vol_threshold = max min_base_amount base_min_by_rel;
           min_volume = (case tob_min_volume b of Some v \<Rightarrow> v | None \<Rightarrow> base_min_vol_threshold) in
       if min_volume < base_min_vol_threshold then Err (MinVolumeTooLow min_volume base_min_vol_threshold)
       else if tob_base_amount b < min_volume
         then Err (TakerMaxBaseVolBelowMinBaseVol (tob_base_amount b) min_volume)
       else
         let my_coin = (case tob_action b of Buy \<Rightarrow> tob_rel_coin b | Sell \<Rightarrow> tob_base_coin b);
             p2p_privkey = (if is_privacy my_coin then Some (be_random_keypair env) else None);
             base_protocol_info = (case tob_action b of
                 Buy \<Rightarrow> coin_protocol_info (tob_base_coin b) (Some (tob_base_amount b))
               | Sell \<Rightarrow> coin_protocol_info (tob_base_coin b) None);
             rel_protocol_info = (case tob_action b of
                 Buy \<Rightarrow> coin_protocol_info (tob_rel_coin b) None
               | Sell \<Rightarrow> coin_protocol_info (tob_rel_coin b) (Some (tob_rel_amount b)))
         in Ok \<lparr>
           to_created_at = be_now_ms env,
           to_request = \<lparr>
             tr_base = coin_ticker (tob_base_coin b),
             tr_rel = coin_ticker (tob_rel_coin b),
             tr_base_amount = tob_base_amount b,
             tr_rel_amount = tob_rel_amount b,
             tr_action = tob_action b,
             tr_uuid = be_new_uuid env,
             tr_sender_pubkey = tob_sender_pubkey b,
             tr_dest_pub_key = 0,
             tr_match_by = tob_match_by b,
             tr_conf_settings = tob_conf_settings b,
             tr_base_protocol_info = Some base_protocol_info,
             tr_rel_protocol_info = Some rel_protocol_info,
             tr_swap_version = swap_version_from (tob_swap_version b),
             tr_swap_method = tob_swap_method b\<rparr>,
           to_matches = [],
           to_min_volume = min_volume,
           to_order_type = tob_order_type b,
           to_timeout = tob_timeout b,
           to_save_in_history = tob_save_in_history b,
           to_base_orderbook_ticker = tob_base_orderbook_ticker b,
           to_rel_orderbook_ticker = tob_rel_orderbook_ticker b,
           to_p2p_privkey = p2p_privkey\<rparr>)))"

section \<open>A taker order that becomes a maker order\<close>

definition maker_order_from_taker ::
    "u64 \<Rightarrow> taker_order \<Rightarrow> (unit, maker_order) rust_result" where
  "maker_order_from_taker created_at t = (let r = to_request t in
     case tr_action r of
       Sell \<Rightarrow>
         rbind (mm_div (tr_rel_amount r) (tr_base_amount r)) (\<lambda>price.
         Ok \<lparr>
           mo_max_base_vol = tr_base_amount r,
           mo_min_base_vol = to_min_volume t,
           mo_price = price,
           mo_created_at = created_at,
           mo_updated_at = Some created_at,
           mo_base = tr_base r,
           mo_rel = tr_rel r,
           mo_matches = [],
           mo_started_swaps = [],
           mo_uuid = tr_uuid r,
           mo_conf_settings = tr_conf_settings r,
           mo_changes_history = None,
           mo_save_in_history = to_save_in_history t,
           mo_base_orderbook_ticker = to_base_orderbook_ticker t,
           mo_rel_orderbook_ticker = to_rel_orderbook_ticker t,
           mo_p2p_privkey = to_p2p_privkey t,
           mo_swap_version = tr_swap_version r,
           mo_swap_method = tr_swap_method r,
           mo_timeout_in_minutes = None\<rparr>)
     | Buy \<Rightarrow>
         rbind (mm_div (tr_base_amount r) (tr_rel_amount r)) (\<lambda>price.
         rbind (mm_div (to_min_volume t) price) (\<lambda>min_base_vol.
         Ok \<lparr>
           mo_max_base_vol = tr_rel_amount r,
           mo_min_base_vol = min_base_vol,
           mo_price = price,
           mo_created_at = created_at,
           mo_updated_at = Some created_at,
           mo_base = tr_rel r,
           mo_rel = tr_base r,
           mo_matches = [],
           mo_started_swaps = [],
           mo_uuid = tr_uuid r,
           mo_conf_settings = map_option conf_reversed (tr_conf_settings r),
           mo_changes_history = None,
           mo_save_in_history = to_save_in_history t,
           mo_base_orderbook_ticker = to_rel_orderbook_ticker t,
           mo_rel_orderbook_ticker = to_base_orderbook_ticker t,
           mo_p2p_privkey = to_p2p_privkey t,
           mo_swap_version = tr_swap_version r,
           mo_swap_method = tr_swap_method r,
           mo_timeout_in_minutes = None\<rparr>)))"

section \<open>Well-formed orders\<close>

text \<open>
  What the rest of the service relies on. A maker order has a positive price (its price is a
  divisor when a sell request is matched), a minimum volume that is not negative, and its matches
  are keyed by distinct uuids and reserve amounts that are not negative.
\<close>

definition maker_match_amount :: "maker_match \<Rightarrow> mm_number" where
  "maker_match_amount m = mr_base_amount (mm_reserved m)"

definition wf_maker_order :: "maker_order \<Rightarrow> bool" where
  "wf_maker_order m \<longleftrightarrow> 0 < mo_price m \<and> 0 \<le> mo_min_base_vol m \<and> hm_wf (mo_matches m)
     \<and> (\<forall>x \<in> snd ` set (mo_matches m). 0 \<le> maker_match_amount x)"

definition wf_taker_order :: "taker_order \<Rightarrow> bool" where
  "wf_taker_order t \<longleftrightarrow> 0 < tr_base_amount (to_request t) \<and> 0 < tr_rel_amount (to_request t)
     \<and> 0 \<le> to_min_volume t \<and> to_min_volume t \<le> tr_base_amount (to_request t)
     \<and> tr_base (to_request t) \<noteq> tr_rel (to_request t) \<and> tr_conf_settings (to_request t) \<noteq> None"

text \<open>The terms a maker order must have, without the order of the checks: the lower bound is the
  requested one or the least that trades both coins' minimum, and it fits the maximum.\<close>

definition maker_lower_bound :: "maker_order_builder \<Rightarrow> mm_number" where
  "maker_lower_bound b = (case mob_min_base_vol b of Some v \<Rightarrow> v
     | None \<Rightarrow> max (min_trading_vol (mob_base_coin b)) (min_trading_vol (mob_rel_coin b) / mob_price b))"

definition maker_terms_ok :: "maker_order_builder \<Rightarrow> bool" where
  "maker_terms_ok b \<longleftrightarrow> coin_ticker (mob_base_coin b) \<noteq> coin_ticker (mob_rel_coin b)
     \<and> mob_conf_settings b \<noteq> None \<and> 0 < mob_price b
     \<and> min_trading_vol (mob_base_coin b) \<le> maker_lower_bound b
     \<and> min_trading_vol (mob_rel_coin b) \<le> maker_lower_bound b * mob_price b
     \<and> maker_lower_bound b \<le> mob_max_base_vol b"

definition taker_lower_bound :: "taker_order_builder \<Rightarrow> mm_number" where
  "taker_lower_bound b = (case tob_min_volume b of Some v \<Rightarrow> v
     | None \<Rightarrow> max (min_trading_vol (tob_base_coin b))
         (min_trading_vol (tob_rel_coin b) * tob_base_amount b / tob_rel_amount b))"

definition taker_terms_ok :: "taker_order_builder \<Rightarrow> bool" where
  "taker_terms_ok b \<longleftrightarrow> coin_ticker (tob_base_coin b) \<noteq> coin_ticker (tob_rel_coin b)
     \<and> tob_sender_pubkey b \<noteq> 0 \<and> tob_conf_settings b \<noteq> None
     \<and> min_trading_vol (tob_rel_coin b) \<le> tob_rel_amount b
     \<and> min_trading_vol (tob_base_coin b) \<le> taker_lower_bound b
     \<and> min_trading_vol (tob_rel_coin b) * tob_base_amount b \<le> taker_lower_bound b * tob_rel_amount b
     \<and> taker_lower_bound b \<le> tob_base_amount b"

section \<open>What the builders accept\<close>

lemma validate_price_Ok_iff [simp]: "validate_price p = Ok u \<longleftrightarrow> 0 < p"
  by (auto simp: validate_price_def)

lemma validate_price_neq_Panic [simp]: "validate_price p \<noteq> Panic"
  by (simp add: validate_price_def)

lemma validate_min_vol_Ok_iff:
  "0 < p \<Longrightarrow> validate_and_get_min_vol bmin rmin mv p = Ok lo
     \<longleftrightarrow> lo = (case mv of Some v \<Rightarrow> v | None \<Rightarrow> max bmin (rmin / p)) \<and> bmin \<le> lo \<and> rmin \<le> lo * p"
  by (auto simp: validate_and_get_min_vol_def Let_def not_less split: option.splits
        simp flip: pos_divide_le_eq)

lemma validate_min_vol_neq_Panic: "0 < p \<Longrightarrow> validate_and_get_min_vol bmin rmin mv p \<noteq> Panic"
  by (auto simp: validate_and_get_min_vol_def Let_def)

lemma validate_max_vol_Ok_iff:
  "validate_max_vol bmin rmin mx mv p = Ok u
     \<longleftrightarrow> (\<forall>m. mv = Some m \<longrightarrow> m \<le> mx) \<and> bmin \<le> mx \<and> rmin \<le> mx * p"
  by (auto simp: validate_max_vol_def Let_def split: option.splits if_splits)

lemma validate_max_vol_neq_Panic [simp]: "validate_max_vol bmin rmin mx mv p \<noteq> Panic"
  by (auto simp: validate_max_vol_def Let_def split: option.splits)

lemmas validate_simps = validate_min_vol_Ok_iff validate_max_vol_Ok_iff validate_min_vol_neq_Panic

text \<open>The volume checks of \<open>build\<close>, taken together, are the terms.\<close>

lemma volume_checks_iff:
  assumes "0 < p"
  shows "(\<exists>lo. validate_and_get_min_vol bmin rmin mv p = Ok lo \<and> validate_max_vol bmin rmin mx mv p = Ok ())
     \<longleftrightarrow> (let lo = (case mv of Some v \<Rightarrow> v | None \<Rightarrow> max bmin (rmin / p))
          in bmin \<le> lo \<and> rmin \<le> lo * p \<and> lo \<le> mx)"
proof -
  have "lo \<le> mx \<Longrightarrow> rmin \<le> lo * p \<Longrightarrow> rmin \<le> mx * p" for lo
    using assms by (meson mult_right_mono less_imp_le order_trans)
  then show ?thesis
    using assms by (cases mv) (auto simp: validate_simps Let_def pos_divide_le_eq)
qed

lemma maker_order_build_Ok_iff:
  "maker_order_build env b = Ok m \<longleftrightarrow> maker_terms_ok b \<and> m = \<lparr>
     mo_max_base_vol = mob_max_base_vol b, mo_min_base_vol = maker_lower_bound b,
     mo_price = mob_price b, mo_created_at = be_now_ms env, mo_updated_at = Some (be_now_ms env),
     mo_base = coin_ticker (mob_base_coin b), mo_rel = coin_ticker (mob_rel_coin b),
     mo_matches = [], mo_started_swaps = [], mo_uuid = be_new_uuid env,
     mo_conf_settings = mob_conf_settings b, mo_changes_history = None,
     mo_save_in_history = mob_save_in_history b,
     mo_base_orderbook_ticker = mob_base_orderbook_ticker b,
     mo_rel_orderbook_ticker = mob_rel_orderbook_ticker b,
     mo_p2p_privkey = (if is_privacy (mob_base_coin b) then Some (be_random_keypair env) else None),
     mo_swap_version = swap_version_from (mob_swap_version b),
     mo_swap_method = mob_swap_method b, mo_timeout_in_minutes = mob_timeout_in_minutes b\<rparr>"
    (is "_ \<longleftrightarrow> _ \<and> m = ?m")
proof (cases "0 < mob_price b")
  case False
  then show ?thesis
    by (auto simp: maker_order_build_def maker_terms_ok_def Let_def)
next
  case True
  have "maker_order_build env b = Ok m \<longleftrightarrow>
      coin_ticker (mob_base_coin b) \<noteq> coin_ticker (mob_rel_coin b) \<and> mob_conf_settings b \<noteq> None
      \<and> (\<exists>lo. validate_and_get_min_vol (min_trading_vol (mob_base_coin b))
            (min_trading_vol (mob_rel_coin b)) (mob_min_base_vol b) (mob_price b) = Ok lo
          \<and> validate_max_vol (min_trading_vol (mob_base_coin b)) (min_trading_vol (mob_rel_coin b))
            (mob_max_base_vol b) (mob_min_base_vol b) (mob_price b) = Ok ())
      \<and> m = ?m"
    using True by (auto simp: maker_order_build_def Let_def validate_simps maker_lower_bound_def)
  also have "\<dots> \<longleftrightarrow> maker_terms_ok b \<and> m = ?m"
    using True by (simp only: volume_checks_iff[OF True]) (auto simp: maker_terms_ok_def Let_def maker_lower_bound_def)
  finally show ?thesis .
qed

lemma maker_order_build_neq_Panic: "maker_order_build env b \<noteq> Panic"
proof (cases "0 < mob_price b")
  case False
  then show ?thesis by (auto simp: maker_order_build_def Let_def)
next
  case True
  then show ?thesis by (auto simp: maker_order_build_def Let_def validate_simps)
qed

lemma taker_order_build_Ok_iff:
  assumes "0 < min_trading_vol (tob_base_coin b)" "0 < min_trading_vol (tob_rel_coin b)"
  shows "(\<exists>t. taker_order_build env b = Ok t) \<longleftrightarrow> taker_terms_ok b"
proof (cases "min_trading_vol (tob_base_coin b) \<le> tob_base_amount b
              \<and> min_trading_vol (tob_rel_coin b) \<le> tob_rel_amount b")
  case False
  then show ?thesis
    by (auto simp: taker_order_build_def taker_terms_ok_def Let_def)
next
  case True
  then have pos: "0 < tob_base_amount b" "0 < tob_rel_amount b"
    using assms by auto
  then have thr: "min_trading_vol (tob_rel_coin b) / (tob_rel_amount b / tob_base_amount b)
      = min_trading_vol (tob_rel_coin b) * tob_base_amount b / tob_rel_amount b"
    by simp
  show ?thesis
    using True pos assms
    by (auto simp: taker_order_build_def taker_terms_ok_def taker_lower_bound_def Let_def thr not_less
        pos_divide_le_eq pos_less_divide_eq less_max_iff_disj simp del: divide_divide_eq_right split: option.splits)
qed

lemma taker_order_build_neq_Panic:
  assumes "0 < min_trading_vol (tob_base_coin b)" "0 < min_trading_vol (tob_rel_coin b)"
  shows "taker_order_build env b \<noteq> Panic"
  using assms by (auto simp: taker_order_build_def Let_def)

lemma taker_order_build_wf:
  assumes "taker_order_build env b = Ok t"
    and "0 < min_trading_vol (tob_base_coin b)" "0 < min_trading_vol (tob_rel_coin b)"
  shows "wf_taker_order t \<and> to_matches t = []"
  using assms
  by (auto simp: taker_order_build_def wf_taker_order_def Let_def not_less
      split: option.splits if_splits)

section \<open>Properties\<close>

text \<open>C1: building a maker order never panics (the price is checked before it is used as a divisor),
  and it succeeds exactly on the terms: two different coins, confirmation settings, a positive
  price, and a lower bound that trades at least the minimum of both coins and fits the maximum
  volume, whether or not the user gave the lower bound.\<close>

theorem maker_build_accepts_exactly_the_terms:
  "maker_order_build env b \<noteq> Panic \<and> ((\<exists>m. maker_order_build env b = Ok m) \<longleftrightarrow> maker_terms_ok b)"
  using maker_order_build_neq_Panic[of env b] by (auto simp: maker_order_build_Ok_iff)

text \<open>an order the maker builder returns is well formed, is wholly available, and is never below
  the minimum of either coin: its least trade has at least the base coin's minimum and, at the
  order's price, at least the rel coin's minimum.\<close>

theorem maker_build_result_tradable:
  assumes "maker_order_build env b = Ok m"
    and "0 \<le> min_trading_vol (mob_base_coin b)"
  shows "wf_maker_order m \<and> mo_matches m = [] \<and> mo_min_base_vol m \<le> mo_max_base_vol m
    \<and> min_trading_vol (mob_base_coin b) \<le> mo_min_base_vol m
    \<and> min_trading_vol (mob_rel_coin b) \<le> mo_min_base_vol m * mo_price m"
  using assms by (auto simp: maker_order_build_Ok_iff maker_terms_ok_def wf_maker_order_def)

definition demo_coin :: "string \<Rightarrow> mm_coin" where
  "demo_coin t = \<lparr>coin_ticker = t, coin_variant = UtxoCoinVariant, min_trading_vol = 1 / 1000,
     required_confirmations = 1, requires_notarization = False, is_privacy = False,
     coin_protocol_info = (\<lambda>_. []), is_coin_protocol_supported = (\<lambda>_ _ _ _. True),
     maker_locktime_multiplier = 2, secret_hash_algo_v2 = SHA256\<rparr>"

definition demo_conf :: order_confirmations_settings where
  "demo_conf = \<lparr>base_confs = 1, base_nota = False, rel_confs = 1, rel_nota = False\<rparr>"

definition demo_env :: build_env where
  "demo_env = \<lparr>be_now_ms = 1000, be_new_uuid = 7, be_random_keypair = \<lparr>kp_public_hex = ''02'', kp_private = [1]\<rparr>\<rparr>"

definition demo_maker_builder :: maker_order_builder where
  "demo_maker_builder = mob_with_conf_settings demo_conf (mob_with_price 2
     (mob_with_max_base_vol 10 (mob_new (demo_coin ''KMD'') (demo_coin ''XFG''))))"

definition demo_taker_builder :: taker_order_builder where
  "demo_taker_builder = tob_with_sender_pubkey 5 (tob_with_conf_settings demo_conf
     (tob_with_rel_amount 20 (tob_with_base_amount 10 (tob_new (demo_coin ''KMD'') (demo_coin ''XFG'')))))"

lemmas demo_defs = demo_coin_def demo_conf_def demo_env_def demo_maker_builder_def
  demo_taker_builder_def

lemmas mob_defs = mob_new_def mob_with_max_base_vol_def mob_with_min_base_vol_def mob_with_price_def
  mob_with_conf_settings_def mob_with_save_in_history_def mob_with_base_orderbook_ticker_def
  mob_with_rel_orderbook_ticker_def mob_with_swap_method_def mob_set_timeout_def
  mob_set_legacy_swap_v_def

lemmas tob_defs = tob_new_def tob_with_base_amount_def tob_with_rel_amount_def
  tob_with_min_volume_def tob_with_action_def tob_with_match_by_def tob_with_order_type_def
  tob_with_conf_settings_def tob_with_sender_pubkey_def tob_with_timeout_def
  tob_with_save_in_history_def tob_with_base_orderbook_ticker_def
  tob_with_rel_orderbook_ticker_def tob_with_swap_method_def tob_set_legacy_swap_v_def

lemma demo_maker_terms: "maker_terms_ok demo_maker_builder"
  by (simp add: maker_terms_ok_def maker_lower_bound_def demo_defs mob_defs)

lemma demo_maker_build: "\<exists>m. maker_order_build demo_env demo_maker_builder = Ok m"
  using demo_maker_terms by (simp add: maker_order_build_Ok_iff)

theorem maker_build_result_tradable_witness:
  "\<exists>m. maker_order_build demo_env demo_maker_builder = Ok m \<and> wf_maker_order m
    \<and> mo_min_base_vol m \<le> mo_max_base_vol m"
proof -
  obtain m where m: "maker_order_build demo_env demo_maker_builder = Ok m"
    using demo_maker_build by blast
  have "0 \<le> min_trading_vol (mob_base_coin demo_maker_builder)"
    by (simp add: demo_defs mob_defs)
  with maker_build_result_tradable[OF m] m show ?thesis by blast
qed

text \<open>for two coins with a positive minimum trading volume, building a taker order never panics
  (both divisions have a positive divisor by then), succeeds exactly on its terms, and its result
  is well formed: positive amounts, and a minimum volume within the amount.\<close>

theorem taker_build_accepts_exactly_the_terms:
  assumes "0 < min_trading_vol (tob_base_coin b)" "0 < min_trading_vol (tob_rel_coin b)"
  shows "taker_order_build env b \<noteq> Panic
    \<and> ((\<exists>t. taker_order_build env b = Ok t) \<longleftrightarrow> taker_terms_ok b)
    \<and> (\<forall>t. taker_order_build env b = Ok t \<longrightarrow> wf_taker_order t)"
  using taker_order_build_neq_Panic[OF assms] taker_order_build_Ok_iff[OF assms]
    taker_order_build_wf[OF _ assms] by blast

theorem taker_build_accepts_exactly_the_terms_witness:
  "\<exists>t. taker_order_build demo_env demo_taker_builder = Ok t \<and> wf_taker_order t"
proof -
  have pos: "0 < min_trading_vol (tob_base_coin demo_taker_builder)"
    "0 < min_trading_vol (tob_rel_coin demo_taker_builder)"
    by (simp_all add: demo_defs tob_defs)
  have "taker_terms_ok demo_taker_builder"
    by (simp add: taker_terms_ok_def taker_lower_bound_def demo_defs tob_defs)
  with taker_build_accepts_exactly_the_terms[OF pos, of demo_env] show ?thesis by blast
qed

text \<open>turning a well-formed taker order into a maker order keeps what its owner offered. The
  conversion does not panic; the maker order sells what the taker would have paid, up to the same
  amount, for the same total; its smallest trade is the taker's minimum volume (counted in the coin
  it sells); settings and tickers follow the coins; and the result is well formed.\<close>

theorem maker_order_from_taker_keeps_the_offer:
  assumes "wf_taker_order t"
  shows "\<exists>m. maker_order_from_taker now t = Ok m \<and> wf_maker_order m
    \<and> mo_min_base_vol m \<le> mo_max_base_vol m \<and> mo_uuid m = tr_uuid (to_request t)
    \<and> (case tr_action (to_request t) of
         Sell \<Rightarrow> mo_base m = tr_base (to_request t) \<and> mo_rel m = tr_rel (to_request t)
           \<and> mo_max_base_vol m = tr_base_amount (to_request t)
           \<and> mo_max_base_vol m * mo_price m = tr_rel_amount (to_request t)
           \<and> mo_min_base_vol m = to_min_volume t
           \<and> mo_conf_settings m = tr_conf_settings (to_request t)
           \<and> mo_base_orderbook_ticker m = to_base_orderbook_ticker t
       | Buy \<Rightarrow> mo_base m = tr_rel (to_request t) \<and> mo_rel m = tr_base (to_request t)
           \<and> mo_max_base_vol m = tr_rel_amount (to_request t)
           \<and> mo_max_base_vol m * mo_price m = tr_base_amount (to_request t)
           \<and> mo_min_base_vol m * mo_price m = to_min_volume t
           \<and> mo_conf_settings m = map_option conf_reversed (tr_conf_settings (to_request t))
           \<and> mo_base_orderbook_ticker m = to_rel_orderbook_ticker t)"
proof -
  have "0 < tr_base_amount (to_request t)" "0 < tr_rel_amount (to_request t)" "0 \<le> to_min_volume t"
    "to_min_volume t \<le> tr_base_amount (to_request t)"
    using assms by (auto simp: wf_taker_order_def)
  then show ?thesis
    by (cases "tr_action (to_request t)")
      (auto simp: maker_order_from_taker_def Let_def wf_maker_order_def pos_divide_le_eq
        mult.commute[of _ "tr_rel_amount (to_request t)"] intro: mult_left_mono)
qed

theorem maker_order_from_taker_keeps_the_offer_witness:
  "\<exists>t m. taker_order_build demo_env demo_taker_builder = Ok t
     \<and> maker_order_from_taker 5 t = Ok m \<and> wf_maker_order m"
proof -
  have pos: "0 < min_trading_vol (tob_base_coin demo_taker_builder)"
    "0 < min_trading_vol (tob_rel_coin demo_taker_builder)"
    by (simp_all add: demo_defs tob_defs)
  have "taker_terms_ok demo_taker_builder"
    by (simp add: taker_terms_ok_def taker_lower_bound_def demo_defs tob_defs)
  then obtain t where t: "taker_order_build demo_env demo_taker_builder = Ok t"
    using taker_order_build_Ok_iff[OF pos] by blast
  then have "wf_taker_order t" using taker_order_build_wf[OF t pos] by blast
  with maker_order_from_taker_keeps_the_offer[of t 5] t show ?thesis by blast
qed

end
