(* ===== verification/Order_Matching.thy ===== *)
theory Order_Matching
  imports Order_Builders "HOL-Library.Sublist"
begin

text \<open>
  The decisions of order matching (\<open>mm2_main/src/lp_ordermatch.rs\<close>): when a maker order accepts a
  taker's request and for which amounts (\<open>MakerOrder::match_with_request\<close>), when a taker order
  accepts a maker's reservation (\<open>TakerOrder::match_reserved\<close>), what a maker order still has
  available, which updates change it, and the topics orders are published under.
\<close>

section \<open>Who may match whom\<close>

definition tr_can_match_with_maker_pubkey :: "taker_request \<Rightarrow> h256 \<Rightarrow> bool" where
  "tr_can_match_with_maker_pubkey r k = (case tr_match_by r of
     MatchPubkeys pubkeys \<Rightarrow> k \<in> set pubkeys | _ \<Rightarrow> True)"

definition tr_can_match_with_uuid :: "taker_request \<Rightarrow> uuid \<Rightarrow> bool" where
  "tr_can_match_with_uuid r u = (case tr_match_by r of
     MatchOrders uuids \<Rightarrow> u \<in> set uuids | _ \<Rightarrow> True)"

definition tr_base_protocol_info_for_maker :: "taker_request \<Rightarrow> bytes option" where
  "tr_base_protocol_info_for_maker r = (case tr_action r of
     Buy \<Rightarrow> tr_base_protocol_info r | Sell \<Rightarrow> tr_rel_protocol_info r)"

definition tr_rel_protocol_info_for_maker :: "taker_request \<Rightarrow> bytes option" where
  "tr_rel_protocol_info_for_maker r = (case tr_action r of
     Buy \<Rightarrow> tr_rel_protocol_info r | Sell \<Rightarrow> tr_base_protocol_info r)"

text \<open>\<open>MakerReserved::price\<close>: the amounts come from a peer's message and are not checked before.\<close>

definition mr_price :: "maker_reserved \<Rightarrow> (unit, mm_number) rust_result" where
  "mr_price r = mm_div (mr_rel_amount r) (mr_base_amount r)"

section \<open>Topics\<close>

definition TOPIC_SEPARATOR :: char where
  "TOPIC_SEPARATOR = CHR ''/''"

definition ORDERBOOK_PREFIX :: string where
  "ORDERBOOK_PREFIX = ''orbk''"

definition pub_sub_topic :: "string \<Rightarrow> string \<Rightarrow> string" where
  "pub_sub_topic pref topic = pref @ [TOPIC_SEPARATOR] @ topic"

definition alb_ordered_pair :: "string \<Rightarrow> string \<Rightarrow> string" where
  "alb_ordered_pair base rel =
     (let (first, second) = (if base < rel then (base, rel) else (rel, base))
      in first @ '':'' @ second)"

definition orderbook_topic_from_base_rel :: "string \<Rightarrow> string \<Rightarrow> string" where
  "orderbook_topic_from_base_rel base rel = pub_sub_topic ORDERBOOK_PREFIX (alb_ordered_pair base rel)"

definition orderbook_topic_from_ordered_pair :: "string \<Rightarrow> string" where
  "orderbook_topic_from_ordered_pair pair = pub_sub_topic ORDERBOOK_PREFIX pair"

text \<open>\<open>str::split\<close> on a character, and \<open>str::split_once\<close> / \<open>find\<close> at its first occurrence.\<close>

fun str_split :: "char \<Rightarrow> string \<Rightarrow> string list" where
  "str_split c [] = [[]]"
| "str_split c (x # xs) = (if x = c then [] # str_split c xs
     else (case str_split c xs of [] \<Rightarrow> [[x]] | y # ys \<Rightarrow> (x # y) # ys))"

fun str_split_once :: "char \<Rightarrow> string \<Rightarrow> (string \<times> string) option" where
  "str_split_once c [] = None"
| "str_split_once c (x # xs) = (if x = c then Some ([], xs)
     else map_option (\<lambda>(a, b). (x # a, b)) (str_split_once c xs))"

definition parse_orderbook_pair_from_topic :: "string \<Rightarrow> (string \<times> string) option" where
  "parse_orderbook_pair_from_topic topic = (case str_split TOPIC_SEPARATOR topic of
     p # rest \<Rightarrow> if p = ORDERBOOK_PREFIX then (case rest of
         maybe_pair # _ \<Rightarrow> (case str_split_once (CHR '':'') maybe_pair of
             Some (a, b) \<Rightarrow> if b \<noteq> [] then Some (a, b) else None
           | None \<Rightarrow> None)
       | [] \<Rightarrow> None) else None
   | [] \<Rightarrow> None)"

section \<open>Maker orders\<close>

definition mo_reserved_amount :: "maker_order \<Rightarrow> mm_number" where
  "mo_reserved_amount m =
     foldl (\<lambda>reserved (_, order_match). reserved + mr_base_amount (mm_reserved order_match)) 0 (mo_matches m)"

definition mo_available_amount :: "maker_order \<Rightarrow> mm_number" where
  "mo_available_amount m = mo_max_base_vol m - mo_reserved_amount m"

definition mo_has_ongoing_matches :: "maker_order \<Rightarrow> bool" where
  "mo_has_ongoing_matches m = list_ex (\<lambda>(_, order_match).
     mm_connected order_match = None \<and> mm_connect order_match = None) (mo_matches m)"

definition mo_is_cancellable :: "maker_order \<Rightarrow> bool" where
  "mo_is_cancellable m = (\<not> mo_has_ongoing_matches m)"

definition mo_base_ticker :: "maker_order \<Rightarrow> string" where
  "mo_base_ticker m = (case mo_base_orderbook_ticker m of Some t \<Rightarrow> t | None \<Rightarrow> mo_base m)"

definition mo_rel_ticker :: "maker_order \<Rightarrow> string" where
  "mo_rel_ticker m = (case mo_rel_orderbook_ticker m of Some t \<Rightarrow> t | None \<Rightarrow> mo_rel m)"

definition mo_orderbook_topic :: "maker_order \<Rightarrow> string" where
  "mo_orderbook_topic m = orderbook_topic_from_base_rel (mo_base_ticker m) (mo_rel_ticker m)"

definition mo_was_updated :: "maker_order \<Rightarrow> bool" where
  "mo_was_updated m = (mo_updated_at m \<noteq> Some (mo_created_at m))"

datatype order_match_result = OrderMatched mm_number mm_number | OrderNotMatched

definition match_with_request :: "maker_order \<Rightarrow> taker_request \<Rightarrow> (unit, order_match_result) rust_result" where
  "match_with_request m taker =
    (let taker_base_amount = tr_base_amount taker;
         taker_rel_amount = tr_rel_amount taker in
     if taker_base_amount \<le> 0 \<or> taker_rel_amount \<le> 0 then Ok OrderNotMatched
     else case tr_action taker of
       Buy \<Rightarrow>
         let ticker_match = (mo_base m = tr_base taker \<or> mo_base_orderbook_ticker m = Some (tr_base taker))
               \<and> (mo_rel m = tr_rel taker \<or> mo_rel_orderbook_ticker m = Some (tr_rel taker)) in
         rbind (mm_div taker_rel_amount taker_base_amount) (\<lambda>taker_price.
         if ticker_match \<and> taker_base_amount \<le> mo_available_amount m
            \<and> taker_base_amount \<ge> mo_min_base_vol m \<and> taker_price \<ge> mo_price m
         then Ok (OrderMatched taker_base_amount (taker_base_amount * mo_price m))
         else Ok OrderNotMatched)
     | Sell \<Rightarrow>
         let ticker_match = (mo_base m = tr_rel taker \<or> mo_base_orderbook_ticker m = Some (tr_rel taker))
               \<and> (mo_rel m = tr_base taker \<or> mo_rel_orderbook_ticker m = Some (tr_base taker)) in
         rbind (mm_div taker_base_amount taker_rel_amount) (\<lambda>taker_price.
         rbind (mm_div taker_base_amount (mo_price m)) (\<lambda>matched_base_amount.
         let matched_rel_amount = taker_base_amount in
         if ticker_match \<and> matched_base_amount \<le> mo_available_amount m
            \<and> matched_base_amount \<ge> mo_min_base_vol m \<and> taker_price \<ge> mo_price m
         then Ok (OrderMatched matched_base_amount matched_rel_amount)
         else Ok OrderNotMatched)))"

definition mo_apply_updated :: "u64 \<Rightarrow> maker_order_updated \<Rightarrow> maker_order \<Rightarrow> maker_order" where
  "mo_apply_updated now msg m0 =
    (let m1 = (case new_price msg of Some p \<Rightarrow> m0\<lparr>mo_price := p\<rparr> | None \<Rightarrow> m0);
         m2 = (case new_max_volume msg of Some v \<Rightarrow> m1\<lparr>mo_max_base_vol := v\<rparr> | None \<Rightarrow> m1);
         m3 = (case new_min_volume msg of Some v \<Rightarrow> m2\<lparr>mo_min_base_vol := v\<rparr> | None \<Rightarrow> m2);
         m4 = (case new_conf_settings msg of Some c \<Rightarrow> m3\<lparr>mo_conf_settings := Some c\<rparr> | None \<Rightarrow> m3)
     in m4\<lparr>mo_updated_at := Some now\<rparr>)"

section \<open>Taker orders\<close>

definition to_is_cancellable :: "taker_order \<Rightarrow> bool" where
  "to_is_cancellable t = (to_matches t = [])"

datatype match_reserved_result = ReservedMatched | ReservedNotMatched

definition match_reserved :: "taker_order \<Rightarrow> maker_reserved \<Rightarrow> match_reserved_result" where
  "match_reserved t reserved =
    (let request = to_request t;
         allowed = (case tr_match_by request of
             MatchAny \<Rightarrow> True
           | MatchOrders uuids \<Rightarrow> mr_maker_order_uuid reserved \<in> set uuids
           | MatchPubkeys pubkeys \<Rightarrow> mr_sender_pubkey reserved \<in> set pubkeys) in
     if \<not> allowed then ReservedNotMatched
     else
       let my_base_amount = tr_base_amount request;
           my_rel_amount = tr_rel_amount request;
           other_base_amount = mr_base_amount reserved;
           other_rel_amount = mr_rel_amount reserved in
       case tr_action request of
         Buy \<Rightarrow>
           let match_ticker = (tr_base request = mr_base reserved
                   \<or> to_base_orderbook_ticker t = Some (mr_base reserved))
                 \<and> (tr_rel request = mr_rel reserved \<or> to_rel_orderbook_ticker t = Some (mr_rel reserved)) in
           if match_ticker \<and> my_base_amount = other_base_amount \<and> other_rel_amount \<le> my_rel_amount
           then ReservedMatched else ReservedNotMatched
       | Sell \<Rightarrow>
           let match_ticker = (tr_base request = mr_rel reserved
                   \<or> to_base_orderbook_ticker t = Some (mr_rel reserved))
                 \<and> (tr_rel request = mr_base reserved \<or> to_rel_orderbook_ticker t = Some (mr_base reserved)) in
           if match_ticker \<and> my_base_amount = other_rel_amount \<and> my_rel_amount \<le> other_base_amount
           then ReservedMatched else ReservedNotMatched)"

definition to_taker_coin_ticker :: "taker_order \<Rightarrow> string" where
  "to_taker_coin_ticker t = (case tr_action (to_request t) of
     Buy \<Rightarrow> tr_rel (to_request t) | Sell \<Rightarrow> tr_base (to_request t))"

definition to_maker_coin_ticker :: "taker_order \<Rightarrow> string" where
  "to_maker_coin_ticker t = (case tr_action (to_request t) of
     Buy \<Rightarrow> tr_base (to_request t) | Sell \<Rightarrow> tr_rel (to_request t))"

definition to_taker_orderbook_ticker :: "taker_order \<Rightarrow> string" where
  "to_taker_orderbook_ticker t = (case tr_action (to_request t) of
     Buy \<Rightarrow> to_rel_ticker t | Sell \<Rightarrow> to_base_ticker t)"

definition to_maker_orderbook_ticker :: "taker_order \<Rightarrow> string" where
  "to_maker_orderbook_ticker t = (case tr_action (to_request t) of
     Buy \<Rightarrow> to_base_ticker t | Sell \<Rightarrow> to_rel_ticker t)"

definition to_orderbook_topic :: "taker_order \<Rightarrow> string" where
  "to_orderbook_topic t = orderbook_topic_from_base_rel (to_base_ticker t) (to_rel_ticker t)"

section \<open>Reserved and available amounts\<close>

lemma mo_reserved_amount_sum: "mo_reserved_amount m = hm_sum maker_match_amount (mo_matches m)"
proof -
  have "mo_reserved_amount m = foldl (\<lambda>acc (k, v). acc + maker_match_amount v) 0 (mo_matches m)"
    by (simp add: mo_reserved_amount_def maker_match_amount_def)
  then show ?thesis by (simp add: foldl_hm_sum)
qed

lemma mo_reserved_amount_nonneg: "wf_maker_order m \<Longrightarrow> 0 \<le> mo_reserved_amount m"
  by (simp add: mo_reserved_amount_sum wf_maker_order_def hm_sum_nonneg)

lemma mo_reserved_amount_no_matches [simp]: "mo_matches m = [] \<Longrightarrow> mo_reserved_amount m = 0"
  by (simp add: mo_reserved_amount_sum)

text \<open>\<open>holds_capacity\<close>: the matches of the order never reserve more than it offers.\<close>

definition holds_capacity :: "maker_order \<Rightarrow> bool" where
  "holds_capacity m \<longleftrightarrow> wf_maker_order m \<and> 0 \<le> mo_available_amount m"

lemma mo_reserved_amount_add_match:
  assumes "u \<notin> fst ` set (mo_matches m)"
  shows "mo_reserved_amount (m\<lparr>mo_matches := AList.update u x (mo_matches m)\<rparr>)
    = mo_reserved_amount m + maker_match_amount x"
  using assms by (simp add: mo_reserved_amount_sum hm_sum_update_new)

lemma mo_add_match_capacity:
  assumes "holds_capacity m" "u \<notin> fst ` set (mo_matches m)"
    "0 \<le> maker_match_amount x" "maker_match_amount x \<le> mo_available_amount m"
  shows "holds_capacity (m\<lparr>mo_matches := AList.update u x (mo_matches m)\<rparr>)"
proof -
  have "\<forall>y \<in> snd ` set (AList.update u x (mo_matches m)). 0 \<le> maker_match_amount y"
    using assms by (intro hm_values_update_ball) (auto simp: holds_capacity_def wf_maker_order_def)
  then show ?thesis
    using assms mo_reserved_amount_add_match[OF assms(2), of x]
    by (simp add: holds_capacity_def wf_maker_order_def mo_available_amount_def hm_wf_update)
qed

section \<open>When a request is matched\<close>

definition ticker_match_for_maker :: "maker_order \<Rightarrow> string \<Rightarrow> string \<Rightarrow> bool" where
  "ticker_match_for_maker m b r \<longleftrightarrow> (mo_base m = b \<or> mo_base_orderbook_ticker m = Some b)
     \<and> (mo_rel m = r \<or> mo_rel_orderbook_ticker m = Some r)"

text \<open>The trade a request asks of a maker with price \<open>p\<close>: the amount of the maker's base coin, the
  amount of its rel coin, and whether the taker gets at least what the request asks for.\<close>

definition asked_base :: "maker_order \<Rightarrow> taker_request \<Rightarrow> mm_number" where
  "asked_base m r = (case tr_action r of Buy \<Rightarrow> tr_base_amount r | Sell \<Rightarrow> tr_base_amount r / mo_price m)"

definition asked_rel :: "maker_order \<Rightarrow> taker_request \<Rightarrow> mm_number" where
  "asked_rel m r = (case tr_action r of Buy \<Rightarrow> tr_base_amount r * mo_price m | Sell \<Rightarrow> tr_base_amount r)"

definition taker_terms_respected :: "taker_request \<Rightarrow> mm_number \<Rightarrow> mm_number \<Rightarrow> bool" where
  "taker_terms_respected r b q = (case tr_action r of
     Buy \<Rightarrow> b = tr_base_amount r \<and> q \<le> tr_rel_amount r
   | Sell \<Rightarrow> q = tr_base_amount r \<and> tr_rel_amount r \<le> b)"

definition request_tickers :: "taker_request \<Rightarrow> string \<times> string" where
  "request_tickers r = (case tr_action r of Buy \<Rightarrow> (tr_base r, tr_rel r) | Sell \<Rightarrow> (tr_rel r, tr_base r))"

lemma match_with_request_eq:
  assumes "0 < mo_price m"
  shows "match_with_request m r =
    (if 0 < tr_base_amount r \<and> 0 < tr_rel_amount r
        \<and> ticker_match_for_maker m (fst (request_tickers r)) (snd (request_tickers r))
        \<and> mo_min_base_vol m \<le> asked_base m r \<and> asked_base m r \<le> mo_available_amount m
        \<and> taker_terms_respected r (asked_base m r) (asked_rel m r)
     then Ok (OrderMatched (asked_base m r) (asked_rel m r)) else Ok OrderNotMatched)"
proof (cases "0 < tr_base_amount r \<and> 0 < tr_rel_amount r")
  case False
  then show ?thesis by (auto simp: match_with_request_def Let_def not_less)
next
  case True
  with assms show ?thesis
    by (cases "tr_action r")
      (auto simp: match_with_request_def Let_def ticker_match_for_maker_def asked_base_def
        asked_rel_def taker_terms_respected_def request_tickers_def not_le
        pos_le_divide_eq pos_divide_le_eq mult.commute)
qed

lemma match_with_request_matched_iff:
  assumes "0 < mo_price m"
  shows "match_with_request m r = Ok (OrderMatched b q) \<longleftrightarrow>
     0 < tr_base_amount r \<and> 0 < tr_rel_amount r
     \<and> ticker_match_for_maker m (fst (request_tickers r)) (snd (request_tickers r))
     \<and> b = asked_base m r \<and> q = b * mo_price m \<and> mo_min_base_vol m \<le> b \<and> b \<le> mo_available_amount m
     \<and> taker_terms_respected r b q"
proof -
  have "asked_rel m r = asked_base m r * mo_price m"
    using assms by (simp add: asked_rel_def asked_base_def split: taker_action.splits)
  then show ?thesis using assms by (auto simp: match_with_request_eq)
qed

lemma match_with_request_neq_Panic: "0 < mo_price m \<Longrightarrow> match_with_request m r \<noteq> Panic"
  by (simp add: match_with_request_eq)

section \<open>Topics\<close>

lemma alb_ordered_pair_sym: "alb_ordered_pair a b = alb_ordered_pair b a"
  by (auto simp: alb_ordered_pair_def)

lemma str_split_no_sep: "c \<notin> set s \<Longrightarrow> str_split c s = [s]"
  by (induction s) auto

lemma str_split_append: "c \<notin> set s \<Longrightarrow> str_split c (s @ c # t) = s # str_split c t"
  by (induction s) auto

lemma str_split_once_append: "c \<notin> set s \<Longrightarrow> str_split_once c (s @ c # t) = Some (s, t)"
  by (induction s) auto

lemma parse_orderbook_topic:
  assumes "TOPIC_SEPARATOR \<notin> set a" "TOPIC_SEPARATOR \<notin> set b" "CHR '':'' \<notin> set a" "b \<noteq> []"
  shows "parse_orderbook_pair_from_topic (orderbook_topic_from_ordered_pair (a @ '':'' @ b)) = Some (a, b)"
proof -
  have "TOPIC_SEPARATOR \<notin> set ORDERBOOK_PREFIX" "TOPIC_SEPARATOR \<noteq> CHR '':''"
    by (simp_all add: TOPIC_SEPARATOR_def ORDERBOOK_PREFIX_def)
  with assms have "str_split TOPIC_SEPARATOR (orderbook_topic_from_ordered_pair (a @ '':'' @ b))
      = [ORDERBOOK_PREFIX, a @ '':'' @ b]"
    by (simp add: orderbook_topic_from_ordered_pair_def pub_sub_topic_def str_split_append str_split_no_sep)
  with assms show ?thesis
    by (simp add: parse_orderbook_pair_from_topic_def str_split_once_append)
qed

section \<open>Properties\<close>

text \<open>C2: for a well-formed maker order, matching a request does not panic, and it matches exactly
  when the tickers are the order's, the asked amount lies between the order's minimum and what is
  still available, and the taker gets its terms. The matched amounts are always at the maker's own
  price, the taker never pays more than offered for a buy, and never receives less than asked for
  a sell.\<close>

theorem match_with_request_is_fair:
  assumes "wf_maker_order m"
  shows "match_with_request m r \<noteq> Panic \<and>
    (match_with_request m r = Ok (OrderMatched b q) \<longleftrightarrow>
       0 < tr_base_amount r \<and> 0 < tr_rel_amount r
       \<and> ticker_match_for_maker m (fst (request_tickers r)) (snd (request_tickers r))
       \<and> b = asked_base m r \<and> q = b * mo_price m \<and> mo_min_base_vol m \<le> b \<and> b \<le> mo_available_amount m
       \<and> taker_terms_respected r b q)"
  using assms match_with_request_matched_iff[of m] match_with_request_neq_Panic[of m]
  by (auto simp: wf_maker_order_def)

definition demo_request :: taker_request where
  "demo_request = \<lparr>tr_base = ''XFG'', tr_rel = ''KMD'', tr_base_amount = 6, tr_rel_amount = 2,
     tr_action = Sell, tr_uuid = 9, tr_sender_pubkey = 5, tr_dest_pub_key = 0, tr_match_by = MatchAny,
     tr_conf_settings = Some demo_conf, tr_base_protocol_info = None, tr_rel_protocol_info = None,
     tr_swap_version = swap_version_from legacy_swap_version, tr_swap_method = default_swap_method\<rparr>"

definition demo_maker_order :: maker_order where
  "demo_maker_order = \<lparr>mo_max_base_vol = 10, mo_min_base_vol = 1, mo_price = 2, mo_created_at = 1000,
     mo_updated_at = Some 1000, mo_base = ''KMD'', mo_rel = ''XFG'', mo_matches = [],
     mo_started_swaps = [], mo_uuid = 7, mo_conf_settings = Some demo_conf,
     mo_changes_history = None, mo_save_in_history = False, mo_base_orderbook_ticker = None,
     mo_rel_orderbook_ticker = None, mo_p2p_privkey = None, mo_swap_version = swap_version_from legacy_swap_version,
     mo_swap_method = default_swap_method, mo_timeout_in_minutes = None\<rparr>"

lemmas demo_matching_defs = demo_request_def demo_maker_order_def

theorem match_with_request_is_fair_witness:
  "match_with_request demo_maker_order demo_request = Ok (OrderMatched 3 6)"
proof -
  have wf: "wf_maker_order demo_maker_order"
    by (simp add: wf_maker_order_def demo_matching_defs)
  show ?thesis
    by (rule match_with_request_is_fair[OF wf, THEN conjunct2, THEN iffD2])
      (simp add: demo_matching_defs ticker_match_for_maker_def request_tickers_def asked_base_def
        taker_terms_respected_def mo_available_amount_def)
qed

text \<open>the orderbook topic of a pair does not depend on which coin is the base, and parsing the
  topic gives the two tickers back, in alphabetic order.\<close>

theorem orderbook_topic_round_trip:
  assumes "TOPIC_SEPARATOR \<notin> set a \<union> set b" "CHR '':'' \<notin> set a \<union> set b" "a \<noteq> []" "b \<noteq> []"
  shows "orderbook_topic_from_base_rel a b = orderbook_topic_from_base_rel b a
    \<and> parse_orderbook_pair_from_topic (orderbook_topic_from_base_rel a b) = Some (min a b, max a b)"
proof -
  have "orderbook_topic_from_base_rel a b = orderbook_topic_from_ordered_pair (min a b @ '':'' @ max a b)"
    by (auto simp: orderbook_topic_from_base_rel_def orderbook_topic_from_ordered_pair_def
        alb_ordered_pair_def min_def max_def)
  moreover have "parse_orderbook_pair_from_topic
      (orderbook_topic_from_ordered_pair (min a b @ '':'' @ max a b)) = Some (min a b, max a b)"
    using assms by (intro parse_orderbook_topic) (auto simp: min_def max_def)
  ultimately show ?thesis
    by (simp add: orderbook_topic_from_base_rel_def alb_ordered_pair_sym)
qed

theorem orderbook_topic_round_trip_witness:
  "parse_orderbook_pair_from_topic (orderbook_topic_from_base_rel ''XFG'' ''BTC'') = Some (''BTC'', ''XFG'')"
proof -
  have "TOPIC_SEPARATOR \<notin> set ''XFG'' \<union> set ''BTC''" "CHR '':'' \<notin> set ''XFG'' \<union> set ''BTC''"
    by (simp_all add: TOPIC_SEPARATOR_def)
  moreover have "min ''XFG'' ''BTC'' = ''BTC''" "max ''XFG'' ''BTC'' = ''XFG''"
    by code_simp+
  ultimately show ?thesis
    using orderbook_topic_round_trip[of "''XFG''" "''BTC''"] by (metis list.distinct(1))
qed

end
