(* ===== verification/Orderbook.thy ===== *)
theory Orderbook
  imports Order_Matching
begin

text \<open>
  The in-memory order index (\<open>Orderbook\<close> in \<open>mm2_main/src/lp_ordermatch.rs\<close>): the orders of the
  network by uuid, per pair the set of their prices in ascending order and the set of their uuids,
  and the trie operations that every change of the index hands to the trie store.

  The maps that the code looks up by key are partial functions; the sets it iterates over are lists
  without duplicates, in iteration order. A \<open>BTreeSet\<close> is its ascending list. The entries of
  \<open>recently_cancelled\<close> live until the map's timeout removes them, a step of the environment
  (\<open>expire_recently_cancelled\<close>). Streamed events are collected in \<open>ob_streamed\<close>.
\<close>

section \<open>Orders as the index keeps them\<close>

record base_rel_protocol_info =
  bi_base :: bytes
  bi_rel :: bytes

definition default_protocol_info :: base_rel_protocol_info where
  "default_protocol_info = \<lparr>bi_base = [], bi_rel = []\<rparr>"

record orderbook_p2p_item =
  op_pubkey :: string
  op_base :: string
  op_rel :: string
  op_price :: rat
  op_max_volume :: rat
  op_min_volume :: rat
  op_uuid :: uuid
  op_created_at :: u64

record orderbook_item =
  oi_pubkey :: string
  oi_base :: string
  oi_rel :: string
  oi_price :: rat
  oi_max_volume :: rat
  oi_min_volume :: rat
  oi_uuid :: uuid
  oi_created_at :: u64
  oi_base_protocol_info :: bytes
  oi_rel_protocol_info :: bytes
  oi_conf_settings :: "order_confirmations_settings option"

definition oi_of_created :: "np_maker_order_created \<Rightarrow> string \<Rightarrow> orderbook_item" where
  "oi_of_created order pubkey = \<lparr>oi_pubkey = pubkey, oi_base = npc_base order, oi_rel = npc_rel order,
     oi_price = npc_price order, oi_max_volume = npc_max_volume order,
     oi_min_volume = npc_min_volume order, oi_uuid = npc_uuid order,
     oi_created_at = npc_created_at order, oi_base_protocol_info = npc_base_protocol_info order,
     oi_rel_protocol_info = npc_rel_protocol_info order,
     oi_conf_settings = Some (npc_conf_settings order)\<rparr>"

definition op_of_item :: "orderbook_item \<Rightarrow> orderbook_p2p_item" where
  "op_of_item o' = \<lparr>op_pubkey = oi_pubkey o', op_base = oi_base o', op_rel = oi_rel o',
     op_price = oi_price o', op_max_volume = oi_max_volume o', op_min_volume = oi_min_volume o',
     op_uuid = oi_uuid o', op_created_at = oi_created_at o'\<rparr>"

definition oi_from_p2p_and_info ::
    "orderbook_p2p_item \<Rightarrow> base_rel_protocol_info \<Rightarrow> order_confirmations_settings option \<Rightarrow> orderbook_item" where
  "oi_from_p2p_and_info p proto_info conf_info = \<lparr>oi_pubkey = op_pubkey p, oi_base = op_base p,
     oi_rel = op_rel p, oi_price = op_price p, oi_max_volume = op_max_volume p,
     oi_min_volume = op_min_volume p, oi_uuid = op_uuid p, oi_created_at = op_created_at p,
     oi_base_protocol_info = bi_base proto_info, oi_rel_protocol_info = bi_rel proto_info,
     oi_conf_settings = conf_info\<rparr>"

definition oi_base_rel_proto_info :: "orderbook_item \<Rightarrow> base_rel_protocol_info" where
  "oi_base_rel_proto_info o' = \<lparr>bi_base = oi_base_protocol_info o', bi_rel = oi_rel_protocol_info o'\<rparr>"

definition oi_apply_updated :: "maker_order_updated \<Rightarrow> orderbook_item \<Rightarrow> orderbook_item" where
  "oi_apply_updated msg o0 =
    (let o1 = (case new_price msg of Some p \<Rightarrow> o0\<lparr>oi_price := p\<rparr> | None \<Rightarrow> o0);
         o2 = (case new_max_volume msg of Some v \<Rightarrow> o1\<lparr>oi_max_volume := v\<rparr> | None \<Rightarrow> o1)
     in (case new_min_volume msg of Some v \<Rightarrow> o2\<lparr>oi_min_volume := v\<rparr> | None \<Rightarrow> o2))"

abbreviation oi_pair :: "orderbook_item \<Rightarrow> string \<times> string" where
  "oi_pair o' \<equiv> (oi_base o', oi_rel o')"

definition oi_alb_pair :: "orderbook_item \<Rightarrow> string" where
  "oi_alb_pair o' = alb_ordered_pair (oi_base o') (oi_rel o')"

lemma oi_p2p_round_trip [simp]:
  "oi_from_p2p_and_info (op_of_item o') (oi_base_rel_proto_info o') (oi_conf_settings o') = o'"
  by (simp add: oi_from_p2p_and_info_def op_of_item_def oi_base_rel_proto_info_def)

lemma oi_apply_updated_keeps [simp]:
  "oi_uuid (oi_apply_updated msg o') = oi_uuid o'"
  "oi_pubkey (oi_apply_updated msg o') = oi_pubkey o'"
  "oi_base (oi_apply_updated msg o') = oi_base o'"
  "oi_rel (oi_apply_updated msg o') = oi_rel o'"
  by (auto simp: oi_apply_updated_def Let_def split: option.splits)

section \<open>The price order\<close>

text \<open>\<open>OrderedByPriceOrder\<close> derives its order: by price, then by uuid.\<close>

datatype ordered_by_price_order = OrderedByPriceOrder (ob_price: mm_number) (ob_uuid: uuid)

instantiation ordered_by_price_order :: linorder
begin

definition less_eq_ordered_by_price_order :: "ordered_by_price_order \<Rightarrow> ordered_by_price_order \<Rightarrow> bool" where
  "a \<le> b \<longleftrightarrow> ob_price a < ob_price b \<or> (ob_price a = ob_price b \<and> ob_uuid a \<le> ob_uuid b)"

definition less_ordered_by_price_order :: "ordered_by_price_order \<Rightarrow> ordered_by_price_order \<Rightarrow> bool" where
  "a < b \<longleftrightarrow> ob_price a < ob_price b \<or> (ob_price a = ob_price b \<and> ob_uuid a < ob_uuid b)"

instance
  by standard (auto simp: less_eq_ordered_by_price_order_def less_ordered_by_price_order_def
      ordered_by_price_order.expand)

end

lemma ordered_le_price: "a \<le> b \<Longrightarrow> ob_price a \<le> ob_price b"
  by (auto simp: less_eq_ordered_by_price_order_def)

text \<open>What the code uses of \<open>BTreeSet\<close>: insertion, removal, and iteration in ascending order.\<close>

locale ordered_set =
  fixes ins :: "'a :: linorder \<Rightarrow> 's \<Rightarrow> 's" and rem :: "'a \<Rightarrow> 's \<Rightarrow> 's" and emp :: 's
    and elems :: "'s \<Rightarrow> 'a list" and wf :: "'s \<Rightarrow> bool"
  assumes wf_emp: "wf emp" and elems_emp: "elems emp = []"
    and wf_ins: "wf s \<Longrightarrow> wf (ins x s)" and wf_rem: "wf s \<Longrightarrow> wf (rem x s)"
    and set_ins: "wf s \<Longrightarrow> set (elems (ins x s)) = insert x (set (elems s))"
    and set_rem: "wf s \<Longrightarrow> set (elems (rem x s)) = set (elems s) - {x}"
    and sorted_elems: "wf s \<Longrightarrow> sorted (elems s) \<and> distinct (elems s)"
begin

text \<open>The iteration order is a function of the members, whatever the history of the set.\<close>

lemma elems_unique: "wf s \<Longrightarrow> wf t \<Longrightarrow> set (elems s) = set (elems t) \<Longrightarrow> elems s = elems t"
  using sorted_elems sorted_distinct_set_unique by blast

lemma elems_canonical: "wf s \<Longrightarrow> elems s = sorted_list_of_set (set (elems s))"
  using sorted_elems by (simp add: sorted_list_of_set.idem_if_sorted_distinct)

lemma ins_commute: "wf s \<Longrightarrow> elems (ins x (ins y s)) = elems (ins y (ins x s))"
  by (rule elems_unique) (auto simp: wf_ins set_ins)

lemma rem_ins: "wf s \<Longrightarrow> x \<notin> set (elems s) \<Longrightarrow> elems (rem x (ins x s)) = elems s"
  by (rule elems_unique) (auto simp: wf_ins wf_rem set_ins set_rem)

text \<open>The first element is the least: iterating visits the best price first.\<close>

lemma hd_least: "wf s \<Longrightarrow> x \<in> set (elems s) \<Longrightarrow> hd (elems s) \<le> x"
  using sorted_elems by (cases "elems s") fastforce+

lemma take_least:
  assumes "wf s" "x \<in> set (take n (elems s))" "y \<in> set (elems s) - set (take n (elems s))"
  shows "x < y"
proof -
  have sorted: "sorted (take n (elems s) @ drop n (elems s))"
    using sorted_elems[OF assms(1)] by simp
  have "y \<in> set (drop n (elems s))"
    using assms(3) by (metis Diff_iff UnE append_take_drop_id set_append)
  then have "x \<le> y" using assms(2) sorted unfolding sorted_append by blast
  moreover have "x \<noteq> y" using assms(2,3) by auto
  ultimately show ?thesis by simp
qed

end

definition bt_insert :: "'a :: linorder \<Rightarrow> 'a list \<Rightarrow> 'a list" where
  "bt_insert x s = insort_insert x s"

definition bt_remove :: "'a :: linorder \<Rightarrow> 'a list \<Rightarrow> 'a list" where
  "bt_remove x s = filter (\<lambda>y. y \<noteq> x) s"

abbreviation bt_wf :: "'a :: linorder list \<Rightarrow> bool" where
  "bt_wf s \<equiv> sorted s \<and> distinct s"

interpretation bt: ordered_set bt_insert bt_remove "[]" "\<lambda>s. s" bt_wf
  by unfold_locales
    (auto simp: bt_insert_def bt_remove_def sorted_insort_insert distinct_insort_insert
      set_insort_insert sorted_filter[where f = "\<lambda>x. x", simplified])

section \<open>The index\<close>

datatype orderbook_item_change_event = NewOrUpdatedItem orderbook_p2p_item | RemovedItem uuid

definition orderbook_streamer_id :: "string \<times> string \<Rightarrow> string" where
  "orderbook_streamer_id br = orderbook_topic_from_base_rel (fst br) (snd br)"

datatype trie_op =
    ClearPair string string
  | TrieInsert string string uuid orderbook_item
  | TrieRemove string string uuid
  | RemovePubkey string

record orderbook =
  ob_ordered :: "string \<times> string \<rightharpoonup> ordered_by_price_order list"
  ob_pairs_existing_for_base :: "string \<rightharpoonup> string list"
  ob_pairs_existing_for_rel :: "string \<rightharpoonup> string list"
  ob_unordered :: "string \<times> string \<rightharpoonup> uuid list"
  ob_order_set :: "uuid \<rightharpoonup> orderbook_item"
  ob_recently_cancelled :: "uuid \<rightharpoonup> string"
  ob_my_p2p_pubkeys :: "string list"
  ob_streamed :: "(string \<times> orderbook_item_change_event) list"

definition orderbook_new :: orderbook where
  "orderbook_new = \<lparr>ob_ordered = Map.empty, ob_pairs_existing_for_base = Map.empty,
     ob_pairs_existing_for_rel = Map.empty, ob_unordered = Map.empty, ob_order_set = Map.empty,
     ob_recently_cancelled = Map.empty, ob_my_p2p_pubkeys = [], ob_streamed = []\<rparr>"

definition find_order_by_uuid_and_pubkey :: "orderbook \<Rightarrow> uuid \<Rightarrow> string \<Rightarrow> orderbook_item option" where
  "find_order_by_uuid_and_pubkey ob u from_pubkey = Option.bind (ob_order_set ob u)
     (\<lambda>order. if oi_pubkey order = from_pubkey then Some order else None)"

definition find_order_by_uuid :: "orderbook \<Rightarrow> uuid \<Rightarrow> orderbook_item option" where
  "find_order_by_uuid ob u = ob_order_set ob u"

definition index_insert_or_update_inner :: "orderbook_item \<Rightarrow> orderbook \<Rightarrow> orderbook" where
  "index_insert_or_update_inner order ob =
    (let base_rel = (oi_base order, oi_rel order);
         ordered = unwrap_or [] (ob_ordered ob base_rel);
         existing = find (\<lambda>maybe_existing. ob_uuid maybe_existing = oi_uuid order) ordered;
         ordered = (case existing of Some exists \<Rightarrow> bt_remove exists ordered | None \<Rightarrow> ordered);
         ordered = bt_insert (OrderedByPriceOrder (oi_price order) (oi_uuid order)) ordered
     in ob\<lparr>ob_ordered := (ob_ordered ob)(base_rel \<mapsto> ordered),
           ob_pairs_existing_for_base := (ob_pairs_existing_for_base ob)(oi_base order \<mapsto>
             hs_insert (oi_rel order) (unwrap_or [] (ob_pairs_existing_for_base ob (oi_base order)))),
           ob_pairs_existing_for_rel := (ob_pairs_existing_for_rel ob)(oi_rel order \<mapsto>
             hs_insert (oi_base order) (unwrap_or [] (ob_pairs_existing_for_rel ob (oi_rel order)))),
           ob_unordered := (ob_unordered ob)(base_rel \<mapsto>
             hs_insert (oi_uuid order) (unwrap_or [] (ob_unordered ob base_rel))),
           ob_streamed := ob_streamed ob @ [(orderbook_streamer_id base_rel, NewOrUpdatedItem (op_of_item order))],
           ob_order_set := (ob_order_set ob)(oi_uuid order \<mapsto> order)\<rparr>)"

definition index_remove :: "uuid \<Rightarrow> orderbook \<Rightarrow> orderbook \<times> (orderbook_item \<times> trie_op) option" where
  "index_remove u ob = (case ob_order_set ob u of
     None \<Rightarrow> (ob, None)
   | Some order \<Rightarrow>
     (let base_rel = (oi_base order, oi_rel order);
          order_to_delete = OrderedByPriceOrder (oi_price order) u;
          ordered' = (case ob_ordered ob base_rel of None \<Rightarrow> ob_ordered ob
            | Some orders \<Rightarrow> let orders = bt_remove order_to_delete orders in
                if orders = [] then (ob_ordered ob)(base_rel := None) else (ob_ordered ob)(base_rel \<mapsto> orders));
          unordered' = (case ob_unordered ob base_rel of None \<Rightarrow> ob_unordered ob
            | Some orders \<Rightarrow> let orders = hs_remove (ob_uuid order_to_delete) orders in
                if orders = [] then (ob_unordered ob)(base_rel := None) else (ob_unordered ob)(base_rel \<mapsto> orders))
      in (ob\<lparr>ob_order_set := (ob_order_set ob)(u := None),
             ob_ordered := ordered', ob_unordered := unordered',
             ob_streamed := ob_streamed ob @ [(orderbook_streamer_id base_rel, RemovedItem (oi_uuid order))]\<rparr>,
          Some (order, TrieRemove (oi_pubkey order) (alb_ordered_pair (oi_base order) (oi_rel order)) u))))"

definition index_insert_or_update :: "orderbook_item \<Rightarrow> orderbook \<Rightarrow> orderbook \<times> trie_op list" where
  "index_insert_or_update order ob =
    (if ob_recently_cancelled ob (oi_uuid order) = Some (oi_pubkey order) then (ob, [])
     else if oi_max_volume order \<le> 0 \<or> oi_price order \<le> 0 \<or> oi_min_volume order < 0
     then (case index_remove (oi_uuid order) ob of
         (ob', Some (_, op)) \<Rightarrow> (ob', [op]) | (ob', None) \<Rightarrow> (ob', []))
     else (index_insert_or_update_inner order ob,
       [TrieInsert (oi_pubkey order) (alb_ordered_pair (oi_base order) (oi_rel order)) (oi_uuid order) order]))"

text \<open>The removal loop over the uuids of one pair, then over the pair and its reverse.\<close>

definition index_remove_if_of_pubkey :: "string \<Rightarrow> uuid \<Rightarrow> orderbook \<Rightarrow> orderbook" where
  "index_remove_if_of_pubkey pubkey u ob = (case ob_order_set ob u of
     Some order \<Rightarrow> if oi_pubkey order = pubkey then fst (index_remove u ob) else ob
   | None \<Rightarrow> ob)"

definition index_remove_pubkey_pair_orders :: "string \<Rightarrow> string \<Rightarrow> orderbook \<Rightarrow> orderbook" where
  "index_remove_pubkey_pair_orders pubkey alb_pair ob =
    (case str_split_once (CHR '':'') alb_pair of
       None \<Rightarrow> ob
     | Some (base, rel) \<Rightarrow> fold (\<lambda>pair ob. case ob_unordered ob pair of
           Some uuids \<Rightarrow> fold (index_remove_if_of_pubkey pubkey) uuids ob
         | None \<Rightarrow> ob) [(base, rel), (rel, base)] ob)"

definition expire_recently_cancelled :: "uuid set \<Rightarrow> orderbook \<Rightarrow> orderbook" where
  "expire_recently_cancelled us ob = ob\<lparr>ob_recently_cancelled :=
     (\<lambda>u. if u \<in> us then None else ob_recently_cancelled ob u)\<rparr>"

section \<open>Consistency of the index\<close>

declare split_paired_All [simp del] split_paired_Ex [simp del]

definition oi_tradable :: "orderbook_item \<Rightarrow> bool" where
  "oi_tradable o' \<longleftrightarrow> 0 < oi_max_volume o' \<and> 0 < oi_price o' \<and> 0 \<le> oi_min_volume o'"

definition ordered_key :: "orderbook_item \<Rightarrow> ordered_by_price_order" where
  "ordered_key o' = OrderedByPriceOrder (oi_price o') (oi_uuid o')"

definition ordered_at :: "orderbook \<Rightarrow> string \<times> string \<Rightarrow> ordered_by_price_order list" where
  "ordered_at ob br = unwrap_or [] (ob_ordered ob br)"

definition unordered_at :: "orderbook \<Rightarrow> string \<times> string \<Rightarrow> uuid list" where
  "unordered_at ob br = unwrap_or [] (ob_unordered ob br)"

definition ob_orders_of :: "orderbook \<Rightarrow> string \<times> string \<Rightarrow> orderbook_item set" where
  "ob_orders_of ob br = {x. ob_order_set ob (oi_uuid x) = Some x \<and> oi_pair x = br}"

text \<open>
  The index is consistent when every order is filed under its uuid and can be traded, the ordered
  and the unordered set of a pair hold exactly the pair's orders, no empty set is kept, and the
  pairs of all orders can be found from either coin.
\<close>

definition ob_inv :: "orderbook \<Rightarrow> bool" where
  "ob_inv ob \<longleftrightarrow>
     (\<forall>u x. ob_order_set ob u = Some x \<longrightarrow> oi_uuid x = u \<and> oi_tradable x
        \<and> oi_rel x \<in> set (unwrap_or [] (ob_pairs_existing_for_base ob (oi_base x)))
        \<and> oi_base x \<in> set (unwrap_or [] (ob_pairs_existing_for_rel ob (oi_rel x))))
   \<and> (\<forall>br. bt_wf (ordered_at ob br) \<and> set (ordered_at ob br) = ordered_key ` ob_orders_of ob br
        \<and> ob_ordered ob br \<noteq> Some [])
   \<and> (\<forall>br. distinct (unordered_at ob br) \<and> set (unordered_at ob br) = oi_uuid ` ob_orders_of ob br
        \<and> ob_unordered ob br \<noteq> Some [])"

lemma ordered_key_sel [simp]: "ob_price (ordered_key x) = oi_price x" "ob_uuid (ordered_key x) = oi_uuid x"
  by (simp_all add: ordered_key_def)

lemma ob_inv_order: "ob_inv ob \<Longrightarrow> ob_order_set ob u = Some x \<Longrightarrow> oi_uuid x = u \<and> oi_tradable x"
  by (simp add: ob_inv_def)

lemma ob_inv_ordered: "ob_inv ob \<Longrightarrow> bt_wf (ordered_at ob br) \<and> set (ordered_at ob br) = ordered_key ` ob_orders_of ob br"
  by (simp add: ob_inv_def)

lemma ob_inv_unordered: "ob_inv ob \<Longrightarrow> distinct (unordered_at ob br) \<and> set (unordered_at ob br) = oi_uuid ` ob_orders_of ob br"
  by (simp add: ob_inv_def)

lemma ob_inv_pairs:
  "ob_inv ob \<Longrightarrow> ob_order_set ob u = Some x \<Longrightarrow>
     oi_rel x \<in> set (unwrap_or [] (ob_pairs_existing_for_base ob (oi_base x)))
     \<and> oi_base x \<in> set (unwrap_or [] (ob_pairs_existing_for_rel ob (oi_rel x)))"
  unfolding ob_inv_def by blast

lemma mem_ob_orders_of:
  "x \<in> ob_orders_of ob br \<longleftrightarrow> ob_order_set ob (oi_uuid x) = Some x \<and> oi_pair x = br"
  by (simp add: ob_orders_of_def)

lemma ob_orders_of_uuid_inj: "inj_on oi_uuid (ob_orders_of ob br)"
  by (auto simp: inj_on_def mem_ob_orders_of)

lemma ob_orders_of_uuid_eq: "x \<in> ob_orders_of ob br \<Longrightarrow> ob_order_set ob (oi_uuid x) = Some x"
  by (simp add: mem_ob_orders_of)

text \<open>The two sets of a pair are the same orders: neither is ahead of the other.\<close>

lemma ordered_at_length:
  assumes inv: "ob_inv ob"
  shows "length (ordered_at ob br) = length (unordered_at ob br)"
proof -
  have "inj_on ordered_key (ob_orders_of ob br)"
    using ob_orders_of_uuid_inj by (auto simp: inj_on_def ordered_key_def)
  then have "card (set (ordered_at ob br)) = card (set (unordered_at ob br))"
    by (simp add: ob_inv_ordered[OF inv] ob_inv_unordered[OF inv] ob_orders_of_uuid_inj card_image)
  then show ?thesis
    by (simp only: distinct_card ob_inv_ordered[OF inv, THEN conjunct1, THEN conjunct2]
        ob_inv_unordered[OF inv, THEN conjunct1])
qed

lemma orderbook_new_inv: "ob_inv orderbook_new"
  by (simp add: ob_inv_def orderbook_new_def ordered_at_def unordered_at_def ob_orders_of_def)

lemma expire_recently_cancelled_inv [simp]: "ob_inv (expire_recently_cancelled us ob) = ob_inv ob"
  by (simp add: ob_inv_def expire_recently_cancelled_def ordered_at_def unordered_at_def ob_orders_of_def)

subsection \<open>Removal\<close>

lemma index_remove_None [simp]: "ob_order_set ob u = None \<Longrightarrow> index_remove u ob = (ob, None)"
  by (simp add: index_remove_def)

lemma index_remove_result:
  "snd (index_remove u ob) = map_option (\<lambda>x. (x, TrieRemove (oi_pubkey x) (oi_alb_pair x) u)) (ob_order_set ob u)"
  by (simp add: index_remove_def Let_def oi_alb_pair_def split: option.splits)

lemma index_remove_order_set [simp]:
  "ob_order_set (fst (index_remove u ob)) = (ob_order_set ob)(u := None)"
  by (auto simp: index_remove_def Let_def fun_eq_iff split: option.splits)

lemma index_remove_frame [simp]:
  "ob_recently_cancelled (fst (index_remove u ob)) = ob_recently_cancelled ob"
  "ob_my_p2p_pubkeys (fst (index_remove u ob)) = ob_my_p2p_pubkeys ob"
  "ob_pairs_existing_for_base (fst (index_remove u ob)) = ob_pairs_existing_for_base ob"
  "ob_pairs_existing_for_rel (fst (index_remove u ob)) = ob_pairs_existing_for_rel ob"
  by (auto simp: index_remove_def Let_def split: option.splits)

lemma index_remove_ordered_at:
  assumes "ob_order_set ob u = Some x"
  shows "ordered_at (fst (index_remove u ob)) br = (if br = oi_pair x
    then bt_remove (OrderedByPriceOrder (oi_price x) u) (ordered_at ob br) else ordered_at ob br)"
  using assms by (auto simp: index_remove_def Let_def ordered_at_def bt_remove_def split: option.splits)

lemma index_remove_unordered_at:
  assumes "ob_order_set ob u = Some x"
  shows "unordered_at (fst (index_remove u ob)) br = (if br = oi_pair x
    then hs_remove u (unordered_at ob br) else unordered_at ob br)"
  using assms by (auto simp: index_remove_def Let_def unordered_at_def hs_remove_def split: option.splits)

lemma index_remove_no_empty:
  assumes "ob_ordered ob br \<noteq> Some []" "ob_unordered ob br \<noteq> Some []"
  shows "ob_ordered (fst (index_remove u ob)) br \<noteq> Some [] \<and> ob_unordered (fst (index_remove u ob)) br \<noteq> Some []"
  using assms by (auto simp: index_remove_def Let_def split: option.splits)

lemma index_remove_orders_of:
  assumes "ob_inv ob" "ob_order_set ob u = Some x"
  shows "ob_orders_of (fst (index_remove u ob)) br = ob_orders_of ob br - {x}"
proof -
  have "y \<in> ob_orders_of (fst (index_remove u ob)) br \<longleftrightarrow> y \<in> ob_orders_of ob br - {x}" for y
    using ob_inv_order[OF assms] assms(2) by (cases "oi_uuid y = u") (auto simp: mem_ob_orders_of)
  then show ?thesis by blast
qed

text \<open>Removing one order from a set that names orders by \<open>f\<close>, where \<open>f\<close> determines the uuid.\<close>

lemma image_orders_remove:
  assumes "ob_order_set ob (oi_uuid x) = Some x"
    and "\<And>y. f y = f x \<Longrightarrow> oi_uuid y = oi_uuid x"
  shows "f ` (ob_orders_of ob br - {x}) =
    (if br = oi_pair x then f ` ob_orders_of ob br - {f x} else f ` ob_orders_of ob br)"
proof -
  have "y = x" if "y \<in> ob_orders_of ob br" "f y = f x" for y
    using assms(2)[OF that(2)] assms(1) that(1) by (simp add: mem_ob_orders_of)
  moreover have "x \<notin> ob_orders_of ob br" if "br \<noteq> oi_pair x"
    using that by (auto simp: mem_ob_orders_of)
  ultimately show ?thesis by auto
qed

lemma index_remove_inv:
  assumes inv: "ob_inv ob"
  shows "ob_inv (fst (index_remove u ob))"
proof (cases "ob_order_set ob u")
  case None
  then show ?thesis using inv by simp
next
  case (Some x)
  let ?ob = "fst (index_remove u ob)"
  have x: "oi_uuid x = u" "ob_order_set ob (oi_uuid x) = Some x"
    using ob_inv_order[OF inv Some] Some by simp_all
  have key: "OrderedByPriceOrder (oi_price x) u = ordered_key x" using x by (simp add: ordered_key_def)
  have f: "oi_uuid y = oi_uuid x" if "ordered_key y = ordered_key x" for y
    using that by (simp add: ordered_key_def)
  have "bt_wf (ordered_at ?ob br) \<and> set (ordered_at ?ob br) = ordered_key ` ob_orders_of ?ob br" for br
    using ob_inv_ordered[OF inv, of br] bt.wf_rem[of "ordered_at ob br"] bt.set_rem[of "ordered_at ob br"]
    by (auto simp only: index_remove_ordered_at[OF Some] index_remove_orders_of[OF inv Some] key
        image_orders_remove[OF x(2), of ordered_key, OF f] if_True if_False split: if_split)
  moreover have "distinct (unordered_at ?ob br) \<and> set (unordered_at ?ob br) = oi_uuid ` ob_orders_of ?ob br" for br
  proof -
    have "oi_uuid ` (ob_orders_of ob br - {x}) =
        (if br = oi_pair x then oi_uuid ` ob_orders_of ob br - {oi_uuid x} else oi_uuid ` ob_orders_of ob br)"
      by (rule image_orders_remove[OF x(2)])
    with ob_inv_unordered[OF inv, of br] x(1) show ?thesis
      unfolding index_remove_unordered_at[OF Some] index_remove_orders_of[OF inv Some]
      by (cases "br = oi_pair x") (auto simp: distinct_hs_remove)
  qed
  ultimately show ?thesis
    using inv index_remove_no_empty[of ob _ u] by (auto simp: ob_inv_def split: if_splits)
qed

subsection \<open>Insertion\<close>

lemma index_insert_inner_order_set [simp]:
  "ob_order_set (index_insert_or_update_inner x ob) = (ob_order_set ob)(oi_uuid x \<mapsto> x)"
  by (simp add: index_insert_or_update_inner_def Let_def)

lemma index_insert_inner_frame [simp]:
  "ob_recently_cancelled (index_insert_or_update_inner x ob) = ob_recently_cancelled ob"
  "ob_my_p2p_pubkeys (index_insert_or_update_inner x ob) = ob_my_p2p_pubkeys ob"
  by (simp_all add: index_insert_or_update_inner_def Let_def)

lemma index_insert_inner_unordered_at:
  "unordered_at (index_insert_or_update_inner x ob) br =
    (if br = oi_pair x then hs_insert (oi_uuid x) (unordered_at ob br) else unordered_at ob br)"
  by (simp add: index_insert_or_update_inner_def Let_def unordered_at_def)

lemma index_insert_inner_ordered_at:
  "ordered_at (index_insert_or_update_inner x ob) br = (if br = oi_pair x
    then bt_insert (ordered_key x) (case find (\<lambda>e. ob_uuid e = oi_uuid x) (ordered_at ob br) of
        Some e \<Rightarrow> bt_remove e (ordered_at ob br) | None \<Rightarrow> ordered_at ob br)
    else ordered_at ob br)"
  unfolding index_insert_or_update_inner_def Let_def ordered_at_def ordered_key_def by auto

lemma hs_insert_neq_Nil [simp]: "hs_insert x xs \<noteq> []"
  by (auto simp: hs_insert_def)

lemma bt_insert_neq_Nil [simp]: "bt_insert x xs \<noteq> []"
  by (auto simp: bt_insert_def insort_insert_key_def)

lemma index_insert_inner_no_empty:
  assumes "ob_ordered ob br \<noteq> Some []" "ob_unordered ob br \<noteq> Some []"
  shows "ob_ordered (index_insert_or_update_inner x ob) br \<noteq> Some []
    \<and> ob_unordered (index_insert_or_update_inner x ob) br \<noteq> Some []"
  using assms by (auto simp: index_insert_or_update_inner_def Let_def)

lemma index_insert_inner_pairs:
  "set (unwrap_or [] (ob_pairs_existing_for_base (index_insert_or_update_inner x ob) b)) =
     set (unwrap_or [] (ob_pairs_existing_for_base ob b)) \<union> (if b = oi_base x then {oi_rel x} else {})"
  "set (unwrap_or [] (ob_pairs_existing_for_rel (index_insert_or_update_inner x ob) r)) =
     set (unwrap_or [] (ob_pairs_existing_for_rel ob r)) \<union> (if r = oi_rel x then {oi_base x} else {})"
  by (auto simp: index_insert_or_update_inner_def Let_def)

text \<open>An order keeps its pair when the order it replaces, if there is one, has the same pair.\<close>

definition keeps_pair :: "orderbook \<Rightarrow> orderbook_item \<Rightarrow> bool" where
  "keeps_pair ob x \<longleftrightarrow> (case ob_order_set ob (oi_uuid x) of Some y \<Rightarrow> oi_pair y = oi_pair x | None \<Rightarrow> True)"

lemma index_insert_inner_orders_of:
  assumes "keeps_pair ob x"
  shows "ob_orders_of (index_insert_or_update_inner x ob) br = (if br = oi_pair x
    then insert x {y \<in> ob_orders_of ob br. oi_uuid y \<noteq> oi_uuid x} else ob_orders_of ob br)"
proof -
  have "y \<in> ob_orders_of (index_insert_or_update_inner x ob) br \<longleftrightarrow>
      (if oi_uuid y = oi_uuid x then y = x \<and> br = oi_pair x else y \<in> ob_orders_of ob br)" for y
    by (cases "oi_uuid y = oi_uuid x") (auto simp: mem_ob_orders_of)
  moreover have "oi_uuid y \<noteq> oi_uuid x" if "y \<in> ob_orders_of ob br" "br \<noteq> oi_pair x" for y
    using that assms by (cases "oi_uuid y = oi_uuid x") (auto simp: mem_ob_orders_of keeps_pair_def)
  ultimately show ?thesis by (cases "br = oi_pair x") (simp_all add: set_eq_iff, blast+)
qed

lemma index_insert_inner_ordered:
  assumes inv: "ob_inv ob" and kp: "keeps_pair ob x"
  shows "bt_wf (ordered_at (index_insert_or_update_inner x ob) br)
    \<and> set (ordered_at (index_insert_or_update_inner x ob) br)
      = ordered_key ` ob_orders_of (index_insert_or_update_inner x ob) br"
proof (cases "br = oi_pair x")
  case False
  then show ?thesis
    using ob_inv_ordered[OF inv] by (simp add: index_insert_inner_ordered_at index_insert_inner_orders_of[OF kp])
next
  case True
  let ?s = "ordered_at ob br"
  let ?s' = "case find (\<lambda>e. ob_uuid e = oi_uuid x) ?s of Some e \<Rightarrow> bt_remove e ?s | None \<Rightarrow> ?s"
  have s: "bt_wf ?s" "set ?s = ordered_key ` ob_orders_of ob br" using ob_inv_ordered[OF inv] by blast+
  have uniq: "e = e'" if e: "e \<in> set ?s" "e' \<in> set ?s" and u: "ob_uuid e = ob_uuid e'" for e e'
  proof -
    obtain y y' where "e = ordered_key y" "e' = ordered_key y'" "y \<in> ob_orders_of ob br" "y' \<in> ob_orders_of ob br"
      using e unfolding s by blast
    then show ?thesis using u inj_onD[OF ob_orders_of_uuid_inj[of ob br], of y y'] by simp
  qed
  have "bt_wf ?s' \<and> set ?s' = {e \<in> set ?s. ob_uuid e \<noteq> oi_uuid x}"
  proof (cases "find (\<lambda>e. ob_uuid e = oi_uuid x) ?s")
    case None
    then have "\<forall>e \<in> set ?s. ob_uuid e \<noteq> oi_uuid x" by (auto simp only: find_None_iff)
    then show ?thesis using s(1) unfolding None option.case by blast
  next
    case (Some e)
    then have e: "e \<in> set ?s" "ob_uuid e = oi_uuid x" by (auto simp only: find_Some_iff nth_mem)
    have "set (bt_remove e ?s) = {e \<in> set ?s. ob_uuid e \<noteq> oi_uuid x}"
    proof -
      have "y \<noteq> e \<longleftrightarrow> ob_uuid y \<noteq> oi_uuid x" if "y \<in> set ?s" for y
        using uniq[OF e(1) that] e(2) by metis
      then show ?thesis unfolding bt.set_rem[OF s(1)] by blast
    qed
    then show ?thesis using Some bt.wf_rem[OF s(1)] by simp
  qed
  then have wf: "bt_wf ?s'" and set: "set ?s' = {e \<in> set ?s. ob_uuid e \<noteq> oi_uuid x}" by blast+
  have "ordered_key ` ob_orders_of (index_insert_or_update_inner x ob) br
      = insert (ordered_key x) {e \<in> set ?s. ob_uuid e \<noteq> oi_uuid x}"
    unfolding index_insert_inner_orders_of[OF kp] s using True by auto
  then show ?thesis
    unfolding index_insert_inner_ordered_at if_P[OF True] using bt.wf_ins[OF wf] bt.set_ins[OF wf] set by simp
qed

lemma index_insert_inner_inv:
  assumes inv: "ob_inv ob" and kp: "keeps_pair ob x" and t: "oi_tradable x"
  shows "ob_inv (index_insert_or_update_inner x ob)"
proof -
  let ?ob = "index_insert_or_update_inner x ob"
  have "distinct (unordered_at ?ob br) \<and> set (unordered_at ?ob br) = oi_uuid ` ob_orders_of ?ob br" for br
    using ob_inv_unordered[OF inv, of br]
    by (auto simp: index_insert_inner_unordered_at index_insert_inner_orders_of[OF kp])
  then show ?thesis
    using inv t index_insert_inner_ordered[OF inv kp] index_insert_inner_no_empty[of ob _ x]
    by (auto simp: ob_inv_def index_insert_inner_pairs)
qed

subsection \<open>The whole operations\<close>

definition ob_admits :: "orderbook \<Rightarrow> orderbook_item \<Rightarrow> bool" where
  "ob_admits ob x \<longleftrightarrow> ob_recently_cancelled ob (oi_uuid x) \<noteq> Some (oi_pubkey x)"

lemma index_insert_fst:
  "fst (index_insert_or_update x ob) = (if ob_admits ob x
     then if oi_tradable x then index_insert_or_update_inner x ob else fst (index_remove (oi_uuid x) ob) else ob)"
  by (auto simp: index_insert_or_update_def ob_admits_def oi_tradable_def not_le not_less split: prod.splits option.splits)

lemma index_insert_snd:
  "snd (index_insert_or_update x ob) = (if ob_admits ob x
     then if oi_tradable x then [TrieInsert (oi_pubkey x) (oi_alb_pair x) (oi_uuid x) x]
       else (case ob_order_set ob (oi_uuid x) of
           Some y \<Rightarrow> [TrieRemove (oi_pubkey y) (oi_alb_pair y) (oi_uuid x)] | None \<Rightarrow> [])
     else [])"
  using index_remove_result[of "oi_uuid x" ob]
  by (auto simp: index_insert_or_update_def ob_admits_def oi_tradable_def oi_alb_pair_def not_le not_less
      split: prod.splits option.splits)

lemma index_insert_frame [simp]:
  "ob_recently_cancelled (fst (index_insert_or_update x ob)) = ob_recently_cancelled ob"
  "ob_my_p2p_pubkeys (fst (index_insert_or_update x ob)) = ob_my_p2p_pubkeys ob"
  by (simp_all add: index_insert_fst)

lemma index_insert_order_set:
  "ob_order_set (fst (index_insert_or_update x ob)) = (if ob_admits ob x
     then (ob_order_set ob)(oi_uuid x := if oi_tradable x then Some x else None) else ob_order_set ob)"
  by (simp add: index_insert_fst)

text \<open>
  The contract of the index towards its callers: a keyed store of valid values, whose class (here
  the pair) a key keeps, where putting an invalid value deletes and an inadmissible one is ignored.
\<close>

locale keyed_index =
  fixes inv :: "'s \<Rightarrow> bool" and look :: "'s \<Rightarrow> 'k \<Rightarrow> 'v option" and key :: "'v \<Rightarrow> 'k"
    and cls :: "'v \<Rightarrow> 'c" and valid :: "'v \<Rightarrow> bool" and admits :: "'s \<Rightarrow> 'v \<Rightarrow> bool"
    and put :: "'v \<Rightarrow> 's \<Rightarrow> 's" and del :: "'k \<Rightarrow> 's \<Rightarrow> 's"
  assumes key_look: "inv s \<Longrightarrow> look s k = Some v \<Longrightarrow> key v = k \<and> valid v"
    and inv_put: "inv s \<Longrightarrow> (\<And>w. look s (key v) = Some w \<Longrightarrow> cls w = cls v) \<Longrightarrow> inv (put v s)"
    and inv_del: "inv s \<Longrightarrow> inv (del k s)"
    and look_put: "look (put v s) k = (if k = key v \<and> admits s v then (if valid v then Some v else None) else look s k)"
    and look_del: "look (del k' s) k = (if k = k' then None else look s k)"
    and admits_put: "admits (put v s) w = admits s w"
    and admits_del: "admits (del k s) w = admits s w"
begin

lemma admits_fold_put: "admits (fold put vs s) w = admits s w"
  by (induction vs arbitrary: s) (simp_all add: admits_put)

lemma inv_fold_del: "inv s \<Longrightarrow> inv (fold del ks s)"
  by (induction ks arbitrary: s) (simp_all add: inv_del)

lemma look_fold_del: "look (fold del ks s) k = (if k \<in> set ks then None else look s k)"
  by (induction ks arbitrary: s) (auto simp: look_del)

text \<open>Putting a batch keeps the invariant when every key keeps its class, within the batch and
  with respect to the store.\<close>

lemma inv_fold_put:
  assumes "inv s" and "\<And>v w. v \<in> set vs \<Longrightarrow> look s (key v) = Some w \<Longrightarrow> cls w = cls v"
    and "\<And>v w. v \<in> set vs \<Longrightarrow> w \<in> set vs \<Longrightarrow> key v = key w \<Longrightarrow> cls v = cls w"
  shows "inv (fold put vs s)"
  using assms
proof (induction vs arbitrary: s)
  case (Cons v vs)
  have "inv (put v s)" by (rule inv_put[OF Cons.prems(1)], rule Cons.prems(2)) simp_all
  moreover have "cls w = cls u" if "u \<in> set vs" "look (put v s) (key u) = Some w" for u w
  proof (cases "key u = key v \<and> admits s v")
    case True
    then have "w = v" "key v = key u" using that(2) unfolding look_put by (simp_all split: if_splits)
    with Cons.prems(3)[of v u] that(1) show ?thesis by simp
  next
    case False
    then have "look s (key u) = Some w" using that(2) unfolding look_put by (simp only: if_False)
    with Cons.prems(2)[of u w] that(1) show ?thesis by simp
  qed
  moreover have "cls u = cls w" if "u \<in> set vs" "w \<in> set vs" "key u = key w" for u w
    using Cons.prems(3)[of u w] that by simp
  ultimately have "inv (fold put vs (put v s))" by (rule Cons.IH)
  then show ?case by simp
next
  case Nil
  from Nil(1) show ?case by simp
qed

lemma look_fold_put_other: "k \<notin> key ` set vs \<Longrightarrow> look (fold put vs s) k = look s k"
  by (induction vs arbitrary: s) (auto simp: look_put)

lemma look_fold_put:
  assumes "distinct (map key vs)" "v \<in> set vs"
  shows "look (fold put vs s) (key v) = (if admits s v then if valid v then Some v else None else look s (key v))"
  using assms
proof (induction vs arbitrary: s)
  case (Cons u us)
  show ?case
  proof (cases "v = u")
    case True
    then show ?thesis using Cons.prems look_fold_put_other[of "key v" us "put v s"] by (simp add: look_put)
  next
    case False
    then have v: "v \<in> set us" using Cons.prems(2) by simp
    then have "key v \<noteq> key u" using Cons.prems(1) by (auto simp: image_iff)
    with v show ?thesis using Cons.IH[of "put u s"] Cons.prems by (simp add: look_put admits_put)
  qed
qed simp

end

interpretation idx: keyed_index ob_inv ob_order_set oi_uuid oi_pair oi_tradable ob_admits
  "\<lambda>x ob. fst (index_insert_or_update x ob)" "\<lambda>u ob. fst (index_remove u ob)"
proof unfold_locales
  show "ob_inv ob \<Longrightarrow> ob_order_set ob u = Some x \<Longrightarrow> oi_uuid x = u \<and> oi_tradable x" for ob u x
    by (rule ob_inv_order)
  show "ob_inv (fst (index_insert_or_update x ob))"
    if "ob_inv ob" "\<And>w. ob_order_set ob (oi_uuid x) = Some w \<Longrightarrow> oi_pair w = oi_pair x" for ob x
  proof -
    have "keeps_pair ob x" using that(2) by (simp add: keeps_pair_def split: option.splits)
    then show ?thesis using that(1) by (simp add: index_insert_fst index_insert_inner_inv index_remove_inv)
  qed
qed (auto simp: index_remove_inv index_insert_order_set ob_admits_def)

subsection \<open>Removing what a peer has on a pair\<close>

lemma index_remove_if_of_pubkey_order_set:
  "ob_order_set (index_remove_if_of_pubkey pk u ob) v =
    (case ob_order_set ob v of Some x \<Rightarrow> if v = u \<and> oi_pubkey x = pk then None else Some x | None \<Rightarrow> None)"
  by (auto simp: index_remove_if_of_pubkey_def split: option.splits)

lemma index_remove_if_of_pubkey_frame [simp]:
  "ob_recently_cancelled (index_remove_if_of_pubkey pk u ob) = ob_recently_cancelled ob"
  "ob_my_p2p_pubkeys (index_remove_if_of_pubkey pk u ob) = ob_my_p2p_pubkeys ob"
  by (auto simp: index_remove_if_of_pubkey_def split: option.splits)

lemma index_remove_if_of_pubkey_inv: "ob_inv ob \<Longrightarrow> ob_inv (index_remove_if_of_pubkey pk u ob)"
  by (auto simp: index_remove_if_of_pubkey_def index_remove_inv split: option.splits)

lemma fold_remove_if_of_pubkey:
  "ob_order_set (fold (index_remove_if_of_pubkey pk) us ob) v =
    (case ob_order_set ob v of Some x \<Rightarrow> if v \<in> set us \<and> oi_pubkey x = pk then None else Some x | None \<Rightarrow> None)"
  by (induction us arbitrary: ob) (auto simp: index_remove_if_of_pubkey_order_set split: option.splits)

lemma fold_remove_if_of_pubkey_inv: "ob_inv ob \<Longrightarrow> ob_inv (fold (index_remove_if_of_pubkey pk) us ob)"
  by (rule fold_invariant_set) (simp_all add: index_remove_if_of_pubkey_inv)

lemma fold_remove_if_of_pubkey_frame [simp]:
  "ob_recently_cancelled (fold (index_remove_if_of_pubkey pk) us ob) = ob_recently_cancelled ob"
  "ob_my_p2p_pubkeys (fold (index_remove_if_of_pubkey pk) us ob) = ob_my_p2p_pubkeys ob"
  by (induction us arbitrary: ob) simp_all

lemma remove_pubkey_pair_step:
  "(case ob_unordered ob pair of Some uuids \<Rightarrow> fold (index_remove_if_of_pubkey pk) uuids ob | None \<Rightarrow> ob)
    = fold (index_remove_if_of_pubkey pk) (unordered_at ob pair) ob"
  by (simp add: unordered_at_def split: option.splits)

lemma index_remove_pubkey_pair_orders_eq:
  assumes "str_split_once (CHR '':'') alb = Some (b, r)"
  shows "index_remove_pubkey_pair_orders pk alb ob =
    (let ob' = fold (index_remove_if_of_pubkey pk) (unordered_at ob (b, r)) ob
     in fold (index_remove_if_of_pubkey pk) (unordered_at ob' (r, b)) ob')"
  using assms by (simp add: index_remove_pubkey_pair_orders_def remove_pubkey_pair_step Let_def)

lemma index_remove_pubkey_pair_orders_inv:
  "ob_inv ob \<Longrightarrow> ob_inv (index_remove_pubkey_pair_orders pk alb ob)"
  by (auto simp: index_remove_pubkey_pair_orders_eq index_remove_pubkey_pair_orders_def Let_def
      fold_remove_if_of_pubkey_inv split: option.splits)

lemma index_remove_pubkey_pair_orders_frame [simp]:
  "ob_recently_cancelled (index_remove_pubkey_pair_orders pk alb ob) = ob_recently_cancelled ob"
  "ob_my_p2p_pubkeys (index_remove_pubkey_pair_orders pk alb ob) = ob_my_p2p_pubkeys ob"
  by (auto simp: index_remove_pubkey_pair_orders_def split: option.splits prod.splits)

lemma mem_unordered_at:
  "ob_inv ob \<Longrightarrow> u \<in> set (unordered_at ob br) \<longleftrightarrow> (\<exists>x. ob_order_set ob u = Some x \<and> oi_pair x = br)"
  by (simp add: ob_inv_unordered image_iff Bex_def mem_ob_orders_of) (metis ob_inv_order)

lemma index_remove_pubkey_pair_orders_order_set:
  assumes inv: "ob_inv ob" and alb: "str_split_once (CHR '':'') alb = Some (b, r)"
  shows "ob_order_set (index_remove_pubkey_pair_orders pk alb ob) u =
    (case ob_order_set ob u of
       Some x \<Rightarrow> if oi_pubkey x = pk \<and> oi_pair x \<in> {(b, r), (r, b)} then None else Some x
     | None \<Rightarrow> None)"
proof -
  let ?ob = "fold (index_remove_if_of_pubkey pk) (unordered_at ob (b, r)) ob"
  have inv': "ob_inv ?ob" by (rule fold_remove_if_of_pubkey_inv[OF inv])
  let ?us = "unordered_at ?ob (r, b)"
  have main: "ob_order_set (index_remove_pubkey_pair_orders pk alb ob) u =
      ob_order_set (fold (index_remove_if_of_pubkey pk) ?us ?ob) u"
    by (simp only: index_remove_pubkey_pair_orders_eq[OF alb] Let_def)
  show ?thesis
  proof (cases "ob_order_set ob u")
    case None
    then show ?thesis by (simp add: main fold_remove_if_of_pubkey)
  next
    case (Some x)
    have 1: "u \<in> set (unordered_at ob (b, r)) \<longleftrightarrow> oi_pair x = (b, r)"
      using Some by (simp only: mem_unordered_at[OF inv]) auto
    have 2: "ob_order_set ?ob u = (if oi_pair x = (b, r) \<and> oi_pubkey x = pk then None else Some x)"
      by (simp only: fold_remove_if_of_pubkey Some 1 option.case)
    have 3: "u \<in> set ?us \<longleftrightarrow> oi_pair x = (r, b)" if "ob_order_set ?ob u = Some x"
      using that by (simp only: mem_unordered_at[OF inv']) auto
    show ?thesis
    proof (cases "oi_pair x = (b, r) \<and> oi_pubkey x = pk")
      case True
      then have "ob_order_set ?ob u = None" unfolding 2 by (rule if_P)
      then show ?thesis using True Some by (simp add: main fold_remove_if_of_pubkey[of pk ?us])
    next
      case False
      then have "ob_order_set ?ob u = Some x" unfolding 2 by (rule if_not_P)
      then show ?thesis
        using False Some 3 by (auto simp add: main fold_remove_if_of_pubkey[of pk ?us])
    qed
  qed
qed

section \<open>Reachable indices\<close>

text \<open>What the service does to its index, one call at a time. An insertion keeps the pair of the
  order it replaces.\<close>

inductive ob_step :: "orderbook \<Rightarrow> orderbook \<Rightarrow> bool" where
  Insert: "keeps_pair ob x \<Longrightarrow> ob_step ob (fst (index_insert_or_update x ob))"
| Remove: "ob_step ob (fst (index_remove u ob))"
| RemovePeer: "ob_step ob (index_remove_pubkey_pair_orders pk alb ob)"
| MarkCancelled: "ob_step ob (ob\<lparr>ob_recently_cancelled := (ob_recently_cancelled ob)(u \<mapsto> pk)\<rparr>)"
| Expire: "ob_step ob (expire_recently_cancelled us ob)"
| MyKeys: "ob_step ob (ob\<lparr>ob_my_p2p_pubkeys := ks\<rparr>)"

definition ob_reachable :: "orderbook \<Rightarrow> bool" where
  "ob_reachable ob \<longleftrightarrow> ob_step\<^sup>*\<^sup>* orderbook_new ob"

lemma ob_inv_frame:
  assumes "ob_order_set ob' = ob_order_set ob" "ob_ordered ob' = ob_ordered ob"
    "ob_unordered ob' = ob_unordered ob" "ob_pairs_existing_for_base ob' = ob_pairs_existing_for_base ob"
    "ob_pairs_existing_for_rel ob' = ob_pairs_existing_for_rel ob"
  shows "ob_inv ob' = ob_inv ob"
  using assms by (simp add: ob_inv_def ordered_at_def unordered_at_def ob_orders_of_def)

lemma ob_step_inv: "ob_step ob ob' \<Longrightarrow> ob_inv ob \<Longrightarrow> ob_inv ob'"
proof (induction rule: ob_step.induct)
  case (Insert ob x)
  then show ?case by (simp add: index_insert_fst index_insert_inner_inv index_remove_inv)
next
  case (MarkCancelled ob u pk)
  then show ?case by (subst ob_inv_frame[of _ ob]) simp_all
next
  case (MyKeys ob ks)
  then show ?case by (subst ob_inv_frame[of _ ob]) simp_all
qed (simp_all add: index_remove_inv index_remove_pubkey_pair_orders_inv)

lemma ob_reachable_inv: "ob_reachable ob \<Longrightarrow> ob_inv ob"
  unfolding ob_reachable_def
  by (induction rule: rtranclp_induct) (simp_all add: orderbook_new_inv ob_step_inv)

lemma ob_reachable_step: "ob_reachable ob \<Longrightarrow> ob_step ob ob' \<Longrightarrow> ob_reachable ob'"
  unfolding ob_reachable_def by (rule rtranclp.rtrancl_into_rtrancl)

lemma ob_reachable_insert:
  "ob_reachable ob \<Longrightarrow> keeps_pair ob x \<Longrightarrow> ob_reachable (fst (index_insert_or_update x ob))"
  by (rule ob_reachable_step, assumption, rule ob_step.Insert)

lemma ob_reachable_new [simp]: "ob_reachable orderbook_new"
  by (simp add: ob_reachable_def)

lemma ordered_at_uuids:
  assumes "ob_inv ob"
  shows "set (map ob_uuid (ordered_at ob br)) = set (unordered_at ob br)"
proof -
  have "ob_uuid ` ordered_key ` ob_orders_of ob br = oi_uuid ` ob_orders_of ob br"
    by (simp add: image_image)
  then show ?thesis using ob_inv_ordered[OF assms, of br] ob_inv_unordered[OF assms, of br] by simp
qed

lemma ordered_at_prices: "ob_inv ob \<Longrightarrow> sorted (map ob_price (ordered_at ob br))"
  using ob_inv_ordered[of ob br] by (auto simp: sorted_map intro: sorted_wrt_mono_rel ordered_le_price)

lemma order_is_listed: "ob_inv ob \<Longrightarrow> ob_order_set ob u = Some x \<Longrightarrow> u \<in> set (unordered_at ob (oi_pair x))"
  by (auto simp: mem_unordered_at)

section \<open>Properties\<close>


definition demo_item :: "uuid \<Rightarrow> string \<Rightarrow> rat \<Rightarrow> orderbook_item" where
  "demo_item u pk p = \<lparr>oi_pubkey = pk, oi_base = ''KMD'', oi_rel = ''XFG'', oi_price = p,
     oi_max_volume = 10, oi_min_volume = 1, oi_uuid = u, oi_created_at = 1000,
     oi_base_protocol_info = [], oi_rel_protocol_info = [], oi_conf_settings = Some demo_conf\<rparr>"

definition demo_orderbook :: orderbook where
  "demo_orderbook = fst (index_insert_or_update (demo_item 2 ''pk'' 3)
     (fst (index_insert_or_update (demo_item 1 ''pk'' 5) orderbook_new)))"

lemma demo_orderbook_reachable: "ob_reachable demo_orderbook"
  unfolding demo_orderbook_def
  by (intro ob_reachable_insert ob_reachable_new)
    (simp_all add: keeps_pair_def index_insert_order_set orderbook_new_def demo_item_def)

lemma demo_orderbook_order: "ob_order_set demo_orderbook 2 = Some (demo_item 2 ''pk'' 3)"
  by (simp add: demo_orderbook_def index_insert_order_set ob_admits_def orderbook_new_def demo_item_def oi_tradable_def)


text \<open>Without that restriction the index does not stay consistent. \<open>index_insert_or_update\<close> does not
  look at the order it replaces, so an order that comes back under the same uuid for another pair
  stays listed for the old pair, in both sets, where the uuid now finds an order of the other pair;
  and since the sender is not compared either, a peer can take over the uuid of another peer's
  order.\<close>

theorem orderbook_pair_change_leaves_stale_entries:
  "\<exists>x y. let ob1 = fst (index_insert_or_update x orderbook_new);
            ob2 = fst (index_insert_or_update y ob1) in
     ob_inv ob1 \<and> oi_pubkey x \<noteq> oi_pubkey y \<and> oi_pair x \<noteq> oi_pair y
     \<and> ob_order_set ob2 (oi_uuid x) = Some y
     \<and> oi_uuid x \<in> set (unordered_at ob2 (oi_pair x)) \<and> ordered_key x \<in> set (ordered_at ob2 (oi_pair x))
     \<and> oi_uuid y \<in> set (unordered_at ob2 (oi_pair y)) \<and> \<not> ob_inv ob2"
proof -
  let ?x = "demo_item 1 ''alice'' 5"
  let ?y = "(demo_item 1 ''mallory'' 5)\<lparr>oi_rel := ''BTC''\<rparr>"
  let ?ob1 = "fst (index_insert_or_update ?x orderbook_new)"
  let ?ob2 = "fst (index_insert_or_update ?y ?ob1)"
  have t: "oi_tradable ?x" "oi_tradable ?y" "ob_admits orderbook_new ?x" "ob_admits ?ob1 ?y"
    by (simp_all add: oi_tradable_def demo_item_def ob_admits_def orderbook_new_def)
  have new: "unordered_at orderbook_new br = []" "ordered_at orderbook_new br = []" for br
    by (simp_all add: unordered_at_def ordered_at_def orderbook_new_def)
  have "ob_inv ?ob1"
    by (rule ob_step_inv[OF ob_step.Insert orderbook_new_inv]) (simp add: keeps_pair_def orderbook_new_def)
  moreover have o2: "ob_order_set ?ob2 1 = Some ?y"
    using t(2,4) by (simp add: index_insert_order_set demo_item_def)
  moreover have u2: "1 \<in> set (unordered_at ?ob2 (''KMD'', ''XFG''))" "1 \<in> set (unordered_at ?ob2 (''KMD'', ''BTC''))"
    using t by (simp_all add: index_insert_fst index_insert_inner_unordered_at demo_item_def)
  moreover have "ordered_key ?x \<in> set (ordered_at ?ob2 (''KMD'', ''XFG''))"
    using t by (simp add: index_insert_fst index_insert_inner_ordered_at demo_item_def new bt_insert_def insort_insert_key_def)
  moreover have "\<not> ob_inv ?ob2"
    using mem_unordered_at[of ?ob2 1 "(''KMD'', ''XFG'')"] u2(1) o2 by (auto simp: demo_item_def)
  ultimately show ?thesis
    by (intro exI[of _ ?x] exI[of _ ?y]) (simp add: Let_def demo_item_def)
qed

end
