(* ===== verification/Trie_Store.thy ===== *)
theory Trie_Store
  imports Orderbook
begin

text \<open>
  The trie store (\<open>TrieStore\<close>, \<open>TrieDiffHistory\<close>, \<open>OrderbookPubkeyState\<close> and \<open>DeltaOrFullTrie\<close> in
  \<open>mm2_main/src/lp_ordermatch.rs\<close>): per peer and pair the root of the trie of its orders, the
  history of root changes from which a delta is answered, and the uuids known of the peer.

  The Patricia trie itself is the third-party crate \<open>sp_trie\<close> and the order's serialisation is
  \<open>rmp_serde\<close>: both are the record \<open>trie_lib\<close> of functions, an argument of the definitions. The
  histories sit in timed maps whose entries the environment may drop at any time
  (\<open>expire_diffs\<close>, \<open>expire_histories\<close>).
\<close>

section \<open>The history of root changes\<close>

record ('k, 'v) trie_diff =
  td_delta :: "('k \<times> 'v option) list"
  td_next_root :: h64

type_synonym ('k, 'v) trie_diff_history = "(h64, ('k, 'v) trie_diff) hash_map"

lemma length_hm_delete:
  "map_of h k = Some v \<Longrightarrow> length (AList.delete k h) < length h"
  unfolding AList.delete_eq by (rule length_filter_less[where x = "(k, v)"]) (auto dest: map_of_SomeD)

text \<open>\<open>while let Some(next_diff) = self.inner.remove(&diff.next_root)\<close>\<close>

function remove_diff_chain :: "('k, 'v) trie_diff \<Rightarrow> ('k, 'v) trie_diff_history \<Rightarrow> ('k, 'v) trie_diff_history" where
  "remove_diff_chain diff h = (case map_of h (td_next_root diff) of
     Some next_diff \<Rightarrow> remove_diff_chain next_diff (AList.delete (td_next_root diff) h)
   | None \<Rightarrow> h)"
  by pat_completeness auto
termination
  by (relation "measure (\<lambda>(d, h). length h)") (auto intro: length_hm_delete)

declare remove_diff_chain.simps [simp del]

definition insert_new_diff :: "h64 \<Rightarrow> ('k, 'v) trie_diff \<Rightarrow> ('k, 'v) trie_diff_history \<Rightarrow> ('k, 'v) trie_diff_history" where
  "insert_new_diff insert_at diff h =
    (if insert_at = td_next_root diff then h
     else case map_of h (td_next_root diff) of
         Some diff' \<Rightarrow> remove_diff_chain diff' (AList.delete (td_next_root diff) h)
       | None \<Rightarrow> AList.update insert_at diff h)"

definition expire_diffs :: "h64 set \<Rightarrow> ('k, 'v) trie_diff_history \<Rightarrow> ('k, 'v) trie_diff_history" where
  "expire_diffs rs h = filter (\<lambda>(r, d). r \<notin> rs) h"

section \<open>Answering with a delta or the whole trie\<close>

datatype ('k, 'v) delta_or_full_trie = Delta "('k, 'v option) hash_map" | FullTrie "('k \<times> 'v) list"

datatype trie_diff_history_error = TrieDbError | TryFromBytesError | GetterNoneForKeyFromTrie

definition hm_extend :: "('k \<times> 'v) list \<Rightarrow> ('k, 'v) hash_map \<Rightarrow> ('k, 'v) hash_map" where
  "hm_extend kvs m = fold (\<lambda>(k, v) m. AList.update k v m) kvs m"

text \<open>The loop of \<open>from_history\<close>. It has no bound of its own: not returning is \<open>None\<close>.\<close>

partial_function (option) walk_history :: "('k, 'v) trie_diff_history \<Rightarrow> ('k, 'v) trie_diff \<Rightarrow>
    ('k, 'v option) hash_map \<Rightarrow> (('k, 'v) trie_diff \<times> ('k, 'v option) hash_map) option" where
  "walk_history h current_delta total_delta = (case map_of h (td_next_root current_delta) of
     Some cur \<Rightarrow> walk_history h cur (hm_extend (td_delta cur) total_delta)
   | None \<Rightarrow> Some (current_delta, total_delta))"

fun collect_results :: "('a \<Rightarrow> ('e, 'b) rust_result) \<Rightarrow> 'a list \<Rightarrow> ('e, 'b list) rust_result" where
  "collect_results f [] = Ok []"
| "collect_results f (x # xs) = rbind (f x) (\<lambda>y. rbind (collect_results f xs) (\<lambda>ys. Ok (y # ys)))"

definition get_full_trie :: "('db \<Rightarrow> h64 \<Rightarrow> (bytes \<times> bytes) list option) \<Rightarrow> (bytes \<Rightarrow> 'k option) \<Rightarrow>
    h64 \<Rightarrow> 'db \<Rightarrow> ('k \<Rightarrow> 'v option) \<Rightarrow> (trie_diff_history_error, ('k \<times> 'v) list) rust_result" where
  "get_full_trie trie_iter try_from_bytes trie_root db getter = (case trie_iter db trie_root of
     None \<Rightarrow> Err TrieDbError
   | Some kvs \<Rightarrow> collect_results (\<lambda>(key, _). case try_from_bytes key of
         None \<Rightarrow> Err TryFromBytesError
       | Some k \<Rightarrow> (case getter k of None \<Rightarrow> Err GetterNoneForKeyFromTrie | Some v \<Rightarrow> Ok (k, v))) kvs)"

text \<open>The outer option is the loop's: \<open>None\<close> when it does not end.\<close>

definition delta_from_history :: "('db \<Rightarrow> h64 \<Rightarrow> (bytes \<times> bytes) list option) \<Rightarrow> (bytes \<Rightarrow> 'k option) \<Rightarrow>
    ('k, 'v) trie_diff_history \<Rightarrow> h64 \<Rightarrow> h64 \<Rightarrow> 'db \<Rightarrow> ('k \<Rightarrow> 'v option) \<Rightarrow>
    (trie_diff_history_error, ('k, 'v) delta_or_full_trie) rust_result option" where
  "delta_from_history trie_iter try_from_bytes history from_hash actual_trie_root db getter =
    (let full = rbind (get_full_trie trie_iter try_from_bytes actual_trie_root db getter) (\<lambda>t. Ok (FullTrie t)) in
     case map_of history from_hash of
       Some delta \<Rightarrow> (case walk_history history delta (hm_extend (td_delta delta) []) of
           None \<Rightarrow> None
         | Some (current_delta, total_delta) \<Rightarrow>
             if td_next_root current_delta = actual_trie_root then Some (Ok (Delta total_delta)) else Some full)
     | None \<Rightarrow> Some full)"

section \<open>The store\<close>

record ('db, 't) trie_lib =
  tl_new :: "'db \<Rightarrow> 't"
  tl_from_existing :: "'db \<Rightarrow> h64 \<Rightarrow> 't option"
  tl_insert :: "'t \<Rightarrow> bytes \<Rightarrow> bytes \<Rightarrow> bool \<times> 't"
  tl_commit :: "'t \<Rightarrow> 'db \<times> h64"
  tl_delta_root_remove :: "'db \<Rightarrow> h64 \<Rightarrow> bytes \<Rightarrow> 'db \<times> h64 option"
  tl_iter :: "'db \<Rightarrow> h64 \<Rightarrow> (bytes \<times> bytes) list option"
  tl_hashed_null_node :: h64
  tl_trie_state_bytes :: "orderbook_item \<Rightarrow> bytes"

definition uuid_as_bytes :: "uuid \<Rightarrow> bytes" where
  "uuid_as_bytes u = map (\<lambda>i. ucast (drop_bit (8 * (15 - i)) u)) [0..<16]"

definition uuid_from_slice :: "bytes \<Rightarrow> uuid option" where
  "uuid_from_slice bs = (if length bs = 16 then Some (foldl (\<lambda>a b. push_bit 8 a + ucast b) 0 bs) else None)"

type_synonym trie_order_history = "(uuid, orderbook_item) trie_diff_history"

record orderbook_pubkey_state =
  ps_last_keep_alive :: u64
  ps_order_pairs_trie_state_history :: "string \<rightharpoonup> trie_order_history"
  ps_orders_uuids :: "(uuid \<times> string) set"
  ps_trie_roots :: "(string, h64) hash_map"

definition pubkey_state_new :: "u64 \<Rightarrow> orderbook_pubkey_state" where
  "pubkey_state_new now = \<lparr>ps_last_keep_alive = now, ps_order_pairs_trie_state_history = Map.empty,
     ps_orders_uuids = {}, ps_trie_roots = []\<rparr>"

record 'db trie_store =
  ts_pubkeys_state :: "string \<rightharpoonup> orderbook_pubkey_state"
  ts_memory_db :: 'db

definition pubkey_state_mut :: "u64 \<Rightarrow> (string \<rightharpoonup> orderbook_pubkey_state) \<Rightarrow> string \<Rightarrow> orderbook_pubkey_state" where
  "pubkey_state_mut now state from_pubkey = unwrap_or (pubkey_state_new now) (state from_pubkey)"

definition order_pair_root :: "(string, h64) hash_map \<Rightarrow> string \<Rightarrow> h64" where
  "order_pair_root roots pair = unwrap_or 0 (map_of roots pair)"

definition get_trie_mut :: "('db, 't) trie_lib \<Rightarrow> 'db \<Rightarrow> h64 \<Rightarrow> 't option" where
  "get_trie_mut lib mem_db trie_root =
    (if trie_root = 0 then Some (tl_new lib mem_db) else tl_from_existing lib mem_db trie_root)"

definition record_diff :: "bool \<Rightarrow> string \<Rightarrow> h64 \<Rightarrow> (uuid, orderbook_item) trie_diff \<Rightarrow>
    (string \<rightharpoonup> trie_order_history) \<Rightarrow> (string \<rightharpoonup> trie_order_history)" where
  "record_diff create alb_pair insert_at diff hs = (case hs alb_pair of
     Some history \<Rightarrow> hs(alb_pair \<mapsto> insert_new_diff insert_at diff history)
   | None \<Rightarrow> if create then hs(alb_pair \<mapsto> insert_new_diff insert_at diff []) else hs)"

definition apply_insert :: "('db, 't) trie_lib \<Rightarrow> u64 \<Rightarrow> string \<Rightarrow> string \<Rightarrow> uuid \<Rightarrow> orderbook_item \<Rightarrow>
    'db trie_store \<Rightarrow> 'db trie_store" where
  "apply_insert lib now pubkey alb_pair u order st =
    (let ps = pubkey_state_mut now (ts_pubkeys_state st) pubkey;
         prev_root = order_pair_root (ps_trie_roots ps) alb_pair;
         ps = ps\<lparr>ps_trie_roots := AList.update alb_pair prev_root (ps_trie_roots ps),
                 ps_orders_uuids := insert (u, alb_pair) (ps_orders_uuids ps)\<rparr>
     in case get_trie_mut lib (ts_memory_db st) prev_root of
       None \<Rightarrow> st\<lparr>ts_pubkeys_state := (ts_pubkeys_state st)(pubkey \<mapsto> ps)\<rparr>
     | Some pair_trie \<Rightarrow>
        (let (inserted, pair_trie) = tl_insert lib pair_trie (uuid_as_bytes u) (tl_trie_state_bytes lib order);
             (db, pair_root) = tl_commit lib pair_trie;
             ps = ps\<lparr>ps_trie_roots := AList.update alb_pair pair_root (ps_trie_roots ps)\<rparr>;
             ps = (if inserted \<and> prev_root \<noteq> 0
               then ps\<lparr>ps_order_pairs_trie_state_history := record_diff True alb_pair prev_root
                   \<lparr>td_delta = [(u, Some order)], td_next_root = pair_root\<rparr>
                   (ps_order_pairs_trie_state_history ps)\<rparr> else ps)
         in st\<lparr>ts_pubkeys_state := (ts_pubkeys_state st)(pubkey \<mapsto> ps), ts_memory_db := db\<rparr>))"

definition apply_remove :: "('db, 't) trie_lib \<Rightarrow> u64 \<Rightarrow> string \<Rightarrow> string \<Rightarrow> uuid \<Rightarrow>
    'db trie_store \<Rightarrow> 'db trie_store" where
  "apply_remove lib now pubkey alb_pair u st =
    (let ps = pubkey_state_mut now (ts_pubkeys_state st) pubkey;
         old_state = order_pair_root (ps_trie_roots ps) alb_pair;
         ps = ps\<lparr>ps_trie_roots := AList.update alb_pair old_state (ps_trie_roots ps),
                 ps_orders_uuids := ps_orders_uuids ps - {(u, alb_pair)}\<rparr>
     in if old_state = 0 \<or> old_state = tl_hashed_null_node lib
        then st\<lparr>ts_pubkeys_state := (ts_pubkeys_state st)(pubkey \<mapsto> ps)\<rparr>
        else (case tl_delta_root_remove lib (ts_memory_db st) old_state (uuid_as_bytes u) of
          (db, None) \<Rightarrow> st\<lparr>ts_pubkeys_state := (ts_pubkeys_state st)(pubkey \<mapsto> ps), ts_memory_db := db\<rparr>
        | (db, Some new_root) \<Rightarrow>
           (let ps = ps\<lparr>ps_trie_roots := AList.update alb_pair new_root (ps_trie_roots ps),
                  ps_order_pairs_trie_state_history := record_diff False alb_pair old_state
                   \<lparr>td_delta = [(u, None)], td_next_root = new_root\<rparr> (ps_order_pairs_trie_state_history ps)\<rparr>
            in st\<lparr>ts_pubkeys_state := (ts_pubkeys_state st)(pubkey \<mapsto> ps), ts_memory_db := db\<rparr>)))"

definition apply_clear_pair :: "string \<Rightarrow> string \<Rightarrow> 'db trie_store \<Rightarrow> 'db trie_store" where
  "apply_clear_pair pubkey alb_pair st = (case ts_pubkeys_state st pubkey of
     Some ps \<Rightarrow> st\<lparr>ts_pubkeys_state := (ts_pubkeys_state st)(pubkey \<mapsto>
       ps\<lparr>ps_order_pairs_trie_state_history := (ps_order_pairs_trie_state_history ps)(alb_pair := None),
          ps_orders_uuids := {(u, pair) \<in> ps_orders_uuids ps. pair \<noteq> alb_pair},
          ps_trie_roots := AList.delete alb_pair (ps_trie_roots ps)\<rparr>)\<rparr>
   | None \<Rightarrow> st)"

subsection \<open>A batch of operations\<close>

record op_group =
  og_clear :: bool
  og_inserts :: "(uuid \<times> orderbook_item) list"
  og_removes :: "uuid list"

definition op_group_default :: op_group where
  "op_group_default = \<lparr>og_clear = False, og_inserts = [], og_removes = []\<rparr>"

type_synonym op_groups = "(string \<times> string, op_group) hash_map"

definition in_group :: "string \<times> string \<Rightarrow> (op_group \<Rightarrow> op_group) \<Rightarrow> op_groups \<Rightarrow> op_groups" where
  "in_group k f groups = AList.update k (f (unwrap_or op_group_default (map_of groups k))) groups"

fun group_op :: "trie_op \<Rightarrow> op_groups \<times> string list \<Rightarrow> op_groups \<times> string list" where
  "group_op (ClearPair pubkey alb_pair) (groups, pks) =
     (in_group (pubkey, alb_pair) (\<lambda>g. g\<lparr>og_clear := True\<rparr>) groups, pks)"
| "group_op (TrieInsert pubkey alb_pair u order) (groups, pks) =
     (in_group (pubkey, alb_pair) (\<lambda>g. g\<lparr>og_inserts := og_inserts g @ [(u, order)]\<rparr>) groups, pks)"
| "group_op (TrieRemove pubkey alb_pair u) (groups, pks) =
     (in_group (pubkey, alb_pair) (\<lambda>g. g\<lparr>og_removes := og_removes g @ [u]\<rparr>) groups, pks)"
| "group_op (RemovePubkey pubkey) (groups, pks) = (groups, hs_insert pubkey pks)"

definition apply_group :: "('db, 't) trie_lib \<Rightarrow> u64 \<Rightarrow> (string \<times> string) \<times> op_group \<Rightarrow>
    'db trie_store \<Rightarrow> 'db trie_store" where
  "apply_group lib now grp st = (case grp of ((pubkey, alb_pair), g) \<Rightarrow>
     (let st = (if og_clear g then apply_clear_pair pubkey alb_pair st else st);
          st = fold (\<lambda>(u, order). apply_insert lib now pubkey alb_pair u order) (og_inserts g) st
      in fold (\<lambda>u. apply_remove lib now pubkey alb_pair u) (og_removes g) st))"

definition remove_pubkey_state :: "string \<Rightarrow> 'db trie_store \<Rightarrow> 'db trie_store" where
  "remove_pubkey_state pubkey st = st\<lparr>ts_pubkeys_state := (ts_pubkeys_state st)(pubkey := None)\<rparr>"

definition apply_ops :: "('db, 't) trie_lib \<Rightarrow> u64 \<Rightarrow> trie_op list \<Rightarrow> 'db trie_store \<Rightarrow> 'db trie_store" where
  "apply_ops lib now ops st = (let (groups, pubkeys_to_remove) = fold group_op ops ([], []) in
     fold remove_pubkey_state pubkeys_to_remove (fold (apply_group lib now) groups st))"

subsection \<open>Keep-alive messages\<close>

record sync_pubkey_orderbook_state =
  sp_pubkey :: string
  sp_trie_roots :: "(string, h64) hash_map"

definition trie_root_to_request :: "('db, 't) trie_lib \<Rightarrow> bool \<Rightarrow> (string \<Rightarrow> bool) \<Rightarrow> string \<times> h64 \<Rightarrow>
    (string, h64) hash_map \<times> (string, h64) hash_map \<Rightarrow> (string, h64) hash_map \<times> (string, h64) hash_map" where
  "trie_root_to_request lib i_am_relay is_subscribed entry acc =
    (case entry of (alb_pair, trie_root) \<Rightarrow> case acc of (roots, requested) \<Rightarrow>
     let topic = orderbook_topic_from_ordered_pair alb_pair in
     if \<not> is_subscribed topic \<and> \<not> i_am_relay then (roots, requested)
     else if trie_root = 0 \<or> trie_root = tl_hashed_null_node lib then (roots, requested)
     else let actual_trie_root = order_pair_root roots alb_pair;
              roots = AList.update alb_pair actual_trie_root roots in
          if actual_trie_root \<noteq> trie_root then (roots, AList.update alb_pair trie_root requested)
          else (roots, requested))"

definition prepare_sync_request_for_keep_alive :: "('db, 't) trie_lib \<Rightarrow> u64 \<Rightarrow> string \<Rightarrow>
    np_pubkey_keep_alive \<Rightarrow> bool \<Rightarrow> (string \<Rightarrow> bool) \<Rightarrow> 'db trie_store \<Rightarrow>
    'db trie_store \<times> sync_pubkey_orderbook_state option" where
  "prepare_sync_request_for_keep_alive lib now from_pubkey message i_am_relay is_subscribed st =
    (let ps = (pubkey_state_mut now (ts_pubkeys_state st) from_pubkey)\<lparr>ps_last_keep_alive := now\<rparr>;
         (roots, requested) = fold (trie_root_to_request lib i_am_relay is_subscribed)
           (npa_trie_roots message) (ps_trie_roots ps, []);
         st = st\<lparr>ts_pubkeys_state := (ts_pubkeys_state st)(from_pubkey \<mapsto> ps\<lparr>ps_trie_roots := roots\<rparr>)\<rparr>
     in if requested = [] then (st, None)
        else (st, Some \<lparr>sp_pubkey = from_pubkey, sp_trie_roots = requested\<rparr>))"

text \<open>What a maker announces of its own roots: one message per pair that has orders.\<close>

definition broadcast_keep_alive_for_pub :: "('db, 't) trie_lib \<Rightarrow> u64 \<Rightarrow> string \<Rightarrow> 'db trie_store \<Rightarrow>
    (string \<times> np_pubkey_keep_alive) list" where
  "broadcast_keep_alive_for_pub lib now pubkey st = (case ts_pubkeys_state st pubkey of
     None \<Rightarrow> []
   | Some state \<Rightarrow> map (\<lambda>(alb_pair, trie_root). (orderbook_topic_from_ordered_pair alb_pair,
         \<lparr>npa_trie_roots = [(alb_pair, trie_root)], npa_timestamp = now\<rparr>))
       (filter (\<lambda>(alb_pair, trie_root). trie_root \<noteq> 0 \<and> trie_root \<noteq> tl_hashed_null_node lib) (ps_trie_roots state)))"

section \<open>Histories have no cycles\<close>

definition hist_edges :: "('k, 'v) trie_diff_history \<Rightarrow> (h64 \<times> h64) set" where
  "hist_edges h = {(r, td_next_root d) |r d. map_of h r = Some d}"

definition hist_acyclic :: "('k, 'v) trie_diff_history \<Rightarrow> bool" where
  "hist_acyclic h \<longleftrightarrow> acyclic (hist_edges h)"

lemma mem_hist_edges: "(r, s) \<in> hist_edges h \<longleftrightarrow> (\<exists>d. map_of h r = Some d \<and> td_next_root d = s)"
  by (auto simp: hist_edges_def)

lemma finite_hist_edges [simp]: "finite (hist_edges h)"
proof -
  have "hist_edges h \<subseteq> (\<lambda>(r, d). (r, td_next_root d)) ` set h"
    by (auto simp: hist_edges_def image_iff dest!: map_of_SomeD)
  then show ?thesis by (rule finite_subset) simp
qed

lemma hist_acyclic_mono: "hist_acyclic h \<Longrightarrow> hist_edges h' \<subseteq> hist_edges h \<Longrightarrow> hist_acyclic h'"
  unfolding hist_acyclic_def by (rule acyclic_subset)

lemma hist_acyclic_Nil [simp]: "hist_acyclic []"
  by (simp add: hist_acyclic_def hist_edges_def acyclic_def)

lemma hist_edges_delete: "hist_edges (AList.delete k h) \<subseteq> hist_edges h"
  by (auto simp: hist_edges_def hm_get_delete split: if_splits)

lemma hist_acyclic_delete: "hist_acyclic h \<Longrightarrow> hist_acyclic (AList.delete k h)"
  by (rule hist_acyclic_mono[OF _ hist_edges_delete])

lemma hist_acyclic_remove_chain: "hist_acyclic h \<Longrightarrow> hist_acyclic (remove_diff_chain d h)"
  by (induction d h rule: remove_diff_chain.induct)
    (subst remove_diff_chain.simps, simp add: hist_acyclic_delete split: option.split)

text \<open>The new edge ends in a root without a successor, so it closes no cycle.\<close>

lemma hist_acyclic_update:
  assumes h: "hist_acyclic h" and fresh: "map_of h (td_next_root d) = None" and ne: "r \<noteq> td_next_root d"
  shows "hist_acyclic (AList.update r d h)"
proof -
  have sub: "hist_edges (AList.update r d h) \<subseteq> insert (r, td_next_root d) (hist_edges h)"
    by (auto simp: hist_edges_def hm_get_update split: if_splits)
  have "(td_next_root d, r) \<notin> (hist_edges h)\<^sup>*"
  proof
    assume "(td_next_root d, r) \<in> (hist_edges h)\<^sup>*"
    then show False by (cases rule: converse_rtranclE) (use ne fresh in \<open>auto simp: mem_hist_edges\<close>)
  qed
  then have "acyclic (insert (r, td_next_root d) (hist_edges h))"
    using h by (simp add: hist_acyclic_def acyclic_insert)
  then show ?thesis unfolding hist_acyclic_def using sub by (rule acyclic_subset)
qed

lemma insert_new_diff_acyclic: "hist_acyclic h \<Longrightarrow> hist_acyclic (insert_new_diff r d h)"
  by (auto simp: insert_new_diff_def hist_acyclic_remove_chain hist_acyclic_delete hist_acyclic_update
      split: option.splits)

text \<open>Dropping expired entries keeps a history without cycles.\<close>

lemma map_of_expire_diffs: "map_of (expire_diffs rs h) r = (if r \<in> rs then None else map_of h r)"
  unfolding expire_diffs_def by (induction h) auto

lemma hist_edges_expire: "hist_edges (expire_diffs rs h) \<subseteq> hist_edges h"
  by (auto simp: hist_edges_def map_of_expire_diffs split: if_splits)

lemma walk_history_returns:
  assumes "hist_acyclic h"
  shows "\<exists>res. walk_history h d acc = Some res"
proof -
  have "wf ((hist_edges h)\<inverse>)"
    using assms unfolding hist_acyclic_def by (rule finite_acyclic_wf_converse[OF finite_hist_edges])
  then have "\<forall>d acc. td_next_root d = r \<longrightarrow> (\<exists>res. walk_history h d acc = Some res)" for r
  proof (induction r rule: wf_induct_rule)
    case (less r)
    show ?case
    proof (intro allI impI)
      fix d :: "('a, 'b) trie_diff" and acc assume d: "td_next_root d = r"
      show "\<exists>res. walk_history h d acc = Some res"
      proof (cases "map_of h r")
        case None
        then show ?thesis by (subst walk_history.simps) (simp add: d)
      next
        case (Some c)
        then have "(td_next_root c, r) \<in> (hist_edges h)\<inverse>" by (auto simp: mem_hist_edges)
        then show ?thesis using less Some by (subst walk_history.simps) (simp add: d)
      qed
    qed
  qed
  then show ?thesis by blast
qed

section \<open>A delta is the difference\<close>

definition apply_delta :: "('k \<times> 'v option) list \<Rightarrow> ('k \<rightharpoonup> 'v) \<Rightarrow> ('k \<rightharpoonup> 'v)" where
  "apply_delta kvs m = fold (\<lambda>(k, v) m. m(k := v)) kvs m"

text \<open>What the receiver does with the total delta: every uuid once, in any order.\<close>

definition apply_total :: "('k, 'v option) hash_map \<Rightarrow> ('k \<rightharpoonup> 'v) \<Rightarrow> ('k \<rightharpoonup> 'v)" where
  "apply_total t m = (\<lambda>k. unwrap_or (m k) (map_of t k))"

text \<open>A history is sound for a reading of the roots when every entry records the change between
  the contents of its two roots.\<close>

definition diffs_sound :: "(h64 \<Rightarrow> 'k \<rightharpoonup> 'v) \<Rightarrow> ('k, 'v) trie_diff_history \<Rightarrow> bool" where
  "diffs_sound content h \<longleftrightarrow> (\<forall>r d. map_of h r = Some d \<longrightarrow>
     content (td_next_root d) = apply_delta (td_delta d) (content r))"

lemma apply_total_Nil [simp]: "apply_total [] m = m"
  by (simp add: apply_total_def)

lemma apply_total_update: "apply_total (AList.update k v t) m = (apply_total t m)(k := v)"
  by (auto simp: apply_total_def hm_get_update)

lemma apply_total_extend: "apply_total (hm_extend kvs t) m = apply_delta kvs (apply_total t m)"
  unfolding hm_extend_def apply_delta_def
  by (induction kvs arbitrary: t) (auto simp: apply_total_update)

lemma walk_history_sound:
  "walk_history h d acc = Some y \<Longrightarrow> diffs_sound content h \<Longrightarrow>
     content (td_next_root d) = apply_total acc m \<Longrightarrow>
     content (td_next_root (fst y)) = apply_total (snd y) m \<and> map_of h (td_next_root (fst y)) = None"
proof (induction h d acc y rule: walk_history.raw_induct[rotated, consumes 1, case_names Step])
  case (Step walk h d acc y)
  show ?case
  proof (cases "map_of h (td_next_root d)")
    case None
    then show ?thesis using Step(2-) by auto
  next
    case (Some c)
    then have "content (td_next_root c) = apply_total (hm_extend (td_delta c) acc) m"
      using Step(3,4) by (simp add: diffs_sound_def apply_total_extend)
    then show ?thesis using Step(1)[of h c "hm_extend (td_delta c) acc" y] Step(2,3) Some by simp
  qed
qed

lemma insert_new_diff_sound:
  assumes h: "diffs_sound content h" and d: "content (td_next_root d) = apply_delta (td_delta d) (content r)"
  shows "diffs_sound content (insert_new_diff r d h)"
proof -
  have del: "diffs_sound content (AList.delete k g)" if "diffs_sound content g" for k g
    using that by (auto simp: diffs_sound_def hm_get_delete)
  have chain: "diffs_sound content (remove_diff_chain c g)" if "diffs_sound content g" for c g
    using that by (induction c g rule: remove_diff_chain.induct)
      (subst remove_diff_chain.simps, simp add: del split: option.split)
  show ?thesis
    using assms by (auto simp: insert_new_diff_def del chain split: option.splits)
      (auto simp: diffs_sound_def hm_get_update)
qed

lemma delta_from_history_sound:
  assumes "delta_from_history it fb h from_hash actual db g = Some (Ok (Delta t))" "diffs_sound content h"
  shows "content actual = apply_total t (content from_hash)"
proof -
  obtain d y where d: "map_of h from_hash = Some d"
    and w: "walk_history h d (hm_extend (td_delta d) []) = Some y" "td_next_root (fst y) = actual" "snd y = t"
    using assms(1) by (auto simp: delta_from_history_def Let_def split: option.splits if_splits)
  have "content (td_next_root d) = apply_total (hm_extend (td_delta d) []) (content from_hash)"
    using assms(2) d by (simp add: diffs_sound_def apply_total_extend)
  from walk_history_sound[OF w(1) assms(2) this] w show ?thesis by simp
qed

lemma delta_from_history_returns: "hist_acyclic h \<Longrightarrow> \<exists>res. delta_from_history it fb h r a db g = Some res"
proof (cases "map_of h r")
  case (Some d)
  assume "hist_acyclic h"
  then obtain y where "walk_history h d (hm_extend (td_delta d) []) = Some y"
    using walk_history_returns by blast
  with Some show ?thesis by (simp add: delta_from_history_def Let_def split: prod.split)
qed (simp add: delta_from_history_def Let_def)

text \<open>The whole trie, when the trie's keys are the uuids of orders the index knows.\<close>

lemma collect_results_Ok_iff:
  "collect_results f xs = Ok ys \<longleftrightarrow> list_all2 (\<lambda>x y. f x = Ok y) xs ys"
  by (induction xs arbitrary: ys) (auto simp: list_all2_Cons1)

lemma collect_results_neq_Panic: "(\<And>x. x \<in> set xs \<Longrightarrow> f x \<noteq> Panic) \<Longrightarrow> collect_results f xs \<noteq> Panic"
  by (induction xs) auto

section \<open>The store keeps its histories without cycles\<close>

definition hists_acyclic :: "(string \<rightharpoonup> ('k, 'v) trie_diff_history) \<Rightarrow> bool" where
  "hists_acyclic hs \<longleftrightarrow> (\<forall>alb h. hs alb = Some h \<longrightarrow> hist_acyclic h)"

abbreviation ps_acyclic :: "orderbook_pubkey_state \<Rightarrow> bool" where
  "ps_acyclic ps \<equiv> hists_acyclic (ps_order_pairs_trie_state_history ps)"

definition ts_acyclic :: "'db trie_store \<Rightarrow> bool" where
  "ts_acyclic st \<longleftrightarrow> (\<forall>pk ps. ts_pubkeys_state st pk = Some ps \<longrightarrow> ps_acyclic ps)"

lemma ps_acyclic_new [simp]: "ps_acyclic (pubkey_state_new now)"
  by (simp add: hists_acyclic_def pubkey_state_new_def)

lemma pubkey_state_mut_acyclic: "ts_acyclic st \<Longrightarrow> ps_acyclic (pubkey_state_mut now (ts_pubkeys_state st) pk)"
  by (simp add: pubkey_state_mut_def ts_acyclic_def unwrap_or_def split: option.split)

lemma record_diff_acyclic: "hists_acyclic hs \<Longrightarrow> hists_acyclic (record_diff c a r d hs)"
  by (auto simp: record_diff_def hists_acyclic_def insert_new_diff_acyclic split: option.splits)

lemma ts_acyclic_upd:
  "ts_acyclic st \<Longrightarrow> ps_acyclic ps \<Longrightarrow> ts_acyclic (st\<lparr>ts_pubkeys_state := (ts_pubkeys_state st)(pk \<mapsto> ps)\<rparr>)"
  "ts_acyclic st \<Longrightarrow> ps_acyclic ps \<Longrightarrow>
     ts_acyclic (st\<lparr>ts_pubkeys_state := (ts_pubkeys_state st)(pk \<mapsto> ps), ts_memory_db := db\<rparr>)"
  by (auto simp: ts_acyclic_def)

lemma apply_insert_acyclic: "ts_acyclic st \<Longrightarrow> ts_acyclic (apply_insert lib now pk alb u x st)"
  unfolding apply_insert_def Let_def
  by (auto split: option.split prod.split intro!: ts_acyclic_upd record_diff_acyclic simp: pubkey_state_mut_acyclic)

lemma apply_remove_acyclic: "ts_acyclic st \<Longrightarrow> ts_acyclic (apply_remove lib now pk alb u st)"
  unfolding apply_remove_def Let_def
  by (auto split: option.split prod.split intro!: ts_acyclic_upd record_diff_acyclic simp: pubkey_state_mut_acyclic)

lemma apply_clear_pair_acyclic: "ts_acyclic st \<Longrightarrow> ts_acyclic (apply_clear_pair pk alb st)"
  by (auto simp: apply_clear_pair_def ts_acyclic_def hists_acyclic_def split: option.split if_splits)

lemma remove_pubkey_state_acyclic: "ts_acyclic st \<Longrightarrow> ts_acyclic (remove_pubkey_state pk st)"
  by (auto simp: remove_pubkey_state_def ts_acyclic_def)

lemma apply_group_acyclic: "ts_acyclic st \<Longrightarrow> ts_acyclic (apply_group lib now grp st)"
  unfolding apply_group_def Let_def
  by (auto split: prod.split intro!: fold_invariant_set[where I = ts_acyclic]
      simp: apply_insert_acyclic apply_remove_acyclic apply_clear_pair_acyclic)

lemma apply_ops_acyclic: "ts_acyclic st \<Longrightarrow> ts_acyclic (apply_ops lib now ops st)"
  unfolding apply_ops_def
  by (auto split: prod.split intro!: fold_invariant_set[where I = ts_acyclic]
      simp: apply_group_acyclic remove_pubkey_state_acyclic)

lemma prepare_sync_request_acyclic:
  "ts_acyclic st \<Longrightarrow> ts_acyclic (fst (prepare_sync_request_for_keep_alive lib now pk msg relay subd st))"
  unfolding prepare_sync_request_for_keep_alive_def Let_def
  by (auto split: prod.split intro!: ts_acyclic_upd simp: pubkey_state_mut_acyclic)

section \<open>What a batch does to the known uuids\<close>

definition known_uuids :: "'db trie_store \<Rightarrow> string \<Rightarrow> (uuid \<times> string) set" where
  "known_uuids st pk = (case ts_pubkeys_state st pk of Some ps \<Rightarrow> ps_orders_uuids ps | None \<Rightarrow> {})"

lemma pubkey_state_mut_uuids [simp]:
  "ps_orders_uuids (pubkey_state_mut now (ts_pubkeys_state st) pk) = known_uuids st pk"
  by (simp add: pubkey_state_mut_def known_uuids_def pubkey_state_new_def unwrap_or_def split: option.split)

lemma known_apply_insert:
  "known_uuids (apply_insert lib now pk alb u x st) = (known_uuids st)(pk := insert (u, alb) (known_uuids st pk))"
  by (auto simp: apply_insert_def Let_def fun_eq_iff known_uuids_def[of "st\<lparr>ts_pubkeys_state := _\<rparr>"]
      known_uuids_def[of "st\<lparr>ts_pubkeys_state := _, ts_memory_db := _\<rparr>"] split: option.split prod.split)
    (auto simp: known_uuids_def)

lemma known_apply_remove:
  "known_uuids (apply_remove lib now pk alb u st) = (known_uuids st)(pk := known_uuids st pk - {(u, alb)})"
  by (auto simp: apply_remove_def Let_def fun_eq_iff known_uuids_def[of "st\<lparr>ts_pubkeys_state := _\<rparr>"]
      known_uuids_def[of "st\<lparr>ts_pubkeys_state := _, ts_memory_db := _\<rparr>"] split: option.split prod.split)
    (auto simp: known_uuids_def)

lemma known_apply_clear_pair:
  "known_uuids (apply_clear_pair pk alb st) = (known_uuids st)(pk := {(u, a) \<in> known_uuids st pk. a \<noteq> alb})"
  by (auto simp: apply_clear_pair_def fun_eq_iff known_uuids_def split: option.split)

lemma known_remove_pubkey_state: "known_uuids (remove_pubkey_state pk st) = (known_uuids st)(pk := {})"
  by (simp add: remove_pubkey_state_def known_uuids_def fun_eq_iff)

lemma known_fold_insert:
  "known_uuids (fold (\<lambda>(u, x). apply_insert lib now pk alb u x) uxs st) =
     (known_uuids st)(pk := known_uuids st pk \<union> (\<lambda>(u, x). (u, alb)) ` set uxs)"
  by (induction uxs arbitrary: st) (auto simp: known_apply_insert fun_eq_iff)

lemma known_fold_remove:
  "known_uuids (fold (\<lambda>u. apply_remove lib now pk alb u) us st) =
     (known_uuids st)(pk := known_uuids st pk - (\<lambda>u. (u, alb)) ` set us)"
  by (induction us arbitrary: st) (auto simp: known_apply_remove fun_eq_iff)

lemma known_fold_remove_pubkey:
  "known_uuids (fold remove_pubkey_state pks st) = (\<lambda>pk. if pk \<in> set pks then {} else known_uuids st pk)"
  by (induction pks arbitrary: st) (auto simp: known_remove_pubkey_state fun_eq_iff)

text \<open>Membership after one group, and after all groups of a batch.\<close>

definition group_keeps :: "op_group \<Rightarrow> uuid \<Rightarrow> bool \<Rightarrow> bool" where
  "group_keeps g u before \<longleftrightarrow> u \<notin> set (og_removes g)
     \<and> (u \<in> fst ` set (og_inserts g) \<or> (\<not> og_clear g \<and> before))"

lemma group_keeps_default [simp]: "group_keeps op_group_default u b = b"
  by (simp add: group_keeps_def op_group_default_def)

lemma known_apply_group:
  "(u, a) \<in> known_uuids (apply_group lib now ((pk', alb), g) st) pk \<longleftrightarrow>
     (if pk = pk' \<and> a = alb then group_keeps g u ((u, a) \<in> known_uuids st pk) else (u, a) \<in> known_uuids st pk)"
  by (auto simp: apply_group_def Let_def known_fold_remove known_fold_insert known_apply_clear_pair group_keeps_def
      split: if_splits) (force simp: image_iff)+

lemma known_fold_groups:
  assumes "hm_wf groups"
  shows "(u, a) \<in> known_uuids (fold (apply_group lib now) groups st) pk \<longleftrightarrow>
     group_keeps (unwrap_or op_group_default (map_of groups (pk, a))) u ((u, a) \<in> known_uuids st pk)"
  using assms
proof (induction groups arbitrary: st)
  case (Cons kg groups)
  obtain pk' alb g where kg: "kg = ((pk', alb), g)" by (metis prod.collapse)
  have "map_of groups (pk', alb) = None" using Cons.prems by (simp add: kg map_of_eq_None_iff)
  then show ?case using Cons by (auto simp: kg known_apply_group)
qed simp

lemma fold_group_op_group:
  "hm_wf (fst (fold group_op ops ([], [])))
   \<and> unwrap_or op_group_default (map_of (fst (fold group_op ops ([], []))) (pk, a)) =
     \<lparr>og_clear = (ClearPair pk a \<in> set ops),
      og_inserts = concat (map (\<lambda>op. case op of TrieInsert p b u x \<Rightarrow> if p = pk \<and> b = a then [(u, x)] else [] | _ \<Rightarrow> []) ops),
      og_removes = concat (map (\<lambda>op. case op of TrieRemove p b u \<Rightarrow> if p = pk \<and> b = a then [u] else [] | _ \<Rightarrow> []) ops)\<rparr>"
proof (induction ops rule: rev_induct)
  case (snoc op ops)
  obtain gs pks where gs: "fold group_op ops ([], []) = (gs, pks)" by (metis prod.collapse)
  show ?case
    using snoc by (cases op) (auto simp: gs in_group_def hm_get_update hm_wf_update)
qed (simp add: op_group_default_def)

lemma fold_group_op_pubkeys: "pk \<in> set (snd (fold group_op ops ([], []))) \<longleftrightarrow> RemovePubkey pk \<in> set ops"
proof (induction ops rule: rev_induct)
  case (snoc op ops)
  obtain gs pks where gs: "fold group_op ops ([], []) = (gs, pks)" by (metis prod.collapse)
  show ?case using snoc by (cases op) (auto simp: gs)
qed simp

lemma known_apply_ops:
  "(u, a) \<in> known_uuids (apply_ops lib now ops st) pk \<longleftrightarrow>
     RemovePubkey pk \<notin> set ops \<and> TrieRemove pk a u \<notin> set ops
     \<and> ((\<exists>x. TrieInsert pk a u x \<in> set ops) \<or> (ClearPair pk a \<notin> set ops \<and> (u, a) \<in> known_uuids st pk))"
proof -
  obtain gs pks where gs: "fold group_op ops ([], []) = (gs, pks)" by (metis prod.collapse)
  note g = fold_group_op_group[of ops pk a, unfolded gs fst_conv]
  have rem: "u \<in> set (og_removes (unwrap_or op_group_default (map_of gs (pk, a)))) \<longleftrightarrow> TrieRemove pk a u \<in> set ops"
    unfolding g[THEN conjunct2] by (auto split: trie_op.splits if_splits)
  have ins: "u \<in> fst ` set (og_inserts (unwrap_or op_group_default (map_of gs (pk, a)))) \<longleftrightarrow>
      (\<exists>x. TrieInsert pk a u x \<in> set ops)"
    unfolding g[THEN conjunct2] by (force split: trie_op.splits if_splits)
  have cl: "og_clear (unwrap_or op_group_default (map_of gs (pk, a))) \<longleftrightarrow> ClearPair pk a \<in> set ops"
    unfolding g[THEN conjunct2] by simp
  have pks: "pk \<in> set pks \<longleftrightarrow> RemovePubkey pk \<in> set ops"
    using fold_group_op_pubkeys[of pk ops] by (simp add: gs)
  show ?thesis
    using known_fold_groups[OF g[THEN conjunct1], of u a lib now st pk]
    by (simp add: apply_ops_def gs known_fold_remove_pubkey pks group_keeps_def rem ins cl)
qed

text \<open>The same as functions on the known uuids: of a batch, and of one operation.\<close>

definition batch_uuids :: "trie_op list \<Rightarrow> (string \<Rightarrow> (uuid \<times> string) set) \<Rightarrow> (string \<Rightarrow> (uuid \<times> string) set)" where
  "batch_uuids ops K = (\<lambda>pk. {(u, a). RemovePubkey pk \<notin> set ops \<and> TrieRemove pk a u \<notin> set ops
     \<and> ((\<exists>x. TrieInsert pk a u x \<in> set ops) \<or> (ClearPair pk a \<notin> set ops \<and> (u, a) \<in> K pk))})"

fun op_uuids :: "trie_op \<Rightarrow> (string \<Rightarrow> (uuid \<times> string) set) \<Rightarrow> (string \<Rightarrow> (uuid \<times> string) set)" where
  "op_uuids (ClearPair p b) K = K(p := {(u, a) \<in> K p. a \<noteq> b})"
| "op_uuids (TrieInsert p b u x) K = K(p := insert (u, b) (K p))"
| "op_uuids (TrieRemove p b u) K = K(p := K p - {(u, b)})"
| "op_uuids (RemovePubkey p) K = K(p := {})"

lemma known_apply_ops_batch: "known_uuids (apply_ops lib now ops st) = batch_uuids ops (known_uuids st)"
  by (auto simp: fun_eq_iff batch_uuids_def known_apply_ops)

lemma batch_uuids_single: "batch_uuids [op] K = op_uuids op K"
  by (cases op) (auto simp: batch_uuids_def fun_eq_iff)

text \<open>When may an operation follow another in one batch without the grouping reordering them?\<close>

fun may_follow :: "trie_op \<Rightarrow> trie_op \<Rightarrow> bool" where
  "may_follow (RemovePubkey p) (RemovePubkey q) = True"
| "may_follow (RemovePubkey p) (ClearPair q a) = (p \<noteq> q)"
| "may_follow (RemovePubkey p) (TrieInsert q a u x) = (p \<noteq> q)"
| "may_follow (RemovePubkey p) (TrieRemove q a u) = (p \<noteq> q)"
| "may_follow (TrieInsert p a u x) (ClearPair q b) = (\<not> (p = q \<and> a = b))"
| "may_follow (TrieRemove p a u) (TrieInsert q b v x) = (\<not> (p = q \<and> a = b \<and> u = v))"
| "may_follow _ _ = True"

lemma batch_uuids_snoc:
  assumes "\<And>op'. op' \<in> set ops \<Longrightarrow> may_follow op' op"
  shows "batch_uuids (ops @ [op]) K = op_uuids op (batch_uuids ops K)"
proof (cases op)
  case (ClearPair p b)
  then show ?thesis using assms[of "TrieInsert p b _ _"] assms[of "RemovePubkey p"]
    by (auto simp: batch_uuids_def fun_eq_iff)
next
  case (TrieInsert p b v x)
  then show ?thesis using assms[of "TrieRemove p b v"] assms[of "RemovePubkey p"]
    by (auto simp: batch_uuids_def fun_eq_iff)
qed (auto simp: batch_uuids_def fun_eq_iff)

lemma batch_uuids_fold: "sorted_wrt may_follow ops \<Longrightarrow> batch_uuids ops K = fold op_uuids ops K"
proof (induction ops rule: rev_induct)
  case (snoc op ops)
  then show ?case by (simp add: sorted_wrt_append batch_uuids_snoc)
qed (simp add: batch_uuids_def)

lemma known_fold_single:
  "known_uuids (fold (\<lambda>op. apply_ops lib now [op]) ops st) = fold op_uuids ops (known_uuids st)"
  by (induction ops arbitrary: st) (simp_all add: known_apply_ops_batch batch_uuids_single)

lemma batch_is_sequential:
  "sorted_wrt may_follow ops \<Longrightarrow>
     known_uuids (apply_ops lib now ops st) = known_uuids (fold (\<lambda>op. apply_ops lib now [op]) ops st)"
  by (simp add: known_apply_ops_batch known_fold_single batch_uuids_fold)

section \<open>Properties\<close>

text \<open>C4: inserting a new diff into a history without cycles leaves no cycle, whatever the roots and
  also after entries have expired, and so the loop that collects the diffs from any root ends.\<close>

theorem history_walk_terminates:
  assumes "hist_acyclic h"
  shows "hist_acyclic (insert_new_diff r d (expire_diffs rs h))
    \<and> (\<exists>res. delta_from_history it fb (insert_new_diff r d (expire_diffs rs h)) from_hash actual db getter = Some res)"
proof -
  have "hist_acyclic (insert_new_diff r d (expire_diffs rs h))"
    by (rule insert_new_diff_acyclic, rule hist_acyclic_mono[OF assms], rule hist_edges_expire)
  from this delta_from_history_returns[OF this] show ?thesis by (rule conjI)
qed

definition demo_diff :: "h64 \<Rightarrow> (nat, nat) trie_diff" where
  "demo_diff r = \<lparr>td_delta = [(1, Some (unat r))], td_next_root = r\<rparr>"

definition demo_history :: "(nat, nat) trie_diff_history" where
  "demo_history = insert_new_diff 2 (demo_diff 3) (insert_new_diff 1 (demo_diff 2) [])"

lemma demo_history_eq: "demo_history = [(1, demo_diff 2), (2, demo_diff 3)]"
  by (simp add: demo_history_def insert_new_diff_def demo_diff_def)

theorem history_walk_terminates_witness:
  "hist_acyclic demo_history \<and> \<not> hist_acyclic [(1 :: h64, demo_diff 2), (2, demo_diff 1)]"
proof
  have "hist_acyclic (insert_new_diff 1 (demo_diff 2) [])"
    using history_walk_terminates[of "[]" 1 "demo_diff 2" "{}", THEN conjunct1] by (simp add: expire_diffs_def)
  then show "hist_acyclic demo_history"
    using history_walk_terminates[of "insert_new_diff 1 (demo_diff 2) []" 2 "demo_diff 3" "{}", THEN conjunct1]
    by (simp add: expire_diffs_def demo_history_def)
  have "(1, 2) \<in> hist_edges [(1, demo_diff 2), (2, demo_diff 1)]" "(2, 1) \<in> hist_edges [(1, demo_diff 2), (2, demo_diff 1)]"
    by (auto simp: mem_hist_edges demo_diff_def)
  then show "\<not> hist_acyclic [(1 :: h64, demo_diff 2), (2, demo_diff 1)]"
    unfolding hist_acyclic_def acyclic_def by (meson trancl.r_into_trancl trancl_trans)
qed

text \<open>C5: a delta is the difference. For any reading of the roots under which every recorded diff is
  the change between its two roots (the case when no two tries of the pair share a root), the total
  delta that is answered from a root turns the contents at that root into the contents at the
  actual root; and inserting a diff that records such a change keeps the history sound.\<close>

theorem delta_is_the_difference:
  assumes "diffs_sound content h"
    and "content (td_next_root d) = apply_delta (td_delta d) (content r)"
    and "delta_from_history it fb (insert_new_diff r d h) from_hash actual db getter = Some (Ok (Delta t))"
  shows "diffs_sound content (insert_new_diff r d h) \<and> content actual = apply_total t (content from_hash)"
  using insert_new_diff_sound[OF assms(1,2)] delta_from_history_sound[OF assms(3)] by blast

definition demo_content :: "h64 \<Rightarrow> nat \<rightharpoonup> nat" where
  "demo_content r = (if r = 1 then Map.empty else if r = 2 then [1 \<mapsto> 2] else if r = 3 then [1 \<mapsto> 3] else Map.empty)"

theorem delta_is_the_difference_witness:
  "\<exists>t. delta_from_history (\<lambda>_ _. None) (\<lambda>_. None) demo_history 1 3 () (\<lambda>_. None) = Some (Ok (Delta t))
     \<and> demo_content 3 = apply_total t (demo_content 1)"
proof -
  let ?h = "insert_new_diff 1 (demo_diff 2) []"
  have h: "?h = [(1, demo_diff 2)]" by (simp add: insert_new_diff_def demo_diff_def)
  have s: "diffs_sound demo_content ?h"
    unfolding h diffs_sound_def by (simp add: demo_diff_def demo_content_def apply_delta_def)
  have d: "demo_content (td_next_root (demo_diff 3)) = apply_delta (td_delta (demo_diff 3)) (demo_content 2)"
    by (simp add: demo_diff_def demo_content_def apply_delta_def)
  have w: "walk_history demo_history (demo_diff 2) t = Some (demo_diff 3, hm_extend (td_delta (demo_diff 3)) t)" for t
    by (subst walk_history.simps, simp add: demo_history_eq demo_diff_def)
      (subst walk_history.simps, simp)
  have "delta_from_history (\<lambda>_ _. None) (\<lambda>_. None) demo_history 1 3 () (\<lambda>_. None)
      = Some (Ok (Delta (hm_extend (td_delta (demo_diff 3)) (hm_extend (td_delta (demo_diff 2)) []))))"
    by (simp add: delta_from_history_def demo_history_eq w[unfolded demo_history_eq] Let_def)
      (simp add: demo_diff_def)
  from this delta_is_the_difference[OF s d, folded demo_history_def, OF this] show ?thesis by blast
qed

definition demo_lib :: "(unit, unit) trie_lib" where
  "demo_lib = \<lparr>tl_new = (\<lambda>_. ()), tl_from_existing = (\<lambda>_ _. Some ()), tl_insert = (\<lambda>_ _ _. (True, ())),
     tl_commit = (\<lambda>_. ((), 7)), tl_delta_root_remove = (\<lambda>_ _ _. ((), Some 9)), tl_iter = (\<lambda>_ _. None),
     tl_hashed_null_node = 8, tl_trie_state_bytes = (\<lambda>_. [])\<rparr>"

definition demo_store :: "unit trie_store" where
  "demo_store = \<lparr>ts_pubkeys_state = Map.empty, ts_memory_db = ()\<rparr>"

text \<open>applying a batch. Whatever the trie library answers, the histories stay without cycles
  (so every later answer returns), and the uuids known of a peer are exactly: those inserted by the
  batch, and those known before unless their pair is cleared, in either case without those the
  batch removes, and none if the batch removes the peer.\<close>

theorem apply_ops_known_uuids:
  assumes "ts_acyclic st"
  shows "ts_acyclic (apply_ops lib now ops st)
   \<and> known_uuids (apply_ops lib now ops st) pk = (if RemovePubkey pk \<in> set ops then {} else
       {(u, a). TrieRemove pk a u \<notin> set ops \<and> ((\<exists>x. TrieInsert pk a u x \<in> set ops)
          \<or> ((u, a) \<in> known_uuids st pk \<and> ClearPair pk a \<notin> set ops))})"
  using apply_ops_acyclic[OF assms] by (auto simp: known_apply_ops)

theorem apply_ops_known_uuids_witness:
  "known_uuids (apply_ops demo_lib 0 [TrieInsert ''p'' ''a'' 1 (demo_item 1 ''p'' 5), TrieRemove ''p'' ''a'' 2] demo_store) ''p''
    = {(1, ''a'')}"
proof -
  have "ts_acyclic demo_store" by (simp add: ts_acyclic_def demo_store_def)
  moreover have "known_uuids demo_store ''p'' = {}" by (simp add: known_uuids_def demo_store_def)
  ultimately show ?thesis
    unfolding apply_ops_known_uuids[OF \<open>ts_acyclic demo_store\<close>, THEN conjunct2] by auto
qed



text \<open>Outside that condition the batch differs: when an order is removed and inserted again
  within one batch, the store applies the insertion first and ends up without the order, although
  the index that sent the batch has it.\<close>

theorem apply_ops_reorders_reinsertion:
  "\<exists>x ops. ops = [TrieRemove ''p'' ''a'' 1, TrieInsert ''p'' ''a'' 1 x]
     \<and> (1, ''a'') \<notin> known_uuids (apply_ops lib now ops st) ''p''
     \<and> (1, ''a'') \<in> known_uuids (fold (\<lambda>op. apply_ops lib now [op]) ops st) ''p''"
  by (intro exI[of _ "demo_item 1 ''p'' 5"] exI) (auto simp: known_apply_ops known_fold_single)

end
