(* ===== verification/Orderbook_Sync.thy ===== *)
theory Orderbook_Sync
  imports Trie_Store
begin

text \<open>
  Keeping the orderbook in step with the network (\<open>mm2_main/src/lp_ordermatch.rs\<close>): the handlers of
  the maker messages (created, updated, cancelled, keep-alive), the requests answered for other
  nodes (\<open>GetOrderbook\<close>, \<open>SyncPubkeyOrderbookState\<close>), the processing of their answers, and the
  queue of trie operations between the index and the trie store.

  Every handler is one atomic step on \<open>net_state\<close>: the code holds the lock of the index for the
  whole of it. Where a handler awaits an answer from a peer it is split at the await. The network's
  answers, \<open>hex\<close> decoding and the ban list are arguments.
\<close>

section \<open>State\<close>

datatype orderbook_requesting_state = Requested | NotRequested u64

record 'db net_state =
  ns_orderbook :: orderbook
  ns_trie_store :: "'db trie_store"
  ns_subscriptions :: "string \<rightharpoonup> orderbook_requesting_state"
  ns_trie_ops :: "trie_op list list"

definition send_trie_ops :: "trie_op list \<Rightarrow> 'db net_state \<Rightarrow> 'db net_state" where
  "send_trie_ops ops ns = (if ops = [] then ns else ns\<lparr>ns_trie_ops := ns_trie_ops ns @ [ops]\<rparr>)"

text \<open>One turn of \<open>spawn_trie_store_worker\<close>.\<close>

definition trie_worker_step :: "('db, 't) trie_lib \<Rightarrow> u64 \<Rightarrow> 'db net_state \<Rightarrow> 'db net_state" where
  "trie_worker_step lib now ns = (case ns_trie_ops ns of
     [] \<Rightarrow> ns
   | ops # rest \<Rightarrow> ns\<lparr>ns_trie_store := apply_ops lib now ops (ns_trie_store ns), ns_trie_ops := rest\<rparr>)"

section \<open>Orders from an answer\<close>

record sync_infos =
  si_protocol_infos :: "(uuid, base_rel_protocol_info) hash_map"
  si_conf_infos :: "(uuid, order_confirmations_settings) hash_map"

definition item_of_answer :: "sync_infos \<Rightarrow> uuid \<Rightarrow> orderbook_p2p_item \<Rightarrow> orderbook_item" where
  "item_of_answer infos u order = oi_from_p2p_and_info order
     (unwrap_or default_protocol_info (map_of (si_protocol_infos infos) u)) (map_of (si_conf_infos infos) u)"

definition insert_collecting :: "orderbook_item \<Rightarrow> orderbook \<times> trie_op list \<Rightarrow> orderbook \<times> trie_op list" where
  "insert_collecting item acc = (case acc of (ob, ops) \<Rightarrow>
     let (ob', insert_ops) = index_insert_or_update item ob in (ob', ops @ insert_ops))"

definition process_pubkey_full_trie :: "string \<Rightarrow> string \<Rightarrow> sync_infos \<Rightarrow> (uuid \<times> orderbook_p2p_item) list \<Rightarrow>
    orderbook \<Rightarrow> orderbook \<times> trie_op list" where
  "process_pubkey_full_trie pubkey alb_pair infos new_trie_orders ob =
     fold (\<lambda>(u, order). insert_collecting (item_of_answer infos u order)) new_trie_orders
       (index_remove_pubkey_pair_orders pubkey alb_pair ob, [ClearPair pubkey alb_pair])"

definition process_trie_delta :: "sync_infos \<Rightarrow> (uuid, orderbook_p2p_item option) hash_map \<Rightarrow>
    orderbook \<Rightarrow> orderbook \<times> trie_op list" where
  "process_trie_delta infos delta_orders ob =
     fold (\<lambda>(u, maybe_order) acc. case maybe_order of
         Some order \<Rightarrow> insert_collecting (item_of_answer infos u order) acc
       | None \<Rightarrow> (case acc of (ob, ops) \<Rightarrow> case index_remove u ob of
             (ob', Some (_, op)) \<Rightarrow> (ob', ops @ [op]) | (ob', None) \<Rightarrow> (ob', ops)))
       delta_orders (ob, [])"

record sync_pubkey_orderbook_state_res =
  sr_pair_orders_diff :: "(string, (uuid, orderbook_p2p_item) delta_or_full_trie) hash_map"
  sr_infos :: sync_infos

section \<open>Keep-alive\<close>

datatype p2p_handler_error = P2PRequestError | OrderNotFound uuid | PubkeyNotAllowed string
  | DecodeError | InvalidTopic string

definition keep_alive_request :: "('db, 't) trie_lib \<Rightarrow> u64 \<Rightarrow> bool \<Rightarrow> string \<Rightarrow> np_pubkey_keep_alive \<Rightarrow>
    'db net_state \<Rightarrow> 'db net_state \<times> sync_pubkey_orderbook_state option" where
  "keep_alive_request lib now i_am_relay from_pubkey keep_alive ns =
    (let (st, req) = prepare_sync_request_for_keep_alive lib now from_pubkey keep_alive i_am_relay
           (\<lambda>topic. ns_subscriptions ns topic \<noteq> None) (ns_trie_store ns)
     in (ns\<lparr>ns_trie_store := st\<rparr>, req))"

definition keep_alive_response :: "string \<Rightarrow> sync_pubkey_orderbook_state_res \<Rightarrow> 'db net_state \<Rightarrow> 'db net_state" where
  "keep_alive_response from_pubkey response ns =
    (let (ob, ops) = fold (\<lambda>(pair, diff) (ob, ops).
           let (ob', pair_ops) = (case diff of
               Delta delta \<Rightarrow> process_trie_delta (sr_infos response) delta ob
             | FullTrie values \<Rightarrow> process_pubkey_full_trie from_pubkey pair (sr_infos response) values ob)
           in (ob', ops @ pair_ops)) (sr_pair_orders_diff response) (ns_orderbook ns, [])
     in send_trie_ops ops (ns\<lparr>ns_orderbook := ob\<rparr>))"

text \<open>The whole handler when nothing else runs while the peer answers: \<open>Err\<close> of the request is
  \<open>Err\<close>, no answer is \<open>Ok None\<close>.\<close>

definition process_orders_keep_alive :: "('db, 't) trie_lib \<Rightarrow> u64 \<Rightarrow> bool \<Rightarrow>
    (sync_pubkey_orderbook_state \<Rightarrow> (p2p_handler_error, sync_pubkey_orderbook_state_res option) rust_result) \<Rightarrow>
    string \<Rightarrow> np_pubkey_keep_alive \<Rightarrow> 'db net_state \<Rightarrow> 'db net_state \<times> (p2p_handler_error, unit) rust_result" where
  "process_orders_keep_alive lib now i_am_relay request_one_peer from_pubkey keep_alive ns =
    (case keep_alive_request lib now i_am_relay from_pubkey keep_alive ns of
       (ns, None) \<Rightarrow> (ns, Ok ())
     | (ns, Some req) \<Rightarrow> (case request_one_peer req of
           Panic \<Rightarrow> (ns, Panic)
         | Err e \<Rightarrow> (ns, Err e)
         | Ok None \<Rightarrow> (ns, Err P2PRequestError)
         | Ok (Some response) \<Rightarrow> (keep_alive_response from_pubkey response ns, Ok ())))"

section \<open>Maker messages\<close>

definition insert_or_update_order :: "orderbook_item \<Rightarrow> 'db net_state \<Rightarrow> 'db net_state" where
  "insert_or_update_order item ns =
    (let (ob, ops) = index_insert_or_update item (ns_orderbook ns)
     in send_trie_ops ops (ns\<lparr>ns_orderbook := ob\<rparr>))"

definition process_maker_order_created :: "string \<Rightarrow> np_maker_order_created \<Rightarrow> 'db net_state \<Rightarrow> 'db net_state" where
  "process_maker_order_created from_pubkey created_msg ns =
     insert_or_update_order (oi_of_created created_msg from_pubkey) ns"

definition process_maker_order_updated :: "string \<Rightarrow> maker_order_updated \<Rightarrow> 'db net_state \<Rightarrow>
    'db net_state \<times> (p2p_handler_error, unit) rust_result" where
  "process_maker_order_updated from_pubkey updated_msg ns =
    (case find_order_by_uuid_and_pubkey (ns_orderbook ns) (upd_uuid updated_msg) from_pubkey of
       None \<Rightarrow> (ns, Err (OrderNotFound (upd_uuid updated_msg)))
     | Some order \<Rightarrow> (insert_or_update_order (oi_apply_updated updated_msg order) ns, Ok ()))"

definition process_maker_order_cancelled :: "string \<Rightarrow> np_maker_order_cancelled \<Rightarrow> 'db net_state \<Rightarrow> 'db net_state" where
  "process_maker_order_cancelled from_pubkey cancelled_msg ns =
    (let u = npx_uuid cancelled_msg;
         ob = (ns_orderbook ns)\<lparr>ob_recently_cancelled := (ob_recently_cancelled (ns_orderbook ns))(u \<mapsto> from_pubkey)\<rparr>;
         (ob, maybe_op) = (case ob_order_set ob u of
             Some order \<Rightarrow> if oi_pubkey order = from_pubkey
               then (let (ob, res) = index_remove u ob in (ob, map_option snd res)) else (ob, None)
           | None \<Rightarrow> (ob, None))
     in case maybe_op of
          Some op \<Rightarrow> send_trie_ops [op] (ns\<lparr>ns_orderbook := ob\<rparr>)
        | None \<Rightarrow> ns\<lparr>ns_orderbook := ob\<rparr>)"

text \<open>The same for the node's own orders.\<close>

definition is_my_order :: "string \<Rightarrow> string option \<Rightarrow> string list \<Rightarrow> bool" where
  "is_my_order order_pubkey my_pub my_p2p_pubkeys \<longleftrightarrow>
     my_pub = Some order_pubkey \<or> order_pubkey \<in> set my_p2p_pubkeys"

definition insert_or_update_my_order :: "orderbook_item \<Rightarrow> maker_order \<Rightarrow> 'db net_state \<Rightarrow> 'db net_state" where
  "insert_or_update_my_order item my_order ns =
    (let (ob, ops) = index_insert_or_update item (ns_orderbook ns);
         ob = (case mo_p2p_privkey my_order of
             Some key \<Rightarrow> ob\<lparr>ob_my_p2p_pubkeys := hs_insert (kp_public_hex key) (ob_my_p2p_pubkeys ob)\<rparr>
           | None \<Rightarrow> ob)
     in send_trie_ops ops (ns\<lparr>ns_orderbook := ob\<rparr>))"

definition delete_my_order :: "uuid \<Rightarrow> keypair option \<Rightarrow> 'db net_state \<Rightarrow> 'db net_state" where
  "delete_my_order u p2p_privkey ns =
    (let (ob, res) = index_remove u (ns_orderbook ns);
         ob = (case p2p_privkey of
             Some key \<Rightarrow> ob\<lparr>ob_my_p2p_pubkeys := hs_remove (kp_public_hex key) (ob_my_p2p_pubkeys ob)\<rparr>
           | None \<Rightarrow> ob)
     in case map_option snd res of
          Some op \<Rightarrow> send_trie_ops [op] (ns\<lparr>ns_orderbook := ob\<rparr>)
        | None \<Rightarrow> ns\<lparr>ns_orderbook := ob\<rparr>)"

definition process_my_maker_order_updated :: "maker_order_updated \<Rightarrow> 'db net_state \<Rightarrow> 'db net_state" where
  "process_my_maker_order_updated message ns =
    (case find_order_by_uuid (ns_orderbook ns) (upd_uuid message) of
       Some order \<Rightarrow> insert_or_update_order (oi_apply_updated message order) ns
     | None \<Rightarrow> ns)"

text \<open>\<open>maker_order_created_p2p_notify\<close>: the message, which is indexed and broadcast, taken apart from
  signing and sending. The confirmation settings are unwrapped.\<close>

definition created_message_of :: "u64 \<Rightarrow> bytes \<Rightarrow> bytes \<Rightarrow> maker_order \<Rightarrow> (unit, np_maker_order_created) rust_result" where
  "created_message_of now base_protocol_info rel_protocol_info order = (case mo_conf_settings order of
     None \<Rightarrow> Panic
   | Some conf \<Rightarrow> Ok \<lparr>npc_uuid = mo_uuid order, npc_base = mo_base_ticker order, npc_rel = mo_rel_ticker order,
       npc_price = mo_price order, npc_max_volume = mo_available_amount order,
       npc_min_volume = mo_min_base_vol order, npc_created_at = now, npc_conf_settings = conf,
       npc_timestamp = now, npc_pair_trie_root = 0,
       npc_base_protocol_info = base_protocol_info, npc_rel_protocol_info = rel_protocol_info\<rparr>)"

definition maker_order_created_p2p_notify :: "string \<Rightarrow> u64 \<Rightarrow> bytes \<Rightarrow> bytes \<Rightarrow> maker_order \<Rightarrow> 'db net_state \<Rightarrow>
    (unit, 'db net_state \<times> string \<times> ordermatch_message) rust_result" where
  "maker_order_created_p2p_notify my_pubkey now base_info rel_info order ns =
     rbind (created_message_of now base_info rel_info order) (\<lambda>message.
       let pubkey = (case mo_p2p_privkey order of Some key \<Rightarrow> kp_public_hex key | None \<Rightarrow> my_pubkey)
       in Ok (insert_or_update_my_order (oi_of_created message pubkey) order ns,
              mo_orderbook_topic order, MakerOrderCreatedMsg message))"

definition maker_order_updated_p2p_notify :: "string \<Rightarrow> maker_order_updated \<Rightarrow> 'db net_state \<Rightarrow>
    'db net_state \<times> string \<times> ordermatch_message" where
  "maker_order_updated_p2p_notify topic message ns =
     (process_my_maker_order_updated message ns, topic, MakerOrderUpdatedMsg message)"

definition maker_order_cancelled_p2p_notify :: "u64 \<Rightarrow> maker_order \<Rightarrow> 'db net_state \<Rightarrow>
    'db net_state \<times> string \<times> ordermatch_message" where
  "maker_order_cancelled_p2p_notify now order ns =
     (delete_my_order (mo_uuid order) (mo_p2p_privkey order) ns, mo_orderbook_topic order,
      MakerOrderCancelledMsg \<lparr>npx_uuid = mo_uuid order, npx_timestamp = now, npx_pair_trie_root = 0\<rparr>)"

section \<open>Answering other nodes\<close>

record get_pubkeys_orders_res =
  go_total_number_of_orders :: nat
  go_uuids_by_pubkey :: "(string, (uuid \<times> orderbook_p2p_item) list) hash_map"
  go_infos :: sync_infos

definition add_infos :: "orderbook_item \<Rightarrow> sync_infos \<Rightarrow> sync_infos" where
  "add_infos order infos = infos\<lparr>
     si_protocol_infos := AList.update (oi_uuid order) (oi_base_rel_proto_info order) (si_protocol_infos infos),
     si_conf_infos := (case oi_conf_settings order of
         Some info \<Rightarrow> AList.update (oi_uuid order) info (si_conf_infos infos) | None \<Rightarrow> si_conf_infos infos)\<rparr>"

definition get_pubkeys_orders :: "orderbook \<Rightarrow> string \<Rightarrow> string \<Rightarrow> get_pubkeys_orders_res" where
  "get_pubkeys_orders ob base rel =
    (let asks = unordered_at ob (base, rel);
         bids = unordered_at ob (rel, base);
         (uuids_by_pubkey, infos) = fold (\<lambda>u (by_pubkey, infos). case ob_order_set ob u of
             Some order \<Rightarrow> (AList.update (oi_pubkey order)
                 (unwrap_or [] (map_of by_pubkey (oi_pubkey order)) @ [(u, op_of_item order)]) by_pubkey,
               add_infos order infos)
           | None \<Rightarrow> (by_pubkey, infos)) (asks @ bids) ([], \<lparr>si_protocol_infos = [], si_conf_infos = []\<rparr>)
     in \<lparr>go_total_number_of_orders = length asks + length bids,
         go_uuids_by_pubkey = uuids_by_pubkey, go_infos = infos\<rparr>)"

record get_orderbook_pubkey_item =
  gp_last_keep_alive :: u64
  gp_orders :: "(uuid \<times> orderbook_p2p_item) list"

record get_orderbook_res =
  gr_pubkey_orders :: "(string, get_orderbook_pubkey_item) hash_map"
  gr_infos :: sync_infos

datatype get_orderbook_error = OrderbookTooLarge | PubkeyStateMissing string

definition process_get_orderbook_request :: "'db net_state \<Rightarrow> string \<Rightarrow> string \<Rightarrow>
    (get_orderbook_error, get_orderbook_res) rust_result" where
  "process_get_orderbook_request ns base rel =
    (let pubkeys_orders = get_pubkeys_orders (ns_orderbook ns) base rel in
     if go_total_number_of_orders pubkeys_orders > MAX_ORDERS_NUMBER_IN_ORDERBOOK_RESPONSE
     then Err OrderbookTooLarge
     else rbind (collect_results (\<lambda>(pubkey, orders). case ts_pubkeys_state (ns_trie_store ns) pubkey of
           None \<Rightarrow> Err (PubkeyStateMissing pubkey)
         | Some ps \<Rightarrow> Ok (pubkey, \<lparr>gp_last_keep_alive = ps_last_keep_alive ps, gp_orders = orders\<rparr>))
           (go_uuids_by_pubkey pubkeys_orders))
         (\<lambda>orders_to_send. Ok \<lparr>gr_pubkey_orders = orders_to_send, gr_infos = go_infos pubkeys_orders\<rparr>))"

definition delta_map_to_p2p :: "(uuid, orderbook_item) delta_or_full_trie \<Rightarrow> (uuid, orderbook_p2p_item) delta_or_full_trie" where
  "delta_map_to_p2p d = (case d of
     Delta delta \<Rightarrow> Delta (map (\<lambda>(u, v). (u, map_option op_of_item v)) delta)
   | FullTrie trie \<Rightarrow> FullTrie (map (\<lambda>(u, v). (u, op_of_item v)) trie))"

definition infos_of_entry :: "uuid \<times> orderbook_item option \<Rightarrow> sync_infos \<Rightarrow> sync_infos" where
  "infos_of_entry e infos = (case e of
     (u, Some order) \<Rightarrow> add_infos order infos
   | (u, None) \<Rightarrow> infos\<lparr>si_protocol_infos := AList.delete u (si_protocol_infos infos),
                       si_conf_infos := AList.delete u (si_conf_infos infos)\<rparr>)"

definition infos_of_delta :: "(uuid, orderbook_item) delta_or_full_trie \<Rightarrow> sync_infos \<Rightarrow> sync_infos" where
  "infos_of_delta d infos = (case d of
     Delta delta \<Rightarrow> fold infos_of_entry delta infos
   | FullTrie trie \<Rightarrow> fold (\<lambda>(u, v). infos_of_entry (u, Some v)) trie infos)"

datatype sync_state_error = NoPairTrieRoot string | TrieDiffError trie_diff_history_error

definition sync_pair :: "('db, 't) trie_lib \<Rightarrow> 'db net_state \<Rightarrow> orderbook_pubkey_state \<Rightarrow> string \<times> h64 \<Rightarrow>
    (sync_state_error, string \<times> (uuid, orderbook_item) delta_or_full_trie) rust_result option" where
  "sync_pair lib ns ps entry = (case entry of (pair, trie_root) \<Rightarrow>
     (case map_of (ps_trie_roots ps) pair of
        None \<Rightarrow> Some (Err (NoPairTrieRoot pair))
      | Some actual_pair_root \<Rightarrow>
         (let getter = ob_order_set (ns_orderbook ns); db = ts_memory_db (ns_trie_store ns);
              delta_result = (case ps_order_pairs_trie_state_history ps pair of
                  Some history \<Rightarrow> delta_from_history (tl_iter lib) uuid_from_slice history trie_root actual_pair_root db getter
                | None \<Rightarrow> Some (rbind (get_full_trie (tl_iter lib) uuid_from_slice actual_pair_root db getter)
                    (\<lambda>t. Ok (FullTrie t))))
          in map_option (\<lambda>res. case res of Panic \<Rightarrow> Panic | Err e \<Rightarrow> Err (TrieDiffError e) | Ok d \<Rightarrow> Ok (pair, d))
               delta_result)))"

text \<open>\<open>None\<close> when a history walk does not end; otherwise the code's \<open>Result<Option<_>>\<close>.\<close>

definition process_sync_pubkey_orderbook_state :: "('db, 't) trie_lib \<Rightarrow> 'db net_state \<Rightarrow> string \<Rightarrow>
    (string, h64) hash_map \<Rightarrow>
    (sync_state_error, sync_pubkey_orderbook_state_res option) rust_result option" where
  "process_sync_pubkey_orderbook_state lib ns pubkey trie_roots =
    (case ts_pubkeys_state (ns_trie_store ns) pubkey of
       None \<Rightarrow> Some (Ok None)
     | Some ps \<Rightarrow> map_option (\<lambda>results. rbind (collect_results (\<lambda>x. x) results) (\<lambda>pair_orders_diff.
         Ok (Some \<lparr>sr_pair_orders_diff = map (\<lambda>(pair, d). (pair, delta_map_to_p2p d)) pair_orders_diff,
           sr_infos = fold (\<lambda>(pair, d). infos_of_delta d) pair_orders_diff
             \<lparr>si_protocol_infos = [], si_conf_infos = []\<rparr>\<rparr>)))
         (those (map (sync_pair lib ns ps) trie_roots)))"

section \<open>Filling and subscribing\<close>

definition fill_from_pubkey :: "(string \<Rightarrow> h256 option) \<Rightarrow> (h256 \<Rightarrow> bool) \<Rightarrow> string option \<Rightarrow> string \<Rightarrow> sync_infos \<Rightarrow>
    string \<times> get_orderbook_pubkey_item \<Rightarrow> orderbook \<times> trie_op list \<Rightarrow> orderbook \<times> trie_op list" where
  "fill_from_pubkey unprefixed is_banned my_pub alb_pair infos entry acc =
    (case entry of (pubkey, item) \<Rightarrow> case acc of (ob, all_ops) \<Rightarrow>
     (case unprefixed pubkey of
        None \<Rightarrow> (ob, all_ops)
      | Some pubkey_without_prefix \<Rightarrow>
          if is_my_order pubkey my_pub (ob_my_p2p_pubkeys ob) then (ob, all_ops)
          else if is_banned pubkey_without_prefix then (ob, all_ops)
          else let (ob', pair_ops) = process_pubkey_full_trie pubkey alb_pair infos (gp_orders item) ob
               in (ob', all_ops @ pair_ops)))"

definition fill_orderbook :: "(string \<Rightarrow> h256 option) \<Rightarrow> (h256 \<Rightarrow> bool) \<Rightarrow> string option \<Rightarrow> string \<Rightarrow> string \<Rightarrow>
    get_orderbook_res \<Rightarrow> 'db net_state \<Rightarrow> 'db net_state" where
  "fill_orderbook unprefixed is_banned my_pub base rel response ns =
    (let (ob, ops) = fold (fill_from_pubkey unprefixed is_banned my_pub (alb_ordered_pair base rel) (gr_infos response))
           (gr_pubkey_orders response) (ns_orderbook ns, []);
         ns = send_trie_ops ops (ns\<lparr>ns_orderbook := ob\<rparr>)
     in ns\<lparr>ns_subscriptions := (ns_subscriptions ns)(orderbook_topic_from_base_rel base rel \<mapsto> Requested)\<rparr>)"

definition request_and_fill_orderbook :: "(string \<Rightarrow> h256 option) \<Rightarrow> (h256 \<Rightarrow> bool) \<Rightarrow> string option \<Rightarrow> bool \<Rightarrow>
    (string, get_orderbook_res option) rust_result \<Rightarrow> string \<Rightarrow> string \<Rightarrow> 'db net_state \<Rightarrow>
    'db net_state \<times> (string, unit) rust_result" where
  "request_and_fill_orderbook unprefixed is_banned my_pub i_am_seed answer base rel ns = (case answer of
     Panic \<Rightarrow> (ns, Panic)
   | Err e \<Rightarrow> (ns, Err e)
   | Ok None \<Rightarrow> if i_am_seed then (ns, Ok ())
       else (ns, Err ''No response received from any peer for GetOrderbook request'')
   | Ok (Some response) \<Rightarrow> (fill_orderbook unprefixed is_banned my_pub base rel response ns, Ok ()))"

definition subscribe_to_orderbook_topic :: "u64 \<Rightarrow> string \<Rightarrow> string \<Rightarrow> 'db net_state \<Rightarrow> 'db net_state \<times> bool" where
  "subscribe_to_orderbook_topic current_timestamp base rel ns =
    (let topic = orderbook_topic_from_base_rel base rel in
     case ns_subscriptions ns topic of
       None \<Rightarrow> (ns\<lparr>ns_subscriptions := (ns_subscriptions ns)(topic \<mapsto> NotRequested current_timestamp)\<rparr>, False)
     | Some Requested \<Rightarrow> (ns, True)
     | Some (NotRequested subscribed_at) \<Rightarrow>
         (ns, subscribed_at + ORDERBOOK_REQUESTING_TIMEOUT < current_timestamp))"

section \<open>Answers as index actions\<close>

text \<open>An answer does three kinds of things to the index, each with its operations for the store.\<close>

datatype index_action = ClearOf string string | Put orderbook_item | Del uuid

fun run_action :: "index_action \<Rightarrow> orderbook \<times> trie_op list \<Rightarrow> orderbook \<times> trie_op list" where
  "run_action (ClearOf pk alb) (ob, ops) = (index_remove_pubkey_pair_orders pk alb ob, ops @ [ClearPair pk alb])"
| "run_action (Put x) (ob, ops) = (case index_insert_or_update x ob of (ob', o') \<Rightarrow> (ob', ops @ o'))"
| "run_action (Del u) (ob, ops) = (case index_remove u ob of
     (ob', res) \<Rightarrow> (ob', ops @ (case res of Some (_, op) \<Rightarrow> [op] | None \<Rightarrow> [])))"

definition actions_of_full :: "string \<Rightarrow> string \<Rightarrow> sync_infos \<Rightarrow> (uuid \<times> orderbook_p2p_item) list \<Rightarrow> index_action list" where
  "actions_of_full pk alb infos orders = ClearOf pk alb # map (\<lambda>(u, order). Put (item_of_answer infos u order)) orders"

definition actions_of_delta :: "sync_infos \<Rightarrow> (uuid, orderbook_p2p_item option) hash_map \<Rightarrow> index_action list" where
  "actions_of_delta infos delta = map (\<lambda>(u, v). case v of
     Some order \<Rightarrow> Put (item_of_answer infos u order) | None \<Rightarrow> Del u) delta"

definition actions_of_response :: "string \<Rightarrow> sync_pubkey_orderbook_state_res \<Rightarrow> index_action list" where
  "actions_of_response pk res = concat (map (\<lambda>(pair, diff). case diff of
     Delta delta \<Rightarrow> actions_of_delta (sr_infos res) delta
   | FullTrie values \<Rightarrow> actions_of_full pk pair (sr_infos res) values) (sr_pair_orders_diff res))"

lemma run_actions_append_ops:
  "fold run_action acts (ob, ops) = (case fold run_action acts (ob, []) of (ob', ops') \<Rightarrow> (ob', ops @ ops'))"
proof (induction acts arbitrary: ob ops)
  case (Cons a acts)
  obtain ob1 o1 where 1: "run_action a (ob, []) = (ob1, o1)" by (metis prod.collapse)
  then have 2: "run_action a (ob, ops) = (ob1, ops @ o1)"
    by (cases a) (auto split: prod.splits)
  show ?case
    by (simp add: 1 2) (subst (1 2) Cons.IH, simp split: prod.split)
qed simp

lemma process_full_is_run:
  "process_pubkey_full_trie pk alb infos orders ob = fold run_action (actions_of_full pk alb infos orders) (ob, [])"
proof -
  have "fold (\<lambda>(u, order). insert_collecting (item_of_answer infos u order)) orders acc =
      fold run_action (map (\<lambda>(u, order). Put (item_of_answer infos u order)) orders) acc" for acc
    by (induction orders arbitrary: acc) (auto simp: insert_collecting_def split: prod.split)
  then show ?thesis by (simp add: process_pubkey_full_trie_def actions_of_full_def)
qed

lemma process_delta_is_run:
  "process_trie_delta infos delta ob = fold run_action (actions_of_delta infos delta) (ob, [])"
proof -
  have "fold (\<lambda>(u, maybe_order) acc. case maybe_order of
         Some order \<Rightarrow> insert_collecting (item_of_answer infos u order) acc
       | None \<Rightarrow> (case acc of (ob, ops) \<Rightarrow> case index_remove u ob of
             (ob', Some (_, op)) \<Rightarrow> (ob', ops @ [op]) | (ob', None) \<Rightarrow> (ob', ops))) delta acc
      = fold run_action (actions_of_delta infos delta) acc" for acc
    unfolding actions_of_delta_def
    by (induction delta arbitrary: acc) (auto simp: insert_collecting_def split: prod.split option.split)
  then show ?thesis by (simp add: process_trie_delta_def)
qed

lemma run_action_frame [simp]:
  "ob_my_p2p_pubkeys (fst (run_action a acc)) = ob_my_p2p_pubkeys (fst acc)"
  by (cases a; cases acc) (simp_all add: split_beta)

lemma run_actions_frame [simp]:
  "ob_my_p2p_pubkeys (fst (fold run_action acts acc)) = ob_my_p2p_pubkeys (fst acc)"
  by (induction acts arbitrary: acc) simp_all

lemma fold_run_concat:
  assumes "\<And>x ob. x \<in> set xs \<Longrightarrow> ob_my_p2p_pubkeys ob = keys \<Longrightarrow> f x ob = fold run_action (g x) (ob, [])"
    and "ob_my_p2p_pubkeys (fst acc) = keys"
  shows "fold (\<lambda>x (ob, ops). let (ob', ops') = f x ob in (ob', ops @ ops')) xs acc
    = fold run_action (concat (map g xs)) acc"
  using assms
proof (induction xs arbitrary: acc)
  case (Cons x xs)
  obtain ob ops where acc: "acc = (ob, ops)" by (metis prod.collapse)
  have keys: "ob_my_p2p_pubkeys ob = keys" using Cons.prems(2) acc by simp
  have "(case acc of (ob, ops) \<Rightarrow> let (ob', ops') = f x ob in (ob', ops @ ops')) = fold run_action (g x) acc"
    using Cons.prems(1)[of x ob] keys run_actions_append_ops[of "g x" ob ops] by (simp add: acc)
  moreover have "ob_my_p2p_pubkeys (fst (fold run_action (g x) acc)) = keys" using Cons.prems(2) by simp
  ultimately show ?case using Cons.IH[of "fold run_action (g x) acc"] Cons.prems(1) by simp
qed simp

lemma keep_alive_response_is_run:
  "keep_alive_response pk res ns =
    (let (ob, ops) = fold run_action (actions_of_response pk res) (ns_orderbook ns, [])
     in send_trie_ops ops (ns\<lparr>ns_orderbook := ob\<rparr>))"
proof -
  have "fold (\<lambda>(pair, diff) (ob, ops).
       let (ob', pair_ops) = (case diff of
           Delta delta \<Rightarrow> process_trie_delta (sr_infos res) delta ob
         | FullTrie values \<Rightarrow> process_pubkey_full_trie pk pair (sr_infos res) values ob)
       in (ob', ops @ pair_ops)) (sr_pair_orders_diff res) acc
     = fold run_action (actions_of_response pk res) acc" for acc
    unfolding actions_of_response_def
    by (subst fold_run_concat[symmetric, where f = "\<lambda>(pair, diff) ob. case diff of
           Delta delta \<Rightarrow> process_trie_delta (sr_infos res) delta ob
         | FullTrie values \<Rightarrow> process_pubkey_full_trie pk pair (sr_infos res) values ob", OF _ refl])
      (auto simp: process_full_is_run process_delta_is_run split_def split: delta_or_full_trie.split)
  then show ?thesis by (simp add: keep_alive_response_def)
qed

section \<open>The store knows what the index has\<close>

definition index_uuids :: "orderbook \<Rightarrow> string \<Rightarrow> (uuid \<times> string) set" where
  "index_uuids ob pk = {(u, oi_alb_pair x) |u x. ob_order_set ob u = Some x \<and> oi_pubkey x = pk}"

lemma mem_index_uuids:
  "(u, a) \<in> index_uuids ob pk \<longleftrightarrow> (\<exists>x. ob_order_set ob u = Some x \<and> oi_pubkey x = pk \<and> oi_alb_pair x = a)"
  by (auto simp: index_uuids_def)

text \<open>Tickers have no colon, so that the name of a pair determines its two tickers.\<close>

definition plain_tickers :: "orderbook_item \<Rightarrow> bool" where
  "plain_tickers x \<longleftrightarrow> CHR '':'' \<notin> set (oi_base x) \<and> CHR '':'' \<notin> set (oi_rel x)"

definition ob_plain :: "orderbook \<Rightarrow> bool" where
  "ob_plain ob \<longleftrightarrow> (\<forall>u x. ob_order_set ob u = Some x \<longrightarrow> plain_tickers x)"

definition pair_name :: "string \<Rightarrow> bool" where
  "pair_name alb \<longleftrightarrow> (case str_split_once (CHR '':'') alb of
     Some (a, b) \<Rightarrow> CHR '':'' \<notin> set b \<and> alb = alb_ordered_pair a b | None \<Rightarrow> False)"

text \<open>An order may be put when the index has nothing under its uuid, or an order of the same owner
  and pair.\<close>

definition may_put :: "orderbook \<Rightarrow> orderbook_item \<Rightarrow> bool" where
  "may_put ob x \<longleftrightarrow> plain_tickers x \<and> (case ob_order_set ob (oi_uuid x) of
     Some y \<Rightarrow> oi_pair y = oi_pair x \<and> oi_pubkey y = oi_pubkey x | None \<Rightarrow> True)"

lemma str_split_once_no_sep: "str_split_once c s = Some (a, b) \<Longrightarrow> s = a @ c # b \<and> c \<notin> set a"
  by (induction s arbitrary: a) (auto split: if_splits)

lemma alb_ordered_pair_inject:
  assumes "CHR '':'' \<notin> set a" "CHR '':'' \<notin> set b" "CHR '':'' \<notin> set c" "CHR '':'' \<notin> set d"
  shows "alb_ordered_pair a b = alb_ordered_pair c d \<longleftrightarrow> (a, b) = (c, d) \<or> (a, b) = (d, c)"
proof -
  have split: "str_split_once (CHR '':'') (alb_ordered_pair x y) = Some (if x < y then (x, y) else (y, x))"
    if "CHR '':'' \<notin> set x" "CHR '':'' \<notin> set y" for x y
    using that by (auto simp: alb_ordered_pair_def str_split_once_append)
  have "alb_ordered_pair a b = alb_ordered_pair c d \<Longrightarrow> (if a < b then (a, b) else (b, a)) = (if c < d then (c, d) else (d, c))"
    using split[of a b] split[of c d] assms by simp
  then show ?thesis using alb_ordered_pair_sym by (auto split: if_splits)
qed

lemma cleared_orders:
  assumes "pair_name alb" "plain_tickers x" "str_split_once (CHR '':'') alb = Some (b, r)"
  shows "oi_pair x \<in> {(b, r), (r, b)} \<longleftrightarrow> oi_alb_pair x = alb"
proof -
  have "CHR '':'' \<notin> set b" "CHR '':'' \<notin> set r" "alb = alb_ordered_pair b r"
    using assms str_split_once_no_sep[OF assms(3)] by (auto simp: pair_name_def)
  then show ?thesis
    using assms(2) by (auto simp: plain_tickers_def oi_alb_pair_def alb_ordered_pair_inject)
qed

subsection \<open>One action\<close>

definition act_ok :: "orderbook \<Rightarrow> index_action \<Rightarrow> bool" where
  "act_ok ob a = (case a of ClearOf pk alb \<Rightarrow> pair_name alb | Put x \<Rightarrow> may_put ob x | Del u \<Rightarrow> True)"

lemma put_uuids:
  assumes "ob_inv ob" "may_put ob x"
  shows "index_uuids (fst (index_insert_or_update x ob)) =
    fold op_uuids (snd (index_insert_or_update x ob)) (index_uuids ob)"
proof -
  let ?u = "oi_uuid x" and ?K = "index_uuids ob"
  have same: "oi_alb_pair y = oi_alb_pair x \<and> oi_pubkey y = oi_pubkey x" if "ob_order_set ob ?u = Some y" for y
    using assms(2) that by (simp add: may_put_def oi_alb_pair_def)
  have old: "(?u, a) \<in> ?K pk \<longleftrightarrow> ob_order_set ob ?u \<noteq> None \<and> pk = oi_pubkey x \<and> a = oi_alb_pair x" for a pk
    using same by (auto simp: mem_index_uuids)
  have new: "(u, a) \<in> index_uuids (fst (index_insert_or_update x ob)) pk \<longleftrightarrow>
      (if u = ?u \<and> ob_admits ob x then oi_tradable x \<and> pk = oi_pubkey x \<and> a = oi_alb_pair x else (u, a) \<in> ?K pk)" for u a pk
    by (auto simp: mem_index_uuids index_insert_order_set)
  have ops: "(u, a) \<in> fold op_uuids (snd (index_insert_or_update x ob)) ?K pk \<longleftrightarrow>
      (if u = ?u \<and> ob_admits ob x then oi_tradable x \<and> pk = oi_pubkey x \<and> a = oi_alb_pair x else (u, a) \<in> ?K pk)" for u a pk
  proof (cases "ob_admits ob x")
    case adm: True
    show ?thesis
    proof (cases "oi_tradable x")
      case True
      with adm show ?thesis by (cases "u = ?u") (auto simp: index_insert_snd old)
    next
      case False
      with adm show ?thesis
        by (cases "ob_order_set ob ?u"; cases "u = ?u") (auto simp: index_insert_snd old dest!: same)
    qed
  qed (simp add: index_insert_snd)
  show ?thesis by (intro ext set_eqI) (auto simp only: new ops split: prod.splits)
qed

lemma del_uuids:
  "index_uuids (fst (index_remove u ob)) =
    (case ob_order_set ob u of Some x \<Rightarrow> op_uuids (TrieRemove (oi_pubkey x) (oi_alb_pair x) u) | None \<Rightarrow> id) (index_uuids ob)"
  by (cases "ob_order_set ob u") (auto simp: fun_eq_iff mem_index_uuids split: if_splits)

lemma clear_uuids:
  assumes "ob_inv ob" "ob_plain ob" "pair_name alb"
  shows "index_uuids (index_remove_pubkey_pair_orders pk alb ob) = op_uuids (ClearPair pk alb) (index_uuids ob)"
proof -
  obtain b r where alb: "str_split_once (CHR '':'') alb = Some (b, r)"
    using assms(3) by (auto simp: pair_name_def split: option.splits)
  have "(u, a) \<in> index_uuids (index_remove_pubkey_pair_orders pk alb ob) p \<longleftrightarrow>
      (u, a) \<in> op_uuids (ClearPair pk alb) (index_uuids ob) p" for u a p
  proof (cases "ob_order_set ob u")
    case None
    then show ?thesis by (simp add: mem_index_uuids index_remove_pubkey_pair_orders_order_set[OF assms(1) alb])
  next
    case (Some x)
    then have "plain_tickers x" using assms(2) by (simp add: ob_plain_def)
    from cleared_orders[OF assms(3) this alb] Some show ?thesis
      by (auto simp add: mem_index_uuids index_remove_pubkey_pair_orders_order_set[OF assms(1) alb])
  qed
  then show ?thesis by (auto simp: fun_eq_iff)
qed

lemma put_inv: "ob_inv ob \<Longrightarrow> may_put ob x \<Longrightarrow> ob_inv (fst (index_insert_or_update x ob))"
  by (rule idx.inv_put) (auto simp: may_put_def split: option.splits)

lemma put_plain: "ob_plain ob \<Longrightarrow> may_put ob x \<Longrightarrow> ob_plain (fst (index_insert_or_update x ob))"
  by (auto simp: ob_plain_def index_insert_order_set may_put_def split: if_splits)

lemma del_plain: "ob_plain ob \<Longrightarrow> ob_plain (fst (index_remove u ob))"
  by (auto simp: ob_plain_def split: if_splits)

lemma clear_plain:
  assumes "ob_plain ob" "ob_inv ob" "pair_name alb"
  shows "ob_plain (index_remove_pubkey_pair_orders pk alb ob)"
proof -
  obtain b r where alb: "str_split_once (CHR '':'') alb = Some (b, r)"
    using assms(3) by (auto simp: pair_name_def split: option.splits)
  show ?thesis
    using assms(1) by (auto simp: ob_plain_def index_remove_pubkey_pair_orders_order_set[OF assms(2) alb]
        split: option.splits if_splits)
qed

text \<open>The invariant of the index with its known uuids, kept by every action that is in order.\<close>

definition index_ok :: "orderbook \<Rightarrow> bool" where
  "index_ok ob \<longleftrightarrow> ob_inv ob \<and> ob_plain ob"

lemma run_action_ok:
  assumes "index_ok ob" "act_ok ob a" "run_action a (ob, []) = (ob', ops)"
  shows "index_ok ob' \<and> index_uuids ob' = fold op_uuids ops (index_uuids ob)"
proof (cases a)
  case (ClearOf pk alb)
  with assms show ?thesis
    by (auto simp: index_ok_def act_ok_def clear_uuids clear_plain index_remove_pubkey_pair_orders_inv)
next
  case (Put x)
  with assms have "ob' = fst (index_insert_or_update x ob)" "ops = snd (index_insert_or_update x ob)"
    by (auto split: prod.splits)
  with assms Put show ?thesis
    by (simp add: index_ok_def act_ok_def put_inv put_plain put_uuids)
next
  case (Del u)
  with assms have 1: "ob' = fst (index_remove u ob)"
    and 2: "ops = (case snd (index_remove u ob) of Some (_, op) \<Rightarrow> [op] | None \<Rightarrow> [])"
    by (auto split: prod.splits)
  have "index_uuids ob' = fold op_uuids ops (index_uuids ob)"
    unfolding 1 2 index_remove_result del_uuids by (simp split: option.split)
  with assms(1) 1 show ?thesis by (simp add: index_ok_def del_plain index_remove_inv)
qed

fun acts_ok :: "orderbook \<Rightarrow> index_action list \<Rightarrow> bool" where
  "acts_ok ob [] = True"
| "acts_ok ob (a # acts) = (act_ok ob a \<and> acts_ok (fst (run_action a (ob, []))) acts)"

lemma run_actions_ok:
  "index_ok ob \<Longrightarrow> acts_ok ob acts \<Longrightarrow> fold run_action acts (ob, []) = (ob', ops) \<Longrightarrow>
     index_ok ob' \<and> index_uuids ob' = fold op_uuids ops (index_uuids ob)"
proof (induction acts arbitrary: ob ob' ops)
  case (Cons a acts)
  obtain ob1 o1 where 1: "run_action a (ob, []) = (ob1, o1)" by (metis prod.collapse)
  obtain ob2 o2 where 2: "fold run_action acts (ob1, []) = (ob2, o2)" by (metis prod.collapse)
  have "fold run_action (a # acts) (ob, []) = (ob2, o1 @ o2)"
    using run_actions_append_ops[of acts ob1 o1] by (simp add: 1 2)
  then have e: "ob' = ob2" "ops = o1 @ o2" using Cons.prems(3) by simp_all
  have "index_ok ob1 \<and> index_uuids ob1 = fold op_uuids o1 (index_uuids ob)"
    using run_action_ok[OF Cons.prems(1) _ 1] Cons.prems(2) by simp
  with Cons.IH[OF _ _ 2] Cons.prems(2) 1 e show ?case by simp
qed simp

text \<open>Which actions of an answer may follow each other in one batch: an order is put under the pair
  its answer is about, and no uuid comes back.\<close>

fun act_follow :: "index_action \<Rightarrow> index_action \<Rightarrow> bool" where
  "act_follow (Put x) (ClearOf pk alb) = (\<not> (oi_pubkey x = pk \<and> oi_alb_pair x = alb))"
| "act_follow (Put x) (Put y) = (oi_uuid x \<noteq> oi_uuid y)"
| "act_follow (Del u) (Put y) = (u \<noteq> oi_uuid y)"
| "act_follow _ _ = True"

definition possible_ops :: "index_action \<Rightarrow> trie_op set" where
  "possible_ops a = (case a of
     ClearOf pk alb \<Rightarrow> {ClearPair pk alb}
   | Put x \<Rightarrow> {TrieInsert (oi_pubkey x) (oi_alb_pair x) (oi_uuid x) x} \<union> {TrieRemove p b (oi_uuid x) |p b. True}
   | Del u \<Rightarrow> {TrieRemove p b u |p b. True})"

lemma run_action_ops:
  "run_action a (ob, []) = (ob', ops) \<Longrightarrow> length ops \<le> 1 \<and> set ops \<subseteq> possible_ops a"
proof (cases a)
  case (Put x)
  moreover assume "run_action a (ob, []) = (ob', ops)"
  ultimately have "ops = snd (index_insert_or_update x ob)" by (auto split: prod.splits)
  with Put show ?thesis by (auto simp: possible_ops_def index_insert_snd split: if_splits option.splits)
next
  case (Del u)
  moreover assume "run_action a (ob, []) = (ob', ops)"
  ultimately have "ops = (case snd (index_remove u ob) of Some (_, op) \<Rightarrow> [op] | None \<Rightarrow> [])"
    by (auto split: prod.splits)
  with Del show ?thesis by (auto simp: possible_ops_def index_remove_result split: option.splits)
qed (auto simp: possible_ops_def)

lemma act_follow_ops:
  "act_follow a b \<Longrightarrow> p \<in> possible_ops a \<Longrightarrow> q \<in> possible_ops b \<Longrightarrow> may_follow p q"
  by (cases a; cases b) (auto simp: possible_ops_def)

lemma run_actions_follow:
  "sorted_wrt act_follow acts \<Longrightarrow> fold run_action acts (ob, []) = (ob', ops) \<Longrightarrow>
     sorted_wrt may_follow ops \<and> set ops \<subseteq> (\<Union>a \<in> set acts. possible_ops a)"
proof (induction acts arbitrary: ob ob' ops)
  case (Cons a acts)
  obtain ob1 o1 where 1: "run_action a (ob, []) = (ob1, o1)" by (metis prod.collapse)
  obtain ob2 o2 where 2: "fold run_action acts (ob1, []) = (ob2, o2)" by (metis prod.collapse)
  have e: "ops = o1 @ o2"
    using run_actions_append_ops[of acts ob1 o1] Cons.prems(2) by (simp add: 1 2)
  have o1: "length o1 \<le> 1" "set o1 \<subseteq> possible_ops a" using run_action_ops[OF 1] by simp_all
  have o2: "sorted_wrt may_follow o2" "set o2 \<subseteq> (\<Union>a \<in> set acts. possible_ops a)"
    using Cons.IH[OF _ 2] Cons.prems(1) by simp_all
  have "may_follow p q" if "p \<in> set o1" "q \<in> set o2" for p q
    using act_follow_ops that o1(2) o2(2) Cons.prems(1) by fastforce
  moreover have "sorted_wrt may_follow o1" using o1(1) by (cases o1) auto
  ultimately show ?case using e o1 o2 by (auto simp: sorted_wrt_append)
qed simp

definition actions_of_fill :: "(string \<Rightarrow> h256 option) \<Rightarrow> (h256 \<Rightarrow> bool) \<Rightarrow> string option \<Rightarrow> string list \<Rightarrow> string \<Rightarrow>
    get_orderbook_res \<Rightarrow> index_action list" where
  "actions_of_fill unprefixed is_banned my_pub my_keys alb res = concat (map (\<lambda>(pk, item).
     case unprefixed pk of
       None \<Rightarrow> []
     | Some k \<Rightarrow> if is_my_order pk my_pub my_keys \<or> is_banned k then []
         else actions_of_full pk alb (gr_infos res) (gp_orders item)) (gr_pubkey_orders res))"

lemma fill_is_run:
  assumes "ob_my_p2p_pubkeys (fst acc) = keys"
  shows "fold (fill_from_pubkey unprefixed is_banned my_pub alb (gr_infos res)) (gr_pubkey_orders res) acc
    = fold run_action (actions_of_fill unprefixed is_banned my_pub keys alb res) acc"
proof -
  let ?f = "\<lambda>(pk, item) ob. case unprefixed pk of
       None \<Rightarrow> (ob, [])
     | Some k \<Rightarrow> if is_my_order pk my_pub (ob_my_p2p_pubkeys ob) \<or> is_banned k then (ob, [])
         else process_pubkey_full_trie pk alb (gr_infos res) (gp_orders item) ob"
  have "fill_from_pubkey unprefixed is_banned my_pub alb (gr_infos res) =
      (\<lambda>x (ob, ops). let (ob', ops') = ?f x ob in (ob', ops @ ops'))"
    by (auto simp: fun_eq_iff fill_from_pubkey_def Let_def split: option.split prod.split)
  then show ?thesis
    unfolding actions_of_fill_def
    by (simp only:) (rule fold_run_concat[OF _ assms], auto simp: process_full_is_run split: option.split)
qed

section \<open>Index and store in step\<close>

definition in_step :: "'db net_state \<Rightarrow> bool" where
  "in_step ns \<longleftrightarrow> fold batch_uuids (ns_trie_ops ns) (known_uuids (ns_trie_store ns)) = index_uuids (ns_orderbook ns)"

definition net_ok :: "'db net_state \<Rightarrow> bool" where
  "net_ok ns \<longleftrightarrow> index_ok (ns_orderbook ns) \<and> in_step ns \<and> ts_acyclic (ns_trie_store ns)"

lemma batch_uuids_Nil [simp]: "batch_uuids [] K = K"
  by (simp add: batch_uuids_def)

lemma net_ok_change:
  assumes "net_ok ns" "index_ok ob" "index_uuids ob = batch_uuids ops (index_uuids (ns_orderbook ns))"
  shows "net_ok (send_trie_ops ops (ns\<lparr>ns_orderbook := ob\<rparr>))"
  using assms by (auto simp: net_ok_def in_step_def send_trie_ops_def)

lemma send_Nil [simp]: "send_trie_ops [] ns = ns"
  by (simp add: send_trie_ops_def)

lemma index_ok_frame [simp]:
  "index_ok (ob\<lparr>ob_recently_cancelled := c\<rparr>) = index_ok ob"
  "index_ok (ob\<lparr>ob_my_p2p_pubkeys := ks\<rparr>) = index_ok ob"
  unfolding index_ok_def ob_plain_def
  using ob_inv_frame[of "ob\<lparr>ob_recently_cancelled := c\<rparr>" ob] ob_inv_frame[of "ob\<lparr>ob_my_p2p_pubkeys := ks\<rparr>" ob]
  by simp_all

lemma index_uuids_frame [simp]:
  "index_uuids (ob\<lparr>ob_recently_cancelled := c\<rparr>) = index_uuids ob"
  "index_uuids (ob\<lparr>ob_my_p2p_pubkeys := ks\<rparr>) = index_uuids ob"
  by (simp_all add: index_uuids_def fun_eq_iff)

lemma insert_ops_batch:
  "fold op_uuids (snd (index_insert_or_update x ob)) K = batch_uuids (snd (index_insert_or_update x ob)) K"
  by (simp add: index_insert_snd batch_uuids_single split: option.split)

lemma net_ok_put:
  assumes "net_ok ns" "may_put (ns_orderbook ns) x"
  shows "net_ok (insert_or_update_order x ns)" "net_ok (insert_or_update_my_order x m ns)"
proof -
  let ?ob = "ns_orderbook ns"
  have ok: "index_ok (fst (index_insert_or_update x ?ob))"
    and u: "index_uuids (fst (index_insert_or_update x ?ob)) = batch_uuids (snd (index_insert_or_update x ?ob)) (index_uuids ?ob)"
    using assms put_inv put_plain put_uuids by (auto simp: net_ok_def index_ok_def insert_ops_batch)
  show "net_ok (insert_or_update_order x ns)"
    using net_ok_change[OF assms(1) ok u] by (simp add: insert_or_update_order_def Let_def split_beta)
  obtain ob' ops where e: "index_insert_or_update x ?ob = (ob', ops)" by (metis prod.collapse)
  have "net_ok (send_trie_ops ops (ns\<lparr>ns_orderbook := ob'\<lparr>ob_my_p2p_pubkeys := ks\<rparr>\<rparr>))" for ks
    using ok u e by (intro net_ok_change[OF assms(1)]) simp_all
  moreover have "net_ok (send_trie_ops ops (ns\<lparr>ns_orderbook := ob'\<rparr>))"
    using ok u e by (intro net_ok_change[OF assms(1)]) simp_all
  ultimately show "net_ok (insert_or_update_my_order x m ns)"
    by (simp add: insert_or_update_my_order_def e split: option.split)
qed

lemma net_ok_del:
  assumes "net_ok ns" "index_remove u (ns_orderbook ns) = (ob', res)"
    and "ob'' = ob' \<or> (\<exists>ks. ob'' = ob'\<lparr>ob_my_p2p_pubkeys := ks\<rparr>)"
  shows "net_ok (case map_option snd res of Some op \<Rightarrow> send_trie_ops [op] (ns\<lparr>ns_orderbook := ob''\<rparr>)
    | None \<Rightarrow> ns\<lparr>ns_orderbook := ob''\<rparr>)"
proof -
  let ?ob = "ns_orderbook ns"
  let ?ops = "case map_option snd res of Some op \<Rightarrow> [op] | None \<Rightarrow> []"
  have ob': "ob' = fst (index_remove u ?ob)" and res: "res = snd (index_remove u ?ob)" using assms(2) by simp_all
  have ok: "index_ok ob'" using assms(1) by (simp add: ob' net_ok_def index_ok_def index_remove_inv del_plain)
  have u: "index_uuids ob' = batch_uuids ?ops (index_uuids ?ob)"
    by (simp add: ob' res del_uuids index_remove_result batch_uuids_single split: option.split)
  have "net_ok (send_trie_ops ?ops (ns\<lparr>ns_orderbook := ob''\<rparr>))"
    using assms(3) ok u by (intro net_ok_change[OF assms(1)]) auto
  then show ?thesis by (cases res) simp_all
qed

lemma net_ok_cancel_mark:
  "net_ok ns \<Longrightarrow> net_ok (ns\<lparr>ns_orderbook := (ns_orderbook ns)\<lparr>ob_recently_cancelled := c\<rparr>\<rparr>)"
  by (simp add: net_ok_def in_step_def)

lemma net_ok_cancelled:
  assumes "net_ok ns"
  shows "net_ok (process_maker_order_cancelled pk msg ns)"
proof -
  let ?ob = "(ns_orderbook ns)\<lparr>ob_recently_cancelled := (ob_recently_cancelled (ns_orderbook ns))(npx_uuid msg \<mapsto> pk)\<rparr>"
  have ok: "net_ok (ns\<lparr>ns_orderbook := ?ob\<rparr>)" by (rule net_ok_cancel_mark[OF assms])
  obtain ob' res where r: "index_remove (npx_uuid msg) ?ob = (ob', res)" by (metis prod.collapse)
  have "net_ok (case map_option snd res of Some op \<Rightarrow> send_trie_ops [op] (ns\<lparr>ns_orderbook := ob'\<rparr>)
      | None \<Rightarrow> ns\<lparr>ns_orderbook := ob'\<rparr>)"
    using net_ok_del[OF ok, of "npx_uuid msg" ob' res ob'] r by (cases res) simp_all
  with ok r show ?thesis
    by (cases res) (auto simp: process_maker_order_cancelled_def Let_def split: option.split)
qed

lemma net_ok_actions:
  assumes "net_ok ns" "acts_ok (ns_orderbook ns) acts" "sorted_wrt act_follow acts"
    "fold run_action acts (ns_orderbook ns, []) = (ob', ops)"
  shows "net_ok (send_trie_ops ops (ns\<lparr>ns_orderbook := ob'\<rparr>))"
proof -
  have ok: "index_ok (ns_orderbook ns)" using assms(1) by (simp add: net_ok_def)
  have "batch_uuids ops (index_uuids (ns_orderbook ns)) = fold op_uuids ops (index_uuids (ns_orderbook ns))"
    using run_actions_follow[OF assms(3,4)] by (intro batch_uuids_fold) simp
  with run_actions_ok[OF ok assms(2,4)] show ?thesis by (intro net_ok_change[OF assms(1)]) simp_all
qed

lemma net_ok_worker: "net_ok ns \<Longrightarrow> net_ok (trie_worker_step lib now ns)"
  by (auto simp: net_ok_def in_step_def trie_worker_step_def known_apply_ops_batch apply_ops_acyclic split: list.split)

lemma known_prepare_sync:
  "known_uuids (fst (prepare_sync_request_for_keep_alive lib now pk msg relay sub st)) = known_uuids st"
  by (auto simp: prepare_sync_request_for_keep_alive_def Let_def known_uuids_def fun_eq_iff
      pubkey_state_mut_def pubkey_state_new_def unwrap_or_def split: prod.split option.split)

lemma net_ok_keep_alive_request: "net_ok ns \<Longrightarrow> net_ok (fst (keep_alive_request lib now relay pk msg ns))"
  using known_prepare_sync[of lib now pk msg relay "\<lambda>topic. ns_subscriptions ns topic \<noteq> None" "ns_trie_store ns"]
    prepare_sync_request_acyclic[of "ns_trie_store ns" lib now pk msg relay "\<lambda>topic. ns_subscriptions ns topic \<noteq> None"]
  by (auto simp: net_ok_def in_step_def keep_alive_request_def split: prod.split)

text \<open>The steps of the service on the orderbook. An order of a message may be put; the actions of an
  answer are in order and follow each other.\<close>

inductive net_step :: "('db, 't) trie_lib \<Rightarrow> 'db net_state \<Rightarrow> 'db net_state \<Rightarrow> bool" for lib where
  Created: "may_put (ns_orderbook ns) (oi_of_created msg pk) \<Longrightarrow> net_step lib ns (process_maker_order_created pk msg ns)"
| Updated: "net_step lib ns (fst (process_maker_order_updated pk upd ns))"
| Cancelled: "net_step lib ns (process_maker_order_cancelled pk canc ns)"
| MyCreated: "may_put (ns_orderbook ns) x \<Longrightarrow> net_step lib ns (insert_or_update_my_order x m ns)"
| MyUpdated: "net_step lib ns (process_my_maker_order_updated upd ns)"
| MyDeleted: "net_step lib ns (delete_my_order u key ns)"
| KeepAliveRequest: "net_step lib ns (fst (keep_alive_request lib now relay pk keep_alive ns))"
| KeepAliveResponse: "acts_ok (ns_orderbook ns) (actions_of_response pk res) \<Longrightarrow>
    sorted_wrt act_follow (actions_of_response pk res) \<Longrightarrow> net_step lib ns (keep_alive_response pk res ns)"
| Fill: "acts = actions_of_fill unprefixed is_banned my_pub (ob_my_p2p_pubkeys (ns_orderbook ns)) (alb_ordered_pair b r) gres \<Longrightarrow>
    acts_ok (ns_orderbook ns) acts \<Longrightarrow> sorted_wrt act_follow acts \<Longrightarrow>
    net_step lib ns (fill_orderbook unprefixed is_banned my_pub b r gres ns)"
| Subscribe: "net_step lib ns (fst (subscribe_to_orderbook_topic now b r ns))"
| Worker: "net_step lib ns (trie_worker_step lib now ns)"
| Expire: "net_step lib ns (ns\<lparr>ns_orderbook := expire_recently_cancelled us (ns_orderbook ns)\<rparr>)"

definition net_new :: "'db \<Rightarrow> 'db net_state" where
  "net_new db = \<lparr>ns_orderbook = orderbook_new, ns_trie_store = \<lparr>ts_pubkeys_state = Map.empty, ts_memory_db = db\<rparr>,
     ns_subscriptions = Map.empty, ns_trie_ops = []\<rparr>"

definition net_reachable :: "('db, 't) trie_lib \<Rightarrow> 'db net_state \<Rightarrow> bool" where
  "net_reachable lib ns \<longleftrightarrow> (\<exists>db. (net_step lib)\<^sup>*\<^sup>* (net_new db) ns)"

lemma net_ok_new: "net_ok (net_new db)"
  by (simp add: net_ok_def net_new_def index_ok_def orderbook_new_inv ob_plain_def in_step_def ts_acyclic_def
      fun_eq_iff known_uuids_def index_uuids_def) (simp add: orderbook_new_def)

lemma may_put_update:
  assumes "net_ok ns" "ob_order_set (ns_orderbook ns) u = Some x"
  shows "may_put (ns_orderbook ns) (oi_apply_updated upd x)"
proof -
  have "oi_uuid x = u" "plain_tickers x"
    using assms by (auto simp: net_ok_def index_ok_def ob_plain_def dest: ob_inv_order)
  then show ?thesis using assms(2) by (simp add: may_put_def plain_tickers_def)
qed

lemma net_step_ok: "net_step lib ns ns' \<Longrightarrow> net_ok ns \<Longrightarrow> net_ok ns'"
proof (induction rule: net_step.induct)
  case (Created ns msg pk)
  then show ?case by (simp add: process_maker_order_created_def net_ok_put)
next
  case (Updated ns pk upd)
  then show ?case
    by (auto simp: process_maker_order_updated_def find_order_by_uuid_and_pubkey_def net_ok_put may_put_update
        split: option.split Option.bind_splits if_splits)
next
  case (Cancelled ns pk canc)
  then show ?case by (rule net_ok_cancelled)
next
  case (MyCreated ns x m)
  then show ?case by (simp add: net_ok_put)
next
  case (MyUpdated ns upd)
  then show ?case
    by (auto simp: process_my_maker_order_updated_def find_order_by_uuid_def net_ok_put may_put_update split: option.split)
next
  case (MyDeleted ns u key)
  obtain ob' res where r: "index_remove u (ns_orderbook ns) = (ob', res)" by (metis prod.collapse)
  show ?case
    unfolding delete_my_order_def r Let_def prod.case
    by (rule net_ok_del[OF MyDeleted r]) (cases key, auto)
next
  case (KeepAliveRequest ns now relay pk keep_alive)
  then show ?case by (rule net_ok_keep_alive_request)
next
  case (KeepAliveResponse ns pk res)
  then show ?case by (simp add: keep_alive_response_is_run net_ok_actions split: prod.split)
next
  case (Fill acts unprefixed is_banned my_pub ns b r gres)
  obtain ob' ops where 1: "fold run_action acts (ns_orderbook ns, []) = (ob', ops)" by (metis prod.collapse)
  then have "fold (fill_from_pubkey unprefixed is_banned my_pub (alb_ordered_pair b r) (gr_infos gres))
      (gr_pubkey_orders gres) (ns_orderbook ns, []) = (ob', ops)"
    using fill_is_run[of "(ns_orderbook ns, [])"] Fill(1) by simp
  moreover have "net_ok (send_trie_ops ops (ns\<lparr>ns_orderbook := ob'\<rparr>))"
    by (rule net_ok_actions[OF Fill(4,2,3) 1])
  ultimately show ?case by (simp add: fill_orderbook_def net_ok_def in_step_def Let_def)
next
  case (Subscribe ns now b r)
  then show ?case
    by (auto simp: subscribe_to_orderbook_topic_def Let_def net_ok_def in_step_def
        split: option.split orderbook_requesting_state.split)
next
  case (Worker ns now)
  then show ?case by (rule net_ok_worker)
next
  case (Expire ns us)
  then show ?case by (simp add: expire_recently_cancelled_def net_ok_cancel_mark)
qed

lemma net_reachable_ok: "net_reachable lib ns \<Longrightarrow> net_ok ns"
proof -
  have "(net_step lib)\<^sup>*\<^sup>* (net_new db) ns \<Longrightarrow> net_ok ns" for db
    by (induction rule: rtranclp_induct) (simp_all add: net_ok_new net_step_ok)
  then show "net_reachable lib ns \<Longrightarrow> net_ok ns" by (auto simp: net_reachable_def)
qed

lemma net_reachable_new [simp]: "net_reachable lib (net_new db)"
  by (auto simp: net_reachable_def)

lemma net_reachable_step: "net_reachable lib ns \<Longrightarrow> net_step lib ns ns' \<Longrightarrow> net_reachable lib ns'"
  unfolding net_reachable_def by (meson rtranclp.rtrancl_into_rtrancl)

lemma those_map_Some: "\<forall>x \<in> set xs. \<exists>y. f x = Some y \<Longrightarrow> \<exists>ys. those (map f xs) = Some ys"
  by (induction xs) auto

section \<open>What an answered orderbook says\<close>

text \<open>The orders of a pair in the order they are visited.\<close>

definition listed_orders :: "orderbook \<Rightarrow> string \<Rightarrow> string \<Rightarrow> orderbook_item list" where
  "listed_orders ob b r = concat (map (\<lambda>u. case ob_order_set ob u of Some x \<Rightarrow> [x] | None \<Rightarrow> [])
     (unordered_at ob (b, r) @ unordered_at ob (r, b)))"

definition collect_order :: "orderbook_item \<Rightarrow>
    (string, (uuid \<times> orderbook_p2p_item) list) hash_map \<times> sync_infos \<Rightarrow>
    (string, (uuid \<times> orderbook_p2p_item) list) hash_map \<times> sync_infos" where
  "collect_order x acc = (AList.update (oi_pubkey x)
     (unwrap_or [] (map_of (fst acc) (oi_pubkey x)) @ [(oi_uuid x, op_of_item x)]) (fst acc), add_infos x (snd acc))"

abbreviation no_infos :: sync_infos where
  "no_infos \<equiv> \<lparr>si_protocol_infos = [], si_conf_infos = []\<rparr>"

lemma set_listed_orders:
  "ob_inv ob \<Longrightarrow> x \<in> set (listed_orders ob b r) \<longleftrightarrow>
     ob_order_set ob (oi_uuid x) = Some x \<and> oi_pair x \<in> {(b, r), (r, b)}"
  by (auto simp: listed_orders_def ob_inv_unordered mem_ob_orders_of split: option.splits)

lemma listed_orders_distinct:
  assumes "ob_inv ob" "b \<noteq> r"
  shows "map oi_uuid (listed_orders ob b r) = unordered_at ob (b, r) @ unordered_at ob (r, b)"
    and "distinct (map oi_uuid (listed_orders ob b r))"
proof -
  have "map oi_uuid (concat (map (\<lambda>u. case ob_order_set ob u of Some x \<Rightarrow> [x] | None \<Rightarrow> []) us)) = us"
    if "\<forall>u \<in> set us. \<exists>x. ob_order_set ob u = Some x \<and> oi_uuid x = u" for us
    using that by (induction us) auto
  moreover have "\<forall>u \<in> set (unordered_at ob (b, r) @ unordered_at ob (r, b)). \<exists>x. ob_order_set ob u = Some x \<and> oi_uuid x = u"
    using ob_inv_order[OF assms(1)] by (auto simp: mem_unordered_at[OF assms(1)])
  ultimately show 1: "map oi_uuid (listed_orders ob b r) = unordered_at ob (b, r) @ unordered_at ob (r, b)"
    unfolding listed_orders_def by blast
  have "set (unordered_at ob (b, r)) \<inter> set (unordered_at ob (r, b)) = {}"
    using assms(2) by (auto simp: mem_unordered_at[OF assms(1)])
  then show "distinct (map oi_uuid (listed_orders ob b r))"
    unfolding 1 using ob_inv_unordered[OF assms(1)] by simp
qed

lemma get_pubkeys_orders_collect:
  assumes "ob_inv ob"
  shows "(go_uuids_by_pubkey (get_pubkeys_orders ob b r), go_infos (get_pubkeys_orders ob b r))
    = fold collect_order (listed_orders ob b r) ([], no_infos)"
proof -
  let ?f = "\<lambda>u (by_pubkey, infos). case ob_order_set ob u of
      Some order \<Rightarrow> (AList.update (oi_pubkey order)
          (unwrap_or [] (map_of by_pubkey (oi_pubkey order)) @ [(u, op_of_item order)]) by_pubkey, add_infos order infos)
    | None \<Rightarrow> (by_pubkey, infos)"
  have "fold ?f us acc = fold collect_order
      (concat (map (\<lambda>u. case ob_order_set ob u of Some x \<Rightarrow> [x] | None \<Rightarrow> []) us)) acc" for us acc
    using ob_inv_order[OF assms]
    by (induction us arbitrary: acc) (auto simp: collect_order_def split: option.split)
  then show ?thesis by (simp add: get_pubkeys_orders_def Let_def listed_orders_def split: prod.split)
qed

lemma collect_orders_by_pubkey:
  "hm_wf (fst (fold collect_order xs ([], no_infos)))
   \<and> map_of (fst (fold collect_order xs ([], no_infos))) pk =
     (if \<exists>x \<in> set xs. oi_pubkey x = pk
      then Some (map (\<lambda>x. (oi_uuid x, op_of_item x)) (filter (\<lambda>x. oi_pubkey x = pk) xs)) else None)"
  by (induction xs arbitrary: pk rule: rev_induct)
    (auto simp: collect_order_def hm_get_update hm_wf_update filter_empty_conv)

lemma collect_orders_infos:
  assumes "distinct (map oi_uuid xs)"
  shows "(\<forall>x \<in> set xs. map_of (si_protocol_infos (snd (fold collect_order xs ([], no_infos)))) (oi_uuid x) = Some (oi_base_rel_proto_info x)
      \<and> map_of (si_conf_infos (snd (fold collect_order xs ([], no_infos)))) (oi_uuid x) = oi_conf_settings x)
    \<and> (\<forall>u. u \<notin> oi_uuid ` set xs \<longrightarrow> map_of (si_conf_infos (snd (fold collect_order xs ([], no_infos)))) u = None)"
  using assms
proof (induction xs rule: rev_induct)
  case (snoc y xs)
  have "oi_uuid y \<notin> oi_uuid ` set xs" "distinct (map oi_uuid xs)" using snoc.prems by auto
  then show ?case
    using snoc.IH by (auto simp: collect_order_def add_infos_def hm_get_update image_iff split: option.split)
qed simp

lemma item_of_collected:
  assumes "ob_inv ob" "b \<noteq> r" "x \<in> set (listed_orders ob b r)"
  shows "item_of_answer (go_infos (get_pubkeys_orders ob b r)) (oi_uuid x) (op_of_item x) = x"
proof -
  have i: "go_infos (get_pubkeys_orders ob b r) = snd (fold collect_order (listed_orders ob b r) ([], no_infos))"
    using get_pubkeys_orders_collect[OF assms(1), of b r] by (metis snd_conv)
  show ?thesis
    using collect_orders_infos[OF listed_orders_distinct(2)[OF assms(1,2)]] assms(3)
    unfolding item_of_answer_def i by simp
qed

lemma collect_results_keys:
  assumes "collect_results (\<lambda>(k, v). case f k of None \<Rightarrow> Err (e k) | Some s \<Rightarrow> Ok (k, g s v)) kvs = Ok res"
  shows "res = map (\<lambda>(k, v). (k, g (the (f k)) v)) kvs"
  using assms by (induction kvs arbitrary: res) (auto split: option.splits)

text \<open>A successful answer lists, per peer, exactly the peer's orders of the pair.\<close>

lemma get_orderbook_answer:
  assumes "ob_inv (ns_orderbook ns)" "process_get_orderbook_request ns b r = Ok res"
  shows "gr_infos res = go_infos (get_pubkeys_orders (ns_orderbook ns) b r)"
    and "map (\<lambda>(pk, item). (pk, gp_orders item)) (gr_pubkey_orders res) = go_uuids_by_pubkey (get_pubkeys_orders (ns_orderbook ns) b r)"
proof -
  obtain os where os: "collect_results (\<lambda>(pubkey, orders). case ts_pubkeys_state (ns_trie_store ns) pubkey of
           None \<Rightarrow> Err (PubkeyStateMissing pubkey)
         | Some ps \<Rightarrow> Ok (pubkey, \<lparr>gp_last_keep_alive = ps_last_keep_alive ps, gp_orders = orders\<rparr>))
         (go_uuids_by_pubkey (get_pubkeys_orders (ns_orderbook ns) b r)) = Ok os"
    and res: "res = \<lparr>gr_pubkey_orders = os, gr_infos = go_infos (get_pubkeys_orders (ns_orderbook ns) b r)\<rparr>"
    using assms(2) by (auto simp: process_get_orderbook_request_def Let_def split: if_splits)
  show "gr_infos res = go_infos (get_pubkeys_orders (ns_orderbook ns) b r)" by (simp add: res)
  show "map (\<lambda>(pk, item). (pk, gp_orders item)) (gr_pubkey_orders res) = go_uuids_by_pubkey (get_pubkeys_orders (ns_orderbook ns) b r)"
    using collect_results_keys[OF os] by (simp add: res split_def comp_def)
qed

subsection \<open>What the receiver makes of it\<close>

abbreviation put_all :: "orderbook_item list \<Rightarrow> orderbook \<Rightarrow> orderbook" where
  "put_all xs ob \<equiv> fold (\<lambda>x ob. fst (index_insert_or_update x ob)) xs ob"

lemma run_puts: "fst (fold run_action (map Put xs) acc) = put_all xs (fst acc)"
  by (induction xs arbitrary: acc) (auto simp: split_beta)

lemma actions_of_full_orders:
  assumes "\<And>x. x \<in> set xs \<Longrightarrow> item_of_answer infos (oi_uuid x) (op_of_item x) = x"
  shows "actions_of_full pk alb infos (map (\<lambda>x. (oi_uuid x, op_of_item x)) xs) = ClearOf pk alb # map Put xs"
  using assms by (simp add: actions_of_full_def)

text \<open>An index that has no order of the peer yet takes over exactly the peer's orders.\<close>

definition fresh_for :: "orderbook \<Rightarrow> string \<Rightarrow> orderbook_item list \<Rightarrow> bool" where
  "fresh_for ob pk xs \<longleftrightarrow> ob_recently_cancelled ob = Map.empty
     \<and> (\<forall>u x. ob_order_set ob u = Some x \<longrightarrow> oi_pubkey x \<noteq> pk \<and> u \<notin> oi_uuid ` set xs)"

lemma clear_fresh:
  assumes "ob_inv ob" "fresh_for ob pk xs"
  shows "ob_order_set (index_remove_pubkey_pair_orders pk alb ob) = ob_order_set ob"
proof (cases "str_split_once (CHR '':'') alb")
  case (Some br)
  obtain b r where br: "br = (b, r)" by (metis prod.collapse)
  show ?thesis
    unfolding fun_eq_iff index_remove_pubkey_pair_orders_order_set[OF assms(1) Some[unfolded br]]
    using assms(2) by (auto simp: fresh_for_def split: option.split)
qed (simp add: index_remove_pubkey_pair_orders_def)

lemma acts_ok_puts:
  assumes "distinct (map oi_uuid xs)" "\<forall>x \<in> set xs. plain_tickers x \<and> ob_order_set ob (oi_uuid x) = None"
  shows "acts_ok ob (map Put xs)"
  using assms
proof (induction xs arbitrary: ob)
  case (Cons x xs)
  have "\<forall>y \<in> set xs. plain_tickers y \<and> ob_order_set (fst (index_insert_or_update x ob)) (oi_uuid y) = None"
    using Cons.prems by (auto simp: index_insert_order_set image_iff)
  with Cons show ?case by (simp add: act_ok_def may_put_def split_beta)
qed simp

lemma take_over_peer:
  assumes ok: "ob_inv ob" and fresh: "fresh_for ob pk xs" and dist: "distinct (map oi_uuid xs)"
    and xs: "\<forall>x \<in> set xs. oi_tradable x \<and> plain_tickers x" and alb: "pair_name alb"
  defines "ob' \<equiv> fst (fold run_action (ClearOf pk alb # map Put xs) (ob, []))"
  shows "acts_ok ob (ClearOf pk alb # map Put xs)"
    and "ob_inv ob'" and "ob_recently_cancelled ob' = Map.empty"
    and "ob_order_set ob' u = Some x \<longleftrightarrow> ob_order_set ob u = Some x \<or> (x \<in> set xs \<and> oi_uuid x = u)"
proof -
  let ?c = "index_remove_pubkey_pair_orders pk alb ob"
  have c: "ob_inv ?c" "ob_order_set ?c = ob_order_set ob" "ob_recently_cancelled ?c = Map.empty"
    using clear_fresh[OF ok fresh] fresh by (simp_all add: index_remove_pubkey_pair_orders_inv ok fresh_for_def)
  have none: "\<forall>x \<in> set xs. ob_order_set ?c (oi_uuid x) = None"
    using fresh unfolding c(2) fresh_for_def by (metis image_eqI not_None_eq)
  have ob': "ob' = put_all xs ?c" by (simp add: ob'_def run_puts)
  show "acts_ok ob (ClearOf pk alb # map Put xs)"
    using acts_ok_puts[OF dist, of ?c] xs none alb by (simp add: act_ok_def)
  have adm: "ob_admits ?c x" for x using fresh by (simp add: ob_admits_def fresh_for_def)
  have eq: "oi_pair x = oi_pair y" if "x \<in> set xs" "y \<in> set xs" "oi_uuid x = oi_uuid y" for x y
    using that dist by (metis distinct_map inj_onD)
  have "oi_pair w = oi_pair v" if "v \<in> set xs" "ob_order_set ?c (oi_uuid v) = Some w" for v w
    using that none by simp
  from idx.inv_fold_put[OF c(1) this eq] show "ob_inv ob'" unfolding ob' by blast
  have "ob_recently_cancelled (put_all ys ob1) = ob_recently_cancelled ob1" for ys ob1
    by (induction ys arbitrary: ob1) simp_all
  then show "ob_recently_cancelled ob' = Map.empty" unfolding ob' using fresh by (simp add: fresh_for_def)
  show "ob_order_set ob' u = Some x \<longleftrightarrow> ob_order_set ob u = Some x \<or> (x \<in> set xs \<and> oi_uuid x = u)"
  proof (cases "u \<in> oi_uuid ` set xs")
    case False
    then show ?thesis using idx.look_fold_put_other[OF False, of ?c] by (auto simp: ob' c(2))
  next
    case True
    then obtain y where y: "y \<in> set xs" "oi_uuid y = u" by auto
    then have "ob_order_set ob' u = Some y"
      using idx.look_fold_put[OF dist y(1), of ?c] xs adm by (simp add: ob')
    moreover have "ob_order_set ob u = None" using none y c(2) by auto
    moreover have "x \<in> set xs \<and> oi_uuid x = u \<longleftrightarrow> y = x"
      using y dist by (metis distinct_map inj_onD)
    ultimately show ?thesis by simp
  qed
qed

lemma acts_ok_append:
  "acts_ok ob (as @ bs) \<longleftrightarrow> acts_ok ob as \<and> acts_ok (fst (fold run_action as (ob, []))) bs"
proof (induction as arbitrary: ob)
  case (Cons a as)
  obtain ob1 o1 where 1: "run_action a (ob, []) = (ob1, o1)" by (metis prod.collapse)
  have "fst (fold run_action as (ob1, o1)) = fst (fold run_action as (ob1, []))"
    using run_actions_append_ops[of as ob1 o1] by (simp split: prod.split)
  then show ?case using Cons[of ob1] by (simp add: 1)
qed simp

lemma run_actions_fst: "fst (fold run_action acts (ob, ops)) = fst (fold run_action acts (ob, []))"
  using run_actions_append_ops[of acts ob ops] by (simp split: prod.split)

definition peer_actions :: "string \<Rightarrow> (string \<times> orderbook_item list) list \<Rightarrow> index_action list" where
  "peer_actions alb ps = concat (map (\<lambda>(pk, xs). ClearOf pk alb # map Put xs) ps)"

definition peers_ok :: "(string \<times> orderbook_item list) list \<Rightarrow> bool" where
  "peers_ok ps \<longleftrightarrow> distinct (map fst ps) \<and> distinct (map oi_uuid (concat (map snd ps)))
     \<and> (\<forall>(pk, xs) \<in> set ps. \<forall>x \<in> set xs. oi_pubkey x = pk \<and> oi_tradable x \<and> plain_tickers x)"

lemma take_over_peers:
  assumes "ob_inv ob" "ob_recently_cancelled ob = Map.empty" "peers_ok ps" "pair_name alb"
    and "\<And>u x. ob_order_set ob u = Some x \<Longrightarrow> oi_pubkey x \<notin> fst ` set ps \<and> u \<notin> oi_uuid ` set (concat (map snd ps))"
  shows "acts_ok ob (peer_actions alb ps)
    \<and> (ob_order_set (fst (fold run_action (peer_actions alb ps) (ob, []))) u = Some x \<longleftrightarrow>
        ob_order_set ob u = Some x \<or> (x \<in> set (concat (map snd ps)) \<and> oi_uuid x = u))"
  using assms
proof (induction ps arbitrary: ob)
  case (Cons p ps)
  obtain pk xs where p: "p = (pk, xs)" by (metis prod.collapse)
  let ?ob = "fst (fold run_action (ClearOf pk alb # map Put xs) (ob, []))"
  have ps: "peers_ok ps" and dist: "distinct (map oi_uuid xs)" and xs: "\<forall>x \<in> set xs. oi_tradable x \<and> plain_tickers x"
    and pub: "\<forall>x \<in> set xs. oi_pubkey x = pk" and pk: "pk \<notin> fst ` set ps"
    and disj: "oi_uuid ` set xs \<inter> oi_uuid ` set (concat (map snd ps)) = {}"
    using Cons.prems(3) by (auto simp: peers_ok_def p)
  have "fresh_for ob pk xs"
    unfolding fresh_for_def
  proof (intro conjI allI impI)
    fix v y assume "ob_order_set ob v = Some y"
    from Cons.prems(5)[OF this] show "oi_pubkey y \<noteq> pk" "v \<notin> oi_uuid ` set xs" by (auto simp: p)
  qed (rule Cons.prems(2))
  note step = take_over_peer[OF Cons.prems(1) this dist xs Cons.prems(4)]
  have "oi_pubkey y \<notin> fst ` set ps \<and> v \<notin> oi_uuid ` set (concat (map snd ps))"
    if "ob_order_set ?ob v = Some y" for v y
  proof (cases "y \<in> set xs \<and> oi_uuid y = v")
    case True
    then have "oi_pubkey y = pk" "v \<in> oi_uuid ` set xs" using pub by auto
    with pk disj show ?thesis by blast
  next
    case False
    then have "ob_order_set ob v = Some y" using that step(4)[of v y] by blast
    from Cons.prems(5)[OF this] show ?thesis by (auto simp: p)
  qed
  note IH = Cons.IH[OF step(2,3) ps Cons.prems(4) this]
  have split: "peer_actions alb (p # ps) = (ClearOf pk alb # map Put xs) @ peer_actions alb ps"
    by (simp add: peer_actions_def p)
  have run: "fst (fold run_action (peer_actions alb (p # ps)) (ob, [])) = fst (fold run_action (peer_actions alb ps) (?ob, []))"
    unfolding split fold_append comp_apply by (metis prod.collapse run_actions_fst)
  have "acts_ok ob (peer_actions alb (p # ps))"
    unfolding split acts_ok_append using step(1) IH by blast
  moreover have "ob_order_set (fst (fold run_action (peer_actions alb (p # ps)) (ob, []))) u = Some x \<longleftrightarrow>
      (ob_order_set ob u = Some x \<or> (x \<in> set xs \<and> oi_uuid x = u)) \<or> (x \<in> set (concat (map snd ps)) \<and> oi_uuid x = u)"
    using IH step(4)[of u x] unfolding run by blast
  moreover have "set (concat (map snd (p # ps))) = set xs \<union> set (concat (map snd ps))" by (simp add: p)
  ultimately show ?case by blast
qed (simp add: peer_actions_def)

lemma peer_actions_follow: "peers_ok ps \<Longrightarrow> sorted_wrt act_follow (peer_actions alb ps)"
proof (induction ps)
  case (Cons p ps)
  obtain pk xs where p: "p = (pk, xs)" by (metis prod.collapse)
  have "sorted_wrt act_follow (map Put xs)" if "distinct (map oi_uuid xs)" for xs
    using that by (induction xs) auto
  then have 1: "sorted_wrt act_follow (map Put xs)" using Cons.prems by (simp add: peers_ok_def p)
  have 2: "act_follow a b" if "a \<in> set (map Put xs)" "b \<in> set (peer_actions alb ps)" for a b
  proof -
    obtain x where x: "a = Put x" "x \<in> set xs" using \<open>a \<in> _\<close> by auto
    obtain pk' ys where ys: "(pk', ys) \<in> set ps" "b = ClearOf pk' alb \<or> b \<in> Put ` set ys"
      using \<open>b \<in> _\<close> by (auto simp: peer_actions_def)
    have "(\<exists>pk' \<in> fst ` set ps. b = ClearOf pk' alb) \<or> (\<exists>y \<in> set (concat (map snd ps)). b = Put y)"
      using ys by force
    moreover have "oi_pubkey x = pk" "pk \<notin> fst ` set ps" "oi_uuid ` set xs \<inter> oi_uuid ` set (concat (map snd ps)) = {}"
      using Cons.prems x by (auto simp: peers_ok_def p)
    ultimately show ?thesis using x by (elim disjE bexE) (simp_all, metis, blast)
  qed
  have "sorted_wrt act_follow (peer_actions alb ps)"
    using Cons by (simp add: peers_ok_def p)
  moreover have "peer_actions alb (p # ps) = ClearOf pk alb # map Put xs @ peer_actions alb ps"
    by (simp add: peer_actions_def p)
  ultimately show ?case using 1 2 by (simp add: sorted_wrt_append)
qed (simp add: peer_actions_def)

lemma distinct_by_peer:
  assumes "distinct (map oi_uuid L)" "distinct pks"
  shows "distinct (map oi_uuid (concat (map (\<lambda>pk. filter (\<lambda>x. oi_pubkey x = pk) L) pks)))"
  using assms(2)
proof (induction pks)
  case (Cons pk pks)
  have "distinct (map oi_uuid (filter P L))" for P
    using assms(1) by (simp add: distinct_map inj_on_def)
  moreover have "oi_uuid x \<noteq> oi_uuid y" if "x \<in> set L" "y \<in> set L" "oi_pubkey x = pk" "oi_pubkey y \<in> set pks" for x y
    using that assms(1) Cons.prems by (metis distinct.simps(2) distinct_map inj_onD)
  then have "oi_uuid ` set (filter (\<lambda>x. oi_pubkey x = pk) L)
      \<inter> oi_uuid ` set (concat (map (\<lambda>pk. filter (\<lambda>x. oi_pubkey x = pk) L) pks)) = {}"
    by (fastforce simp: disjoint_iff)
  ultimately show ?case using Cons by simp
qed simp

definition accepts_peer :: "(string \<Rightarrow> h256 option) \<Rightarrow> (h256 \<Rightarrow> bool) \<Rightarrow> string option \<Rightarrow> string list \<Rightarrow> string \<Rightarrow> bool" where
  "accepts_peer unprefixed is_banned my_pub my_keys pk \<longleftrightarrow>
     (case unprefixed pk of None \<Rightarrow> False | Some k \<Rightarrow> \<not> is_my_order pk my_pub my_keys \<and> \<not> is_banned k)"

text \<open>The actions of an honest answer are those of the accepted peers.\<close>

lemma honest_fill_actions:
  assumes inv: "ob_inv (ns_orderbook ns)" and "b \<noteq> r" and res: "process_get_orderbook_request ns b r = Ok res"
  defines "L \<equiv> listed_orders (ns_orderbook ns) b r"
  obtains ps where "actions_of_fill unprefixed is_banned my_pub keys alb res = peer_actions alb ps"
    and "distinct (map fst ps)" and "\<forall>(pk, xs) \<in> set ps. xs = filter (\<lambda>x. oi_pubkey x = pk) L"
    and "fst ` set ps = {pk \<in> oi_pubkey ` set L. accepts_peer unprefixed is_banned my_pub keys pk}"
proof -
  let ?G = "go_uuids_by_pubkey (get_pubkeys_orders (ns_orderbook ns) b r)"
  let ?acc = "accepts_peer unprefixed is_banned my_pub keys"
  let ?xs = "\<lambda>pk. filter (\<lambda>x. oi_pubkey x = pk) L"
  let ?ps = "map (\<lambda>(pk, _). (pk, ?xs pk)) (filter (\<lambda>(pk, _). ?acc pk) ?G)"
  have G: "?G = fst (fold collect_order L ([], no_infos))"
    using get_pubkeys_orders_collect[OF inv, of b r] by (metis L_def fst_conv)
  note by_pk = collect_orders_by_pubkey[of L, folded G]
  have v: "v = map (\<lambda>x. (oi_uuid x, op_of_item x)) (?xs pk) \<and> pk \<in> oi_pubkey ` set L" if "(pk, v) \<in> set ?G" for pk v
    using by_pk[of pk] map_of_is_SomeI[OF _ that] by (auto split: if_splits)
  have items: "actions_of_full pk alb (gr_infos res) v = ClearOf pk alb # map Put (?xs pk)" if "(pk, v) \<in> set ?G" for pk v
    using v[OF that] item_of_collected[OF inv \<open>b \<noteq> r\<close>] get_orderbook_answer(1)[OF inv res]
    by (auto simp: L_def intro!: actions_of_full_orders)
  let ?act = "\<lambda>(pk, v). case unprefixed pk of None \<Rightarrow> []
     | Some k \<Rightarrow> if is_my_order pk my_pub keys \<or> is_banned k then [] else actions_of_full pk alb (gr_infos res) v"
  have "actions_of_fill unprefixed is_banned my_pub keys alb res
      = concat (map ?act (map (\<lambda>(pk, item). (pk, gp_orders item)) (gr_pubkey_orders res)))"
    unfolding actions_of_fill_def map_map
    by (intro arg_cong[where f = concat] map_cong refl) (auto split: option.split)
  also have "\<dots> = concat (map ?act ?G)" by (simp only: get_orderbook_answer(2)[OF inv res])
  also have "\<dots> = peer_actions alb (map (\<lambda>(pk, _). (pk, ?xs pk)) (filter (\<lambda>(pk, _). ?acc pk) H))"
    if "set H \<subseteq> set ?G" "H = ?G" for H
  proof -
    have "concat (map ?act H') = peer_actions alb (map (\<lambda>(pk, _). (pk, ?xs pk)) (filter (\<lambda>(pk, _). ?acc pk) H'))"
      if "set H' \<subseteq> set ?G" for H'
      using that by (induction H') (auto simp: peer_actions_def accepts_peer_def items split: option.splits)
    then show ?thesis using that by simp
  qed
  finally have 1: "actions_of_fill unprefixed is_banned my_pub keys alb res = peer_actions alb ?ps" by simp
  have 2: "distinct (map fst ?ps)" using by_pk by (simp add: split_def comp_def distinct_map_filter)
  have "pk \<in> fst ` set ?G \<longleftrightarrow> pk \<in> oi_pubkey ` set L" for pk
  proof -
    have "pk \<in> fst ` set ?G \<longleftrightarrow> map_of ?G pk \<noteq> None" by (metis map_of_eq_None_iff)
    also have "\<dots> \<longleftrightarrow> pk \<in> oi_pubkey ` set L" using by_pk[of pk] by auto
    finally show ?thesis .
  qed
  then have "{pk \<in> fst ` set ?G. ?acc pk} = {pk \<in> oi_pubkey ` set L. ?acc pk}" by blast
  moreover have "fst ` set ?ps = {pk \<in> fst ` set ?G. ?acc pk}"
    by (simp add: image_image split_def) blast
  ultimately have "fst ` set ?ps = {pk \<in> oi_pubkey ` set L. ?acc pk}" by simp
  moreover have "\<forall>(pk, xs) \<in> set ?ps. xs = ?xs pk" by auto
  ultimately show ?thesis using that[OF 1 2] by blast
qed

lemma alb_ordered_pair_name: "CHR '':'' \<notin> set b \<Longrightarrow> CHR '':'' \<notin> set r \<Longrightarrow> pair_name (alb_ordered_pair b r)"
  by (auto simp: pair_name_def alb_ordered_pair_def str_split_once_append)

text \<open>The peers of an honest answer can be taken over: their orders are valid and disjoint.\<close>

lemma honest_peers_ok:
  assumes ok: "index_ok ob" and "b \<noteq> r" and "distinct (map fst ps)"
    and xs: "\<forall>(pk, xs) \<in> set ps. xs = filter (\<lambda>x. oi_pubkey x = pk) (listed_orders ob b r)"
  shows "peers_ok ps" and "set (concat (map snd ps)) = {x \<in> set (listed_orders ob b r). oi_pubkey x \<in> fst ` set ps}"
proof -
  let ?L = "listed_orders ob b r"
  have inv: "ob_inv ob" using ok by (simp add: index_ok_def)
  have snd: "map snd ps = map (\<lambda>pk. filter (\<lambda>x. oi_pubkey x = pk) ?L) (map fst ps)"
    using xs by (auto simp: map_eq_conv)
  have "oi_tradable x \<and> plain_tickers x" if "x \<in> set ?L" for x
    using that ok ob_inv_order[OF inv] by (auto simp: set_listed_orders[OF inv] index_ok_def ob_plain_def)
  then show "peers_ok ps"
    using distinct_by_peer[OF listed_orders_distinct(2)[OF inv \<open>b \<noteq> r\<close>] assms(3)] assms(3) xs
    unfolding peers_ok_def snd by fastforce
  show "set (concat (map snd ps)) = {x \<in> set ?L. oi_pubkey x \<in> fst ` set ps}"
    unfolding snd by auto
qed

section \<open>Properties\<close>


definition demo_created :: np_maker_order_created where
  "demo_created = \<lparr>npc_uuid = 1, npc_base = ''KMD'', npc_rel = ''XFG'', npc_price = 5, npc_max_volume = 10,
     npc_min_volume = 1, npc_created_at = 1000, npc_conf_settings = demo_conf, npc_timestamp = 1000,
     npc_pair_trie_root = 0, npc_base_protocol_info = [], npc_rel_protocol_info = []\<rparr>"

definition demo_net :: "unit net_state" where
  "demo_net = process_maker_order_created ''pk'' demo_created (net_new ())"

lemma demo_net_item: "oi_of_created demo_created ''pk'' = demo_item 1 ''pk'' 5"
  by (simp add: oi_of_created_def demo_created_def demo_item_def)

lemma demo_net_eq:
  "ns_orderbook demo_net = fst (index_insert_or_update (demo_item 1 ''pk'' 5) orderbook_new)"
  "ns_trie_ops demo_net = [[TrieInsert ''pk'' (oi_alb_pair (demo_item 1 ''pk'' 5)) 1 (demo_item 1 ''pk'' 5)]]"
  "ns_trie_store demo_net = demo_store"
proof -
  have "ob_admits orderbook_new (demo_item 1 ''pk'' 5)" "oi_tradable (demo_item 1 ''pk'' 5)"
    by (simp_all add: ob_admits_def orderbook_new_def oi_tradable_def demo_item_def)
  then have "snd (index_insert_or_update (demo_item 1 ''pk'' 5) orderbook_new) =
      [TrieInsert ''pk'' (oi_alb_pair (demo_item 1 ''pk'' 5)) 1 (demo_item 1 ''pk'' 5)]"
    by (simp add: index_insert_snd) (simp add: demo_item_def)
  then show "ns_orderbook demo_net = fst (index_insert_or_update (demo_item 1 ''pk'' 5) orderbook_new)"
    "ns_trie_ops demo_net = [[TrieInsert ''pk'' (oi_alb_pair (demo_item 1 ''pk'' 5)) 1 (demo_item 1 ''pk'' 5)]]"
    "ns_trie_store demo_net = demo_store"
    by (simp_all add: demo_net_def process_maker_order_created_def demo_net_item insert_or_update_order_def
        net_new_def send_trie_ops_def split_beta demo_store_def Let_def)
qed

lemma demo_net_reachable: "net_reachable demo_lib demo_net"
  unfolding demo_net_def
  by (rule net_reachable_step[OF net_reachable_new net_step.Created])
    (simp add: demo_net_item may_put_def net_new_def orderbook_new_def demo_item_def plain_tickers_def)



definition demo_net_applied :: "unit net_state" where
  "demo_net_applied = trie_worker_step demo_lib 0 demo_net"

lemma demo_net_applied_reachable: "net_reachable demo_lib demo_net_applied"
  unfolding demo_net_applied_def by (rule net_reachable_step[OF demo_net_reachable net_step.Worker])

lemma demo_net_applied_orderbook: "ns_orderbook demo_net_applied = ns_orderbook demo_net"
  by (simp add: demo_net_applied_def trie_worker_step_def demo_net_eq)

lemma demo_net_order: "ob_order_set (ns_orderbook demo_net) = [1 \<mapsto> demo_item 1 ''pk'' 5]"
  by (simp add: demo_net_eq index_insert_order_set ob_admits_def orderbook_new_def oi_tradable_def demo_item_def)

text \<open>When the store has caught up (no batch is queued), a request for a pair with at most the
  permitted number of orders is answered: every peer with an order of the pair has its state in the
  store.\<close>

theorem get_orderbook_answered_when_caught_up:
  assumes "net_reachable lib ns" "ns_trie_ops ns = []" "b \<noteq> r"
    and "length (unordered_at (ns_orderbook ns) (b, r)) + length (unordered_at (ns_orderbook ns) (r, b))
      \<le> MAX_ORDERS_NUMBER_IN_ORDERBOOK_RESPONSE"
  shows "\<exists>res. process_get_orderbook_request ns b r = Ok res"
proof -
  let ?ob = "ns_orderbook ns" and ?G = "go_uuids_by_pubkey (get_pubkeys_orders (ns_orderbook ns) b r)"
  have ok: "net_ok ns" by (rule net_reachable_ok[OF assms(1)])
  then have inv: "ob_inv ?ob" and step: "known_uuids (ns_trie_store ns) = index_uuids ?ob"
    using assms(2) by (simp_all add: net_ok_def index_ok_def in_step_def)
  have "ts_pubkeys_state (ns_trie_store ns) pk \<noteq> None" if g: "(pk, v) \<in> set ?G" for pk v
  proof -
    have "?G = fst (fold collect_order (listed_orders ?ob b r) ([], no_infos))"
      using get_pubkeys_orders_collect[OF inv, of b r] by (metis fst_conv)
    then obtain x where "x \<in> set (listed_orders ?ob b r)" "oi_pubkey x = pk"
      using collect_orders_by_pubkey[of "listed_orders ?ob b r" pk] map_of_is_SomeI[OF _ g] by (auto split: if_splits)
    then have "(oi_uuid x, oi_alb_pair x) \<in> known_uuids (ns_trie_store ns) pk"
      by (auto simp: step mem_index_uuids set_listed_orders[OF inv])
    then show ?thesis by (auto simp: known_uuids_def split: option.splits)
  qed
  then have "\<exists>os. collect_results (\<lambda>(pubkey, orders). case ts_pubkeys_state (ns_trie_store ns) pubkey of
         None \<Rightarrow> Err (PubkeyStateMissing pubkey)
       | Some ps \<Rightarrow> Ok (pubkey, \<lparr>gp_last_keep_alive = ps_last_keep_alive ps, gp_orders = orders\<rparr>)) G = Ok os"
    if "set G \<subseteq> set ?G" for G
    using that by (induction G) (auto split: option.split)
  then obtain os where "collect_results (\<lambda>(pubkey, orders). case ts_pubkeys_state (ns_trie_store ns) pubkey of
         None \<Rightarrow> Err (PubkeyStateMissing pubkey)
       | Some ps \<Rightarrow> Ok (pubkey, \<lparr>gp_last_keep_alive = ps_last_keep_alive ps, gp_orders = orders\<rparr>)) ?G = Ok os"
    by blast
  moreover have "\<not> go_total_number_of_orders (get_pubkeys_orders ?ob b r) > MAX_ORDERS_NUMBER_IN_ORDERBOOK_RESPONSE"
    using assms(4) by (simp add: get_pubkeys_orders_def Let_def split: prod.split)
  ultimately show ?thesis by (simp add: process_get_orderbook_request_def Let_def)
qed

lemma demo_net_listed: "unordered_at (ns_orderbook demo_net) (''KMD'', ''XFG'') = [1]"
  "unordered_at (ns_orderbook demo_net) (''XFG'', ''KMD'') = []"
proof -
  have "ob_admits orderbook_new (demo_item 1 ''pk'' 5)" "oi_tradable (demo_item 1 ''pk'' 5)"
    by (simp_all add: ob_admits_def orderbook_new_def oi_tradable_def demo_item_def)
  moreover have "unordered_at orderbook_new br = []" for br by (simp add: unordered_at_def orderbook_new_def)
  ultimately show "unordered_at (ns_orderbook demo_net) (''KMD'', ''XFG'') = [1]"
    "unordered_at (ns_orderbook demo_net) (''XFG'', ''KMD'') = []"
    by (simp_all add: demo_net_eq index_insert_fst index_insert_inner_unordered_at)
      (simp_all add: demo_item_def hs_insert_def)
qed

lemma demo_net_small:
  "length (unordered_at (ns_orderbook demo_net_applied) (''KMD'', ''XFG'')) +
   length (unordered_at (ns_orderbook demo_net_applied) (''XFG'', ''KMD'')) \<le> MAX_ORDERS_NUMBER_IN_ORDERBOOK_RESPONSE"
  by (simp add: demo_net_applied_orderbook demo_net_listed MAX_ORDERS_NUMBER_IN_ORDERBOOK_RESPONSE_def)

theorem get_orderbook_answered_when_caught_up_witness:
  "\<exists>res. process_get_orderbook_request demo_net_applied ''KMD'' ''XFG'' = Ok res"
  by (rule get_orderbook_answered_when_caught_up[OF demo_net_applied_reachable _ _ demo_net_small])
    (simp_all add: demo_net_applied_def trie_worker_step_def demo_net_eq)

lemma demo_net_answer: "\<exists>res. process_get_orderbook_request demo_net_applied ''KMD'' ''XFG'' = Ok res"
proof -
  have "get_pubkeys_orders (ns_orderbook demo_net) ''KMD'' ''XFG'' = \<lparr>go_total_number_of_orders = 1,
      go_uuids_by_pubkey = [(''pk'', [(1, op_of_item (demo_item 1 ''pk'' 5))])],
      go_infos = add_infos (demo_item 1 ''pk'' 5) no_infos\<rparr>"
    by (simp add: get_pubkeys_orders_def demo_net_listed demo_net_order) (simp add: demo_item_def)
  moreover have "ts_pubkeys_state (ns_trie_store demo_net_applied) ''pk'' \<noteq> None"
    by (simp add: demo_net_applied_def trie_worker_step_def demo_net_eq apply_ops_def in_group_def apply_group_def
        op_group_default_def apply_insert_def demo_lib_def get_trie_mut_def Let_def split: option.split)
  ultimately show ?thesis
    by (auto simp: process_get_orderbook_request_def demo_net_applied_orderbook MAX_ORDERS_NUMBER_IN_ORDERBOOK_RESPONSE_def)
qed


text \<open>Before the store has caught up, the same request can fail: the index already has the order of
  a peer whose state the queued batch is still to create.\<close>

theorem get_orderbook_fails_while_queued:
  "net_reachable demo_lib demo_net \<and> ns_trie_ops demo_net \<noteq> []
   \<and> process_get_orderbook_request demo_net ''KMD'' ''XFG'' = Err (PubkeyStateMissing ''pk'')"
proof -
  have "get_pubkeys_orders (ns_orderbook demo_net) ''KMD'' ''XFG'' = \<lparr>go_total_number_of_orders = 1,
      go_uuids_by_pubkey = [(''pk'', [(1, op_of_item (demo_item 1 ''pk'' 5))])],
      go_infos = add_infos (demo_item 1 ''pk'' 5) no_infos\<rparr>"
    by (simp add: get_pubkeys_orders_def demo_net_listed demo_net_order) (simp add: demo_item_def)
  then show ?thesis
    by (simp add: demo_net_reachable demo_net_eq process_get_orderbook_request_def demo_store_def
        MAX_ORDERS_NUMBER_IN_ORDERBOOK_RESPONSE_def)
qed

text \<open>an answer is trusted. The orders of a keep-alive answer are not compared with the peer whose
  roots were asked for: the answering node can remove any order by its uuid, and put orders under
  any owner.\<close>

theorem sync_answers_are_not_checked:
  "\<exists>res. ob_order_set (ns_orderbook demo_net) 1 = Some (demo_item 1 ''pk'' 5)
     \<and> ob_order_set (ns_orderbook (keep_alive_response ''other'' res demo_net)) 1 = None
     \<and> ob_order_set (ns_orderbook (keep_alive_response ''other'' res demo_net)) 2 = Some (demo_item 2 ''third'' 9)"
proof -
  let ?x = "demo_item 2 ''third'' 9"
  let ?res = "\<lparr>sr_pair_orders_diff = [(''KMD:XFG'', Delta [(1, None), (2, Some (op_of_item ?x))])],
     sr_infos = \<lparr>si_protocol_infos = [], si_conf_infos = [(2, demo_conf)]\<rparr>\<rparr>"
  have x: "item_of_answer (sr_infos ?res) 2 (op_of_item ?x) = ?x"
    by (simp add: item_of_answer_def oi_from_p2p_and_info_def op_of_item_def demo_item_def default_protocol_info_def)
  let ?ob = "fst (index_remove 1 (ns_orderbook demo_net))"
  have "ns_orderbook (keep_alive_response ''other'' ?res demo_net) = fst (index_insert_or_update ?x ?ob)"
    using x by (simp add: keep_alive_response_is_run actions_of_response_def actions_of_delta_def split_beta send_trie_ops_def Let_def)
  moreover have "ob_recently_cancelled (ns_orderbook demo_net) = Map.empty" by (simp add: demo_net_eq orderbook_new_def)
  then have "ob_admits ?ob ?x" "oi_tradable ?x" "oi_uuid ?x = 2"
    by (simp_all add: ob_admits_def oi_tradable_def demo_item_def)
  ultimately have "ob_order_set (ns_orderbook (keep_alive_response ''other'' ?res demo_net)) =
      (ob_order_set (ns_orderbook demo_net))(1 := None, 2 \<mapsto> ?x)"
    by (simp add: index_insert_order_set)
  then show ?thesis by (intro exI[of _ ?res]) (simp add: demo_net_order)
qed

end
