(* ===== verification/Swap_Routing.thy ===== *)
theory Swap_Routing
  imports Order_Matching
begin

text \<open>
  How a match becomes a swap: the settings and the lock time the two sides derive from the same
  messages, and the protocol each side starts (\<open>lp_connect_start_bob\<close> and \<open>lp_connected_alice\<close> of
  \<open>mm2_main/src/lp_ordermatch.rs\<close>; the lock times of \<open>lp_swap.rs\<close>; \<open>lp_swap/adaptor_swap.rs\<close>).

  What a side does is a list of effects: the row it inserts into the table of swaps and the swap it
  runs, with every argument the swap is created with. The running of the swap itself is the
  business of the swap state machines, which this theory leaves abstract. What a side draws from its
  surroundings is the record \<open>swap_env\<close>.
\<close>

section \<open>Lock times\<close>

definition PAYMENT_LOCKTIME :: u64 where
  "PAYMENT_LOCKTIME = 3600 * 2 + 300 * 2"

definition get_payment_locktime :: u64 where
  "get_payment_locktime = PAYMENT_LOCKTIME"

record swap_confirmations_settings =
  maker_coin_confs :: u64
  maker_coin_nota :: bool
  taker_coin_confs :: u64
  taker_coin_nota :: bool

definition scs_requires_notarization :: "swap_confirmations_settings \<Rightarrow> bool" where
  "scs_requires_notarization s = (maker_coin_nota s \<or> taker_coin_nota s)"

definition coin_with_4x_locktime :: "string \<Rightarrow> bool" where
  "coin_with_4x_locktime ticker = (ticker \<in> {''BCH'', ''BTG'', ''SBTC''})"

datatype atomic_locktime_version =
    LocktimeV1
  | LocktimeV2 (my_conf_settings: swap_confirmations_settings)
      (other_conf_settings: swap_confirmations_settings)

definition lp_atomic_locktime_v1 :: "string \<Rightarrow> string \<Rightarrow> u64" where
  "lp_atomic_locktime_v1 maker_coin taker_coin =
    (if maker_coin = ''BTC'' \<or> taker_coin = ''BTC'' then get_payment_locktime * 10
     else if coin_with_4x_locktime maker_coin \<or> coin_with_4x_locktime taker_coin then get_payment_locktime * 4
     else get_payment_locktime)"

text \<open>\<open>str::contains\<close> with a pattern that is a string.\<close>

fun str_contains :: "string \<Rightarrow> string \<Rightarrow> bool" where
  "str_contains [] pat = (pat = [])"
| "str_contains (c # s) pat = (take (length pat) (c # s) = pat \<or> str_contains s pat)"

definition lp_atomic_locktime_v2 ::
    "string \<Rightarrow> string \<Rightarrow> swap_confirmations_settings \<Rightarrow> swap_confirmations_settings \<Rightarrow> u64" where
  "lp_atomic_locktime_v2 maker_coin taker_coin my_conf other_conf =
    (if str_contains taker_coin ''-lightning'' then get_payment_locktime * 12
     else if maker_coin = ''BTC'' \<or> taker_coin = ''BTC''
        \<or> coin_with_4x_locktime maker_coin \<or> coin_with_4x_locktime taker_coin
        \<or> scs_requires_notarization my_conf \<or> scs_requires_notarization other_conf
     then get_payment_locktime * 4
     else get_payment_locktime)"

definition lp_atomic_locktime :: "string \<Rightarrow> string \<Rightarrow> atomic_locktime_version \<Rightarrow> u64" where
  "lp_atomic_locktime maker_coin taker_coin v = (case v of
     LocktimeV1 \<Rightarrow> lp_atomic_locktime_v1 maker_coin taker_coin
   | LocktimeV2 my_conf other_conf \<Rightarrow> lp_atomic_locktime_v2 maker_coin taker_coin my_conf other_conf)"

section \<open>Confirmation settings\<close>

text \<open>What the maker requires: its own settings, but for its own coin no more than the taker asks.\<close>

definition choose_maker_confs_and_notas ::
    "order_confirmations_settings option \<Rightarrow> taker_request \<Rightarrow> mm_coin \<Rightarrow> mm_coin
       \<Rightarrow> swap_confirmations_settings" where
  "choose_maker_confs_and_notas maker_confs taker_req maker_coin taker_coin =
    (let maker_settings = unwrap_or
           \<lparr>base_confs = required_confirmations maker_coin,
            base_nota = requires_notarization maker_coin,
            rel_confs = required_confirmations taker_coin,
            rel_nota = requires_notarization taker_coin\<rparr> maker_confs;
         (m_confs, m_nota, t_confs, t_nota) = (case tr_conf_settings taker_req of
           Some taker_settings \<Rightarrow> (case tr_action taker_req of
             Sell \<Rightarrow>
               (if rel_confs taker_settings < base_confs maker_settings
                then rel_confs taker_settings else base_confs maker_settings,
                if \<not> rel_nota taker_settings then rel_nota taker_settings else base_nota maker_settings,
                rel_confs maker_settings, rel_nota maker_settings)
           | Buy \<Rightarrow>
               (if base_confs taker_settings < base_confs maker_settings
                then base_confs taker_settings else base_confs maker_settings,
                if \<not> base_nota taker_settings then base_nota taker_settings else base_nota maker_settings,
                rel_confs maker_settings, rel_nota maker_settings))
         | None \<Rightarrow> (base_confs maker_settings, base_nota maker_settings,
             rel_confs maker_settings, rel_nota maker_settings))
     in \<lparr>maker_coin_confs = m_confs, maker_coin_nota = m_nota,
         taker_coin_confs = t_confs, taker_coin_nota = t_nota\<rparr>)"

text \<open>What the taker requires: its own settings, but for its own coin no more than the maker asks.\<close>

definition choose_taker_confs_and_notas ::
    "taker_request \<Rightarrow> order_confirmations_settings option \<Rightarrow> mm_coin \<Rightarrow> mm_coin
       \<Rightarrow> swap_confirmations_settings" where
  "choose_taker_confs_and_notas taker_req maker_conf_settings maker_coin taker_coin =
    (let from_coins = (required_confirmations taker_coin, requires_notarization taker_coin,
           required_confirmations maker_coin, requires_notarization maker_coin);
         (t_confs, t_nota, m_confs, m_nota) = (case tr_action taker_req of
           Buy \<Rightarrow> (case tr_conf_settings taker_req of
             Some s \<Rightarrow> (rel_confs s, rel_nota s, base_confs s, base_nota s)
           | None \<Rightarrow> from_coins)
         | Sell \<Rightarrow> (case tr_conf_settings taker_req of
             Some s \<Rightarrow> (base_confs s, base_nota s, rel_confs s, rel_nota s)
           | None \<Rightarrow> from_coins));
         (t_confs, t_nota) = (case maker_conf_settings of
           Some settings_from_maker \<Rightarrow>
             (if rel_confs settings_from_maker < t_confs then rel_confs settings_from_maker else t_confs,
              if \<not> rel_nota settings_from_maker then rel_nota settings_from_maker else t_nota)
         | None \<Rightarrow> (t_confs, t_nota))
     in \<lparr>maker_coin_confs = m_confs, maker_coin_nota = m_nota,
         taker_coin_confs = t_confs, taker_coin_nota = t_nota\<rparr>)"

section \<open>Secret hashes and adaptor swaps\<close>

definition detect_secret_hash_algo_v2 :: "mm_coin \<Rightarrow> mm_coin \<Rightarrow> secret_hash_algo" where
  "detect_secret_hash_algo_v2 maker_coin taker_coin =
    (let maker_algo = secret_hash_algo_v2 maker_coin; taker_algo = secret_hash_algo_v2 taker_coin in
     if maker_algo = SHA256 \<or> taker_algo = SHA256 then SHA256 else DHASH160)"

datatype adaptor_swap_error = NotImplemented string | AdaptorInternal string

definition adaptor_error_status_code :: "adaptor_swap_error \<Rightarrow> nat" where
  "adaptor_error_status_code e = (case e of NotImplemented _ \<Rightarrow> 501 | AdaptorInternal _ \<Rightarrow> 500)"

definition is_adaptor_capable :: "string \<Rightarrow> bool" where
  "is_adaptor_capable ticker = (ticker = ''XFG'' \<or> ticker = ''HEAT'')"

definition is_adaptor_swap_pair :: "mm_coin \<Rightarrow> mm_coin \<Rightarrow> bool" where
  "is_adaptor_swap_pair maker_coin taker_coin =
    (let m = coin_ticker maker_coin; t = coin_ticker taker_coin in
     is_adaptor_capable m \<or> is_adaptor_capable t)"

definition start_adaptor_maker_swap ::
    "mm_coin \<Rightarrow> mm_coin \<Rightarrow> uuid \<Rightarrow> (adaptor_swap_error, unit) rust_result" where
  "start_adaptor_maker_swap maker_coin taker_coin u =
     Err (NotImplemented ''Adaptor maker swap state machine not yet implemented'')"

definition start_adaptor_taker_swap ::
    "mm_coin \<Rightarrow> mm_coin \<Rightarrow> uuid \<Rightarrow> (adaptor_swap_error, unit) rust_result" where
  "start_adaptor_taker_swap maker_coin taker_coin u =
     Err (NotImplemented ''Adaptor taker swap state machine not yet implemented'')"

datatype adaptor_state = KeysExchanged | EscrowFunded | PresigsReady | CtrLocked
  | SecretRevealed | XfgSpent | Refunded | Completed

definition adaptor_state_code :: "adaptor_state \<Rightarrow> u8" where
  "adaptor_state_code s = (case s of KeysExchanged \<Rightarrow> 0 | EscrowFunded \<Rightarrow> 1 | PresigsReady \<Rightarrow> 2
     | CtrLocked \<Rightarrow> 3 | SecretRevealed \<Rightarrow> 4 | XfgSpent \<Rightarrow> 5 | Refunded \<Rightarrow> 6 | Completed \<Rightarrow> 7)"

definition adaptor_is_terminal :: "adaptor_state \<Rightarrow> bool" where
  "adaptor_is_terminal s = (case s of Completed \<Rightarrow> True | Refunded \<Rightarrow> True | _ \<Rightarrow> False)"

section \<open>Starting the swap\<close>

datatype 'a find_result = Found 'a | NotFound | FindError string

record swap_env =
  se_coinfind :: "string \<Rightarrow> mm_coin find_result"
  se_persistent_pub :: bytes
  se_generate_secret :: "h256 option"
  se_now_sec :: u64
  se_to_decimal :: "mm_number \<Rightarrow> rat"
  se_uuid_to_string :: "uuid \<Rightarrow> string"

definition LEGACY_SWAP_TYPE :: u8 where
  "LEGACY_SWAP_TYPE = 0"

definition SWAP_V2_PREFIX :: string where
  "SWAP_V2_PREFIX = ''swapv2''"

definition swap_v2_topic :: "swap_env \<Rightarrow> uuid \<Rightarrow> string" where
  "swap_v2_topic env u = pub_sub_topic SWAP_V2_PREFIX (se_uuid_to_string env u)"

record legacy_swap_params =
  lsp_maker_coin :: mm_coin
  lsp_taker_coin :: mm_coin
  lsp_uuid :: uuid
  lsp_my_conf_settings :: swap_confirmations_settings
  lsp_my_persistent_pub :: bytes
  lsp_maker_amount :: mm_number
  lsp_taker_amount :: mm_number
  lsp_locktime :: u64

record state_machine_params =
  smp_secret_hash_algo :: secret_hash_algo
  smp_uuid :: uuid
  smp_my_conf_settings :: swap_confirmations_settings
  smp_locktime :: u64
  smp_maker_amount :: mm_number
  smp_taker_amount :: mm_number

text \<open>The arguments the four kinds of swaps are created with.\<close>

record maker_legacy_args =
  mla_taker :: h256
  mla_maker_amount :: rat
  mla_taker_amount :: rat
  mla_my_persistent_pub :: bytes
  mla_uuid :: uuid
  mla_my_order_uuid :: "uuid option"
  mla_conf_settings :: swap_confirmations_settings
  mla_maker_coin :: mm_coin
  mla_taker_coin :: mm_coin
  mla_lock_duration :: u64
  mla_p2p_privkey :: "keypair option"
  mla_secret :: h256

record taker_legacy_args =
  tla_maker :: h256
  tla_maker_amount :: mm_number
  tla_taker_amount :: mm_number
  tla_my_persistent_pub :: bytes
  tla_uuid :: uuid
  tla_my_order_uuid :: "uuid option"
  tla_conf_settings :: swap_confirmations_settings
  tla_maker_coin :: mm_coin
  tla_taker_coin :: mm_coin
  tla_lock_duration :: u64
  tla_p2p_privkey :: "keypair option"

record maker_v2_args =
  mva_started_at :: u64
  mva_maker_coin :: mm_coin
  mva_maker_volume :: mm_number
  mva_secret :: h256
  mva_taker_coin :: mm_coin
  mva_taker_volume :: mm_number
  mva_taker_premium :: mm_number
  mva_conf_settings :: swap_confirmations_settings
  mva_p2p_topic :: string
  mva_uuid :: uuid
  mva_p2p_keypair :: "keypair option"
  mva_secret_hash_algo :: secret_hash_algo
  mva_lock_duration :: u64
  mva_taker_p2p_pubkey :: bytes
  mva_require_taker_funding_confirm_before_maker_payment :: bool
  mva_require_taker_payment_spend_confirm :: bool
  mva_swap_version :: u8

record taker_v2_args =
  tva_started_at :: u64
  tva_lock_duration :: u64
  tva_maker_coin :: mm_coin
  tva_maker_volume :: mm_number
  tva_taker_coin :: mm_coin
  tva_taker_volume :: mm_number
  tva_taker_premium :: mm_number
  tva_secret_hash_algo :: secret_hash_algo
  tva_conf_settings :: swap_confirmations_settings
  tva_p2p_topic :: string
  tva_uuid :: uuid
  tva_p2p_keypair :: "keypair option"
  tva_taker_secret :: h256
  tva_maker_p2p_pubkey :: bytes
  tva_require_maker_payment_confirm_before_funding_spend :: bool
  tva_require_maker_payment_spend_confirm :: bool
  tva_swap_version :: u8

datatype swap_effect =
    InsertNewSwap string string uuid u64 u8
  | RunMakerSwap maker_legacy_args
  | RunTakerSwap taker_legacy_args
  | RunMakerSwapV2 maker_v2_args
  | RunTakerSwapV2 taker_v2_args

definition start_maker_legacy_swap ::
    "swap_env \<Rightarrow> maker_order \<Rightarrow> h256 \<Rightarrow> h256 \<Rightarrow> legacy_swap_params \<Rightarrow> swap_effect list" where
  "start_maker_legacy_swap env order taker_pubkey secret params =
    [InsertNewSwap (coin_ticker (lsp_maker_coin params)) (coin_ticker (lsp_taker_coin params))
       (lsp_uuid params) (se_now_sec env) LEGACY_SWAP_TYPE,
     RunMakerSwap \<lparr>mla_taker = taker_pubkey,
       mla_maker_amount = se_to_decimal env (lsp_maker_amount params),
       mla_taker_amount = se_to_decimal env (lsp_taker_amount params),
       mla_my_persistent_pub = lsp_my_persistent_pub params, mla_uuid = lsp_uuid params,
       mla_my_order_uuid = Some (mo_uuid order), mla_conf_settings = lsp_my_conf_settings params,
       mla_maker_coin = lsp_maker_coin params, mla_taker_coin = lsp_taker_coin params,
       mla_lock_duration = lsp_locktime params, mla_p2p_privkey = mo_p2p_privkey order,
       mla_secret = secret\<rparr>]"

definition start_maker_swap_state_machine ::
    "swap_env \<Rightarrow> maker_order \<Rightarrow> bytes \<Rightarrow> h256 \<Rightarrow> mm_coin \<Rightarrow> mm_coin \<Rightarrow> state_machine_params
       \<Rightarrow> swap_effect list" where
  "start_maker_swap_state_machine env order taker_p2p_pubkey secret maker_coin taker_coin params =
    [RunMakerSwapV2 \<lparr>mva_started_at = se_now_sec env, mva_maker_coin = maker_coin,
       mva_maker_volume = smp_maker_amount params, mva_secret = secret, mva_taker_coin = taker_coin,
       mva_taker_volume = smp_taker_amount params, mva_taker_premium = 0,
       mva_conf_settings = smp_my_conf_settings params,
       mva_p2p_topic = swap_v2_topic env (smp_uuid params), mva_uuid = smp_uuid params,
       mva_p2p_keypair = mo_p2p_privkey order, mva_secret_hash_algo = smp_secret_hash_algo params,
       mva_lock_duration = smp_locktime params, mva_taker_p2p_pubkey = taker_p2p_pubkey,
       mva_require_taker_funding_confirm_before_maker_payment = False,
       mva_require_taker_payment_spend_confirm = True,
       mva_swap_version = sv_version (mo_swap_version order)\<rparr>]"

definition start_taker_legacy_swap ::
    "swap_env \<Rightarrow> taker_order \<Rightarrow> h256 \<Rightarrow> legacy_swap_params \<Rightarrow> swap_effect list" where
  "start_taker_legacy_swap env order maker_pubkey params =
    [InsertNewSwap (coin_ticker (lsp_taker_coin params)) (coin_ticker (lsp_maker_coin params))
       (lsp_uuid params) (se_now_sec env) LEGACY_SWAP_TYPE,
     RunTakerSwap \<lparr>tla_maker = maker_pubkey, tla_maker_amount = lsp_maker_amount params,
       tla_taker_amount = lsp_taker_amount params,
       tla_my_persistent_pub = lsp_my_persistent_pub params, tla_uuid = lsp_uuid params,
       tla_my_order_uuid = Some (lsp_uuid params), tla_conf_settings = lsp_my_conf_settings params,
       tla_maker_coin = lsp_maker_coin params, tla_taker_coin = lsp_taker_coin params,
       tla_lock_duration = lsp_locktime params, tla_p2p_privkey = to_p2p_privkey order\<rparr>]"

definition start_taker_swap_state_machine ::
    "swap_env \<Rightarrow> taker_order \<Rightarrow> bytes \<Rightarrow> h256 \<Rightarrow> mm_coin \<Rightarrow> mm_coin \<Rightarrow> state_machine_params
       \<Rightarrow> swap_effect list" where
  "start_taker_swap_state_machine env order maker_p2p_pubkey taker_secret maker_coin taker_coin params =
    [RunTakerSwapV2 \<lparr>tva_started_at = se_now_sec env, tva_lock_duration = smp_locktime params,
       tva_maker_coin = maker_coin, tva_maker_volume = smp_maker_amount params,
       tva_taker_coin = taker_coin, tva_taker_volume = smp_taker_amount params,
       tva_taker_premium = 0, tva_secret_hash_algo = smp_secret_hash_algo params,
       tva_conf_settings = smp_my_conf_settings params,
       tva_p2p_topic = swap_v2_topic env (smp_uuid params), tva_uuid = smp_uuid params,
       tva_p2p_keypair = to_p2p_privkey order, tva_taker_secret = taker_secret,
       tva_maker_p2p_pubkey = maker_p2p_pubkey,
       tva_require_maker_payment_confirm_before_funding_spend = True,
       tva_require_maker_payment_spend_confirm = True,
       tva_swap_version = sv_version (tr_swap_version (to_request order))\<rparr>]"

text \<open>The pairs of coin variants for which the upgraded protocol is implemented.\<close>

definition tpu_variants :: "mm_coin \<Rightarrow> mm_coin \<Rightarrow> bool" where
  "tpu_variants maker_coin taker_coin = (case (coin_variant maker_coin, coin_variant taker_coin) of
     (UtxoCoinVariant, UtxoCoinVariant) \<Rightarrow> True
   | (EthCoinVariant, EthCoinVariant) \<Rightarrow> True
   | (UtxoCoinVariant, EthCoinVariant) \<Rightarrow> True
   | (EthCoinVariant, UtxoCoinVariant) \<Rightarrow> True
   | _ \<Rightarrow> False)"

text \<open>The maker's side. The body of the spawned future: a coin that is not found ends it.\<close>

definition bob_atomic_locktime_version ::
    "maker_match \<Rightarrow> maker_order \<Rightarrow> mm_coin \<Rightarrow> mm_coin \<Rightarrow> atomic_locktime_version" where
  "bob_atomic_locktime_version maker_match maker_order maker_coin taker_coin =
    (case tr_conf_settings (mm_request maker_match) of
       Some _ \<Rightarrow> LocktimeV2
         (choose_maker_confs_and_notas (mo_conf_settings maker_order) (mm_request maker_match) maker_coin taker_coin)
         (choose_taker_confs_and_notas (mm_request maker_match) (mr_conf_settings (mm_reserved maker_match))
            maker_coin taker_coin)
     | None \<Rightarrow> LocktimeV1)"

definition lp_connect_start_bob ::
    "swap_env \<Rightarrow> maker_match \<Rightarrow> maker_order \<Rightarrow> bytes \<Rightarrow> swap_effect list" where
  "lp_connect_start_bob env maker_match maker_order taker_p2p_pubkey =
    (let u = tr_uuid (mm_request maker_match) in
     case se_coinfind env (mo_rel maker_order) of NotFound \<Rightarrow> [] | FindError _ \<Rightarrow> [] | Found taker_coin \<Rightarrow>
     (case se_coinfind env (mo_base maker_order) of NotFound \<Rightarrow> [] | FindError _ \<Rightarrow> [] | Found maker_coin \<Rightarrow>
     (let taker_pubkey = tr_sender_pubkey (mm_request maker_match);
         maker_amount = mr_base_amount (mm_reserved maker_match);
         taker_amount = mr_rel_amount (mm_reserved maker_match);
         my_conf = choose_maker_confs_and_notas (mo_conf_settings maker_order) (mm_request maker_match)
           maker_coin taker_coin;
         atomic_locktime_v = bob_atomic_locktime_version maker_match maker_order maker_coin taker_coin;
         lock_time = lp_atomic_locktime (mo_base_ticker maker_order) (mo_rel_ticker maker_order) atomic_locktime_v
     in case se_generate_secret env of None \<Rightarrow> [] | Some secret \<Rightarrow>
     (let alice_swap_v = tr_swap_version (mm_request maker_match);
          bob_swap_v = mo_swap_version maker_order;
          params = \<lparr>lsp_maker_coin = maker_coin, lsp_taker_coin = taker_coin, lsp_uuid = u,
            lsp_my_conf_settings = my_conf, lsp_my_persistent_pub = se_persistent_pub env,
            lsp_maker_amount = maker_amount, lsp_taker_amount = taker_amount, lsp_locktime = lock_time\<rparr>
      in
      if swap_version_is_legacy alice_swap_v \<or> swap_version_is_legacy bob_swap_v then
        start_maker_legacy_swap env maker_order taker_pubkey secret params
      else if mo_swap_method maker_order = ''adaptor''
           \<or> tr_swap_method (mm_request maker_match) = ''adaptor'' then
        start_maker_legacy_swap env maker_order taker_pubkey secret params
      else
        (let sm_params = \<lparr>smp_secret_hash_algo = detect_secret_hash_algo_v2 maker_coin taker_coin,
               smp_uuid = u, smp_my_conf_settings = my_conf, smp_locktime = lock_time,
               smp_maker_amount = maker_amount, smp_taker_amount = taker_amount\<rparr>
         in if tpu_variants maker_coin taker_coin then
              start_maker_swap_state_machine env maker_order taker_p2p_pubkey secret maker_coin taker_coin sm_params
            else start_maker_legacy_swap env maker_order taker_pubkey secret params)))))"

text \<open>The taker's side.\<close>

definition alice_atomic_locktime_version ::
    "taker_match \<Rightarrow> taker_order \<Rightarrow> mm_coin \<Rightarrow> mm_coin \<Rightarrow> atomic_locktime_version" where
  "alice_atomic_locktime_version taker_match taker_order maker_coin taker_coin =
    (case mr_conf_settings (tm_reserved taker_match) of
       Some _ \<Rightarrow> LocktimeV2
         (choose_taker_confs_and_notas (to_request taker_order) (mr_conf_settings (tm_reserved taker_match))
            maker_coin taker_coin)
         (choose_maker_confs_and_notas (mr_conf_settings (tm_reserved taker_match)) (to_request taker_order)
            maker_coin taker_coin)
     | None \<Rightarrow> LocktimeV1)"

definition lp_connected_alice ::
    "swap_env \<Rightarrow> taker_order \<Rightarrow> taker_match \<Rightarrow> bytes \<Rightarrow> swap_effect list" where
  "lp_connected_alice env taker_order taker_match maker_p2p_pubkey =
    (let u = mr_taker_order_uuid (tm_reserved taker_match);
         maker_pubkey = mr_sender_pubkey (tm_reserved taker_match) in
     case se_coinfind env (to_taker_coin_ticker taker_order) of NotFound \<Rightarrow> [] | FindError _ \<Rightarrow> [] | Found taker_coin \<Rightarrow>
     (case se_coinfind env (to_maker_coin_ticker taker_order) of NotFound \<Rightarrow> [] | FindError _ \<Rightarrow> [] | Found maker_coin \<Rightarrow>
     (let maker_amount = mr_base_amount (tm_reserved taker_match);
          taker_amount = mr_rel_amount (tm_reserved taker_match);
          my_conf = choose_taker_confs_and_notas (to_request taker_order)
            (mr_conf_settings (tm_reserved taker_match)) maker_coin taker_coin;
          atomic_locktime_v = alice_atomic_locktime_version taker_match taker_order maker_coin taker_coin;
          locktime = lp_atomic_locktime (to_maker_orderbook_ticker taker_order)
            (to_taker_orderbook_ticker taker_order) atomic_locktime_v;
          bob_swap_v = mr_swap_version (tm_reserved taker_match);
          alice_swap_v = tr_swap_version (to_request taker_order);
          params = \<lparr>lsp_maker_coin = maker_coin, lsp_taker_coin = taker_coin, lsp_uuid = u,
            lsp_my_conf_settings = my_conf, lsp_my_persistent_pub = se_persistent_pub env,
            lsp_maker_amount = maker_amount, lsp_taker_amount = taker_amount, lsp_locktime = locktime\<rparr>
      in
      if swap_version_is_legacy bob_swap_v \<or> swap_version_is_legacy alice_swap_v then
        start_taker_legacy_swap env taker_order maker_pubkey params
      else if is_adaptor_swap_pair maker_coin taker_coin then
        start_taker_legacy_swap env taker_order maker_pubkey params
      else (case se_generate_secret env of None \<Rightarrow> [] | Some taker_secret \<Rightarrow>
        (let sm_params = \<lparr>smp_secret_hash_algo = detect_secret_hash_algo_v2 maker_coin taker_coin,
               smp_uuid = u, smp_my_conf_settings = my_conf, smp_locktime = locktime,
               smp_maker_amount = maker_amount, smp_taker_amount = taker_amount\<rparr>
         in if tpu_variants maker_coin taker_coin then
              start_taker_swap_state_machine env taker_order maker_p2p_pubkey taker_secret maker_coin taker_coin sm_params
            else start_taker_legacy_swap env taker_order maker_pubkey params)))))"

section \<open>What the two sides agree on\<close>

record swap_terms =
  st_uuid :: uuid
  st_conf :: swap_confirmations_settings
  st_lock :: u64

fun terms_of :: "swap_effect \<Rightarrow> swap_terms option" where
  "terms_of (InsertNewSwap a b u t ty) = None"
| "terms_of (RunMakerSwap x) = Some \<lparr>st_uuid = mla_uuid x, st_conf = mla_conf_settings x, st_lock = mla_lock_duration x\<rparr>"
| "terms_of (RunTakerSwap x) = Some \<lparr>st_uuid = tla_uuid x, st_conf = tla_conf_settings x, st_lock = tla_lock_duration x\<rparr>"
| "terms_of (RunMakerSwapV2 x) = Some \<lparr>st_uuid = mva_uuid x, st_conf = mva_conf_settings x, st_lock = mva_lock_duration x\<rparr>"
| "terms_of (RunTakerSwapV2 x) = Some \<lparr>st_uuid = tva_uuid x, st_conf = tva_conf_settings x, st_lock = tva_lock_duration x\<rparr>"

definition runs_v2 :: "swap_effect list \<Rightarrow> bool" where
  "runs_v2 effects = list_ex (\<lambda>e. case e of RunMakerSwapV2 _ \<Rightarrow> True | RunTakerSwapV2 _ \<Rightarrow> True | _ \<Rightarrow> False) effects"

definition runs_legacy :: "swap_effect list \<Rightarrow> bool" where
  "runs_legacy effects = list_ex (\<lambda>e. case e of RunMakerSwap _ \<Rightarrow> True | RunTakerSwap _ \<Rightarrow> True | _ \<Rightarrow> False) effects"

text \<open>The settings a maker reserves with: its order's, or its coins' where the order has none.\<close>

definition reserved_conf_settings :: "maker_order \<Rightarrow> mm_coin \<Rightarrow> mm_coin \<Rightarrow> order_confirmations_settings" where
  "reserved_conf_settings m base_coin rel_coin = unwrap_or
     \<lparr>base_confs = required_confirmations base_coin, base_nota = requires_notarization base_coin,
      rel_confs = required_confirmations rel_coin, rel_nota = requires_notarization rel_coin\<rparr>
     (mo_conf_settings m)"

text \<open>The two halves of one match, after the messages were exchanged: the maker has the taker's
  request as it was sent, the taker has the maker's reservation as it was sent, with the settings and
  the version of the maker's order, and both name the coins by the same orderbook tickers.\<close>

definition halves_of_match ::
    "maker_match \<Rightarrow> maker_order \<Rightarrow> mm_coin \<Rightarrow> mm_coin \<Rightarrow> taker_match \<Rightarrow> taker_order \<Rightarrow> bool" where
  "halves_of_match mm m base_coin rel_coin tm t \<longleftrightarrow>
     (mm_request mm)\<lparr>tr_sender_pubkey := 0\<rparr> = (to_request t)\<lparr>tr_base := to_base_ticker t,
       tr_rel := to_rel_ticker t, tr_sender_pubkey := 0, tr_dest_pub_key := 0\<rparr>
   \<and> (tm_reserved tm)\<lparr>mr_sender_pubkey := 0\<rparr> = (mm_reserved mm)\<lparr>mr_sender_pubkey := 0,
       mr_dest_pub_key := 0\<rparr>
   \<and> mr_taker_order_uuid (mm_reserved mm) = tr_uuid (mm_request mm)
   \<and> mr_conf_settings (mm_reserved mm) = Some (reserved_conf_settings m base_coin rel_coin)
   \<and> mr_swap_version (mm_reserved mm) = mo_swap_version m
   \<and> tr_conf_settings (to_request t) \<noteq> None
   \<and> mo_base_ticker m = to_maker_orderbook_ticker t
   \<and> mo_rel_ticker m = to_taker_orderbook_ticker t"

lemma halves_of_match_fields:
  assumes "halves_of_match mm m base_coin rel_coin tm t"
  shows "tr_action (mm_request mm) = tr_action (to_request t)"
    "tr_conf_settings (mm_request mm) = tr_conf_settings (to_request t)"
    "tr_uuid (mm_request mm) = tr_uuid (to_request t)"
    "tr_swap_version (mm_request mm) = tr_swap_version (to_request t)"
    "tr_swap_method (mm_request mm) = tr_swap_method (to_request t)"
    "mr_taker_order_uuid (tm_reserved tm) = tr_uuid (to_request t)"
    "mr_conf_settings (tm_reserved tm) = Some (reserved_conf_settings m base_coin rel_coin)"
    "mr_conf_settings (mm_reserved mm) = Some (reserved_conf_settings m base_coin rel_coin)"
    "mr_swap_version (tm_reserved tm) = mo_swap_version m"
proof -
  have eq: "(mm_request mm)\<lparr>tr_sender_pubkey := 0\<rparr> = (to_request t)\<lparr>tr_base := to_base_ticker t,
      tr_rel := to_rel_ticker t, tr_sender_pubkey := 0, tr_dest_pub_key := 0\<rparr>"
    "(tm_reserved tm)\<lparr>mr_sender_pubkey := 0\<rparr> = (mm_reserved mm)\<lparr>mr_sender_pubkey := 0, mr_dest_pub_key := 0\<rparr>"
    and rest: "mr_taker_order_uuid (mm_reserved mm) = tr_uuid (mm_request mm)"
    "mr_conf_settings (mm_reserved mm) = Some (reserved_conf_settings m base_coin rel_coin)"
    "mr_swap_version (mm_reserved mm) = mo_swap_version m"
    using assms by (simp_all add: halves_of_match_def)
  show "tr_action (mm_request mm) = tr_action (to_request t)"
    "tr_conf_settings (mm_request mm) = tr_conf_settings (to_request t)"
    "tr_swap_version (mm_request mm) = tr_swap_version (to_request t)"
    "tr_swap_method (mm_request mm) = tr_swap_method (to_request t)"
    using eq(1)[THEN arg_cong[of _ _ tr_action]] eq(1)[THEN arg_cong[of _ _ tr_conf_settings]]
      eq(1)[THEN arg_cong[of _ _ tr_swap_version]] eq(1)[THEN arg_cong[of _ _ tr_swap_method]] by simp_all
  show u: "tr_uuid (mm_request mm) = tr_uuid (to_request t)"
    using eq(1)[THEN arg_cong[of _ _ tr_uuid]] by simp
  show "mr_taker_order_uuid (tm_reserved tm) = tr_uuid (to_request t)"
    "mr_conf_settings (tm_reserved tm) = Some (reserved_conf_settings m base_coin rel_coin)"
    "mr_conf_settings (mm_reserved mm) = Some (reserved_conf_settings m base_coin rel_coin)"
    "mr_swap_version (tm_reserved tm) = mo_swap_version m"
    using eq(2)[THEN arg_cong[of _ _ mr_taker_order_uuid]] eq(2)[THEN arg_cong[of _ _ mr_conf_settings]]
      eq(2)[THEN arg_cong[of _ _ mr_swap_version]] rest u by simp_all
qed

lemmas swap_start_defs = start_maker_legacy_swap_def start_maker_swap_state_machine_def
  start_taker_legacy_swap_def start_taker_swap_state_machine_def

lemma bob_starts:
  assumes "se_coinfind env (mo_rel m) = Found tc" "se_coinfind env (mo_base m) = Found mc"
    "se_generate_secret env = Some secret" and e: "e \<in> set (lp_connect_start_bob env mm m pk)"
    "terms_of e = Some T"
  shows "T = \<lparr>st_uuid = tr_uuid (mm_request mm),
    st_conf = choose_maker_confs_and_notas (mo_conf_settings m) (mm_request mm) mc tc,
    st_lock = lp_atomic_locktime (mo_base_ticker m) (mo_rel_ticker m) (bob_atomic_locktime_version mm m mc tc)\<rparr>"
  using e assms(1-3)
  by (auto simp: lp_connect_start_bob_def Let_def swap_start_defs split: if_splits)

lemma alice_starts:
  assumes "se_coinfind env (to_taker_coin_ticker t) = Found tc"
    "se_coinfind env (to_maker_coin_ticker t) = Found mc"
    and e: "e \<in> set (lp_connected_alice env t tm pk)" "terms_of e = Some T"
  shows "T = \<lparr>st_uuid = mr_taker_order_uuid (tm_reserved tm),
    st_conf = choose_taker_confs_and_notas (to_request t) (mr_conf_settings (tm_reserved tm)) mc tc,
    st_lock = lp_atomic_locktime (to_maker_orderbook_ticker t) (to_taker_orderbook_ticker t)
      (alice_atomic_locktime_version tm t mc tc)\<rparr>"
  using e assms(1-2)
  by (auto simp: lp_connected_alice_def Let_def swap_start_defs split: if_splits option.splits)

text \<open>A found coin is all that is missing: what a side runs needs both coins and a secret.\<close>

lemma bob_needs_coins:
  assumes "e \<in> set (lp_connect_start_bob env mm m pk)"
  obtains tc mc secret where "se_coinfind env (mo_rel m) = Found tc"
    "se_coinfind env (mo_base m) = Found mc" "se_generate_secret env = Some secret"
  using assms unfolding lp_connect_start_bob_def Let_def
  by (cases "se_coinfind env (mo_rel m)"; cases "se_coinfind env (mo_base m)";
      cases "se_generate_secret env") simp_all

lemma alice_needs_coins:
  assumes "e \<in> set (lp_connected_alice env t tm pk)"
  obtains tc mc where "se_coinfind env (to_taker_coin_ticker t) = Found tc"
    "se_coinfind env (to_maker_coin_ticker t) = Found mc"
  using assms unfolding lp_connected_alice_def Let_def
  by (cases "se_coinfind env (to_taker_coin_ticker t)"; cases "se_coinfind env (to_maker_coin_ticker t)") simp_all

text \<open>The settings depend on the request's action and settings only.\<close>

lemma choose_maker_confs_request:
  assumes "tr_action r = tr_action r'" "tr_conf_settings r = tr_conf_settings r'"
  shows "choose_maker_confs_and_notas c r mc tc = choose_maker_confs_and_notas c r' mc tc"
  unfolding choose_maker_confs_and_notas_def assms by (rule refl)

lemma choose_maker_confs_reserved:
  "choose_maker_confs_and_notas (mo_conf_settings m) r mc tc
    = choose_maker_confs_and_notas (Some (reserved_conf_settings m mc tc)) r mc' tc'"
  by (simp add: choose_maker_confs_and_notas_def reserved_conf_settings_def)

lemma choose_taker_confs_request:
  assumes "tr_action r = tr_action r'" "tr_conf_settings r = tr_conf_settings r'" "tr_conf_settings r \<noteq> None"
  shows "choose_taker_confs_and_notas r c mc tc = choose_taker_confs_and_notas r' c mc' tc'"
  using assms
  by (auto simp: choose_taker_confs_and_notas_def Let_def split: taker_action.splits option.splits)

lemma lp_atomic_locktime_V2_commute:
  "lp_atomic_locktime a b (LocktimeV2 x y) = lp_atomic_locktime a b (LocktimeV2 y x)"
  by (auto simp: lp_atomic_locktime_def lp_atomic_locktime_v2_def)

text \<open>Neither side waits for more confirmations of its own payment than the receiver does.\<close>

lemma negotiated_confs:
  fixes c :: order_confirmations_settings and mc tc mc' tc' :: mm_coin
  assumes "tr_conf_settings r = Some s"
  defines "b \<equiv> choose_maker_confs_and_notas (Some c) r mc tc"
    and "a \<equiv> choose_taker_confs_and_notas r (Some c) mc' tc'"
  shows "maker_coin_confs b \<le> maker_coin_confs a" "taker_coin_confs a \<le> taker_coin_confs b"
    "maker_coin_nota b \<longrightarrow> maker_coin_nota a" "taker_coin_nota a \<longrightarrow> taker_coin_nota b"
    "taker_coin_confs b = rel_confs c" "taker_coin_nota b = rel_nota c"
    "maker_coin_confs a = (case tr_action r of Buy \<Rightarrow> base_confs s | Sell \<Rightarrow> rel_confs s)"
    "maker_coin_nota a = (case tr_action r of Buy \<Rightarrow> base_nota s | Sell \<Rightarrow> rel_nota s)"
  unfolding a_def b_def using assms(1)
  by (auto simp: choose_maker_confs_and_notas_def choose_taker_confs_and_notas_def Let_def
      split: taker_action.splits)

text \<open>Which protocol a side runs, once its coins and its secret are there.\<close>

definition bob_keeps_legacy :: "maker_match \<Rightarrow> maker_order \<Rightarrow> mm_coin \<Rightarrow> mm_coin \<Rightarrow> bool" where
  "bob_keeps_legacy mm m mc tc \<longleftrightarrow>
     swap_version_is_legacy (tr_swap_version (mm_request mm)) \<or> swap_version_is_legacy (mo_swap_version m)
     \<or> mo_swap_method m = ''adaptor'' \<or> tr_swap_method (mm_request mm) = ''adaptor''
     \<or> \<not> tpu_variants mc tc"

definition alice_keeps_legacy :: "taker_match \<Rightarrow> taker_order \<Rightarrow> mm_coin \<Rightarrow> mm_coin \<Rightarrow> bool" where
  "alice_keeps_legacy tm t mc tc \<longleftrightarrow>
     swap_version_is_legacy (mr_swap_version (tm_reserved tm))
     \<or> swap_version_is_legacy (tr_swap_version (to_request t))
     \<or> is_adaptor_swap_pair mc tc \<or> \<not> tpu_variants mc tc"

lemma bob_protocol:
  assumes "se_coinfind env (mo_rel m) = Found tc" "se_coinfind env (mo_base m) = Found mc"
    "se_generate_secret env = Some secret"
  shows "runs_legacy (lp_connect_start_bob env mm m pk) \<longleftrightarrow> bob_keeps_legacy mm m mc tc"
    "runs_v2 (lp_connect_start_bob env mm m pk) \<longleftrightarrow> \<not> bob_keeps_legacy mm m mc tc"
  using assms
  by (simp_all add: lp_connect_start_bob_def Let_def swap_start_defs bob_keeps_legacy_def
      runs_legacy_def runs_v2_def)

lemma alice_protocol:
  assumes "se_coinfind env (to_taker_coin_ticker t) = Found tc"
    "se_coinfind env (to_maker_coin_ticker t) = Found mc" "se_generate_secret env = Some secret"
  shows "runs_legacy (lp_connected_alice env t tm pk) \<longleftrightarrow> alice_keeps_legacy tm t mc tc"
    "runs_v2 (lp_connected_alice env t tm pk) \<longleftrightarrow> \<not> alice_keeps_legacy tm t mc tc"
  using assms
  by (simp_all add: lp_connected_alice_def Let_def swap_start_defs alice_keeps_legacy_def
      runs_legacy_def runs_v2_def)

lemma lp_atomic_locktime_values:
  "lp_atomic_locktime a b v \<in> {7800, 31200, 78000, 93600}"
  by (cases v) (auto simp: lp_atomic_locktime_def lp_atomic_locktime_v1_def lp_atomic_locktime_v2_def
      get_payment_locktime_def PAYMENT_LOCKTIME_def)

section \<open>Properties\<close>

text \<open>C11: whatever the two sides of a match run, they run it under the same uuid and with the same
  lock time, the confirmations each waits for on the coin it receives are what its own order asked
  for, and neither waits for more confirmations (or a notarization) of its own payment than the
  receiver of that payment does. Each side looks its coins up in its own configuration, which
  therefore does not matter for the lock time.\<close>

theorem swap_terms_agree:
  assumes "halves_of_match mm m base_coin rel_coin tm t"
    and "se_coinfind env_b (mo_base m) = Found base_coin" "se_coinfind env_b (mo_rel m) = Found rel_coin"
    and "e \<in> set (lp_connect_start_bob env_b mm m pk)" "terms_of e = Some T"
    and "e' \<in> set (lp_connected_alice env_a t tm pk')" "terms_of e' = Some T'"
  shows "st_uuid T = st_uuid T' \<and> st_lock T = st_lock T'
    \<and> maker_coin_confs (st_conf T) \<le> maker_coin_confs (st_conf T')
    \<and> taker_coin_confs (st_conf T') \<le> taker_coin_confs (st_conf T)
    \<and> (maker_coin_nota (st_conf T) \<longrightarrow> maker_coin_nota (st_conf T'))
    \<and> (taker_coin_nota (st_conf T') \<longrightarrow> taker_coin_nota (st_conf T))
    \<and> taker_coin_confs (st_conf T) = rel_confs (reserved_conf_settings m base_coin rel_coin)
    \<and> (\<forall>s. tr_conf_settings (to_request t) = Some s \<longrightarrow> maker_coin_confs (st_conf T')
         = (case tr_action (to_request t) of Buy \<Rightarrow> base_confs s | Sell \<Rightarrow> rel_confs s))"
proof -
  let ?c = "reserved_conf_settings m base_coin rel_coin"
  obtain secret where sec: "se_generate_secret env_b = Some secret"
    using bob_needs_coins[OF assms(4)] by blast
  obtain tc mc where coins: "se_coinfind env_a (to_taker_coin_ticker t) = Found tc"
    "se_coinfind env_a (to_maker_coin_ticker t) = Found mc"
    using alice_needs_coins[OF assms(6)] by blast
  obtain s where s: "tr_conf_settings (to_request t) = Some s"
    using assms(1) by (auto simp: halves_of_match_def)
  note f = halves_of_match_fields[OF assms(1)]
  note T = bob_starts[OF assms(3,2) sec assms(4,5)] and T' = alice_starts[OF coins assms(6,7)]
  have conf: "st_conf T = choose_maker_confs_and_notas (Some ?c) (to_request t) mc tc"
    using T choose_maker_confs_reserved[of m "mm_request mm"] choose_maker_confs_request[OF f(1,2)] by simp
  have conf': "st_conf T' = choose_taker_confs_and_notas (to_request t) (Some ?c) mc tc"
    using T' f(7) by simp
  have "tr_conf_settings (mm_request mm) = Some s" using f(2) s by simp
  then have "bob_atomic_locktime_version mm m base_coin rel_coin = LocktimeV2 (st_conf T) (st_conf T')"
    using T conf' f(8) choose_taker_confs_request[OF f(1,2), of "Some ?c" base_coin rel_coin mc tc]
    by (simp add: bob_atomic_locktime_version_def)
  moreover have "alice_atomic_locktime_version tm t mc tc = LocktimeV2 (st_conf T') (st_conf T)"
    using T' conf f(7) by (simp add: alice_atomic_locktime_version_def)
  moreover have "st_lock T = lp_atomic_locktime (mo_base_ticker m) (mo_rel_ticker m)
      (bob_atomic_locktime_version mm m base_coin rel_coin)"
    "st_lock T' = lp_atomic_locktime (mo_base_ticker m) (mo_rel_ticker m) (alice_atomic_locktime_version tm t mc tc)"
    using assms(1) by (subst T T', simp add: halves_of_match_def)+
  ultimately have "st_lock T = st_lock T'"
    by (metis lp_atomic_locktime_V2_commute)
  moreover have "st_uuid T = st_uuid T'" using T T' f(3,6) by simp
  ultimately show ?thesis
    using negotiated_confs(1-4)[OF s, of ?c mc tc mc tc] negotiated_confs(5)[OF s, of ?c mc tc]
      negotiated_confs(7)[OF s, of ?c mc tc] s by (simp add: conf conf')
qed

text \<open>exactly when the two sides of a match run the same kind of swap. Given that both have the
  coins (of the same variants and tickers) and a secret, each side runs the legacy or the upgraded
  protocol, never both, and the two agree if and only if a legacy version, a coin outside the
  upgraded protocol, or the agreement of the maker's test (the swap methods) with the taker's test
  (the tickers) makes them.\<close>

theorem swap_protocols_agree_iff:
  assumes "halves_of_match mm m base_coin rel_coin tm t"
    and "se_coinfind env_b (mo_base m) = Found base_coin" "se_coinfind env_b (mo_rel m) = Found rel_coin"
    and "se_coinfind env_a (to_maker_coin_ticker t) = Found mc"
    and "se_coinfind env_a (to_taker_coin_ticker t) = Found tc"
    and "coin_variant mc = coin_variant base_coin" "coin_variant tc = coin_variant rel_coin"
    and "coin_ticker mc = mo_base m" "coin_ticker tc = mo_rel m"
    and "se_generate_secret env_b = Some secret_b" "se_generate_secret env_a = Some secret_a"
  shows "runs_v2 (lp_connect_start_bob env_b mm m pk) = (\<not> runs_legacy (lp_connect_start_bob env_b mm m pk))
    \<and> runs_v2 (lp_connected_alice env_a t tm pk') = (\<not> runs_legacy (lp_connected_alice env_a t tm pk'))
    \<and> (runs_v2 (lp_connect_start_bob env_b mm m pk) = runs_v2 (lp_connected_alice env_a t tm pk') \<longleftrightarrow>
        swap_version_is_legacy (mo_swap_version m) \<or> swap_version_is_legacy (tr_swap_version (to_request t))
        \<or> \<not> tpu_variants base_coin rel_coin
        \<or> (mo_swap_method m = ''adaptor'' \<or> tr_swap_method (to_request t) = ''adaptor'')
          = (is_adaptor_capable (mo_base m) \<or> is_adaptor_capable (mo_rel m)))"
proof -
  note f = halves_of_match_fields[OF assms(1)]
  have tpu: "tpu_variants mc tc = tpu_variants base_coin rel_coin"
    using assms(6,7) by (simp add: tpu_variants_def)
  note b = bob_protocol[OF assms(3,2,10), of mm pk]
  note a = alice_protocol[OF assms(5,4,11), of tm pk']
  have kb: "bob_keeps_legacy mm m base_coin rel_coin \<longleftrightarrow>
      swap_version_is_legacy (tr_swap_version (to_request t)) \<or> swap_version_is_legacy (mo_swap_version m)
      \<or> mo_swap_method m = ''adaptor'' \<or> tr_swap_method (to_request t) = ''adaptor''
      \<or> \<not> tpu_variants base_coin rel_coin"
    unfolding bob_keeps_legacy_def f by (rule refl)
  have ka: "alice_keeps_legacy tm t mc tc \<longleftrightarrow>
      swap_version_is_legacy (mo_swap_version m) \<or> swap_version_is_legacy (tr_swap_version (to_request t))
      \<or> (is_adaptor_capable (mo_base m) \<or> is_adaptor_capable (mo_rel m)) \<or> \<not> tpu_variants base_coin rel_coin"
    unfolding alice_keeps_legacy_def f tpu is_adaptor_swap_pair_def Let_def assms(8,9) by (rule refl)
  show ?thesis unfolding a b ka kb by blast
qed

text \<open>The two halves of a match of the demonstration order, with the method the order carries.\<close>

definition demo_swap_env :: swap_env where
  "demo_swap_env = \<lparr>se_coinfind = (\<lambda>t. Found (demo_coin t)), se_persistent_pub = [2],
     se_generate_secret = Some 11, se_now_sec = 5, se_to_decimal = (\<lambda>x. x), se_uuid_to_string = (\<lambda>_. ''u'')\<rparr>"

definition demo_v2_request :: taker_request where
  "demo_v2_request = demo_request\<lparr>tr_swap_version := swap_version_from 2\<rparr>"

definition demo_v2_order :: maker_order where
  "demo_v2_order = demo_maker_order\<lparr>mo_swap_version := swap_version_from 2\<rparr>"

definition demo_taker_order :: taker_order where
  "demo_taker_order = \<lparr>to_created_at = 900, to_request = demo_v2_request, to_matches = [],
     to_min_volume = 1, to_order_type = GoodTillCancelled, to_timeout = 30, to_save_in_history = False,
     to_base_orderbook_ticker = None, to_rel_orderbook_ticker = None, to_p2p_privkey = None\<rparr>"

definition demo_reserved :: maker_reserved where
  "demo_reserved = \<lparr>mr_base = ''KMD'', mr_rel = ''XFG'', mr_base_amount = 3, mr_rel_amount = 6,
     mr_taker_order_uuid = 9, mr_maker_order_uuid = 7, mr_sender_pubkey = 8, mr_dest_pub_key = 5,
     mr_conf_settings = Some demo_conf, mr_base_protocol_info = Some [], mr_rel_protocol_info = Some [],
     mr_swap_version = swap_version_from 2\<rparr>"

definition demo_maker_match :: maker_match where
  "demo_maker_match = \<lparr>mm_request = demo_v2_request, mm_reserved = demo_reserved, mm_connect = None,
     mm_connected = None, mm_last_updated = 1100\<rparr>"

definition demo_taker_match :: taker_match where
  "demo_taker_match = \<lparr>tm_reserved = demo_reserved\<lparr>mr_dest_pub_key := 0\<rparr>,
     tm_connect = \<lparr>tc_taker_order_uuid = 9, tc_maker_order_uuid = 7, tc_sender_pubkey = 5, tc_dest_pub_key = 8\<rparr>,
     tm_connected = None, tm_last_updated = 1200\<rparr>"

lemmas demo_swap_defs = demo_swap_env_def demo_v2_request_def demo_v2_order_def demo_taker_order_def
  demo_reserved_def demo_maker_match_def demo_taker_match_def demo_matching_defs

lemma demo_halves:
  "halves_of_match demo_maker_match demo_v2_order (demo_coin ''KMD'') (demo_coin ''XFG'')
     demo_taker_match demo_taker_order"
  by (simp add: halves_of_match_def demo_swap_defs reserved_conf_settings_def to_base_ticker_def
      to_rel_ticker_def to_maker_orderbook_ticker_def to_taker_orderbook_ticker_def mo_base_ticker_def
      mo_rel_ticker_def)

lemma demo_coins:
  "se_coinfind demo_swap_env t = Found (demo_coin t)" "se_generate_secret demo_swap_env = Some 11"
  "mo_base demo_v2_order = ''KMD''" "mo_rel demo_v2_order = ''XFG''"
  "to_maker_coin_ticker demo_taker_order = ''KMD''" "to_taker_coin_ticker demo_taker_order = ''XFG''"
  by (simp_all add: demo_swap_defs to_maker_coin_ticker_def to_taker_coin_ticker_def)

lemma demo_protocol_tests:
  "\<not> bob_keeps_legacy demo_maker_match demo_v2_order (demo_coin ''KMD'') (demo_coin ''XFG'')"
  "alice_keeps_legacy demo_taker_match demo_taker_order (demo_coin ''KMD'') (demo_coin ''XFG'')"
  "\<not> swap_version_is_legacy (mo_swap_version demo_v2_order)"
  "\<not> swap_version_is_legacy (tr_swap_version (to_request demo_taker_order))"
  "mo_swap_method demo_v2_order = default_swap_method"
  "tr_swap_method (to_request demo_taker_order) = default_swap_method"
  "tpu_variants (demo_coin ''KMD'') (demo_coin ''XFG'')" "default_swap_method \<noteq> ''adaptor''"
  by (simp_all add: bob_keeps_legacy_def alice_keeps_legacy_def is_adaptor_swap_pair_def
      demo_coin_def tpu_variants_def is_adaptor_capable_def swap_version_is_legacy_def
      swap_version_from_def legacy_swap_version_def demo_swap_defs default_swap_method_def)

lemma demo_protocols:
  "runs_v2 (lp_connect_start_bob demo_swap_env demo_maker_match demo_v2_order [])"
  "runs_legacy (lp_connected_alice demo_swap_env demo_taker_order demo_taker_match [])"
proof -
  show "runs_v2 (lp_connect_start_bob demo_swap_env demo_maker_match demo_v2_order [])"
    by (subst bob_protocol(2)[of _ _ "demo_coin ''XFG''" "demo_coin ''KMD''" 11])
      (simp_all only: demo_coins demo_protocol_tests simp_thms)
  show "runs_legacy (lp_connected_alice demo_swap_env demo_taker_order demo_taker_match [])"
    by (subst alice_protocol(1)[of _ _ "demo_coin ''XFG''" "demo_coin ''KMD''" 11])
      (simp_all only: demo_coins demo_protocol_tests simp_thms)
qed

theorem swap_protocols_agree_iff_witness:
  "runs_v2 (lp_connect_start_bob demo_swap_env demo_maker_match demo_v2_order [])
    \<noteq> runs_v2 (lp_connected_alice demo_swap_env demo_taker_order demo_taker_match [])"
proof -
  have "is_adaptor_capable ''XFG''" "coin_ticker (demo_coin t) = t" for t
    by (simp_all add: is_adaptor_capable_def demo_coin_def)
  then show ?thesis
    using swap_protocols_agree_iff[OF demo_halves, of demo_swap_env demo_swap_env "demo_coin ''KMD''"
        "demo_coin ''XFG''" 11 11 "[]" "[]"]
    by (simp add: demo_coins demo_protocol_tests) blast
qed

text \<open>An order that sells KMD for XFG with the default method and the upgraded version starts
  the upgraded protocol at the maker and the legacy protocol at the taker: the maker decides by the
  method, the taker by the tickers.\<close>

theorem xfg_order_runs_two_protocols:
  "runs_v2 (lp_connect_start_bob demo_swap_env demo_maker_match demo_v2_order [])
   \<and> runs_legacy (lp_connected_alice demo_swap_env demo_taker_order demo_taker_match [])
   \<and> mo_swap_method demo_v2_order = default_swap_method
   \<and> halves_of_match demo_maker_match demo_v2_order (demo_coin ''KMD'') (demo_coin ''XFG'')
       demo_taker_match demo_taker_order"
  by (intro conjI demo_protocols demo_halves demo_protocol_tests)

theorem swap_terms_agree_witness:
  "\<exists>T T'. T \<in> set (map terms_of (lp_connect_start_bob demo_swap_env demo_maker_match demo_v2_order []))
     \<and> T' \<in> set (map terms_of (lp_connected_alice demo_swap_env demo_taker_order demo_taker_match []))
     \<and> st_lock (the T) = st_lock (the T') \<and> T \<noteq> None \<and> T' \<noteq> None"
proof -
  from demo_protocols obtain e e' where e: "e \<in> set (lp_connect_start_bob demo_swap_env demo_maker_match demo_v2_order [])"
    "terms_of e \<noteq> None" and e': "e' \<in> set (lp_connected_alice demo_swap_env demo_taker_order demo_taker_match [])"
    "terms_of e' \<noteq> None"
    unfolding runs_v2_def runs_legacy_def list_ex_iff by (fastforce split: swap_effect.splits)
  then obtain T T' where T: "terms_of e = Some T" "terms_of e' = Some T'" by blast
  have "se_coinfind demo_swap_env (mo_base demo_v2_order) = Found (demo_coin ''KMD'')"
    "se_coinfind demo_swap_env (mo_rel demo_v2_order) = Found (demo_coin ''XFG'')"
    by (simp_all only: demo_coins)
  from swap_terms_agree[OF demo_halves this e(1) T(1) e'(1) T(2)] have "st_lock T = st_lock T'" by blast
  moreover have "Some T \<in> set (map terms_of (lp_connect_start_bob demo_swap_env demo_maker_match demo_v2_order []))"
    "Some T' \<in> set (map terms_of (lp_connected_alice demo_swap_env demo_taker_order demo_taker_match []))"
    using e(1) e'(1) T by (auto simp: image_iff intro: bexI[of _ e] bexI[of _ e'])
  ultimately show ?thesis by (intro exI[of _ "Some T"] exI[of _ "Some T'"]) simp
qed

end
