(* ===== verification/Orders_Storage.thy ===== *)
theory Orders_Storage
  imports Order_Matching
begin

text \<open>
  Where a node keeps its own orders across restarts (\<open>mm2_main/src/lp_ordermatch/my_orders_storage.rs\<close>
  with the file storage, and \<open>mm2_main/src/database/my_orders.rs\<close>): a directory of active maker
  orders, one of active taker orders, one of finished orders, and the table \<open>my_orders\<close> of the
  database, which answers filtered queries.

  The directories are maps from the uuid that names the file to its content; writing JSON and reading
  it back is the business of the serialisation library. Every operation can fail: whether the disk
  takes writes at the moment is the flag \<open>st_writable\<close>, and a failed operation leaves everything as
  it was. The statements of the database are written out on a map of rows.
\<close>

section \<open>State\<close>

datatype order = MakerO maker_order | TakerO taker_order

fun order_uuid :: "order \<Rightarrow> uuid" where
  "order_uuid (MakerO m) = mo_uuid m"
| "order_uuid (TakerO t) = tr_uuid (to_request t)"

record my_orders_row =
  row_type :: string
  row_initial_action :: string
  row_base :: string
  row_rel :: string
  row_price :: rat
  row_volume :: rat
  row_created_at :: u64
  row_last_updated :: u64
  row_was_taker :: bool
  row_status :: string

record orders_storage =
  st_active_makers :: "(uuid, maker_order) hash_map"
  st_active_takers :: "(uuid, taker_order) hash_map"
  st_history :: "uuid \<rightharpoonup> order"
  st_my_orders :: "uuid \<rightharpoonup> my_orders_row"
  st_writable :: bool

datatype my_orders_error = NoSuchOrder uuid | ErrorSaving | ErrorLoading

type_synonym storage_result = "(my_orders_error, unit) rust_result"

text \<open>An operation that writes: it does nothing but report when the disk does not take it.\<close>

definition st_write :: "(orders_storage \<Rightarrow> orders_storage) \<Rightarrow> orders_storage \<Rightarrow> orders_storage \<times> storage_result" where
  "st_write f st = (if st_writable st then (f st, Ok ()) else (st, Err ErrorSaving))"

section \<open>The table of orders\<close>

text \<open>\<open>INSERT INTO my_orders\<close>: the column \<open>uuid\<close> is unique.\<close>

definition insert_my_order :: "uuid \<Rightarrow> my_orders_row \<Rightarrow> orders_storage \<Rightarrow> orders_storage \<times> storage_result" where
  "insert_my_order u row st =
    (if st_writable st \<and> st_my_orders st u = None
     then (st\<lparr>st_my_orders := (st_my_orders st)(u \<mapsto> row)\<rparr>, Ok ()) else (st, Err ErrorSaving))"

text \<open>\<open>UPDATE ... WHERE uuid = ?1\<close>: no row is no error.\<close>

definition update_my_order :: "uuid \<Rightarrow> (my_orders_row \<Rightarrow> my_orders_row) \<Rightarrow> orders_storage \<Rightarrow>
    orders_storage \<times> storage_result" where
  "update_my_order u f = st_write (\<lambda>st. st\<lparr>st_my_orders := (case st_my_orders st u of
     Some row \<Rightarrow> (st_my_orders st)(u \<mapsto> f row) | None \<Rightarrow> st_my_orders st)\<rparr>)"

definition insert_maker_order :: "(mm_number \<Rightarrow> rat) \<Rightarrow> uuid \<Rightarrow> maker_order \<Rightarrow> orders_storage \<Rightarrow>
    orders_storage \<times> storage_result" where
  "insert_maker_order to_decimal u order = insert_my_order u
     \<lparr>row_type = ''Maker'', row_initial_action = ''Sell'', row_base = mo_base order, row_rel = mo_rel order,
      row_price = to_decimal (mo_price order), row_volume = to_decimal (mo_max_base_vol order),
      row_created_at = mo_created_at order, row_last_updated = unwrap_or 0 (mo_updated_at order),
      row_was_taker = False, row_status = ''Created''\<rparr>"

definition insert_taker_order :: "(mm_number \<Rightarrow> rat) \<Rightarrow> uuid \<Rightarrow> taker_order \<Rightarrow> orders_storage \<Rightarrow>
    orders_storage \<times> storage_result" where
  "insert_taker_order to_decimal u order st =
    (case mm_div (to_decimal (tr_rel_amount (to_request order))) (to_decimal (tr_base_amount (to_request order))) of
       Panic \<Rightarrow> (st, Panic) | Err e \<Rightarrow> (st, Err e)
     | Ok price \<Rightarrow> insert_my_order u
         \<lparr>row_type = ''Taker'',
          row_initial_action = (case tr_action (to_request order) of Buy \<Rightarrow> ''Buy'' | Sell \<Rightarrow> ''Sell''),
          row_base = tr_base (to_request order), row_rel = tr_rel (to_request order),
          row_price = price, row_volume = to_decimal (tr_base_amount (to_request order)),
          row_created_at = to_created_at order, row_last_updated = to_created_at order,
          row_was_taker = False, row_status = ''Created''\<rparr> st)"

definition update_maker_order_row :: "(mm_number \<Rightarrow> rat) \<Rightarrow> uuid \<Rightarrow> maker_order \<Rightarrow> orders_storage \<Rightarrow>
    orders_storage \<times> storage_result" where
  "update_maker_order_row to_decimal u order = update_my_order u (\<lambda>row. row\<lparr>
     row_price := to_decimal (mo_price order), row_volume := to_decimal (mo_max_base_vol order),
     row_last_updated := unwrap_or 0 (mo_updated_at order), row_status := ''Updated''\<rparr>)"

definition update_was_taker :: "u64 \<Rightarrow> uuid \<Rightarrow> orders_storage \<Rightarrow> orders_storage \<times> storage_result" where
  "update_was_taker now u = update_my_order u (\<lambda>row. row\<lparr>
     row_type := ''Maker'', row_last_updated := now, row_was_taker := True\<rparr>)"

definition update_order_status :: "u64 \<Rightarrow> uuid \<Rightarrow> string \<Rightarrow> orders_storage \<Rightarrow> orders_storage \<times> storage_result" where
  "update_order_status now u status = update_my_order u (\<lambda>row. row\<lparr>
     row_last_updated := now, row_status := status\<rparr>)"

definition select_status_by_uuid :: "uuid \<Rightarrow> orders_storage \<Rightarrow> (my_orders_error, string) rust_result" where
  "select_status_by_uuid u st = (case st_my_orders st u of
     Some row \<Rightarrow> Ok (row_status row) | None \<Rightarrow> Err ErrorLoading)"

section \<open>The directories\<close>

definition load_active_maker_orders :: "orders_storage \<Rightarrow> maker_order list" where
  "load_active_maker_orders st = map snd (st_active_makers st)"

definition load_active_maker_order :: "uuid \<Rightarrow> orders_storage \<Rightarrow> (my_orders_error, maker_order) rust_result" where
  "load_active_maker_order u st = (case map_of (st_active_makers st) u of
     Some order \<Rightarrow> Ok order | None \<Rightarrow> Err (NoSuchOrder u))"

definition load_active_taker_orders :: "orders_storage \<Rightarrow> taker_order list" where
  "load_active_taker_orders st = map snd (st_active_takers st)"

definition save_new_active_maker_order :: "maker_order \<Rightarrow> orders_storage \<Rightarrow> orders_storage \<times> storage_result" where
  "save_new_active_maker_order order =
     st_write (\<lambda>st. st\<lparr>st_active_makers := AList.update (mo_uuid order) order (st_active_makers st)\<rparr>)"

definition save_new_active_taker_order :: "taker_order \<Rightarrow> orders_storage \<Rightarrow> orders_storage \<times> storage_result" where
  "save_new_active_taker_order order =
     st_write (\<lambda>st. st\<lparr>st_active_takers := AList.update (tr_uuid (to_request order)) order (st_active_takers st)\<rparr>)"

text \<open>Removing a file that is not there is an error, too.\<close>

definition delete_active_maker_order :: "uuid \<Rightarrow> orders_storage \<Rightarrow> orders_storage \<times> storage_result" where
  "delete_active_maker_order u st =
    (if st_writable st \<and> map_of (st_active_makers st) u \<noteq> None
     then (st\<lparr>st_active_makers := AList.delete u (st_active_makers st)\<rparr>, Ok ()) else (st, Err ErrorSaving))"

definition delete_active_taker_order :: "uuid \<Rightarrow> orders_storage \<Rightarrow> orders_storage \<times> storage_result" where
  "delete_active_taker_order u st =
    (if st_writable st \<and> map_of (st_active_takers st) u \<noteq> None
     then (st\<lparr>st_active_takers := AList.delete u (st_active_takers st)\<rparr>, Ok ()) else (st, Err ErrorSaving))"

definition update_active_maker_order :: "maker_order \<Rightarrow> orders_storage \<Rightarrow> orders_storage \<times> storage_result" where
  "update_active_maker_order order = save_new_active_maker_order order"

definition update_active_taker_order :: "taker_order \<Rightarrow> orders_storage \<Rightarrow> orders_storage \<times> storage_result" where
  "update_active_taker_order order = save_new_active_taker_order order"

definition save_order_in_history :: "order \<Rightarrow> orders_storage \<Rightarrow> orders_storage \<times> storage_result" where
  "save_order_in_history order = st_write (\<lambda>st. st\<lparr>st_history := (st_history st)(order_uuid order \<mapsto> order)\<rparr>)"

definition load_order_from_history :: "uuid \<Rightarrow> orders_storage \<Rightarrow> (my_orders_error, order) rust_result" where
  "load_order_from_history u st = (case st_history st u of
     Some order \<Rightarrow> Ok order | None \<Rightarrow> Err (NoSuchOrder u))"

section \<open>Saving and deleting an order\<close>

datatype maker_order_cancellation_reason = MakerFulfilled | MakerInsufficientBalance | MakerCancelled | MakerExpired

datatype taker_order_cancellation_reason = TakerFulfilled | TakerToMaker | TakerTimedOut | TakerCancelled

fun maker_reason_to_string :: "maker_order_cancellation_reason \<Rightarrow> string" where
  "maker_reason_to_string MakerFulfilled = ''Fulfilled''"
| "maker_reason_to_string MakerInsufficientBalance = ''InsufficientBalance''"
| "maker_reason_to_string MakerCancelled = ''Cancelled''"
| "maker_reason_to_string MakerExpired = ''Expired''"

fun taker_reason_to_string :: "taker_order_cancellation_reason \<Rightarrow> string" where
  "taker_reason_to_string TakerFulfilled = ''Fulfilled''"
| "taker_reason_to_string TakerToMaker = ''ToMaker''"
| "taker_reason_to_string TakerTimedOut = ''TimedOut''"
| "taker_reason_to_string TakerCancelled = ''Cancelled''"

definition save_my_new_maker_order :: "(mm_number \<Rightarrow> rat) \<Rightarrow> maker_order \<Rightarrow> orders_storage \<Rightarrow>
    orders_storage \<times> storage_result" where
  "save_my_new_maker_order to_decimal order st =
    (let (st, _) = save_new_active_maker_order order st in
     if mo_save_in_history order then insert_maker_order to_decimal (mo_uuid order) order st else (st, Ok ()))"

definition save_my_new_taker_order :: "(mm_number \<Rightarrow> rat) \<Rightarrow> taker_order \<Rightarrow> orders_storage \<Rightarrow>
    orders_storage \<times> storage_result" where
  "save_my_new_taker_order to_decimal order st =
    (let (st, _) = save_new_active_taker_order order st in
     if to_save_in_history order then insert_taker_order to_decimal (tr_uuid (to_request order)) order st
     else (st, Ok ()))"

definition save_maker_order_on_update :: "(mm_number \<Rightarrow> rat) \<Rightarrow> maker_order \<Rightarrow> orders_storage \<Rightarrow>
    orders_storage \<times> storage_result" where
  "save_maker_order_on_update to_decimal order st =
    (let (st, r) = update_active_maker_order order st in
     case r of
       Ok _ \<Rightarrow> if mo_save_in_history order then update_maker_order_row to_decimal (mo_uuid order) order st else (st, Ok ())
     | _ \<Rightarrow> (st, r))"

text \<open>Deleting moves the order to the history when it is to be kept; errors are only logged.\<close>

definition delete_my_taker_order :: "u64 \<Rightarrow> taker_order \<Rightarrow> taker_order_cancellation_reason \<Rightarrow> orders_storage \<Rightarrow>
    orders_storage" where
  "delete_my_taker_order now order reason st =
    (let u = tr_uuid (to_request order);
         save = to_save_in_history order;
         st = fst (delete_active_taker_order u st);
         st = (case reason of
             TakerToMaker \<Rightarrow> st
           | _ \<Rightarrow> if save then fst (save_order_in_history (TakerO order) st) else st)
     in if save then fst (update_order_status now u (taker_reason_to_string reason) st) else st)"

definition delete_my_maker_order :: "u64 \<Rightarrow> maker_order \<Rightarrow> maker_order_cancellation_reason \<Rightarrow> orders_storage \<Rightarrow>
    orders_storage" where
  "delete_my_maker_order now order reason st =
    (let u = mo_uuid order;
         save = mo_save_in_history order;
         order_to_save = (if mo_was_updated order
           then (case load_active_maker_order u st of Ok order_from_file \<Rightarrow> order_from_file | _ \<Rightarrow> order)
           else order);
         st = fst (delete_active_maker_order u st)
     in if save then
          (let st = fst (save_order_in_history (MakerO order_to_save) st)
           in fst (update_order_status now u (maker_reason_to_string reason) st))
        else st)"

section \<open>Directories of orders as maps\<close>

text \<open>What the clients of a directory of orders rely on: a saved order is found under its own uuid,
  a deleted one is gone, and nothing else changes.\<close>

locale order_dir =
  fixes load :: "'s \<Rightarrow> uuid \<Rightarrow> 'o option"
    and save :: "'o \<Rightarrow> 's \<Rightarrow> 's"
    and delete :: "uuid \<Rightarrow> 's \<Rightarrow> 's"
    and key :: "'o \<Rightarrow> uuid"
    and takes_writes :: "'s \<Rightarrow> bool"
  assumes load_save: "takes_writes s \<Longrightarrow> load (save x s) = (load s)(key x \<mapsto> x)"
    and load_delete: "takes_writes s \<Longrightarrow> load (delete u s) = (load s)(u := None)"
    and save_takes_writes: "takes_writes s \<Longrightarrow> takes_writes (save x s)"
    and delete_takes_writes: "takes_writes s \<Longrightarrow> takes_writes (delete u s)"
    and save_fails: "\<not> takes_writes s \<Longrightarrow> save x s = s"
    and delete_fails: "\<not> takes_writes s \<Longrightarrow> delete u s = s"
begin

lemma uuids_save: "takes_writes s \<Longrightarrow> dom (load (save x s)) = insert (key x) (dom (load s))"
  by (simp add: load_save)

lemma uuids_delete: "takes_writes s \<Longrightarrow> dom (load (delete u s)) = dom (load s) - {u}"
  by (simp add: load_delete)

text \<open>Saving an order whose file is there already keeps the set of files.\<close>

lemma uuids_resave: "load s (key x) \<noteq> None \<Longrightarrow> dom (load (save x s)) = dom (load s)"
  by (cases "takes_writes s") (auto simp: load_save save_fails)

lemma save_then_delete:
  "takes_writes s \<Longrightarrow> load s (key x) = None \<Longrightarrow> load (delete (key x) (save x s)) = load s"
  by (simp add: load_save load_delete save_takes_writes fun_upd_idem)

end

lemma st_write_writable [simp]: "st_writable st \<Longrightarrow> st_write f st = (f st, Ok ())"
  "\<not> st_writable st \<Longrightarrow> st_write f st = (st, Err ErrorSaving)"
  by (simp_all add: st_write_def)

interpretation maker_dir: order_dir
  "\<lambda>st. map_of (st_active_makers st)"
  "\<lambda>x st. fst (save_new_active_maker_order x st)"
  "\<lambda>u st. fst (delete_active_maker_order u st)"
  mo_uuid st_writable
  by unfold_locales
    (auto simp: save_new_active_maker_order_def delete_active_maker_order_def hm_simps fun_upd_idem)

interpretation taker_dir: order_dir
  "\<lambda>st. map_of (st_active_takers st)"
  "\<lambda>x st. fst (save_new_active_taker_order x st)"
  "\<lambda>u st. fst (delete_active_taker_order u st)"
  "\<lambda>t. tr_uuid (to_request t)" st_writable
  by unfold_locales
    (auto simp: save_new_active_taker_order_def delete_active_taker_order_def hm_simps fun_upd_idem)

section \<open>What an operation leaves alone\<close>

lemma st_write_frame:
  "st_writable (f st) = st_writable st \<Longrightarrow> st_writable (fst (st_write f st)) = st_writable st"
  by (simp add: st_write_def)

lemma writable_simps [simp]:
  "st_writable (fst (save_new_active_maker_order m st)) = st_writable st"
  "st_writable (fst (save_new_active_taker_order t st)) = st_writable st"
  "st_writable (fst (delete_active_maker_order u st)) = st_writable st"
  "st_writable (fst (delete_active_taker_order u st)) = st_writable st"
  "st_writable (fst (save_order_in_history x st)) = st_writable st"
  "st_writable (fst (update_order_status now u s st)) = st_writable st"
  "st_writable (fst (update_was_taker now u st)) = st_writable st"
  "st_writable (fst (update_maker_order_row d u m st)) = st_writable st"
  "st_writable (fst (insert_maker_order d u m st)) = st_writable st"
  "st_writable (fst (insert_taker_order d u t st)) = st_writable st"
  by (auto simp: st_write_def save_new_active_maker_order_def save_new_active_taker_order_def
      delete_active_maker_order_def delete_active_taker_order_def save_order_in_history_def
      update_order_status_def update_was_taker_def update_maker_order_row_def update_my_order_def
      insert_maker_order_def insert_taker_order_def insert_my_order_def split: rust_result.split)

lemma makers_frame [simp]:
  "st_active_makers (fst (save_new_active_taker_order t st)) = st_active_makers st"
  "st_active_makers (fst (delete_active_taker_order u st)) = st_active_makers st"
  "st_active_makers (fst (save_order_in_history x st)) = st_active_makers st"
  "st_active_makers (fst (update_order_status now u s st)) = st_active_makers st"
  "st_active_makers (fst (update_was_taker now u st)) = st_active_makers st"
  "st_active_makers (fst (update_maker_order_row d u m st)) = st_active_makers st"
  "st_active_makers (fst (insert_maker_order d u m st)) = st_active_makers st"
  "st_active_makers (fst (insert_taker_order d u t st)) = st_active_makers st"
  by (auto simp: st_write_def save_new_active_taker_order_def
      delete_active_taker_order_def save_order_in_history_def
      update_order_status_def update_was_taker_def update_maker_order_row_def update_my_order_def
      insert_maker_order_def insert_taker_order_def insert_my_order_def split: rust_result.split)

lemma takers_frame [simp]:
  "st_active_takers (fst (save_new_active_maker_order m st)) = st_active_takers st"
  "st_active_takers (fst (delete_active_maker_order u st)) = st_active_takers st"
  "st_active_takers (fst (save_order_in_history x st)) = st_active_takers st"
  "st_active_takers (fst (update_order_status now u s st)) = st_active_takers st"
  "st_active_takers (fst (update_was_taker now u st)) = st_active_takers st"
  "st_active_takers (fst (update_maker_order_row d u m st)) = st_active_takers st"
  "st_active_takers (fst (insert_maker_order d u m st)) = st_active_takers st"
  "st_active_takers (fst (insert_taker_order d u t st)) = st_active_takers st"
  by (auto simp: st_write_def save_new_active_maker_order_def
      delete_active_maker_order_def save_order_in_history_def
      update_order_status_def update_was_taker_def update_maker_order_row_def update_my_order_def
      insert_maker_order_def insert_taker_order_def insert_my_order_def split: rust_result.split)

lemma delete_my_taker_order_frame [simp]:
  "st_writable (delete_my_taker_order now t r st) = st_writable st"
  "st_active_makers (delete_my_taker_order now t r st) = st_active_makers st"
  "st_active_takers (delete_my_taker_order now t r st)
    = st_active_takers (fst (delete_active_taker_order (tr_uuid (to_request t)) st))"
  by (simp_all add: delete_my_taker_order_def Let_def split: taker_order_cancellation_reason.split)

lemma delete_my_maker_order_frame [simp]:
  "st_writable (delete_my_maker_order now m r st) = st_writable st"
  "st_active_takers (delete_my_maker_order now m r st) = st_active_takers st"
  "st_active_makers (delete_my_maker_order now m r st)
    = st_active_makers (fst (delete_active_maker_order (mo_uuid m) st))"
  by (simp_all add: delete_my_maker_order_def Let_def)

lemma save_my_new_frame [simp]:
  "st_writable (fst (save_my_new_maker_order d m st)) = st_writable st"
  "st_active_takers (fst (save_my_new_maker_order d m st)) = st_active_takers st"
  "st_active_makers (fst (save_my_new_maker_order d m st))
    = st_active_makers (fst (save_new_active_maker_order m st))"
  "st_writable (fst (save_my_new_taker_order d t st)) = st_writable st"
  "st_active_makers (fst (save_my_new_taker_order d t st)) = st_active_makers st"
  "st_active_takers (fst (save_my_new_taker_order d t st))
    = st_active_takers (fst (save_new_active_taker_order t st))"
  by (simp_all add: save_my_new_maker_order_def save_my_new_taker_order_def split: prod.split)
    (metis fst_conv makers_frame(7) takers_frame(1,7,8) writable_simps(1,2,9,10) makers_frame(1,8))+

section \<open>Properties\<close>

text \<open>the life of a maker order in a storage that takes writes. It is active from its creation;
  after it was updated the file holds the update; when it is deleted it leaves the active orders and
  goes to the history with the reason as its status. What goes to the history is the order of the
  file if the order counts as updated (the order in memory can have a volume reduced by a balance
  check that was never saved), and the order in memory if not.\<close>

theorem maker_order_goes_to_history:
  assumes "st_writable st" "st_my_orders st (mo_uuid m) = None" "mo_save_in_history m"
    and "mo_uuid m1 = mo_uuid m" "mo_save_in_history m1" "mo_uuid m2 = mo_uuid m" "mo_save_in_history m2"
    and st1: "st1 = fst (save_my_new_maker_order dec m st)"
    and st2: "st2 = fst (save_maker_order_on_update dec m1 st1)"
    and st3: "st3 = delete_my_maker_order now m2 reason st2"
  shows "load_active_maker_order (mo_uuid m) st1 = Ok m
    \<and> load_active_maker_order (mo_uuid m) st2 = Ok m1
    \<and> select_status_by_uuid (mo_uuid m) st2 = Ok ''Updated''
    \<and> load_active_maker_order (mo_uuid m) st3 = Err (NoSuchOrder (mo_uuid m))
    \<and> load_order_from_history (mo_uuid m) st3 = Ok (MakerO (if mo_was_updated m2 then m1 else m2))
    \<and> select_status_by_uuid (mo_uuid m) st3 = Ok (maker_reason_to_string reason)
    \<and> (\<forall>u. u \<noteq> mo_uuid m \<longrightarrow> load_active_maker_order u st3 = load_active_maker_order u st)"
proof -
  have s1: "map_of (st_active_makers st1) = (map_of (st_active_makers st))(mo_uuid m \<mapsto> m)"
    "st_writable st1" "st_my_orders st1 (mo_uuid m) \<noteq> None"
    using assms(1-3) by (auto simp: st1 save_my_new_maker_order_def save_new_active_maker_order_def hm_simps
        insert_maker_order_def insert_my_order_def)
  then have s2: "map_of (st_active_makers st2) = (map_of (st_active_makers st))(mo_uuid m \<mapsto> m1)"
    "st_writable st2" "select_status_by_uuid (mo_uuid m) st2 = Ok ''Updated''"
    using assms(4,5) by (auto simp: st2 save_maker_order_on_update_def update_active_maker_order_def
        save_new_active_maker_order_def hm_simps update_maker_order_row_def update_my_order_def
        select_status_by_uuid_def)
  then have "st_my_orders st2 (mo_uuid m) \<noteq> None"
    by (auto simp: select_status_by_uuid_def split: option.splits)
  then have s3: "map_of (st_active_makers st3) = (map_of (st_active_makers st))(mo_uuid m := None)"
    "st_history st3 (mo_uuid m) = Some (MakerO (if mo_was_updated m2 then m1 else m2))"
    "select_status_by_uuid (mo_uuid m) st3 = Ok (maker_reason_to_string reason)"
    using s2 assms(4-7) by (auto simp: st3 delete_my_maker_order_def Let_def load_active_maker_order_def
        delete_active_maker_order_def hm_simps save_order_in_history_def update_order_status_def
        update_my_order_def select_status_by_uuid_def)
  show ?thesis
    using s1 s2 s3 by (simp add: load_active_maker_order_def load_order_from_history_def)
qed

definition demo_storage :: orders_storage where
  "demo_storage = \<lparr>st_active_makers = [], st_active_takers = [], st_history = Map.empty,
     st_my_orders = Map.empty, st_writable = True\<rparr>"

theorem maker_order_goes_to_history_witness:
  "\<exists>st. load_order_from_history 7 st = Ok (MakerO (demo_maker_order\<lparr>mo_save_in_history := True, mo_updated_at := Some 2000\<rparr>))
     \<and> select_status_by_uuid 7 st = Ok ''Cancelled''"
proof -
  let ?m = "demo_maker_order\<lparr>mo_save_in_history := True\<rparr>"
  let ?m1 = "?m\<lparr>mo_updated_at := Some 2000\<rparr>"
  have "mo_uuid ?m = 7" "mo_uuid ?m1 = 7" "mo_save_in_history ?m" "mo_save_in_history ?m1" "mo_was_updated ?m1"
    "st_writable demo_storage" "st_my_orders demo_storage (mo_uuid ?m) = None"
    by (simp_all add: demo_matching_defs demo_storage_def mo_was_updated_def)
  then show ?thesis
    using maker_order_goes_to_history[of demo_storage ?m ?m1 ?m1, OF _ _ _ _ _ _ _ refl refl refl,
        of id 3000 MakerCancelled]
    by (auto simp: demo_matching_defs)
qed

end
