(* ===== verification/Maker_Orders_Ctx.thy ===== *)
theory Maker_Orders_Ctx
  imports Orders_Storage
begin

text \<open>
  \<open>MakerOrdersContext\<close> (\<open>mm2_main/src/lp_ordermatch.rs\<close>): the node's own maker orders, with the
  number of orders per base coin and the balance loops that watch these coins.

  The orders live in a third-party timed map; the model is the map, and its
  \<open>drop_expired_entries\<close> takes the expired uuids as an argument. The balance loops are the tickers
  whose loop runs; the loop itself calls \<open>balance_updated\<close>, which is modelled with the handlers.
\<close>

record maker_orders_context =
  moc_orders :: "(uuid, maker_order) hash_map"
  moc_order_tickers :: "uuid \<rightharpoonup> string"
  moc_count_by_tickers :: "string \<rightharpoonup> nat"
  moc_balance_loops :: "string set"

definition moc_new :: maker_orders_context where
  "moc_new = \<lparr>moc_orders = [], moc_order_tickers = Map.empty, moc_count_by_tickers = Map.empty,
     moc_balance_loops = {}\<rparr>"

definition spawn_balance_loop_if_not_spawned :: "string \<Rightarrow> maker_orders_context \<Rightarrow> maker_orders_context" where
  "spawn_balance_loop_if_not_spawned order_base c =
     c\<lparr>moc_balance_loops := insert order_base (moc_balance_loops c)\<rparr>"

definition stop_balance_loop :: "string \<Rightarrow> maker_orders_context \<Rightarrow> maker_orders_context" where
  "stop_balance_loop ticker c = c\<lparr>moc_balance_loops := moc_balance_loops c - {ticker}\<rparr>"

definition coin_has_active_maker_orders :: "string \<Rightarrow> maker_orders_context \<Rightarrow> bool" where
  "coin_has_active_maker_orders ticker c = (case moc_count_by_tickers c ticker of
     Some n \<Rightarrow> 0 < n | None \<Rightarrow> False)"

definition moc_add_order :: "maker_order \<Rightarrow> maker_orders_context \<Rightarrow> maker_orders_context" where
  "moc_add_order order c =
    (let c = spawn_balance_loop_if_not_spawned (mo_base order) c;
         c = c\<lparr>moc_order_tickers := (moc_order_tickers c)(mo_uuid order \<mapsto> mo_base order)\<rparr>;
         c = c\<lparr>moc_count_by_tickers := (moc_count_by_tickers c)
                 (mo_base order \<mapsto> unwrap_or 0 (moc_count_by_tickers c (mo_base order)) + 1)\<rparr>
     in c\<lparr>moc_orders := AList.update (mo_uuid order) order (moc_orders c)\<rparr>)"

definition moc_get_order :: "uuid \<Rightarrow> maker_orders_context \<Rightarrow> maker_order option" where
  "moc_get_order u c = map_of (moc_orders c) u"

text \<open>Writing through the lock of an order: the entry changes in place.\<close>

definition moc_set_order :: "uuid \<Rightarrow> maker_order \<Rightarrow> maker_orders_context \<Rightarrow> maker_orders_context" where
  "moc_set_order u order c = (case map_of (moc_orders c) u of
     Some _ \<Rightarrow> c\<lparr>moc_orders := AList.update u order (moc_orders c)\<rparr> | None \<Rightarrow> c)"

text \<open>Each \<open>?\<close> of the source returns early, keeping what was done before.\<close>

definition moc_remove_order :: "uuid \<Rightarrow> maker_orders_context \<Rightarrow> maker_orders_context \<times> maker_order option" where
  "moc_remove_order u c = (case map_of (moc_orders c) u of
     None \<Rightarrow> (c, None)
   | Some order \<Rightarrow>
       (let c = c\<lparr>moc_orders := AList.delete u (moc_orders c)\<rparr> in
        case moc_order_tickers c u of
          None \<Rightarrow> (c, None)
        | Some ticker \<Rightarrow>
            (let c = c\<lparr>moc_order_tickers := (moc_order_tickers c)(u := None)\<rparr>;
                 c = (case moc_count_by_tickers c ticker of
                     Some n \<Rightarrow> if 0 < n then c\<lparr>moc_count_by_tickers := (moc_count_by_tickers c)(ticker \<mapsto> n - 1)\<rparr> else c
                   | None \<Rightarrow> c);
                 c = (if \<not> coin_has_active_maker_orders ticker c then stop_balance_loop ticker c else c)
             in (c, Some order))))"

definition moc_drop_expired_entries :: "uuid list \<Rightarrow> maker_orders_context \<Rightarrow>
    maker_orders_context \<times> (uuid \<times> maker_order) list" where
  "moc_drop_expired_entries expired c =
    (c\<lparr>moc_orders := filter (\<lambda>(u, _). u \<notin> set expired) (moc_orders c)\<rparr>,
     filter (\<lambda>(u, _). u \<in> set expired) (moc_orders c))"

section \<open>Invariant\<close>

text \<open>The orders are keyed by their uuids; the number kept for a coin is the number of orders that sell
  it; and the balance of exactly the coins with orders is watched.\<close>

definition orders_selling :: "maker_orders_context \<Rightarrow> string \<Rightarrow> uuid set" where
  "orders_selling c t = {u. \<exists>m. map_of (moc_orders c) u = Some m \<and> mo_base m = t}"

definition moc_inv :: "maker_orders_context \<Rightarrow> bool" where
  "moc_inv c \<longleftrightarrow> hm_wf (moc_orders c)
     \<and> (\<forall>u m. map_of (moc_orders c) u = Some m \<longrightarrow> mo_uuid m = u)
     \<and> moc_order_tickers c = map_option mo_base \<circ> map_of (moc_orders c)
     \<and> (\<forall>t. unwrap_or 0 (moc_count_by_tickers c t) = card (orders_selling c t))
     \<and> moc_balance_loops c = {t. orders_selling c t \<noteq> {}}"

lemma finite_orders_selling [simp]: "finite (orders_selling c t)"
proof -
  have "orders_selling c t \<subseteq> dom (map_of (moc_orders c))" by (auto simp: orders_selling_def)
  then show ?thesis by (rule finite_subset) (rule finite_dom_map_of)
qed

lemma moc_new_inv: "moc_inv moc_new"
  by (auto simp: moc_inv_def moc_new_def orders_selling_def fun_eq_iff)

lemma orders_selling_add:
  "map_of (moc_orders c) (mo_uuid m) = None \<Longrightarrow> orders_selling (moc_add_order m c) t =
     (if t = mo_base m then insert (mo_uuid m) (orders_selling c t) else orders_selling c t)"
  by (auto simp: orders_selling_def moc_add_order_def Let_def hm_simps spawn_balance_loop_if_not_spawned_def)

lemma moc_add_order_inv:
  assumes "moc_inv c" and fresh: "map_of (moc_orders c) (mo_uuid m) = None"
  shows "moc_inv (moc_add_order m c)"
proof -
  have "mo_uuid m \<notin> orders_selling c t" for t using fresh by (auto simp: orders_selling_def)
  then show ?thesis
    using assms unfolding moc_inv_def orders_selling_add[OF fresh]
    by (auto simp: moc_add_order_def Let_def hm_simps spawn_balance_loop_if_not_spawned_def fun_eq_iff)
qed

lemma moc_remove_order_eq:
  assumes "moc_inv c"
  shows "snd (moc_remove_order u c) = map_of (moc_orders c) u"
    "moc_orders (fst (moc_remove_order u c)) = AList.delete u (moc_orders c)"
proof -
  have "moc_order_tickers c u = map_option mo_base (map_of (moc_orders c) u)"
    using assms by (simp add: moc_inv_def)
  moreover have "map_of (moc_orders c) u = None \<Longrightarrow> AList.delete u (moc_orders c) = moc_orders c"
    by (auto simp: map_of_eq_None_iff intro: delete_idem)
  ultimately show "snd (moc_remove_order u c) = map_of (moc_orders c) u"
    "moc_orders (fst (moc_remove_order u c)) = AList.delete u (moc_orders c)"
    by (auto simp: moc_remove_order_def Let_def stop_balance_loop_def split: option.split)
qed

lemma orders_selling_remove:
  assumes "moc_inv c"
  shows "orders_selling (fst (moc_remove_order u c)) t = orders_selling c t - {u}"
  by (auto simp: orders_selling_def moc_remove_order_eq[OF assms] hm_simps split: if_splits)

lemma moc_remove_order_inv:
  assumes inv: "moc_inv c"
  shows "moc_inv (fst (moc_remove_order u c))"
proof (cases "map_of (moc_orders c) u")
  case None
  then show ?thesis using inv by (simp add: moc_remove_order_def)
next
  case (Some m)
  let ?c = "fst (moc_remove_order u c)"
  define t where "t = mo_base m"
  have u: "u \<in> orders_selling c t" using Some by (simp add: orders_selling_def t_def)
  have other: "s \<noteq> t \<Longrightarrow> u \<notin> orders_selling c s" for s using Some by (simp add: orders_selling_def t_def)
  have cnt: "unwrap_or 0 (moc_count_by_tickers c s) = card (orders_selling c s)" for s
    using inv by (simp add: moc_inv_def)
  have pos: "0 < card (orders_selling c t)" using u by (auto simp: card_gt_0_iff)
  then have cnt_t: "moc_count_by_tickers c t = Some (card (orders_selling c t))"
    using cnt[of t] by (cases "moc_count_by_tickers c t") auto
  have tick: "moc_order_tickers c u = Some t" using inv Some by (simp add: moc_inv_def t_def)
  have c: "moc_order_tickers ?c = (moc_order_tickers c)(u := None)"
    "moc_count_by_tickers ?c = (moc_count_by_tickers c)(t \<mapsto> card (orders_selling c t) - 1)"
    "moc_balance_loops ?c = (if card (orders_selling c t) = 1 then moc_balance_loops c - {t} else moc_balance_loops c)"
    using Some tick cnt_t pos
    by (auto simp: moc_remove_order_def Let_def coin_has_active_maker_orders_def stop_balance_loop_def)
  have sell: "orders_selling ?c s = orders_selling c s - {u}" for s
    by (rule orders_selling_remove[OF inv])
  have "card (orders_selling c t) = 1 \<longleftrightarrow> orders_selling c t - {u} = {}"
    using u by (auto simp: card_1_singleton_iff)
  then have "orders_selling ?c s \<noteq> {} \<longleftrightarrow> orders_selling c s \<noteq> {} \<and> (s = t \<longrightarrow> card (orders_selling c t) \<noteq> 1)" for s
    using other[of s] unfolding sell by (cases "s = t") auto
  then have "moc_balance_loops ?c = {s. orders_selling ?c s \<noteq> {}}"
    using inv unfolding c(3) moc_inv_def by auto
  moreover have "unwrap_or 0 (moc_count_by_tickers ?c s) = card (orders_selling ?c s)" for s
    using cnt[of s] u other[of s] unfolding c sell by auto
  ultimately show ?thesis
    using inv c(1) by (auto simp: moc_inv_def moc_remove_order_eq[OF inv] hm_simps fun_eq_iff split: if_splits)
qed

lemma moc_set_order_inv:
  assumes "moc_inv c" "map_of (moc_orders c) u = Some m" "mo_uuid m' = u" "mo_base m' = mo_base m"
  shows "moc_inv (moc_set_order u m' c)"
proof -
  have "orders_selling (moc_set_order u m' c) t = orders_selling c t" for t
    using assms by (auto simp: orders_selling_def moc_set_order_def hm_simps)
  then show ?thesis
    using assms by (auto simp: moc_inv_def moc_set_order_def hm_simps fun_eq_iff)
qed

lemma moc_set_order_orders [simp]:
  "map_of (moc_orders (moc_set_order u m c)) = (if map_of (moc_orders c) u = None then map_of (moc_orders c)
     else (map_of (moc_orders c))(u \<mapsto> m))"
  by (auto simp: moc_set_order_def hm_simps split: option.split)

lemma moc_add_order_orders [simp]:
  "map_of (moc_orders (moc_add_order m c)) = (map_of (moc_orders c))(mo_uuid m \<mapsto> m)"
  by (simp add: moc_add_order_def Let_def hm_simps spawn_balance_loop_if_not_spawned_def)

section \<open>What survives the expiry of orders\<close>

text \<open>Dropping expired orders does not touch the counts (see below), so only half of the invariant holds
  in every state the service can reach: the tickers of the orders are known, the number kept for a coin
  is at least the number of orders selling it, and the balance of every coin with orders is watched.\<close>

definition moc_safe :: "maker_orders_context \<Rightarrow> bool" where
  "moc_safe c \<longleftrightarrow> hm_wf (moc_orders c)
     \<and> (\<forall>u m. map_of (moc_orders c) u = Some m \<longrightarrow> mo_uuid m = u \<and> moc_order_tickers c u = Some (mo_base m))
     \<and> (\<forall>t. card (orders_selling c t) \<le> unwrap_or 0 (moc_count_by_tickers c t))
     \<and> (\<forall>t. orders_selling c t \<noteq> {} \<longrightarrow> t \<in> moc_balance_loops c)"

lemma moc_inv_safe: "moc_inv c \<Longrightarrow> moc_safe c"
  by (auto simp: moc_inv_def moc_safe_def)

lemma moc_new_safe: "moc_safe moc_new"
  by (rule moc_inv_safe[OF moc_new_inv])

lemma moc_add_order_safe:
  assumes "moc_safe c" and fresh: "map_of (moc_orders c) (mo_uuid m) = None"
  shows "moc_safe (moc_add_order m c)"
proof -
  have "mo_uuid m \<notin> orders_selling c t" for t using fresh by (auto simp: orders_selling_def)
  then have "card (orders_selling (moc_add_order m c) t) \<le> unwrap_or 0 (moc_count_by_tickers (moc_add_order m c) t)" for t
    using assms(1) unfolding orders_selling_add[OF fresh] moc_safe_def
    by (simp add: moc_add_order_def Let_def spawn_balance_loop_if_not_spawned_def)
  moreover have "t \<in> moc_balance_loops (moc_add_order m c)" if "orders_selling (moc_add_order m c) t \<noteq> {}" for t
    using assms(1) that unfolding orders_selling_add[OF fresh] moc_safe_def
    by (auto simp: moc_add_order_def Let_def spawn_balance_loop_if_not_spawned_def split: if_splits)
  moreover have "hm_wf (moc_orders (moc_add_order m c))"
    using assms(1) by (auto simp: moc_safe_def moc_add_order_def Let_def spawn_balance_loop_if_not_spawned_def hm_wf_update)
  moreover have "moc_order_tickers (moc_add_order m c) = (moc_order_tickers c)(mo_uuid m \<mapsto> mo_base m)"
    by (simp add: moc_add_order_def Let_def spawn_balance_loop_if_not_spawned_def)
  ultimately show ?thesis
    using assms(1) unfolding moc_safe_def moc_add_order_orders by (auto split: if_splits)
qed

lemma moc_remove_order_safe_eq:
  assumes "moc_safe c"
  shows "snd (moc_remove_order u c) = map_of (moc_orders c) u"
    "moc_orders (fst (moc_remove_order u c)) = AList.delete u (moc_orders c)"
proof -
  have "map_of (moc_orders c) u = None \<Longrightarrow> AList.delete u (moc_orders c) = moc_orders c"
    by (auto simp: map_of_eq_None_iff intro: delete_idem)
  then show "snd (moc_remove_order u c) = map_of (moc_orders c) u"
    "moc_orders (fst (moc_remove_order u c)) = AList.delete u (moc_orders c)"
    using assms unfolding moc_safe_def
    by (auto simp: moc_remove_order_def Let_def stop_balance_loop_def split: option.split simp del: map_of_eq_Some_iff)
qed

lemma moc_remove_order_safe:
  assumes safe: "moc_safe c"
  shows "moc_safe (fst (moc_remove_order u c))"
proof (cases "map_of (moc_orders c) u")
  case None
  then show ?thesis using safe by (simp add: moc_remove_order_def)
next
  case (Some m)
  let ?c = "fst (moc_remove_order u c)"
  define t where "t = mo_base m"
  have u: "u \<in> orders_selling c t" using Some by (simp add: orders_selling_def t_def)
  have other: "s \<noteq> t \<Longrightarrow> u \<notin> orders_selling c s" for s using Some by (simp add: orders_selling_def t_def)
  have mem: "map_of (moc_orders ?c) = (map_of (moc_orders c))(u := None)"
    by (simp add: moc_remove_order_safe_eq[OF safe] hm_get_delete)
  have sell: "orders_selling ?c s = orders_selling c s - {u}" for s
    by (auto simp: orders_selling_def mem split: if_splits)
  have le: "card (orders_selling c s) \<le> unwrap_or 0 (moc_count_by_tickers c s)" for s
    using safe by (simp add: moc_safe_def)
  have "0 < card (orders_selling c t)" using u by (auto simp: card_gt_0_iff)
  then obtain n where n: "moc_count_by_tickers c t = Some n" "card (orders_selling c t) \<le> n" "0 < n"
    using le[of t] by (cases "moc_count_by_tickers c t") auto
  have tick: "moc_order_tickers c u = Some t" using safe Some by (simp add: moc_safe_def t_def)
  have c: "moc_order_tickers ?c = (moc_order_tickers c)(u := None)"
    "moc_count_by_tickers ?c = (moc_count_by_tickers c)(t \<mapsto> n - 1)"
    "moc_balance_loops ?c = (if n = 1 then moc_balance_loops c - {t} else moc_balance_loops c)"
    using Some tick n
    by (auto simp: moc_remove_order_def Let_def coin_has_active_maker_orders_def stop_balance_loop_def)
  have card_t: "card (orders_selling c t - {u}) = card (orders_selling c t) - 1" using u by simp
  have "card (orders_selling ?c s) \<le> unwrap_or 0 (moc_count_by_tickers ?c s)" for s
    using le[of s] n card_t other[of s] unfolding c sell by (cases "s = t") simp_all
  moreover have "s \<in> moc_balance_loops ?c" if "orders_selling ?c s \<noteq> {}" for s
  proof -
    have "s \<in> moc_balance_loops c" using that safe unfolding sell moc_safe_def by blast
    moreover have "card (orders_selling c t - {u}) \<noteq> 0" if "s = t"
      using that \<open>orders_selling ?c s \<noteq> {}\<close> unfolding sell by simp
    ultimately show ?thesis using n(2) card_t unfolding c by auto
  qed
  moreover have "hm_wf (moc_orders ?c)"
    using safe by (simp add: moc_remove_order_safe_eq[OF safe] moc_safe_def hm_wf_delete)
  ultimately show ?thesis using safe unfolding moc_safe_def mem c by (auto split: if_splits)
qed

lemma moc_set_order_safe:
  assumes "moc_safe c" "map_of (moc_orders c) u = Some m" "mo_uuid m' = u" "mo_base m' = mo_base m"
  shows "moc_safe (moc_set_order u m' c)"
proof -
  have "orders_selling (moc_set_order u m' c) t = orders_selling c t" for t
    using assms by (auto simp: orders_selling_def moc_set_order_def hm_simps)
  then show ?thesis
    using assms by (auto simp: moc_safe_def moc_set_order_def hm_simps split: if_splits)
qed

text \<open>Dropping expired orders keeps this half.\<close>

lemma moc_drop_expired_safe:
  assumes "moc_safe c"
  shows "moc_safe (fst (moc_drop_expired_entries expired c))"
    "map_of (moc_orders (fst (moc_drop_expired_entries expired c))) = map_of (moc_orders c) |` (- set expired)"
proof -
  let ?c = "fst (moc_drop_expired_entries expired c)"
  have wf: "hm_wf (moc_orders c)" using assms by (simp add: moc_safe_def)
  have filt: "map_of (filter (\<lambda>(u, _). u \<notin> set expired) m) = map_of m |` (- set expired)" for m :: "(uuid \<times> maker_order) list"
    by (induction m) (auto simp: fun_eq_iff restrict_map_def)
  show mem: "map_of (moc_orders ?c) = map_of (moc_orders c) |` (- set expired)"
    by (simp add: moc_drop_expired_entries_def filt)
  have sub: "orders_selling ?c t \<subseteq> orders_selling c t" for t
    by (auto simp: orders_selling_def mem restrict_map_def split: if_splits)
  have c: "moc_order_tickers ?c = moc_order_tickers c" "moc_count_by_tickers ?c = moc_count_by_tickers c"
    "moc_balance_loops ?c = moc_balance_loops c"
    by (simp_all add: moc_drop_expired_entries_def)
  have "card (orders_selling ?c t) \<le> unwrap_or 0 (moc_count_by_tickers c t)" for t
    using card_mono[OF finite_orders_selling sub[of t]] assms unfolding moc_safe_def by (meson order_trans)
  moreover have "hm_wf (moc_orders ?c)" using wf by (simp add: moc_drop_expired_entries_def distinct_map_filter)
  moreover have "t \<in> moc_balance_loops c" if "orders_selling ?c t \<noteq> {}" for t
    using that sub[of t] assms unfolding moc_safe_def by blast
  moreover have "mo_uuid m = u \<and> moc_order_tickers c u = Some (mo_base m)" if "map_of (moc_orders ?c) u = Some m" for u m
    using that assms unfolding mem moc_safe_def by (auto simp: restrict_map_def split: if_splits)
  ultimately show "moc_safe ?c" unfolding moc_safe_def c by blast
qed

text \<open>Removing several orders.\<close>

lemma moc_remove_orders:
  assumes "moc_safe c"
  shows "moc_safe (fold (\<lambda>(u, _) c. fst (moc_remove_order u c)) xs c)
    \<and> map_of (moc_orders (fold (\<lambda>(u, _) c. fst (moc_remove_order u c)) xs c)) = map_of (moc_orders c) |` (- fst ` set xs)"
  using assms
proof (induction xs arbitrary: c)
  case (Cons x xs)
  let ?c = "fst (moc_remove_order (fst x) c)"
  have "moc_safe ?c" by (rule moc_remove_order_safe[OF Cons.prems])
  moreover have "map_of (moc_orders ?c) = (map_of (moc_orders c))(fst x := None)"
    by (simp add: moc_remove_order_safe_eq[OF Cons.prems] hm_simps)
  ultimately show ?case
    using Cons.IH[of ?c] by (auto simp: split_beta restrict_map_def fun_eq_iff)
qed (simp add: restrict_map_def)

section \<open>Properties\<close>

text \<open>adding an order under a new uuid and removing any order keep the context consistent: every
  order is found under its own uuid and ticker, the number kept for a coin is the number of orders
  selling it, and exactly the coins with orders are watched. Removing returns the order and takes
  exactly it away.\<close>

theorem maker_orders_context_consistent:
  assumes "moc_inv c" "moc_get_order (mo_uuid m) c = None"
  shows "moc_inv moc_new \<and> moc_inv (moc_add_order m c) \<and> moc_inv (fst (moc_remove_order u c))
    \<and> moc_get_order (mo_uuid m) (moc_add_order m c) = Some m
    \<and> snd (moc_remove_order u c) = moc_get_order u c
    \<and> (\<forall>v. moc_get_order v (fst (moc_remove_order u c)) = (if v = u then None else moc_get_order v c))
    \<and> (coin_has_active_maker_orders t (moc_add_order m c) \<longleftrightarrow>
         t = mo_base m \<or> coin_has_active_maker_orders t c)"
proof -
  have "moc_get_order (mo_uuid m) (moc_add_order m c) = Some m"
    by (simp add: moc_get_order_def moc_add_order_def Let_def hm_simps)
  moreover have "coin_has_active_maker_orders t (moc_add_order m c) \<longleftrightarrow>
         t = mo_base m \<or> coin_has_active_maker_orders t c"
    by (simp add: coin_has_active_maker_orders_def moc_add_order_def Let_def
        spawn_balance_loop_if_not_spawned_def)
  ultimately show ?thesis
    using assms moc_new_inv moc_add_order_inv[OF assms(1)] moc_remove_order_inv[OF assms(1)]
    by (simp add: moc_get_order_def moc_remove_order_eq[OF assms(1)] hm_simps)
qed

definition demo_moc :: maker_orders_context where
  "demo_moc = moc_add_order demo_maker_order moc_new"

lemma demo_moc_inv: "moc_inv demo_moc"
  unfolding demo_moc_def by (rule moc_add_order_inv[OF moc_new_inv]) (simp add: moc_new_def)

theorem maker_orders_context_consistent_witness:
  "moc_inv (fst (moc_remove_order 7 demo_moc)) \<and> moc_get_order 7 (fst (moc_remove_order 7 demo_moc)) = None
    \<and> snd (moc_remove_order 7 demo_moc) = Some demo_maker_order"
proof -
  let ?m = "demo_maker_order\<lparr>mo_uuid := 8\<rparr>"
  have "moc_get_order (mo_uuid ?m) demo_moc = None"
    by (simp add: demo_moc_def moc_get_order_def moc_add_order_def Let_def hm_simps demo_matching_defs moc_new_def
        spawn_balance_loop_if_not_spawned_def)
  moreover have "moc_get_order 7 demo_moc = Some demo_maker_order"
    by (simp add: demo_moc_def moc_get_order_def moc_add_order_def Let_def hm_simps demo_matching_defs moc_new_def
        spawn_balance_loop_if_not_spawned_def)
  ultimately show ?thesis using maker_orders_context_consistent[OF demo_moc_inv, of ?m 7 "''KMD''"] by simp
qed

text \<open>Dropping expired orders the way the main loop does breaks this: the count and the balance
  loop of the coin stay although its only order is gone, and a later removal cannot repair it.\<close>

theorem dropping_expired_orders_leaks_counters:
  "moc_inv demo_moc
   \<and> moc_orders (fst (moc_drop_expired_entries [7] demo_moc)) = []
   \<and> coin_has_active_maker_orders ''KMD'' (fst (moc_drop_expired_entries [7] demo_moc))
   \<and> ''KMD'' \<in> moc_balance_loops (fst (moc_drop_expired_entries [7] demo_moc))
   \<and> fst (moc_remove_order 7 (fst (moc_drop_expired_entries [7] demo_moc)))
       = fst (moc_drop_expired_entries [7] demo_moc)"
  using demo_moc_inv
  by (simp add: demo_moc_def moc_add_order_def Let_def moc_new_def spawn_balance_loop_if_not_spawned_def
      moc_drop_expired_entries_def coin_has_active_maker_orders_def moc_remove_order_def demo_matching_defs)

end
