(* ===== verification/Match_Handlers.thy ===== *)
theory Match_Handlers
  imports Orderbook_Sync Swap_Routing Maker_Orders_Ctx
begin

text \<open>
  The four messages of a match (\<open>mm2_main/src/lp_ordermatch.rs\<close>): a maker answers a
  \<open>TakerRequest\<close> with \<open>MakerReserved\<close>, the taker picks the cheapest reservation and answers
  \<open>TakerConnect\<close>, the maker answers \<open>MakerConnected\<close>, and both start the swap.

  A handler is one step on \<open>om_state\<close>: each holds the locks of what it changes.
  \<open>process_maker_reserved\<close> sleeps between collecting the reservations and choosing one, and is split
  there. What is sent goes to \<open>om_sent\<close> (signing and transport are left out), the swaps that are
  started go to \<open>om_swaps\<close>, events for the user interface are left out. A panic of the source ends
  the task and is \<open>Panic\<close>.
\<close>

section \<open>State and surroundings\<close>

record 'db om_state =
  om_net :: "'db net_state"
  om_makers :: maker_orders_context
  om_takers :: "(uuid, taker_order) hash_map"
  om_pending :: "(uuid, maker_reserved list) hash_map"
  om_storage :: orders_storage
  om_sent :: "(string \<times> ordermatch_message \<times> keypair option) list"
  om_swaps :: "swap_effect list"

datatype max_vol_result = MaxVol mm_number | NotSufficientBalance | MaxVolError

record om_env =
  oe_swap :: swap_env
  oe_public_id :: "h256 option"
  oe_my_pubkey :: string
  oe_now_ms :: u64
  oe_now_sec :: u64
  oe_unprefixed :: "bytes \<Rightarrow> h256"
  oe_orderbook_tickers :: "string \<rightharpoonup> string"
  oe_calc_max_maker_vol :: "mm_coin \<Rightarrow> rat \<Rightarrow> max_vol_result"

definition om_broadcast :: "string \<Rightarrow> ordermatch_message \<Rightarrow> keypair option \<Rightarrow> 'db om_state \<Rightarrow> 'db om_state" where
  "om_broadcast topic msg key s = s\<lparr>om_sent := om_sent s @ [(topic, msg, key)]\<rparr>"

definition find_pair :: "swap_env \<Rightarrow> string \<Rightarrow> string \<Rightarrow> (mm_coin \<times> mm_coin) find_result" where
  "find_pair env base rel = (case (se_coinfind env base, se_coinfind env rel) of
     (FindError e, _) \<Rightarrow> FindError e
   | (_, FindError e) \<Rightarrow> FindError e
   | (Found b, Found r) \<Rightarrow> Found (b, r)
   | _ \<Rightarrow> NotFound)"

text \<open>Telling the other nodes about an own maker order: the index and the store change, and the
  message is sent.\<close>

definition om_notify_created :: "om_env \<Rightarrow> bytes \<Rightarrow> bytes \<Rightarrow> maker_order \<Rightarrow> 'db om_state \<Rightarrow>
    (unit, 'db om_state) rust_result" where
  "om_notify_created env base_info rel_info order s =
     rbind (maker_order_created_p2p_notify (oe_my_pubkey env) (oe_now_sec env) base_info rel_info order (om_net s))
       (\<lambda>(ns, topic, msg). Ok (om_broadcast topic msg (mo_p2p_privkey order) (s\<lparr>om_net := ns\<rparr>)))"

definition om_notify_updated :: "maker_order_updated \<Rightarrow> maker_order \<Rightarrow> 'db om_state \<Rightarrow> 'db om_state" where
  "om_notify_updated upd order s =
    (let (ns, topic, msg) = maker_order_updated_p2p_notify (mo_orderbook_topic order) upd (om_net s)
     in om_broadcast topic msg (mo_p2p_privkey order) (s\<lparr>om_net := ns\<rparr>))"

definition om_notify_cancelled :: "om_env \<Rightarrow> maker_order \<Rightarrow> 'db om_state \<Rightarrow> 'db om_state" where
  "om_notify_cancelled env order s =
    (let (ns, topic, msg) = maker_order_cancelled_p2p_notify (oe_now_sec env) order (om_net s)
     in om_broadcast topic msg (mo_p2p_privkey order) (s\<lparr>om_net := ns\<rparr>))"

definition om_set_maker :: "uuid \<Rightarrow> maker_order \<Rightarrow> 'db om_state \<Rightarrow> 'db om_state" where
  "om_set_maker u order s = s\<lparr>om_makers := moc_set_order u order (om_makers s)\<rparr>"

definition om_save_maker :: "maker_order \<Rightarrow> 'db om_state \<Rightarrow> 'db om_state" where
  "om_save_maker order s = s\<lparr>om_storage := fst (update_active_maker_order order (om_storage s))\<rparr>"

section \<open>The maker answers a request\<close>

text \<open>\<open>(lock_time as f64 * multiplier).ceil() as u64\<close>.\<close>

definition scaled_locktime :: "u64 \<Rightarrow> rat \<Rightarrow> u64" where
  "scaled_locktime lock multiplier = word_of_int \<lceil>of_nat (unat lock) * multiplier\<rceil>"

definition reserved_for_request :: "h256 \<Rightarrow> uuid \<Rightarrow> maker_order \<Rightarrow> taker_request \<Rightarrow> mm_coin \<Rightarrow> mm_coin \<Rightarrow>
    mm_number \<Rightarrow> mm_number \<Rightarrow> maker_reserved" where
  "reserved_for_request our_public_id u order taker_request base_coin rel_coin base_amount rel_amount =
     \<lparr>mr_base = mo_base_ticker order, mr_rel = mo_rel_ticker order,
      mr_base_amount = base_amount, mr_rel_amount = rel_amount,
      mr_taker_order_uuid = tr_uuid taker_request, mr_maker_order_uuid = u,
      mr_sender_pubkey = our_public_id, mr_dest_pub_key = tr_sender_pubkey taker_request,
      mr_conf_settings = (case mo_conf_settings order of
          Some c \<Rightarrow> Some c
        | None \<Rightarrow> Some \<lparr>base_confs = required_confirmations base_coin,
            base_nota = requires_notarization base_coin,
            rel_confs = required_confirmations rel_coin,
            rel_nota = requires_notarization rel_coin\<rparr>),
      mr_base_protocol_info = Some (coin_protocol_info base_coin None),
      mr_rel_protocol_info = Some (coin_protocol_info rel_coin (Some rel_amount)),
      mr_swap_version = mo_swap_version order\<rparr>"

definition maker_lock_duration :: "maker_order \<Rightarrow> taker_request \<Rightarrow> mm_coin \<Rightarrow> mm_coin \<Rightarrow> u64" where
  "maker_lock_duration order taker_request base_coin rel_coin =
    (let my_conf = choose_maker_confs_and_notas (mo_conf_settings order) taker_request base_coin rel_coin;
         other_conf = choose_taker_confs_and_notas taker_request (mo_conf_settings order) base_coin rel_coin
     in scaled_locktime (lp_atomic_locktime (mo_base_ticker order) (mo_rel_ticker order) (LocktimeV2 my_conf other_conf))
          (maker_locktime_multiplier rel_coin))"

definition reserve_for_request :: "om_env \<Rightarrow> h256 \<Rightarrow> taker_request \<Rightarrow> uuid \<Rightarrow> maker_order \<Rightarrow> mm_number \<Rightarrow>
    mm_number \<Rightarrow> 'db om_state \<Rightarrow> (unit, 'db om_state) rust_result" where
  "reserve_for_request env our_public_id taker_request u order base_amount rel_amount s =
    (case find_pair (oe_swap env) (mo_base order) (mo_rel order) of
       NotFound \<Rightarrow> Ok s | FindError _ \<Rightarrow> Ok s
     | Found (base_coin, rel_coin) \<Rightarrow>
         (let lock = maker_lock_duration order taker_request base_coin rel_coin in
          if map_of (mo_matches order) (tr_uuid taker_request) = None
             \<and> is_coin_protocol_supported base_coin (tr_base_protocol_info_for_maker taker_request)
                 (Some base_amount) lock True
             \<and> is_coin_protocol_supported rel_coin (tr_rel_protocol_info_for_maker taker_request) None lock True
          then
            (let reserved = reserved_for_request our_public_id u order taker_request base_coin rel_coin
                   base_amount rel_amount;
                 topic = mo_orderbook_topic order in
             rbind (msg_of_maker_reserved reserved) (\<lambda>msg.
               let s = om_broadcast topic msg (mo_p2p_privkey order) s;
                   maker_match = \<lparr>mm_request = taker_request, mm_reserved = reserved, mm_connect = None,
                     mm_connected = None, mm_last_updated = oe_now_ms env\<rparr>;
                   order = order\<lparr>mo_matches := AList.update (tr_uuid taker_request) maker_match (mo_matches order)\<rparr>
               in Ok (om_save_maker order (om_set_maker u order s))))
          else Ok s))"

fun taker_request_loop :: "om_env \<Rightarrow> h256 \<Rightarrow> taker_request \<Rightarrow> (uuid \<times> maker_order) list \<Rightarrow> 'db om_state \<Rightarrow>
    (unit, 'db om_state) rust_result" where
  "taker_request_loop env our_public_id taker_request [] s = Ok s"
| "taker_request_loop env our_public_id taker_request ((u, order) # orders) s =
     rbind (match_with_request order taker_request) (\<lambda>r. case r of
       OrderMatched base_amount rel_amount \<Rightarrow>
         reserve_for_request env our_public_id taker_request u order base_amount rel_amount s
     | OrderNotMatched \<Rightarrow> taker_request_loop env our_public_id taker_request orders s)"

definition process_taker_request :: "om_env \<Rightarrow> h256 \<Rightarrow> taker_request \<Rightarrow> 'db om_state \<Rightarrow>
    (unit, 'db om_state) rust_result" where
  "process_taker_request env from_pubkey taker_request s = (case oe_public_id env of
     None \<Rightarrow> Ok s
   | Some our_public_id \<Rightarrow>
       if our_public_id = from_pubkey then Ok s
       else if \<not> tr_can_match_with_maker_pubkey taker_request our_public_id then Ok s
       else taker_request_loop env our_public_id taker_request
         (filter (\<lambda>(u, _). tr_can_match_with_uuid taker_request u) (moc_orders (om_makers s))) s)"

section \<open>The taker collects reservations\<close>

text \<open>The handler up to the sleep; the flag tells whether this instance goes on to choose.\<close>

definition process_maker_reserved_collect :: "om_env \<Rightarrow> h256 \<Rightarrow> maker_reserved \<Rightarrow> 'db om_state \<Rightarrow>
    (unit, 'db om_state \<times> bool) rust_result" where
  "process_maker_reserved_collect env from_pubkey reserved_msg s =
    (if map_of (om_takers s) (mr_taker_order_uuid reserved_msg) = None then Ok (s, False)
     else case oe_public_id env of
       None \<Rightarrow> Panic
     | Some our_public_id \<Rightarrow>
         if our_public_id = from_pubkey then Ok (s, False)
         else
           (let u = mr_taker_order_uuid reserved_msg;
                pending_for_order = unwrap_or [] (map_of (om_pending s) u) @ [reserved_msg];
                s = s\<lparr>om_pending := AList.update u pending_for_order (om_pending s)\<rparr>
            in if 1 < length pending_for_order then Ok (s, False) else Ok (s, True)))"

text \<open>Sorting computes the price of every message as soon as there are two.\<close>

definition sort_by_price :: "maker_reserved list \<Rightarrow> (unit, maker_reserved list) rust_result" where
  "sort_by_price msgs =
    (if length msgs \<le> 1 then Ok msgs
     else if list_ex (\<lambda>r. mr_price r = Panic) msgs then Panic
     else Ok (sort_key (\<lambda>r. mr_rel_amount r / mr_base_amount r) msgs))"

definition taker_accepts :: "taker_order \<Rightarrow> mm_coin \<Rightarrow> mm_coin \<Rightarrow> maker_reserved \<Rightarrow> bool" where
  "taker_accepts my_order base_coin rel_coin reserved_msg =
    (let my_conf = choose_maker_confs_and_notas (mr_conf_settings reserved_msg) (to_request my_order)
           base_coin rel_coin;
         other_conf = choose_taker_confs_and_notas (to_request my_order) (mr_conf_settings reserved_msg)
           base_coin rel_coin;
         lock_time = lp_atomic_locktime (to_maker_orderbook_ticker my_order)
           (to_taker_orderbook_ticker my_order) (LocktimeV2 my_conf other_conf)
     in match_reserved my_order reserved_msg = ReservedMatched \<and> to_matches my_order = []
       \<and> is_coin_protocol_supported base_coin (mr_base_protocol_info reserved_msg) None lock_time False
       \<and> is_coin_protocol_supported rel_coin (mr_rel_protocol_info reserved_msg)
           (Some (mr_rel_amount reserved_msg)) lock_time False)"

definition connect_for_reserved :: "h256 \<Rightarrow> maker_reserved \<Rightarrow> taker_connect" where
  "connect_for_reserved our_public_id reserved_msg = \<lparr>
     tc_taker_order_uuid = mr_taker_order_uuid reserved_msg,
     tc_maker_order_uuid = mr_maker_order_uuid reserved_msg,
     tc_sender_pubkey = our_public_id, tc_dest_pub_key = mr_sender_pubkey reserved_msg\<rparr>"

definition connect_to_maker :: "om_env \<Rightarrow> h256 \<Rightarrow> uuid \<Rightarrow> taker_order \<Rightarrow> maker_reserved \<Rightarrow> 'db om_state \<Rightarrow>
    'db om_state" where
  "connect_to_maker env our_public_id u my_order reserved_msg s =
    (let connect = connect_for_reserved our_public_id reserved_msg;
         s = om_broadcast (to_orderbook_topic my_order) (msg_of_taker_connect connect) (to_p2p_privkey my_order) s;
         taker_match = \<lparr>tm_reserved = reserved_msg, tm_connect = connect, tm_connected = None,
           tm_last_updated = oe_now_ms env\<rparr>;
         my_order = my_order\<lparr>to_matches := AList.update (mr_maker_order_uuid reserved_msg) taker_match (to_matches my_order)\<rparr>
     in s\<lparr>om_takers := AList.update u my_order (om_takers s),
          om_storage := fst (update_active_taker_order my_order (om_storage s))\<rparr>)"

definition process_maker_reserved_choose :: "om_env \<Rightarrow> h256 \<Rightarrow> uuid \<Rightarrow> 'db om_state \<Rightarrow>
    (unit, 'db om_state) rust_result" where
  "process_maker_reserved_choose env our_public_id u s = (case map_of (om_takers s) u of
     None \<Rightarrow> Ok s
   | Some my_order \<Rightarrow>
       (case find_pair (oe_swap env) (to_maker_coin_ticker my_order) (to_taker_coin_ticker my_order) of
          NotFound \<Rightarrow> Ok s | FindError _ \<Rightarrow> Ok s
        | Found (base_coin, rel_coin) \<Rightarrow>
            (case map_of (om_pending s) u of
               None \<Rightarrow> Ok s
             | Some reserved_messages \<Rightarrow>
                 (let s = s\<lparr>om_pending := AList.delete u (om_pending s)\<rparr> in
                  rbind (sort_by_price reserved_messages) (\<lambda>msgs.
                    case find (taker_accepts my_order base_coin rel_coin) msgs of
                      Some reserved_msg \<Rightarrow> Ok (connect_to_maker env our_public_id u my_order reserved_msg s)
                    | None \<Rightarrow> Ok s)))))"

section \<open>The maker connects\<close>

definition connected_for_connect :: "h256 \<Rightarrow> taker_connect \<Rightarrow> maker_connected" where
  "connected_for_connect our_public_id connect_msg = \<lparr>
     mc_taker_order_uuid = tc_taker_order_uuid connect_msg,
     mc_maker_order_uuid = tc_maker_order_uuid connect_msg, mc_method = ''connected'',
     mc_sender_pubkey = our_public_id, mc_dest_pub_key = tc_sender_pubkey connect_msg\<rparr>"

definition connect_maker_order :: "h256 \<Rightarrow> taker_connect \<Rightarrow> maker_match \<Rightarrow> maker_order \<Rightarrow> maker_order" where
  "connect_maker_order our_public_id connect_msg order_match my_order =
    (let order_match = order_match\<lparr>mm_connect := Some connect_msg,
           mm_connected := Some (connected_for_connect our_public_id connect_msg)\<rparr>
     in my_order\<lparr>mo_matches := AList.update (tc_taker_order_uuid connect_msg) order_match (mo_matches my_order),
          mo_started_swaps := mo_started_swaps my_order @ [tr_uuid (mm_request order_match)]\<rparr>)"

definition process_taker_connect :: "om_env \<Rightarrow> bytes \<Rightarrow> taker_connect \<Rightarrow> 'db om_state \<Rightarrow> 'db om_state" where
  "process_taker_connect env sender_pubkey connect_msg s = (case oe_public_id env of
     None \<Rightarrow> s
   | Some our_public_id \<Rightarrow>
       (let sender_unprefixed = oe_unprefixed env sender_pubkey in
        if our_public_id = sender_unprefixed then s
        else case moc_get_order (tc_maker_order_uuid connect_msg) (om_makers s) of None \<Rightarrow> s | Some my_order \<Rightarrow>
        (case map_of (mo_matches my_order) (tc_taker_order_uuid connect_msg) of None \<Rightarrow> s | Some order_match \<Rightarrow>
        (if tr_sender_pubkey (mm_request order_match) \<noteq> sender_unprefixed then s
         else if mm_connected order_match = None \<and> mm_connect order_match = None then
           (let my_order = connect_maker_order our_public_id connect_msg order_match my_order;
                order_match = the (map_of (mo_matches my_order) (tc_taker_order_uuid connect_msg));
                s = om_set_maker (tc_maker_order_uuid connect_msg) my_order s;
                s = s\<lparr>om_swaps := om_swaps s @ lp_connect_start_bob (oe_swap env) order_match my_order sender_pubkey\<rparr>;
                topic = mo_orderbook_topic my_order;
                s = om_broadcast topic (msg_of_maker_connected (connected_for_connect our_public_id connect_msg))
                  (mo_p2p_privkey my_order) s;
                s = (if mo_available_amount my_order \<ge> mo_min_base_vol my_order
                  then om_notify_updated (with_new_max_volume (mo_available_amount my_order)
                         (upd_new (oe_now_sec env) (mo_uuid my_order))) my_order s
                  else s)
            in om_save_maker my_order s)
         else s))))"

section \<open>The taker starts\<close>

definition process_maker_connected :: "om_env \<Rightarrow> bytes \<Rightarrow> maker_connected \<Rightarrow> 'db om_state \<Rightarrow> 'db om_state" where
  "process_maker_connected env from_pubkey connected_msg s = (case oe_public_id env of
     None \<Rightarrow> s
   | Some our_public_id \<Rightarrow>
       (let unprefixed_from = oe_unprefixed env from_pubkey in
        if our_public_id = unprefixed_from then s
        else case map_of (om_takers s) (mc_taker_order_uuid connected_msg) of None \<Rightarrow> s | Some my_order \<Rightarrow>
        (case map_of (to_matches my_order) (mc_maker_order_uuid connected_msg) of None \<Rightarrow> s | Some order_match \<Rightarrow>
        (if mr_sender_pubkey (tm_reserved order_match) \<noteq> unprefixed_from then s
         else
           (let s = s\<lparr>om_swaps := om_swaps s @ lp_connected_alice (oe_swap env) my_order order_match from_pubkey\<rparr>
            in s\<lparr>om_takers := AList.delete (mc_taker_order_uuid connected_msg) (om_takers s),
                 om_storage := delete_my_taker_order (oe_now_ms env) my_order TakerFulfilled (om_storage s)\<rparr>)))))"

section \<open>Invariant\<close>

text \<open>A maker order has its confirmation settings and never reserves more than it offers, its matches are filed under the taker's uuid
  and name this order, and the swaps it started are exactly its connected matches, each once. A taker
  order is matched with at most one reservation, one that keeps its terms. What is on disk is what
  is in memory, as long as the disk takes writes.\<close>

definition maker_entry_ok :: "uuid \<Rightarrow> maker_order \<Rightarrow> bool" where
  "maker_entry_ok u m \<longleftrightarrow> holds_capacity m \<and> mo_conf_settings m \<noteq> None
     \<and> (\<forall>k x. map_of (mo_matches m) k = Some x \<longrightarrow>
          tr_uuid (mm_request x) = k \<and> mr_taker_order_uuid (mm_reserved x) = k
          \<and> mr_maker_order_uuid (mm_reserved x) = u \<and> (mm_connect x = None) = (mm_connected x = None))
     \<and> distinct (mo_started_swaps m)
     \<and> set (mo_started_swaps m) = {k. \<exists>x. map_of (mo_matches m) k = Some x \<and> mm_connected x \<noteq> None}"

definition taker_entry_ok :: "uuid \<Rightarrow> taker_order \<Rightarrow> bool" where
  "taker_entry_ok u t \<longleftrightarrow> tr_uuid (to_request t) = u \<and> wf_taker_order t \<and> length (to_matches t) \<le> 1
     \<and> (\<forall>k x. map_of (to_matches t) k = Some x \<longrightarrow>
          mr_maker_order_uuid (tm_reserved x) = k \<and> mr_taker_order_uuid (tm_reserved x) = u
          \<and> match_reserved t (tm_reserved x) = ReservedMatched)"

text \<open>How a saved order may differ from the one in memory: balance checks lower the volume in memory
  only.\<close>

definition saved_as :: "maker_order \<Rightarrow> maker_order \<Rightarrow> bool" where
  "saved_as saved m \<longleftrightarrow> mo_max_base_vol m \<le> mo_max_base_vol saved
     \<and> saved = m\<lparr>mo_max_base_vol := mo_max_base_vol saved\<rparr>"

definition storage_mirrors :: "orders_storage \<Rightarrow> maker_orders_context \<Rightarrow> (uuid, taker_order) hash_map \<Rightarrow> bool" where
  "storage_mirrors st makers takers \<longleftrightarrow> (st_writable st \<longrightarrow>
     hm_wf (st_active_makers st) \<and> hm_wf (st_active_takers st)
     \<and> (\<forall>u. rel_option saved_as (map_of (st_active_makers st) u) (map_of (moc_orders makers) u))
     \<and> map_of (st_active_takers st) = map_of takers)"

definition pending_ok :: "(uuid, maker_reserved list) hash_map \<Rightarrow> bool" where
  "pending_ok pending \<longleftrightarrow> (\<forall>u msgs. map_of pending u = Some msgs \<longrightarrow>
     msgs \<noteq> [] \<and> (\<forall>r \<in> set msgs. mr_taker_order_uuid r = u))"

definition om_ok :: "'db om_state \<Rightarrow> bool" where
  "om_ok s \<longleftrightarrow> moc_safe (om_makers s)
     \<and> (\<forall>u m. map_of (moc_orders (om_makers s)) u = Some m \<longrightarrow> maker_entry_ok u m)
     \<and> hm_wf (om_takers s)
     \<and> (\<forall>u t. map_of (om_takers s) u = Some t \<longrightarrow> taker_entry_ok u t)
     \<and> dom (map_of (om_takers s)) \<inter> dom (map_of (moc_orders (om_makers s))) = {}
     \<and> storage_mirrors (om_storage s) (om_makers s) (om_takers s)
     \<and> pending_ok (om_pending s)"

lemma om_ok_maker: "om_ok s \<Longrightarrow> map_of (moc_orders (om_makers s)) u = Some m \<Longrightarrow> maker_entry_ok u m \<and> mo_uuid m = u"
  by (simp add: om_ok_def moc_safe_def)

lemma om_ok_taker: "om_ok s \<Longrightarrow> map_of (om_takers s) u = Some t \<Longrightarrow> taker_entry_ok u t"
  by (simp add: om_ok_def)

lemma om_ok_disjoint:
  "om_ok s \<Longrightarrow> map_of (om_takers s) u = Some t \<Longrightarrow> map_of (moc_orders (om_makers s)) u = None"
  unfolding om_ok_def by (cases "map_of (moc_orders (om_makers s)) u") blast+

lemma om_ok_irrelevant [simp]:
  "om_ok (om_broadcast topic msg key s) = om_ok s"
  "om_ok (s\<lparr>om_net := ns\<rparr>) = om_ok s" "om_ok (s\<lparr>om_swaps := sw\<rparr>) = om_ok s"
  "om_ok (s\<lparr>om_sent := out\<rparr>) = om_ok s"
  by (simp_all add: om_ok_def om_broadcast_def)

lemma om_broadcast_frame [simp]:
  "om_makers (om_broadcast topic msg key s) = om_makers s" "om_takers (om_broadcast topic msg key s) = om_takers s"
  "om_storage (om_broadcast topic msg key s) = om_storage s" "om_pending (om_broadcast topic msg key s) = om_pending s"
  "om_swaps (om_broadcast topic msg key s) = om_swaps s" "om_net (om_broadcast topic msg key s) = om_net s"
  "om_sent (om_broadcast topic msg key s) = om_sent s @ [(topic, msg, key)]"
  by (simp_all add: om_broadcast_def)

lemma om_ok_notify_updated [simp]: "om_ok (om_notify_updated upd order s) = om_ok s"
  by (simp add: om_notify_updated_def split: prod.split)

lemma om_ok_notify_cancelled [simp]: "om_ok (om_notify_cancelled env order s) = om_ok s"
  by (simp add: om_notify_cancelled_def split: prod.split)

lemma om_notify_frame [simp]:
  "om_makers (om_notify_updated upd order s) = om_makers s" "om_takers (om_notify_updated upd order s) = om_takers s"
  "om_storage (om_notify_updated upd order s) = om_storage s"
  "om_pending (om_notify_updated upd order s) = om_pending s"
  "om_swaps (om_notify_updated upd order s) = om_swaps s"
  "om_makers (om_notify_cancelled env order s) = om_makers s" "om_takers (om_notify_cancelled env order s) = om_takers s"
  "om_storage (om_notify_cancelled env order s) = om_storage s"
  "om_pending (om_notify_cancelled env order s) = om_pending s"
  "om_swaps (om_notify_cancelled env order s) = om_swaps s"
  by (simp_all add: om_notify_updated_def om_notify_cancelled_def split: prod.split)

lemma saved_as_refl [simp]: "saved_as m m"
  by (simp add: saved_as_def)

lemma saved_as_uuid: "saved_as saved m \<Longrightarrow> mo_uuid saved = mo_uuid m"
  by (metis maker_order.surjective maker_order.update_convs(1) maker_order.select_convs(10) saved_as_def)

text \<open>Writing an order back under its uuid, in memory and on disk.\<close>

lemma om_save_maker_commute [simp]:
  "om_save_maker m (om_broadcast topic msg key s) = om_broadcast topic msg key (om_save_maker m s)"
  "om_save_maker m (s\<lparr>om_swaps := sw\<rparr>) = (om_save_maker m s)\<lparr>om_swaps := sw\<rparr>"
  "om_save_maker m (om_notify_updated upd m' s) = om_notify_updated upd m' (om_save_maker m s)"
  by (simp_all add: om_save_maker_def om_broadcast_def om_notify_updated_def split: prod.split)

lemma files_wf [simp]:
  "hm_wf (st_active_makers st) \<Longrightarrow> hm_wf (st_active_makers (fst (save_new_active_maker_order m st)))"
  "hm_wf (st_active_makers st) \<Longrightarrow> hm_wf (st_active_makers (fst (delete_active_maker_order u st)))"
  "hm_wf (st_active_takers st) \<Longrightarrow> hm_wf (st_active_takers (fst (save_new_active_taker_order t st)))"
  "hm_wf (st_active_takers st) \<Longrightarrow> hm_wf (st_active_takers (fst (delete_active_taker_order u st)))"
  by (auto simp: st_write_def save_new_active_maker_order_def save_new_active_taker_order_def
      delete_active_maker_order_def delete_active_taker_order_def hm_simps)

text \<open>The mirror of the maker orders and of the taker orders, one store at a time.\<close>

lemma storage_mirrors_makers:
  assumes "storage_mirrors st makers takers" "st_writable st' = st_writable st"
    and "st_writable st \<Longrightarrow> hm_wf (st_active_makers st) \<Longrightarrow> hm_wf (st_active_makers st')"
    and "st_active_takers st' = st_active_takers st"
    and "\<And>u. st_writable st \<Longrightarrow> rel_option saved_as (map_of (st_active_makers st) u) (map_of (moc_orders makers) u) \<Longrightarrow>
       rel_option saved_as (map_of (st_active_makers st') u) (map_of (moc_orders makers') u)"
  shows "storage_mirrors st' makers' takers"
  using assms unfolding storage_mirrors_def by simp

lemma storage_mirrors_takers:
  assumes "storage_mirrors st makers takers" "st_writable st' = st_writable st"
    and "st_writable st \<Longrightarrow> hm_wf (st_active_takers st) \<Longrightarrow> hm_wf (st_active_takers st')"
    and "st_active_makers st' = st_active_makers st"
    and "st_writable st \<Longrightarrow> map_of (st_active_takers st) = map_of takers \<Longrightarrow>
       map_of (st_active_takers st') = map_of takers'"
  shows "storage_mirrors st' makers takers'"
  using assms unfolding storage_mirrors_def by simp

text \<open>The other parts of the invariant when only one maker order or one taker order changes.\<close>

lemma om_ok_intro_maker:
  assumes ok: "om_ok s" and s': "om_takers s' = om_takers s" "om_pending s' = om_pending s"
    and inv: "moc_safe (om_makers s')"
    and entry: "map_of (moc_orders (om_makers s)) u = Some m" "maker_entry_ok u m'"
    and mem: "map_of (moc_orders (om_makers s')) = (map_of (moc_orders (om_makers s)))(u \<mapsto> m')"
    and mirror: "storage_mirrors (om_storage s') (om_makers s') (om_takers s)"
  shows "om_ok s'"
proof -
  have "maker_entry_ok v x" if "map_of (moc_orders (om_makers s')) v = Some x" for v x
    using that entry(2) ok mem unfolding om_ok_def by (auto split: if_splits)
  moreover have "dom (map_of (om_takers s)) \<inter> dom (map_of (moc_orders (om_makers s'))) = {}"
    using ok entry(1) unfolding mem om_ok_def by auto
  ultimately show ?thesis
    using ok inv mirror unfolding om_ok_def s' by blast
qed

lemma om_ok_write_maker:
  assumes ok: "om_ok s" and u: "map_of (moc_orders (om_makers s)) u = Some m" and m': "maker_entry_ok u m'"
    "mo_uuid m' = u" "mo_base m' = mo_base m"
  shows "om_ok (om_save_maker m' (om_set_maker u m' s))"
proof (rule om_ok_intro_maker[OF ok])
  let ?s = "om_save_maker m' (om_set_maker u m' s)"
  show "map_of (moc_orders (om_makers s)) u = Some m" "maker_entry_ok u m'" by fact+
  show "om_takers ?s = om_takers s" "om_pending ?s = om_pending s"
    by (simp_all add: om_save_maker_def om_set_maker_def)
  show "moc_safe (om_makers ?s)"
    using moc_set_order_safe[OF _ u m'(2,3)] ok by (simp add: om_ok_def om_save_maker_def om_set_maker_def)
  show mem: "map_of (moc_orders (om_makers ?s)) = (map_of (moc_orders (om_makers s)))(u \<mapsto> m')"
    using u by (simp add: om_save_maker_def om_set_maker_def)
  have "storage_mirrors (om_storage s) (om_makers s) (om_takers s)" using ok by (simp add: om_ok_def)
  then show "storage_mirrors (om_storage ?s) (om_makers ?s) (om_takers s)"
    by (rule storage_mirrors_makers)
      (unfold mem, simp_all add: om_save_maker_def om_set_maker_def update_active_maker_order_def maker_dir.load_save m'(2))
qed

text \<open>Lowering the volume in memory only.\<close>

lemma om_ok_lower_volume:
  assumes ok: "om_ok s" and u: "map_of (moc_orders (om_makers s)) u = Some m"
    and m': "maker_entry_ok u (m\<lparr>mo_max_base_vol := v\<rparr>)" "v \<le> mo_max_base_vol m"
  shows "om_ok (om_set_maker u (m\<lparr>mo_max_base_vol := v\<rparr>) s)"
proof (rule om_ok_intro_maker[OF ok])
  let ?m = "m\<lparr>mo_max_base_vol := v\<rparr>"
  let ?s = "om_set_maker u ?m s"
  show "map_of (moc_orders (om_makers s)) u = Some m" "maker_entry_ok u ?m" by fact+
  show "om_takers ?s = om_takers s" "om_pending ?s = om_pending s"
    by (simp_all add: om_set_maker_def)
  have "mo_uuid ?m = u" "mo_base ?m = mo_base m" using om_ok_maker[OF ok u] by simp_all
  then show "moc_safe (om_makers ?s)"
    using moc_set_order_safe[OF _ u] ok by (simp add: om_ok_def om_set_maker_def)
  show mem: "map_of (moc_orders (om_makers ?s)) = (map_of (moc_orders (om_makers s)))(u \<mapsto> ?m)"
    using u by (simp add: om_set_maker_def)
  have lower: "saved_as x m \<Longrightarrow> saved_as x ?m" for x
    using m'(2) by (auto simp: saved_as_def)
  have "storage_mirrors (om_storage s) (om_makers s) (om_takers s)" using ok by (simp add: om_ok_def)
  then show "storage_mirrors (om_storage ?s) (om_makers ?s) (om_takers s)"
  proof (rule storage_mirrors_makers)
    fix w assume "rel_option saved_as (map_of (st_active_makers (om_storage s)) w) (map_of (moc_orders (om_makers s)) w)"
    then show "rel_option saved_as (map_of (st_active_makers (om_storage ?s)) w) (map_of (moc_orders (om_makers ?s)) w)"
      using lower u unfolding mem by (cases "w = u") (auto simp: om_set_maker_def option_rel_Some2)
  qed (simp_all add: om_set_maker_def)
qed

section \<open>The handlers keep the invariant\<close>

lemma msg_of_reserved_for_request:
  "\<exists>msg. msg_of_maker_reserved (reserved_for_request k u m r bc rc b q) = Ok msg"
  by (simp add: msg_of_maker_reserved_def reserved_for_request_def split: option.split)

lemma new_match_ok:
  assumes ok: "maker_entry_ok u m" and fresh: "map_of (mo_matches m) (tr_uuid r) = None"
    and matched: "match_with_request m r = Ok (OrderMatched b q)"
  shows "maker_entry_ok u (m\<lparr>mo_matches := AList.update (tr_uuid r)
     \<lparr>mm_request = r, mm_reserved = reserved_for_request k u m r bc rc b q, mm_connect = None,
      mm_connected = None, mm_last_updated = now\<rparr> (mo_matches m)\<rparr>)"
    (is "maker_entry_ok u ?m'")
proof -
  have cap: "holds_capacity m" using ok by (simp add: maker_entry_ok_def)
  then have "0 < mo_price m" "0 \<le> mo_min_base_vol m" by (simp_all add: holds_capacity_def wf_maker_order_def)
  then have b: "mo_min_base_vol m \<le> b" "b \<le> mo_available_amount m" "0 \<le> b"
    using matched match_with_request_matched_iff[of m r b q] by auto
  have notin: "tr_uuid r \<notin> fst ` set (mo_matches m)" using fresh by (simp add: map_of_eq_None_iff)
  have "holds_capacity ?m'"
    by (rule mo_add_match_capacity[OF cap notin]) (simp_all add: maker_match_amount_def reserved_for_request_def b)
  then show ?thesis
    using ok fresh by (auto simp: maker_entry_ok_def hm_simps reserved_for_request_def)
qed

lemma om_ok_reserve:
  assumes ok: "om_ok s" and m: "map_of (moc_orders (om_makers s)) u = Some m"
    and matched: "match_with_request m r = Ok (OrderMatched b q)"
  shows "\<exists>s'. reserve_for_request env k r u m b q s = Ok s' \<and> om_ok s'"
proof -
  note e = om_ok_maker[OF ok m]
  have saved: "om_ok (om_save_maker m' (om_set_maker u m' (om_broadcast topic msg key s)))"
    if "maker_entry_ok u m'" "mo_uuid m' = u" "mo_base m' = mo_base m" for m' topic msg key
    using om_ok_write_maker[OF ok m that] by (simp add: om_set_maker_def om_broadcast_def om_save_maker_def om_ok_def)
  show ?thesis
  proof (cases "find_pair (oe_swap env) (mo_base m) (mo_rel m)")
    case (Found p)
    obtain bc rc where p: "p = (bc, rc)" by (metis prod.collapse)
    obtain msg where msg: "msg_of_maker_reserved (reserved_for_request k u m r bc rc b q) = Ok msg"
      using msg_of_reserved_for_request by blast
    show ?thesis
    proof (cases "map_of (mo_matches m) (tr_uuid r) = None")
      case True
      show ?thesis
        using ok saved[OF new_match_ok[OF conjunct1[OF e] True matched, of k bc rc "oe_now_ms env"]] e
        by (simp add: reserve_for_request_def Let_def Found p msg)
    qed (use ok in \<open>auto simp: reserve_for_request_def Let_def Found p\<close>)
  qed (use ok in \<open>simp_all add: reserve_for_request_def\<close>)
qed

lemma om_ok_taker_request_loop:
  assumes ok: "om_ok s" and sub: "set orders \<subseteq> set (moc_orders (om_makers s))"
  shows "\<exists>s'. taker_request_loop env k r orders s = Ok s' \<and> om_ok s'"
  using sub
proof (induction orders)
  case Nil
  then show ?case using ok by simp
next
  case (Cons x orders)
  obtain u m where x: "x = (u, m)" by (metis prod.collapse)
  have "hm_wf (moc_orders (om_makers s))" using ok by (simp add: om_ok_def moc_safe_def)
  then have m: "map_of (moc_orders (om_makers s)) u = Some m" using Cons.prems x by simp
  have "0 < mo_price m"
    using om_ok_maker[OF ok m] by (simp add: maker_entry_ok_def holds_capacity_def wf_maker_order_def)
  then show ?case
    using Cons m x om_ok_reserve[OF ok m] match_with_request_eq[of m r] by (auto split: if_splits)
qed

lemma om_ok_process_taker_request:
  assumes "om_ok s"
  shows "\<exists>s'. process_taker_request env from r s = Ok s' \<and> om_ok s'"
  using assms om_ok_taker_request_loop[OF assms, of "filter (\<lambda>(u, _). tr_can_match_with_uuid r u) (moc_orders (om_makers s))"]
  by (auto simp: process_taker_request_def split: option.split)

lemma om_ok_pending_add:
  assumes ok: "om_ok s"
  shows "om_ok (s\<lparr>om_pending := AList.update (mr_taker_order_uuid r)
    (unwrap_or [] (map_of (om_pending s) (mr_taker_order_uuid r)) @ [r]) (om_pending s)\<rparr>)"
proof -
  have "\<forall>x \<in> set (unwrap_or [] (map_of (om_pending s) (mr_taker_order_uuid r))).
      mr_taker_order_uuid x = mr_taker_order_uuid r"
    using ok by (cases "map_of (om_pending s) (mr_taker_order_uuid r)") (auto simp: om_ok_def pending_ok_def)
  then show ?thesis using ok by (auto simp: om_ok_def pending_ok_def hm_get_update)
qed

lemma om_ok_collect:
  assumes "om_ok s" "process_maker_reserved_collect env from r s = Ok (s', go)"
  shows "om_ok s'"
  using assms om_ok_pending_add[OF assms(1), of r]
  unfolding process_maker_reserved_collect_def Let_def
  by (simp split: if_splits option.splits)

lemma set_sort_by_price: "sort_by_price msgs = Ok msgs' \<Longrightarrow> set msgs' = set msgs"
  by (auto simp: sort_by_price_def split: if_splits)

lemma om_ok_connect_to_maker:
  assumes ok: "om_ok s" and t: "map_of (om_takers s) u = Some t"
    and accepts: "taker_accepts t bc rc r" and u: "mr_taker_order_uuid r = u"
  shows "om_ok (connect_to_maker env k u t r s)"
proof -
  have t_ok: "taker_entry_ok u t" by (rule om_ok_taker[OF ok t])
  let ?x = "\<lparr>tm_reserved = r, tm_connect = connect_for_reserved k r, tm_connected = None, tm_last_updated = oe_now_ms env\<rparr>"
  let ?t = "t\<lparr>to_matches := AList.update (mr_maker_order_uuid r) ?x (to_matches t)\<rparr>"
  have m: "to_matches t = []" "match_reserved t r = ReservedMatched"
    using accepts by (simp_all add: taker_accepts_def Let_def)
  have "match_reserved ?t r = match_reserved t r" 
    by (cases "tr_action (to_request t)"; cases "tr_match_by (to_request t)") (simp_all add: match_reserved_def Let_def)
  then have "taker_entry_ok u ?t"
    using t_ok m u by (auto simp: taker_entry_ok_def wf_taker_order_def)
  moreover have "storage_mirrors (fst (update_active_taker_order ?t (om_storage s))) (om_makers s)
      (AList.update u ?t (om_takers s))"
  proof (rule storage_mirrors_takers)
    show "storage_mirrors (om_storage s) (om_makers s) (om_takers s)" using ok by (simp add: om_ok_def)
  qed (use t_ok in \<open>simp_all add: update_active_taker_order_def taker_dir.load_save taker_entry_ok_def hm_simps\<close>)
  moreover have "dom (map_of (AList.update u ?t (om_takers s))) \<inter> dom (map_of (moc_orders (om_makers s))) = {}"
    using ok om_ok_disjoint[OF ok t] by (auto simp: om_ok_def hm_simps)
  moreover have "taker_entry_ok v x" if "map_of (AList.update u ?t (om_takers s)) v = Some x" for v x
    using that ok \<open>taker_entry_ok u ?t\<close> by (auto simp: om_ok_def hm_simps split: if_splits)
  ultimately show ?thesis
    using ok hm_wf_update[of "om_takers s" u ?t] unfolding om_ok_def connect_to_maker_def Let_def by simp
qed

lemma om_ok_pending_delete: "om_ok s \<Longrightarrow> om_ok (s\<lparr>om_pending := AList.delete u (om_pending s)\<rparr>)"
  by (auto simp: om_ok_def pending_ok_def hm_simps)

lemma om_ok_chosen:
  assumes ok: "om_ok s" and t: "map_of (om_takers s) u = Some t"
    and p: "map_of (om_pending s) u = Some msgs" and srt: "sort_by_price msgs = Ok msgs'"
    and found: "find (taker_accepts t bc rc) msgs' = Some r"
  shows "om_ok (connect_to_maker env k u t r (s\<lparr>om_pending := AList.delete u (om_pending s)\<rparr>))"
proof -
  have "taker_accepts t bc rc r" "r \<in> set msgs"
    using found set_sort_by_price[OF srt] by (auto simp: find_Some_iff dest: nth_mem)
  moreover from this have "mr_taker_order_uuid r = u" using ok p by (auto simp: om_ok_def pending_ok_def)
  ultimately show ?thesis using om_ok_connect_to_maker[OF om_ok_pending_delete[OF ok]] t by simp
qed

lemma om_ok_choose:
  assumes ok: "om_ok s" and run: "process_maker_reserved_choose env k u s = Ok s'"
  shows "om_ok s'"
  using run ok om_ok_chosen[OF ok] om_ok_pending_delete[OF ok]
  by (auto simp: process_maker_reserved_choose_def Let_def split: option.splits find_result.splits prod.splits)

lemma connect_maker_order_ok:
  assumes ok: "maker_entry_ok u m" and x: "map_of (mo_matches m) k = Some x"
    and none: "mm_connected x = None" and c: "tc_taker_order_uuid c = k"
  shows "maker_entry_ok u (connect_maker_order our c x m)"
proof -
  let ?x = "x\<lparr>mm_connect := Some c, mm_connected := Some (connected_for_connect our c)\<rparr>"
  have "hm_sum maker_match_amount (AList.update k ?x (mo_matches m)) = hm_sum maker_match_amount (mo_matches m)"
    by (rule hm_sum_update_same[OF x]) (simp add: maker_match_amount_def)
  moreover have "x \<in> snd ` set (mo_matches m)" using map_of_SomeD[OF x] by force
  then have "\<forall>y \<in> snd ` set (AList.update k ?x (mo_matches m)). 0 \<le> maker_match_amount y"
    using ok by (intro hm_values_update_ball) (auto simp: maker_entry_ok_def holds_capacity_def wf_maker_order_def maker_match_amount_def)
  ultimately have cap: "holds_capacity (connect_maker_order our c x m)"
    using ok c by (simp add: connect_maker_order_def Let_def maker_entry_ok_def holds_capacity_def wf_maker_order_def
        mo_available_amount_def mo_reserved_amount_sum hm_wf_update)
  have k: "tr_uuid (mm_request x) = k" using ok x by (simp add: maker_entry_ok_def)
  have "k \<notin> set (mo_started_swaps m)" using ok x none by (simp add: maker_entry_ok_def)
  then show ?thesis
    using ok cap k c x by (auto simp: connect_maker_order_def Let_def maker_entry_ok_def hm_simps)
qed

lemma om_ok_process_taker_connect:
  assumes ok: "om_ok s"
  shows "om_ok (process_taker_connect env sender c s)"
proof -
  have state: "om_ok (om_save_maker m' (om_broadcast topic msg key ((om_set_maker u m' s)\<lparr>om_swaps := sw\<rparr>)))"
    "om_ok (om_save_maker m' (om_notify_updated upd m' (om_broadcast topic msg key ((om_set_maker u m' s)\<lparr>om_swaps := sw\<rparr>))))"
    if m: "map_of (moc_orders (om_makers s)) u = Some m" and x: "map_of (mo_matches m) (tc_taker_order_uuid c) = Some x"
      "mm_connected x = None" and m': "m' = connect_maker_order our c x m" for u m x m' our upd topic msg key sw
  proof -
    have "mo_uuid m' = u" "mo_base m' = mo_base m" using om_ok_maker[OF ok m] by (simp_all add: m' connect_maker_order_def Let_def)
    moreover have "maker_entry_ok u m'"
      unfolding m' using om_ok_maker[OF ok m] by (blast intro: connect_maker_order_ok[OF _ x refl])
    ultimately have "om_ok (om_save_maker m' (om_set_maker u m' s))" by (intro om_ok_write_maker[OF ok m])
    then show "om_ok (om_save_maker m' (om_broadcast topic msg key ((om_set_maker u m' s)\<lparr>om_swaps := sw\<rparr>)))"
      "om_ok (om_save_maker m' (om_notify_updated upd m' (om_broadcast topic msg key ((om_set_maker u m' s)\<lparr>om_swaps := sw\<rparr>))))"
      by simp_all
  qed
  show ?thesis
    using ok state(1)[OF _ _ _ refl] state(2)[OF _ _ _ refl]
    by (simp add: process_taker_connect_def Let_def moc_get_order_def split: option.split)
qed

lemma om_ok_delete_taker:
  assumes ok: "om_ok s" and t: "map_of (om_takers s) u = Some t"
  shows "om_ok (s\<lparr>om_takers := AList.delete u (om_takers s),
     om_storage := delete_my_taker_order now t reason (om_storage s)\<rparr>)"
proof -
  have mem: "map_of (AList.delete u (om_takers s)) = (map_of (om_takers s))(u := None)" by (simp add: hm_simps)
  have "storage_mirrors (delete_my_taker_order now t reason (om_storage s)) (om_makers s)
      (AList.delete u (om_takers s))"
  proof (rule storage_mirrors_takers)
    show "storage_mirrors (om_storage s) (om_makers s) (om_takers s)" using ok by (simp add: om_ok_def)
  qed (use om_ok_taker[OF ok t] in \<open>simp_all add: mem taker_dir.load_delete taker_entry_ok_def\<close>)
  moreover have "taker_entry_ok v x" if "map_of (AList.delete u (om_takers s)) v = Some x" for v x
    using that ok mem by (auto simp: om_ok_def split: if_splits)
  moreover have "dom (map_of (AList.delete u (om_takers s))) \<subseteq> dom (map_of (om_takers s))"
    unfolding mem by auto
  then have "dom (map_of (AList.delete u (om_takers s))) \<inter> dom (map_of (moc_orders (om_makers s))) = {}"
    using ok unfolding om_ok_def by blast
  ultimately show ?thesis
    using ok hm_wf_delete[of "om_takers s" u] unfolding om_ok_def by simp
qed

lemma om_ok_process_maker_connected:
  assumes ok: "om_ok s"
  shows "om_ok (process_maker_connected env from c s)"
proof -
  have "om_ok (s\<lparr>om_swaps := sw, om_takers := AList.delete u (om_takers s),
      om_storage := delete_my_taker_order now t reason (om_storage s)\<rparr>)"
    if "map_of (om_takers s) u = Some t" for u t now reason sw
    using om_ok_delete_taker[of "s\<lparr>om_swaps := sw\<rparr>" u t] ok that by simp
  then show ?thesis
    using ok by (simp add: process_maker_connected_def Let_def split: option.split)
qed

section \<open>A complete match\<close>

lemma taker_request_loop_only:
  assumes "match_with_request m r = Ok (OrderMatched b q)" "distinct (map fst orders)" "(u, m) \<in> set orders"
    and "\<And>w x. (w, x) \<in> set orders \<Longrightarrow> w \<noteq> u \<Longrightarrow> match_with_request x r = Ok OrderNotMatched"
  shows "taker_request_loop env k r orders s = reserve_for_request env k r u m b q s"
  using assms(2-4)
proof (induction orders)
  case (Cons y orders)
  obtain w x where y: "y = (w, x)" by (metis prod.collapse)
  show ?case
  proof (cases "w = u")
    case True
    then have "x = m" using Cons.prems y by (auto simp: image_iff)
    then show ?thesis using y True assms(1) by simp
  next
    case False
    then have x: "match_with_request x r = Ok OrderNotMatched" using Cons.prems(3) y by auto
    have "taker_request_loop env k r orders s = reserve_for_request env k r u m b q s"
      by (rule Cons.IH) (use Cons.prems y False in auto)
    then show ?thesis using y x by simp
  qed
qed simp

definition maker_match_for :: "om_env \<Rightarrow> h256 \<Rightarrow> uuid \<Rightarrow> maker_order \<Rightarrow> taker_request \<Rightarrow> mm_coin \<Rightarrow> mm_coin \<Rightarrow>
    mm_number \<Rightarrow> mm_number \<Rightarrow> maker_match" where
  "maker_match_for env k u m r bc rc b q = \<lparr>mm_request = r, mm_reserved = reserved_for_request k u m r bc rc b q,
     mm_connect = None, mm_connected = None, mm_last_updated = oe_now_ms env\<rparr>"

definition with_match :: "uuid \<Rightarrow> maker_match \<Rightarrow> maker_order \<Rightarrow> maker_order" where
  "with_match k x m = m\<lparr>mo_matches := AList.update k x (mo_matches m)\<rparr>"

lemma maker_reserves:
  assumes ok: "om_ok s" and m: "map_of (moc_orders (om_makers s)) u = Some m"
    and id: "oe_public_id env = Some k" "k \<noteq> from" and any: "tr_match_by r = MatchAny"
    and matched: "match_with_request m r = Ok (OrderMatched b q)"
    and only: "\<And>w x. map_of (moc_orders (om_makers s)) w = Some x \<Longrightarrow> w \<noteq> u \<Longrightarrow> match_with_request x r = Ok OrderNotMatched"
    and coins: "find_pair (oe_swap env) (mo_base m) (mo_rel m) = Found (bc, rc)"
    and supported: "\<And>info vol lock side. is_coin_protocol_supported bc info vol lock side"
      "\<And>info vol lock side. is_coin_protocol_supported rc info vol lock side"
    and fresh: "map_of (mo_matches m) (tr_uuid r) = None"
    and msg: "msg_of_maker_reserved (reserved_for_request k u m r bc rc b q) = Ok msg"
  shows "process_taker_request env from r s =
    (let m' = with_match (tr_uuid r) (maker_match_for env k u m r bc rc b q) m
     in Ok (om_save_maker m' (om_set_maker u m' (om_broadcast (mo_orderbook_topic m) msg (mo_p2p_privkey m) s))))"
proof -
  have wf: "hm_wf (moc_orders (om_makers s))" using ok by (simp add: om_ok_def moc_safe_def)
  have all: "filter (\<lambda>(u, _). tr_can_match_with_uuid r u) (moc_orders (om_makers s)) = moc_orders (om_makers s)"
    "tr_can_match_with_maker_pubkey r k"
    using any by (simp_all add: tr_can_match_with_uuid_def tr_can_match_with_maker_pubkey_def)
  have "taker_request_loop env k r (moc_orders (om_makers s)) s = reserve_for_request env k r u m b q s"
    by (rule taker_request_loop_only[OF matched wf]) (use m only wf in \<open>auto dest: map_of_SomeD\<close>)
  then show ?thesis
    using id all coins supported fresh msg
    by (simp add: process_taker_request_def reserve_for_request_def Let_def with_match_def maker_match_for_def)
qed

lemma reservation_accepted:
  assumes req: "msg_of_taker_order t = Ok (TakerRequestMsg q)" "r = tr_from_new_proto_and_pubkey q ha"
    and t: "to_matches t = []" "tr_match_by (to_request t) = MatchAny"
    and tick: "mo_base_ticker m = to_maker_orderbook_ticker t" "mo_rel_ticker m = to_taker_orderbook_ticker t"
    and matched: "match_with_request m r = Ok (OrderMatched b p)" "0 < mo_price m"
    and supported: "\<And>info vol lock side. is_coin_protocol_supported bc' info vol lock side"
      "\<And>info vol lock side. is_coin_protocol_supported rc' info vol lock side"
  shows "taker_accepts t bc' rc' ((reserved_for_request k u m r bc rc b p)\<lparr>mr_sender_pubkey := hb, mr_dest_pub_key := 0\<rparr>)"
proof -
  have r: "r = (to_request t)\<lparr>tr_base := to_base_ticker t, tr_rel := to_rel_ticker t,
      tr_sender_pubkey := ha, tr_dest_pub_key := 0\<rparr>"
    using taker_request_over_wire[OF req(1)] req(2) by simp
  have "taker_terms_respected r b p"
    using matched(1) match_with_request_matched_iff[OF matched(2), of r b p] by auto
  then have terms: "taker_terms_respected (to_request t) b p" by (simp add: r taker_terms_respected_def split: taker_action.splits)
  have "match_reserved t ((reserved_for_request k u m r bc rc b p)\<lparr>mr_sender_pubkey := hb, mr_dest_pub_key := 0\<rparr>)
      = ReservedMatched"
    using terms t(2) tick
    by (cases "tr_action (to_request t)"; cases "to_base_orderbook_ticker t"; cases "to_rel_orderbook_ticker t")
      (auto simp: match_reserved_def Let_def reserved_for_request_def taker_terms_respected_def
        to_maker_orderbook_ticker_def to_taker_orderbook_ticker_def to_base_ticker_def to_rel_ticker_def)
  then show ?thesis using t(1) supported by (simp add: taker_accepts_def Let_def)
qed

lemma with_match_simps [simp]:
  "mo_uuid (with_match k x m) = mo_uuid m" "mo_base (with_match k x m) = mo_base m"
  "mo_rel (with_match k x m) = mo_rel m" "mo_conf_settings (with_match k x m) = mo_conf_settings m"
  "mo_base_ticker (with_match k x m) = mo_base_ticker m" "mo_rel_ticker (with_match k x m) = mo_rel_ticker m"
  "mo_swap_version (with_match k x m) = mo_swap_version m" "mo_max_base_vol (with_match k x m) = mo_max_base_vol m"
  "mo_orderbook_topic (with_match k x m) = mo_orderbook_topic m"
  "map_of (mo_matches (with_match k x m)) k = Some x"
  by (simp_all add: with_match_def mo_base_ticker_def mo_rel_ticker_def mo_orderbook_topic_def hm_simps
      cong: option.case_cong)

lemma connect_maker_order_simps [simp]:
  "mo_uuid (connect_maker_order k c x m) = mo_uuid m" "mo_base (connect_maker_order k c x m) = mo_base m"
  "mo_rel (connect_maker_order k c x m) = mo_rel m" "mo_conf_settings (connect_maker_order k c x m) = mo_conf_settings m"
  "mo_base_ticker (connect_maker_order k c x m) = mo_base_ticker m"
  "mo_rel_ticker (connect_maker_order k c x m) = mo_rel_ticker m"
  "mo_swap_version (connect_maker_order k c x m) = mo_swap_version m"
  "map_of (mo_matches (connect_maker_order k c x m)) (tc_taker_order_uuid c)
    = Some (x\<lparr>mm_connect := Some c, mm_connected := Some (connected_for_connect k c)\<rparr>)"
  by (simp_all add: connect_maker_order_def Let_def mo_base_ticker_def mo_rel_ticker_def hm_simps
      cong: option.case_cong)

lemma maker_connects:
  assumes "oe_public_id env = Some k" "k \<noteq> oe_unprefixed env sender"
    and "map_of (moc_orders (om_makers s)) (tc_maker_order_uuid c) = Some m"
    and "map_of (mo_matches m) (tc_taker_order_uuid c) = Some x"
    and "tr_sender_pubkey (mm_request x) = oe_unprefixed env sender"
    and "mm_connected x = None" "mm_connect x = None"
  shows "om_swaps (process_taker_connect env sender c s) = om_swaps s @ lp_connect_start_bob (oe_swap env)
      (x\<lparr>mm_connect := Some c, mm_connected := Some (connected_for_connect k c)\<rparr>)
      (connect_maker_order k c x m) sender"
    "(mo_orderbook_topic (connect_maker_order k c x m), msg_of_maker_connected (connected_for_connect k c),
      mo_p2p_privkey (connect_maker_order k c x m)) \<in> set (om_sent (process_taker_connect env sender c s))"
    "map_of (moc_orders (om_makers (process_taker_connect env sender c s))) (tc_maker_order_uuid c)
      = Some (connect_maker_order k c x m)"
  using assms
  by (simp_all add: process_taker_connect_def Let_def moc_get_order_def om_save_maker_def om_set_maker_def
      om_notify_updated_def split: prod.split)

lemma halves_of_handshake:
  assumes req: "msg_of_taker_order t = Ok (TakerRequestMsg q)" "r = tr_from_new_proto_and_pubkey q ha"
    and tick: "mo_base_ticker m = to_maker_orderbook_ticker t" "mo_rel_ticker m = to_taker_orderbook_ticker t"
    and x: "mm_request x = r" "mm_reserved x = reserved_for_request k u m r bc rc b p"
    and y: "tm_reserved y = (reserved_for_request k u m r bc rc b p)\<lparr>mr_sender_pubkey := hb, mr_dest_pub_key := 0\<rparr>"
    and m': "mo_base_ticker m' = mo_base_ticker m" "mo_rel_ticker m' = mo_rel_ticker m"
      "mo_conf_settings m' = mo_conf_settings m" "mo_swap_version m' = mo_swap_version m"
    and t': "to_request t' = to_request t" "to_base_orderbook_ticker t' = to_base_orderbook_ticker t"
      "to_rel_orderbook_ticker t' = to_rel_orderbook_ticker t"
  shows "halves_of_match x m' bc rc y t'"
proof -
  have r: "r = (to_request t)\<lparr>tr_base := to_base_ticker t, tr_rel := to_rel_ticker t,
      tr_sender_pubkey := ha, tr_dest_pub_key := 0\<rparr>"
    using taker_request_over_wire[OF req(1)] req(2) by simp
  have "tr_conf_settings (to_request t) \<noteq> None"
    using req(1) by (auto simp: msg_of_taker_order_def Let_def split: option.splits)
  moreover have same: "to_base_ticker t' = to_base_ticker t" "to_rel_ticker t' = to_rel_ticker t"
    using t' by (simp_all add: to_base_ticker_def to_rel_ticker_def cong: option.case_cong)
  moreover have "to_maker_orderbook_ticker t' = to_maker_orderbook_ticker t"
    "to_taker_orderbook_ticker t' = to_taker_orderbook_ticker t"
    using t' same by (simp_all add: to_maker_orderbook_ticker_def to_taker_orderbook_ticker_def
        cong: taker_action.case_cong)
  ultimately show ?thesis
    using x y m' t' tick
    by (cases "mo_conf_settings m")
      (simp_all add: halves_of_match_def reserved_for_request_def reserved_conf_settings_def r)
qed

section \<open>Properties\<close>

text \<open>C9: the four messages take two nodes from an order and a fitting request to the two halves of
  one match. Bob has one order that fits the request Alice's order sends, and it fits; both nodes have
  the coins; nothing else is pending. Then every handler does its part: Bob answers with a
  reservation, Alice accepts it and connects, Bob connects, and each starts its swap with its half of
  the same match. Alice's order is gone, and Bob's has the matched amount reserved.\<close>

theorem handshake_starts_both_swaps:
  assumes states: "om_ok sb" "om_ok sa"
    and alice: "map_of (om_takers sa) u = Some t" "to_matches t = []" "tr_match_by (to_request t) = MatchAny"
      "map_of (om_pending sa) u = None"
    and bob: "map_of (moc_orders (om_makers sb)) v = Some m" "map_of (mo_matches m) u = None"
    and ids: "oe_public_id env_b = Some ib" "oe_public_id env_a = Some ia"
      "ib \<noteq> oe_unprefixed env_b ka" "ia \<noteq> oe_unprefixed env_a kb"
    and tickers: "mo_base_ticker m = to_maker_orderbook_ticker t" "mo_rel_ticker m = to_taker_orderbook_ticker t"
    and request: "msg_of_taker_order t = Ok (TakerRequestMsg q)"
      "r = tr_from_new_proto_and_pubkey q (oe_unprefixed env_b ka)"
    and fits: "match_with_request m r = Ok (OrderMatched b p)"
      "\<And>w x. map_of (moc_orders (om_makers sb)) w = Some x \<Longrightarrow> w \<noteq> v \<Longrightarrow> match_with_request x r = Ok OrderNotMatched"
    and coins: "find_pair (oe_swap env_b) (mo_base m) (mo_rel m) = Found (bc, rc)"
      "find_pair (oe_swap env_a) (to_maker_coin_ticker t) (to_taker_coin_ticker t) = Found (bc', rc')"
      "\<And>c info vol lock side. c \<in> {bc, rc, bc', rc'} \<Longrightarrow> is_coin_protocol_supported c info vol lock side"
  shows "\<exists>sb1 sb2 sa1 sa2 rm cm dm x y m' t' topic key.
     process_taker_request env_b (oe_unprefixed env_b ka) r sb = Ok sb1
   \<and> last (om_sent sb1) = (mo_orderbook_topic m, MakerReservedMsg rm, mo_p2p_privkey m)
   \<and> process_maker_reserved_collect env_a (oe_unprefixed env_a kb)
       (mr_from_new_proto_and_pubkey rm (oe_unprefixed env_a kb)) sa = Ok (sa1, True)
   \<and> process_maker_reserved_choose env_a ia u sa1 = Ok sa2
   \<and> last (om_sent sa2) = (to_orderbook_topic t, TakerConnectMsg cm, to_p2p_privkey t)
   \<and> process_taker_connect env_b ka (tc_from_new_proto cm) sb1 = sb2
   \<and> (topic, MakerConnectedMsg dm, key) \<in> set (om_sent sb2)
   \<and> om_swaps sb2 = om_swaps sb @ lp_connect_start_bob (oe_swap env_b) x m' ka
   \<and> om_swaps (process_maker_connected env_a kb (mc_from_new_proto dm) sa2)
       = om_swaps sa @ lp_connected_alice (oe_swap env_a) t' y kb
   \<and> halves_of_match x m' bc rc y t'
   \<and> map_of (om_takers (process_maker_connected env_a kb (mc_from_new_proto dm) sa2)) u = None
   \<and> map_of (moc_orders (om_makers sb2)) v = Some m'
   \<and> mo_available_amount m' = mo_available_amount m - b"
proof -
  have v: "mo_uuid m = v" "0 < mo_price m" and u: "tr_uuid (to_request t) = u"
    using om_ok_maker[OF states(1) bob(1)] om_ok_taker[OF states(2) alice(1)]
    by (auto simp: maker_entry_ok_def holds_capacity_def wf_maker_order_def taker_entry_ok_def)
  have r: "r = (to_request t)\<lparr>tr_base := to_base_ticker t, tr_rel := to_rel_ticker t,
      tr_sender_pubkey := oe_unprefixed env_b ka, tr_dest_pub_key := 0\<rparr>"
    using taker_request_over_wire[OF request(1)] request(2) by simp
  let ?res = "reserved_for_request ib v m r bc rc b p"
  obtain rm where rm: "msg_of_maker_reserved ?res = Ok (MakerReservedMsg rm)"
    using msg_of_reserved_for_request[of ib v m r bc rc b p] by (auto simp: msg_of_maker_reserved_def split: option.splits)
  define got where "got = ?res\<lparr>mr_sender_pubkey := oe_unprefixed env_a kb, mr_dest_pub_key := 0\<rparr>"
  have got: "mr_from_new_proto_and_pubkey rm (oe_unprefixed env_a kb) = got"
    unfolding got_def by (rule maker_reserved_over_wire[OF rm])
  have got_u: "mr_taker_order_uuid got = u" "mr_maker_order_uuid got = v" "mr_sender_pubkey got = oe_unprefixed env_a kb"
    using u r by (simp_all add: got_def reserved_for_request_def)
  define x where "x = maker_match_for env_b ib v m r bc rc b p"
  define m1 where "m1 = with_match u x m"
  define sb1 where "sb1 = om_save_maker m1 (om_set_maker v m1
      (om_broadcast (mo_orderbook_topic m) (MakerReservedMsg rm) (mo_p2p_privkey m) sb))"
  have 1: "process_taker_request env_b (oe_unprefixed env_b ka) r sb = Ok sb1"
    using maker_reserves[OF states(1) bob(1) ids(1,3) _ fits coins(1) _ _ _ rm] alice(3) bob(2) coins(3) r u
    by (simp add: sb1_def m1_def x_def Let_def)
  have sent1: "last (om_sent sb1) = (mo_orderbook_topic m, MakerReservedMsg rm, mo_p2p_privkey m)"
    "om_swaps sb1 = om_swaps sb" "map_of (moc_orders (om_makers sb1)) v = Some m1"
    using bob(1) by (simp_all add: sb1_def om_save_maker_def om_set_maker_def)
  define sa1 where "sa1 = sa\<lparr>om_pending := AList.update u [got] (om_pending sa)\<rparr>"
  have 2: "process_maker_reserved_collect env_a (oe_unprefixed env_a kb) got sa = Ok (sa1, True)"
    using alice(1,4) ids(2,4) got_u by (simp add: process_maker_reserved_collect_def sa1_def Let_def)
  define c where "c = connect_for_reserved ia got"
  define y where "y = \<lparr>tm_reserved = got, tm_connect = c, tm_connected = None, tm_last_updated = oe_now_ms env_a\<rparr>"
  define t' where "t' = t\<lparr>to_matches := AList.update v y (to_matches t)\<rparr>"
  define sa2 where "sa2 = connect_to_maker env_a ia u t got (sa1\<lparr>om_pending := AList.delete u (om_pending sa1)\<rparr>)"
  have "taker_accepts t bc' rc' got"
    unfolding got_def
    by (rule reservation_accepted[OF request alice(2,3) tickers fits(1) v(2)]) (use coins(3) in auto)
  then have 3: "process_maker_reserved_choose env_a ia u sa1 = Ok sa2"
    using alice(1) coins(2)
    by (simp add: process_maker_reserved_choose_def sa2_def sa1_def sort_by_price_def hm_simps)
  obtain cm where cm: "msg_of_taker_connect c = TakerConnectMsg cm" "tc_from_new_proto cm = c\<lparr>tc_sender_pubkey := 0, tc_dest_pub_key := 0\<rparr>"
    by (simp add: msg_of_taker_connect_def tc_from_new_proto_def)
  have sent2: "last (om_sent sa2) = (to_orderbook_topic t, TakerConnectMsg cm, to_p2p_privkey t)"
    "om_swaps sa2 = om_swaps sa" "map_of (om_takers sa2) u = Some t'"
    using got_u by (simp_all add: sa2_def connect_to_maker_def Let_def c_def[symmetric] cm(1) t'_def y_def sa1_def hm_simps)
  let ?c = "tc_from_new_proto cm"
  have c: "tc_taker_order_uuid ?c = u" "tc_maker_order_uuid ?c = v"
    using got_u by (simp_all add: cm c_def connect_for_reserved_def)
  define m' where "m' = connect_maker_order ib ?c x m1"
  let ?x = "x\<lparr>mm_connect := Some ?c, mm_connected := Some (connected_for_connect ib ?c)\<rparr>"
  have x: "mm_request x = r" "mm_reserved x = ?res" "mm_connect x = None" "mm_connected x = None"
    by (simp_all add: x_def maker_match_for_def)
  have "tr_sender_pubkey r = oe_unprefixed env_b ka" by (simp add: r)
  then have 4: "om_swaps (process_taker_connect env_b ka ?c sb1) = om_swaps sb1 @ lp_connect_start_bob (oe_swap env_b) ?x m' ka"
    "(mo_orderbook_topic m', msg_of_maker_connected (connected_for_connect ib ?c), mo_p2p_privkey m')
      \<in> set (om_sent (process_taker_connect env_b ka ?c sb1))"
    "map_of (moc_orders (om_makers (process_taker_connect env_b ka ?c sb1))) v = Some m'"
    using maker_connects[OF ids(1,3), of sb1 ?c m1 x] sent1(3) c x
    by (simp_all add: m1_def m'_def)
  define dm where "dm = \<lparr>npd_taker_order_uuid = u, npd_maker_order_uuid = v\<rparr>"
  have dm: "msg_of_maker_connected (connected_for_connect ib ?c) = MakerConnectedMsg dm"
    "mc_taker_order_uuid (mc_from_new_proto dm) = u" "mc_maker_order_uuid (mc_from_new_proto dm) = v"
    using c by (simp_all add: dm_def msg_of_maker_connected_def mc_from_new_proto_def connected_for_connect_def)
  have 5: "om_swaps (process_maker_connected env_a kb (mc_from_new_proto dm) sa2)
      = om_swaps sa2 @ lp_connected_alice (oe_swap env_a) t' y kb"
    "map_of (om_takers (process_maker_connected env_a kb (mc_from_new_proto dm) sa2)) u = None"
    using ids(2,4) sent2(3) dm(2,3) got_u(3)
    by (simp_all add: process_maker_connected_def Let_def t'_def hm_simps y_def)
  have halves: "halves_of_match ?x m' bc rc y t'"
    by (rule halves_of_handshake[OF request tickers]) (simp_all add: x y_def got_def m'_def m1_def t'_def)
  have fresh: "u \<notin> fst ` set (mo_matches m)" using bob(2) by (simp add: map_of_eq_None_iff)
  have "mo_reserved_amount m1 = mo_reserved_amount m + b"
    unfolding m1_def with_match_def
    by (subst mo_reserved_amount_add_match[OF fresh]) (simp add: maker_match_amount_def x reserved_for_request_def)
  moreover have "mo_reserved_amount m' = mo_reserved_amount m1"
    unfolding mo_reserved_amount_sum m'_def connect_maker_order_def Let_def
    by (simp add: c) (rule hm_sum_update_same[of _ _ x], simp_all add: m1_def maker_match_amount_def)
  ultimately have avail: "mo_available_amount m' = mo_available_amount m - b"
    by (simp add: mo_available_amount_def m'_def m1_def connect_maker_order_def Let_def with_match_def)
  show ?thesis
    using 1 2 3 4 5 sent1 sent2 halves avail
    unfolding got[symmetric] dm(1) by (intro exI conjI) (assumption | simp)+
qed

definition demo_om_env :: "h256 \<Rightarrow> om_env" where
  "demo_om_env i = \<lparr>oe_swap = demo_swap_env, oe_public_id = Some i, oe_my_pubkey = ''02'',
     oe_now_ms = 2000, oe_now_sec = 2, oe_unprefixed = (\<lambda>k. if k = [2] then 5 else 8),
     oe_orderbook_tickers = Map.empty, oe_calc_max_maker_vol = (\<lambda>_ v. MaxVol v)\<rparr>"

definition demo_bob :: "unit om_state" where
  "demo_bob = \<lparr>om_net = net_new (), om_makers = moc_add_order demo_v2_order moc_new, om_takers = [],
     om_pending = [], om_storage = demo_storage\<lparr>st_active_makers := [(7, demo_v2_order)]\<rparr>,
     om_sent = [], om_swaps = []\<rparr>"

definition demo_alice :: "unit om_state" where
  "demo_alice = \<lparr>om_net = net_new (), om_makers = moc_new, om_takers = [(9, demo_taker_order)],
     om_pending = [], om_storage = demo_storage\<lparr>st_active_takers := [(9, demo_taker_order)]\<rparr>,
     om_sent = [], om_swaps = []\<rparr>"

lemma demo_v2_order_simps [simp]:
  "mo_uuid demo_v2_order = 7" "mo_matches demo_v2_order = []" "mo_price demo_v2_order = 2"
  "mo_started_swaps demo_v2_order = []" "maker_entry_ok 7 demo_v2_order"
  by (simp_all add: demo_swap_defs maker_entry_ok_def holds_capacity_def wf_maker_order_def
      mo_available_amount_def mo_reserved_amount_def)

lemma demo_taker_order_simps [simp]:
  "tr_uuid (to_request demo_taker_order) = 9" "to_matches demo_taker_order = []"
  "tr_match_by (to_request demo_taker_order) = MatchAny" "taker_entry_ok 9 demo_taker_order"
  by (simp_all add: demo_swap_defs demo_conf_def taker_entry_ok_def wf_taker_order_def)

lemma demo_bob_orders [simp]: "moc_orders (om_makers demo_bob) = [(7, demo_v2_order)]"
  by (simp add: demo_bob_def moc_add_order_def Let_def spawn_balance_loop_if_not_spawned_def moc_new_def)

lemma demo_bob_ok: "om_ok demo_bob"
proof -
  have "moc_safe (om_makers demo_bob)"
    unfolding demo_bob_def by (simp, rule moc_add_order_safe[OF moc_new_safe]) (simp add: moc_new_def)
  then show ?thesis
    by (simp add: om_ok_def storage_mirrors_def pending_ok_def) (simp add: demo_bob_def demo_storage_def)
qed

lemma demo_alice_ok: "om_ok demo_alice"
  using moc_new_safe
  by (simp add: om_ok_def demo_alice_def storage_mirrors_def pending_ok_def demo_storage_def)
    (simp add: moc_new_def)

theorem handshake_starts_both_swaps_witness:
  "\<exists>sb1 rm sa1 x m' y t'.
     process_taker_request (demo_om_env 8) 5 demo_v2_request demo_bob = Ok sb1
   \<and> process_maker_reserved_collect (demo_om_env 5) 8 (mr_from_new_proto_and_pubkey rm 8) demo_alice = Ok (sa1, True)
   \<and> halves_of_match x m' (demo_coin ''KMD'') (demo_coin ''XFG'') y t'
   \<and> mo_available_amount m' = 7"
proof -
  let ?eb = "demo_om_env 8" and ?ea = "demo_om_env 5"
  obtain q where q: "msg_of_taker_order demo_taker_order = Ok (TakerRequestMsg q)"
    by (simp add: msg_of_taker_order_def demo_swap_defs Let_def)
  have r: "demo_v2_request = tr_from_new_proto_and_pubkey q (oe_unprefixed ?eb [2])"
    using taker_request_over_wire[OF q]
    by (simp add: demo_om_env_def demo_swap_defs to_base_ticker_def to_rel_ticker_def)
  have m: "match_with_request demo_v2_order demo_v2_request = Ok (OrderMatched 3 6)"
    by (simp add: match_with_request_eq demo_swap_defs ticker_match_for_maker_def request_tickers_def
        asked_base_def asked_rel_def taker_terms_respected_def mo_available_amount_def)
  have tick: "mo_base_ticker demo_v2_order = to_maker_orderbook_ticker demo_taker_order"
    "mo_rel_ticker demo_v2_order = to_taker_orderbook_ticker demo_taker_order"
    by (simp_all add: demo_swap_defs mo_base_ticker_def mo_rel_ticker_def to_maker_orderbook_ticker_def
        to_taker_orderbook_ticker_def to_base_ticker_def to_rel_ticker_def)
  have coins: "find_pair (oe_swap ?eb) (mo_base demo_v2_order) (mo_rel demo_v2_order)
      = Found (demo_coin ''KMD'', demo_coin ''XFG'')"
    "find_pair (oe_swap ?ea) (to_maker_coin_ticker demo_taker_order) (to_taker_coin_ticker demo_taker_order)
      = Found (demo_coin ''KMD'', demo_coin ''XFG'')"
    by (simp_all add: demo_om_env_def find_pair_def demo_coins)
  have supp: "c \<in> {demo_coin ''KMD'', demo_coin ''XFG'', demo_coin ''KMD'', demo_coin ''XFG''} \<Longrightarrow>
      is_coin_protocol_supported c info vol lock side" for c info vol lock side
    by (auto simp: demo_coin_def)
  have avail: "mo_available_amount demo_v2_order = 10"
    by (simp add: demo_swap_defs mo_available_amount_def)
  have ids: "oe_public_id ?eb = Some 8" "oe_public_id ?ea = Some 5" "(8::h256) \<noteq> oe_unprefixed ?eb [2]"
    "(5::h256) \<noteq> oe_unprefixed ?ea [3]" "oe_unprefixed ?eb [2] = 5" "oe_unprefixed ?ea [3] = 8"
    by (simp_all add: demo_om_env_def)
  have t: "map_of (om_takers demo_alice) 9 = Some demo_taker_order" "map_of (om_pending demo_alice) 9 = None"
    "map_of (mo_matches demo_v2_order) 9 = None" "map_of (moc_orders (om_makers demo_bob)) 7 = Some demo_v2_order"
    by (simp_all add: demo_alice_def)
  have only: "\<And>w x. map_of (moc_orders (om_makers demo_bob)) w = Some x \<Longrightarrow> w \<noteq> 7 \<Longrightarrow>
      match_with_request x demo_v2_request = Ok OrderNotMatched" by (simp split: if_splits)
  show ?thesis
    using handshake_starts_both_swaps[OF demo_bob_ok demo_alice_ok t(1) demo_taker_order_simps(2,3) t(2,4,3)
        ids(1,2,3,4) tick q r m only coins supp] avail
    unfolding ids(5,6) by auto
qed

lemma find_sorted_least:
  assumes "sorted (map f xs)" "find P xs = Some x" "y \<in> set xs" "P y"
  shows "f x \<le> f y"
proof -
  obtain i where i: "i < length xs" "x = xs ! i" "\<forall>j<i. \<not> P (xs ! j)"
    using assms(2) by (auto simp: find_Some_iff)
  obtain j where j: "j < length xs" "y = xs ! j" using assms(3) by (auto simp: in_set_conv_nth)
  then have "i \<le> j" using i assms(4) by (metis not_le)
  then show ?thesis using assms(1) i j sorted_nth_mono[of "map f xs" i j] by simp
qed

lemma sort_by_price_Ok:
  assumes "\<And>r. r \<in> set msgs \<Longrightarrow> mr_base_amount r \<noteq> 0"
  shows "\<exists>msgs'. sort_by_price msgs = Ok msgs' \<and> set msgs' = set msgs
    \<and> sorted (map (\<lambda>r. mr_rel_amount r / mr_base_amount r) msgs')"
proof -
  have "\<not> list_ex (\<lambda>r. mr_price r = Panic) msgs"
    using assms by (auto simp: list_ex_iff mr_price_def)
  moreover have "length msgs \<le> 1 \<Longrightarrow> sorted (map f msgs)" for f :: "maker_reserved \<Rightarrow> rat"
    by (cases msgs) auto
  ultimately show ?thesis by (auto simp: sort_by_price_def)
qed

text \<open>C10: a taker takes the cheapest reservation it can accept. When no reservation has a zero base
  amount, choosing does not panic; it connects to a maker exactly when some collected reservation is
  acceptable, and to one whose price no acceptable reservation beats. Either way the reservations
  of the order are used up.\<close>

theorem taker_connects_to_the_cheapest:
  assumes "map_of (om_takers s) u = Some t" "map_of (om_pending s) u = Some msgs"
    and "find_pair (oe_swap env) (to_maker_coin_ticker t) (to_taker_coin_ticker t) = Found (bc, rc)"
    and "\<And>r. r \<in> set msgs \<Longrightarrow> mr_base_amount r \<noteq> 0"
  shows "\<exists>s'. process_maker_reserved_choose env our u s = Ok s' \<and> map_of (om_pending s') u = None
    \<and> (if \<exists>r \<in> set msgs. taker_accepts t bc rc r
       then \<exists>r \<in> set msgs. taker_accepts t bc rc r
         \<and> (\<forall>r' \<in> set msgs. taker_accepts t bc rc r' \<longrightarrow>
              mr_rel_amount r / mr_base_amount r \<le> mr_rel_amount r' / mr_base_amount r')
         \<and> om_sent s' = om_sent s @ [(to_orderbook_topic t, msg_of_taker_connect (connect_for_reserved our r), to_p2p_privkey t)]
         \<and> (\<exists>t' x. map_of (om_takers s') u = Some t' \<and> map_of (to_matches t') (mr_maker_order_uuid r) = Some x
              \<and> tm_reserved x = r)
       else om_sent s' = om_sent s \<and> om_takers s' = om_takers s)"
proof -
  obtain msgs' where m: "sort_by_price msgs = Ok msgs'" "set msgs' = set msgs"
    "sorted (map (\<lambda>r. mr_rel_amount r / mr_base_amount r) msgs')"
    using sort_by_price_Ok[OF assms(4)] by blast
  show ?thesis
  proof (cases "find (taker_accepts t bc rc) msgs'")
    case None
    then have "\<not> (\<exists>r \<in> set msgs. taker_accepts t bc rc r)" using m(2) by (auto simp: find_None_iff)
    then show ?thesis
      using assms m None by (simp add: process_maker_reserved_choose_def Let_def hm_simps)
  next
    case (Some r)
    then have r: "r \<in> set msgs" "taker_accepts t bc rc r"
      using m(2) by (auto simp: find_Some_iff dest: nth_mem)
    moreover have "\<forall>r' \<in> set msgs. taker_accepts t bc rc r' \<longrightarrow>
        mr_rel_amount r / mr_base_amount r \<le> mr_rel_amount r' / mr_base_amount r'"
      using find_sorted_least[OF m(3) Some] m(2) by blast
    ultimately show ?thesis
      using assms m Some
      by (auto simp: process_maker_reserved_choose_def Let_def hm_simps connect_to_maker_def intro!: bexI[of _ r])
  qed
qed

definition demo_got :: maker_reserved where
  "demo_got = demo_reserved\<lparr>mr_dest_pub_key := 0\<rparr>"

definition demo_alice_waiting :: "maker_reserved list \<Rightarrow> unit om_state" where
  "demo_alice_waiting msgs = demo_alice\<lparr>om_pending := [(9, msgs)]\<rparr>"

lemma demo_alice_waiting_simps [simp]:
  "map_of (om_takers (demo_alice_waiting msgs)) 9 = Some demo_taker_order"
  "map_of (om_pending (demo_alice_waiting msgs)) 9 = Some msgs"
  by (simp_all add: demo_alice_waiting_def demo_alice_def)

lemma demo_alice_pair:
  "find_pair (oe_swap (demo_om_env 5)) (to_maker_coin_ticker demo_taker_order) (to_taker_coin_ticker demo_taker_order)
    = Found (demo_coin ''KMD'', demo_coin ''XFG'')"
  by (simp add: demo_om_env_def find_pair_def demo_coins)

theorem taker_connects_to_the_cheapest_witness:
  "\<exists>s'. process_maker_reserved_choose (demo_om_env 5) 5 9 (demo_alice_waiting [demo_got]) = Ok s'
     \<and> map_of (om_pending s') 9 = None"
proof -
  have "mr_base_amount r \<noteq> 0" if "r \<in> set [demo_got]" for r
    using that by (simp add: demo_got_def demo_reserved_def)
  from taker_connects_to_the_cheapest[OF demo_alice_waiting_simps demo_alice_pair this] show ?thesis by blast
qed

text \<open>A reservation with a zero base amount, which any node can send for an order it saw, is
  collected like any other and makes the taker panic when a second reservation is there to compare
  it with: the honest reservation is lost with it.\<close>

theorem zero_amount_reservation_panics:
  "process_maker_reserved_collect (demo_om_env 5) 6 (demo_got\<lparr>mr_base_amount := 0, mr_sender_pubkey := 6\<rparr>)
       (demo_alice_waiting [demo_got])
     = Ok (demo_alice_waiting [demo_got, demo_got\<lparr>mr_base_amount := 0, mr_sender_pubkey := 6\<rparr>], False)
   \<and> process_maker_reserved_choose (demo_om_env 5) 5 9
       (demo_alice_waiting [demo_got, demo_got\<lparr>mr_base_amount := 0, mr_sender_pubkey := 6\<rparr>]) = Panic"
proof -
  let ?z = "demo_got\<lparr>mr_base_amount := 0, mr_sender_pubkey := 6\<rparr>"
  have "mr_taker_order_uuid demo_got = 9" by (simp add: demo_got_def demo_reserved_def)
  then have "process_maker_reserved_collect (demo_om_env 5) 6 ?z (demo_alice_waiting [demo_got])
     = Ok (demo_alice_waiting [demo_got, ?z], False)"
    by (simp add: process_maker_reserved_collect_def demo_om_env_def Let_def demo_alice_waiting_def demo_alice_def)
  moreover have "sort_by_price [demo_got, ?z] = Panic"
    by (simp add: sort_by_price_def mr_price_def)
  ultimately show ?thesis
    by (simp add: process_maker_reserved_choose_def demo_alice_pair Let_def)
qed

end
