(* ===== verification/Own_Orders.thy ===== *)
theory Own_Orders
  imports Match_Handlers
begin

text \<open>
  What the user does with orders (\<open>mm2_main/src/lp_ordermatch.rs\<close>): \<open>buy\<close> and \<open>sell\<close>, \<open>setprice\<close>,
  updating and cancelling, and what a restart does with the saved orders.

  A request changes the state as far as it gets and returns a value, an error or a panic. The checks
  of balances and fees belong to the coins and are arguments (\<open>rpc_env\<close>), as are the clock, fresh
  uuids and keys. The JSON around the requests is left out.
\<close>

section \<open>Requests and results\<close>

datatype rpc_error =
    CoinNotFound string | CoinLookup string | PreCheckFailed | BalanceCheckFailed
  | MakerBuild maker_order_build_error | TakerBuild taker_order_build_error
  | StorageFailed my_orders_error | NotInitialised
  | NoOrderWithUuid uuid | OrderHasOngoingMatches | CoinsNotActivated
  | NewVolumeNotPositive mm_number | NewVolumeBelowReserved mm_number mm_number | OrderStateChanged
  | AutoBuyPriceTooLow | AutoBuyMethod string | BaseEqualsRel
  | OrderBeingMatched uuid | UUIDNotFound uuid

record rpc_env =
  re_om :: om_env
  re_build :: build_env
  re_use_trading_proto_v2 :: bool
  re_pre_check_for_order_creation :: "mm_coin \<Rightarrow> mm_coin \<Rightarrow> bool"
  re_get_max_maker_vol :: "mm_coin \<Rightarrow> mm_number option"
  re_check_other_coin_balance :: "mm_coin \<Rightarrow> bool"
  re_check_balance_for_maker_swap :: "mm_coin \<Rightarrow> mm_coin \<Rightarrow> mm_number \<Rightarrow> bool"
  re_check_balance_for_taker_swap :: "mm_coin \<Rightarrow> mm_coin \<Rightarrow> mm_number \<Rightarrow> bool"

record set_price_req =
  sp_base :: string
  sp_rel :: string
  sp_price :: mm_number
  sp_max :: bool
  sp_volume :: mm_number
  sp_min_volume :: "mm_number option"
  sp_cancel_previous :: bool
  sp_base_confs :: "u64 option"
  sp_base_nota :: "bool option"
  sp_rel_confs :: "u64 option"
  sp_rel_nota :: "bool option"
  sp_save_in_history :: bool
  sp_timeout_in_minutes :: "u16 option"
  sp_swap_method :: string

record maker_order_update_req =
  mu_uuid :: uuid
  mu_new_price :: "mm_number option"
  mu_max :: "bool option"
  mu_volume_delta :: "mm_number option"
  mu_min_volume :: "mm_number option"
  mu_base_confs :: "u64 option"
  mu_base_nota :: "bool option"
  mu_rel_confs :: "u64 option"
  mu_rel_nota :: "bool option"

record sell_buy_request =
  sb_base :: string
  sb_rel :: string
  sb_price :: mm_number
  sb_volume :: mm_number
  sb_timeout :: "u64 option"
  sb_method :: string
  sb_match_by :: match_by
  sb_order_type :: order_type
  sb_base_confs :: "u64 option"
  sb_base_nota :: "bool option"
  sb_rel_confs :: "u64 option"
  sb_rel_nota :: "bool option"
  sb_min_volume :: "mm_number option"
  sb_save_in_history :: bool
  sb_swap_method :: string

fun map_err :: "('e \<Rightarrow> 'f) \<Rightarrow> ('e, 'a) rust_result \<Rightarrow> ('f, 'a) rust_result" where
  "map_err f Panic = Panic"
| "map_err f (Err e) = Err (f e)"
| "map_err f (Ok a) = Ok a"

lemma map_err_Ok_iff [simp]: "map_err f r = Ok a \<longleftrightarrow> r = Ok a"
  by (cases r) auto

lemma map_err_Panic_iff [simp]: "map_err f r = Panic \<longleftrightarrow> r = Panic"
  by (cases r) auto

text \<open>The settings of a request, filled up from the coins.\<close>

definition request_confs :: "u64 option \<Rightarrow> bool option \<Rightarrow> u64 option \<Rightarrow> bool option \<Rightarrow> mm_coin \<Rightarrow> mm_coin \<Rightarrow>
    order_confirmations_settings" where
  "request_confs bconfs bnota rconfs rnota base_coin rel_coin = \<lparr>
     base_confs = unwrap_or (required_confirmations base_coin) bconfs,
     base_nota = unwrap_or (requires_notarization base_coin) bnota,
     rel_confs = unwrap_or (required_confirmations rel_coin) rconfs,
     rel_nota = unwrap_or (requires_notarization rel_coin) rnota\<rparr>"

definition om_subscribe :: "om_env \<Rightarrow> string \<Rightarrow> string \<Rightarrow> 'db om_state \<Rightarrow> 'db om_state" where
  "om_subscribe env base rel s = s\<lparr>om_net := fst (subscribe_to_orderbook_topic (oe_now_sec env) base rel (om_net s))\<rparr>"

section \<open>Cancelling one order\<close>

text \<open>What every cancellation of a maker order does once it has decided on it: take it out of the
  context, and, if it was still there, tell the others and file it away.\<close>

definition cancel_maker_order :: "om_env \<Rightarrow> maker_order_cancellation_reason \<Rightarrow> uuid \<Rightarrow> maker_order \<Rightarrow>
    'db om_state \<Rightarrow> 'db om_state \<times> bool" where
  "cancel_maker_order env reason u order s =
    (let (makers, removed) = moc_remove_order u (om_makers s);
         s = s\<lparr>om_makers := makers\<rparr>
     in case removed of
          None \<Rightarrow> (s, False)
        | Some _ \<Rightarrow>
            (let s = om_notify_cancelled env order s
             in (s\<lparr>om_storage := delete_my_maker_order (oe_now_ms env) order reason (om_storage s)\<rparr>, True)))"

section \<open>Taker orders\<close>

definition auto_buy_builder :: "rpc_env \<Rightarrow> h256 \<Rightarrow> taker_action \<Rightarrow> mm_coin \<Rightarrow> mm_coin \<Rightarrow> sell_buy_request \<Rightarrow>
    taker_order_builder" where
  "auto_buy_builder env our_public_id action base_coin rel_coin input =
    (let rel_volume = sb_volume input * sb_price input;
         conf_settings = request_confs (sb_base_confs input) (sb_base_nota input) (sb_rel_confs input)
           (sb_rel_nota input) base_coin rel_coin;
         b = tob_with_swap_method (sb_swap_method input)
            (tob_with_rel_orderbook_ticker (oe_orderbook_tickers (re_om env) (coin_ticker rel_coin))
            (tob_with_base_orderbook_ticker (oe_orderbook_tickers (re_om env) (coin_ticker base_coin))
            (tob_with_save_in_history (sb_save_in_history input)
            (tob_with_sender_pubkey our_public_id
            (tob_with_conf_settings conf_settings
            (tob_with_order_type (sb_order_type input)
            (tob_with_min_volume (sb_min_volume input)
            (tob_with_match_by (sb_match_by input)
            (tob_with_action action
            (tob_with_rel_amount rel_volume
            (tob_with_base_amount (sb_volume input) (tob_new base_coin rel_coin))))))))))));
         b = (if \<not> re_use_trading_proto_v2 env then tob_set_legacy_swap_v b else b)
     in (case sb_timeout input of Some t \<Rightarrow> tob_with_timeout t b | None \<Rightarrow> b))"

text \<open>From the built order on: it is broadcast before it is saved, and kept in memory last.\<close>

definition place_taker_order :: "rpc_env \<Rightarrow> taker_order \<Rightarrow> 'db om_state \<Rightarrow>
    'db om_state \<times> (rpc_error, taker_order) rust_result" where
  "place_taker_order env order s =
    (let s = om_subscribe (re_om env) (to_base_ticker order) (to_rel_ticker order) s in
     case msg_of_taker_order order of Panic \<Rightarrow> (s, Panic) | Err e \<Rightarrow> (s, Panic) | Ok msg \<Rightarrow>
    (let s = om_broadcast (to_orderbook_topic order) msg (to_p2p_privkey order) s;
         (st, saved) = save_my_new_taker_order (se_to_decimal (oe_swap (re_om env))) order (om_storage s);
         s = s\<lparr>om_storage := st\<rparr>
     in case saved of
          Panic \<Rightarrow> (s, Panic)
        | Err e \<Rightarrow> (s, Err (StorageFailed e))
        | Ok _ \<Rightarrow> (s\<lparr>om_takers := AList.update (tr_uuid (to_request order)) order (om_takers s)\<rparr>, Ok order)))"

definition lp_auto_buy :: "rpc_env \<Rightarrow> mm_coin \<Rightarrow> mm_coin \<Rightarrow> sell_buy_request \<Rightarrow> 'db om_state \<Rightarrow>
    'db om_state \<times> (rpc_error, taker_order) rust_result" where
  "lp_auto_buy env base_coin rel_coin input s =
    (if sb_price input < 1 / 100000000 then (s, Err AutoBuyPriceTooLow)
     else if sb_method input \<noteq> ''buy'' \<and> sb_method input \<noteq> ''sell'' then (s, Err (AutoBuyMethod (sb_method input)))
     else case oe_public_id (re_om env) of None \<Rightarrow> (s, Err NotInitialised) | Some our_public_id \<Rightarrow>
    (let action = (if sb_method input = ''buy'' then Buy else Sell)
     in case taker_order_build (re_build env) (auto_buy_builder env our_public_id action base_coin rel_coin input) of
          Panic \<Rightarrow> (s, Panic)
        | Err e \<Rightarrow> (s, Err (TakerBuild e))
        | Ok order \<Rightarrow> place_taker_order env order s))"

definition find_coin :: "rpc_env \<Rightarrow> string \<Rightarrow> (rpc_error, mm_coin) rust_result" where
  "find_coin env ticker = (case se_coinfind (oe_swap (re_om env)) ticker of
     Found c \<Rightarrow> Ok c | NotFound \<Rightarrow> Err (CoinNotFound ticker) | FindError e \<Rightarrow> Err (CoinLookup e))"

definition buy_checks :: "rpc_env \<Rightarrow> sell_buy_request \<Rightarrow> (rpc_error, mm_coin \<times> mm_coin) rust_result" where
  "buy_checks env input =
    (if sb_base input = sb_rel input then Err BaseEqualsRel
     else rbind (find_coin env (sb_rel input)) (\<lambda>rel_coin.
          rbind (find_coin env (sb_base input)) (\<lambda>base_coin.
          if \<not> re_pre_check_for_order_creation env base_coin rel_coin then Err PreCheckFailed
          else if \<not> re_check_balance_for_taker_swap env rel_coin base_coin (sb_volume input * sb_price input)
            then Err BalanceCheckFailed
          else Ok (base_coin, rel_coin))))"

definition sell_checks :: "rpc_env \<Rightarrow> sell_buy_request \<Rightarrow> (rpc_error, mm_coin \<times> mm_coin) rust_result" where
  "sell_checks env input =
    (if sb_base input = sb_rel input then Err BaseEqualsRel
     else rbind (find_coin env (sb_base input)) (\<lambda>base_coin.
          rbind (find_coin env (sb_rel input)) (\<lambda>rel_coin.
          if \<not> re_pre_check_for_order_creation env base_coin rel_coin then Err PreCheckFailed
          else if \<not> re_check_balance_for_taker_swap env base_coin rel_coin (sb_volume input)
            then Err BalanceCheckFailed
          else Ok (base_coin, rel_coin))))"

definition after_checks :: "(rpc_error, mm_coin \<times> mm_coin) rust_result \<Rightarrow> rpc_env \<Rightarrow> sell_buy_request \<Rightarrow>
    'db om_state \<Rightarrow> 'db om_state \<times> (rpc_error, taker_order) rust_result" where
  "after_checks checks env input s = (case checks of
     Panic \<Rightarrow> (s, Panic) | Err e \<Rightarrow> (s, Err e)
   | Ok (base_coin, rel_coin) \<Rightarrow> lp_auto_buy env base_coin rel_coin input s)"

definition om_buy :: "rpc_env \<Rightarrow> sell_buy_request \<Rightarrow> 'db om_state \<Rightarrow>
    'db om_state \<times> (rpc_error, taker_order) rust_result" where
  "om_buy env input s = after_checks (buy_checks env input) env input s"

definition om_sell :: "rpc_env \<Rightarrow> sell_buy_request \<Rightarrow> 'db om_state \<Rightarrow>
    'db om_state \<times> (rpc_error, taker_order) rust_result" where
  "om_sell env input s = after_checks (sell_checks env input) env input s"

section \<open>Maker orders\<close>

definition cancel_previous_visit :: "om_env \<Rightarrow> string \<Rightarrow> string \<Rightarrow> uuid \<times> maker_order \<Rightarrow> 'db om_state \<Rightarrow>
    'db om_state" where
  "cancel_previous_visit env base_to_delete rel_to_delete x s = (case x of (u, order) \<Rightarrow>
     if mo_base order = base_to_delete \<and> mo_rel order = rel_to_delete
     then fst (cancel_maker_order env MakerCancelled u order s) else s)"

definition cancel_previous_maker_orders :: "om_env \<Rightarrow> string \<Rightarrow> string \<Rightarrow> 'db om_state \<Rightarrow> 'db om_state" where
  "cancel_previous_maker_orders env base_to_delete rel_to_delete s =
     fold (cancel_previous_visit env base_to_delete rel_to_delete) (moc_orders (om_makers s)) s"

definition cancel_orders_on_error :: "om_env \<Rightarrow> set_price_req \<Rightarrow> 'db om_state \<Rightarrow> 'db om_state" where
  "cancel_orders_on_error env req s =
    (if sp_cancel_previous req then cancel_previous_maker_orders env (sp_base req) (sp_rel req) s else s)"

text \<open>The volume of the new order, or the error that stops the request; the flag tells whether the
  error comes with a cancellation of the previous orders.\<close>

definition set_price_volume :: "rpc_env \<Rightarrow> set_price_req \<Rightarrow> mm_coin \<Rightarrow> mm_coin \<Rightarrow>
    (bool \<times> rpc_error, mm_number) rust_result" where
  "set_price_volume env req base_coin rel_coin =
    (if sp_max req then
       (case re_get_max_maker_vol env base_coin of
          None \<Rightarrow> Err (True, BalanceCheckFailed)
        | Some volume \<Rightarrow>
            if re_check_other_coin_balance env rel_coin then Ok volume else Err (False, BalanceCheckFailed))
     else if re_check_balance_for_maker_swap env base_coin rel_coin (sp_volume req) then Ok (sp_volume req)
     else Err (True, BalanceCheckFailed))"

definition set_price_builder :: "rpc_env \<Rightarrow> set_price_req \<Rightarrow> mm_coin \<Rightarrow> mm_coin \<Rightarrow> mm_number \<Rightarrow> maker_order_builder" where
  "set_price_builder env req base_coin rel_coin volume =
    (let b = mob_with_swap_method (sp_swap_method req)
            (mob_with_rel_orderbook_ticker (oe_orderbook_tickers (re_om env) (coin_ticker rel_coin))
            (mob_with_base_orderbook_ticker (oe_orderbook_tickers (re_om env) (coin_ticker base_coin))
            (mob_with_save_in_history (sp_save_in_history req)
            (mob_with_conf_settings (request_confs (sp_base_confs req) (sp_base_nota req) (sp_rel_confs req)
               (sp_rel_nota req) base_coin rel_coin)
            (mob_with_price (sp_price req)
            (mob_with_min_base_vol (sp_min_volume req)
            (mob_with_max_base_vol volume (mob_new base_coin rel_coin))))))));
         b = (case sp_timeout_in_minutes req of Some t \<Rightarrow> mob_set_timeout t b | None \<Rightarrow> b)
     in if \<not> re_use_trading_proto_v2 env then mob_set_legacy_swap_v b else b)"

text \<open>From the built order on.\<close>

definition add_new_maker_order :: "rpc_env \<Rightarrow> set_price_req \<Rightarrow> mm_coin \<Rightarrow> mm_coin \<Rightarrow> mm_number \<Rightarrow> maker_order \<Rightarrow>
    'db om_state \<Rightarrow> 'db om_state \<times> (rpc_error, maker_order) rust_result" where
  "add_new_maker_order env req base_coin rel_coin volume new_order s =
    (let s = om_subscribe (re_om env) (mo_base_ticker new_order) (mo_rel_ticker new_order) s;
         (st, saved) = save_my_new_maker_order (se_to_decimal (oe_swap (re_om env))) new_order (om_storage s);
         s = s\<lparr>om_storage := st\<rparr>
     in case saved of
          Panic \<Rightarrow> (s, Panic)
        | Err e \<Rightarrow> (s, Err (StorageFailed e))
        | Ok _ \<Rightarrow>
            (case om_notify_created (re_om env) (coin_protocol_info base_coin None)
                (coin_protocol_info rel_coin (Some (volume * sp_price req))) new_order s of
               Ok s \<Rightarrow> (s\<lparr>om_makers := moc_add_order new_order (om_makers s)\<rparr>, Ok new_order)
             | _ \<Rightarrow> (s, Panic)))"

definition create_maker_order :: "rpc_env \<Rightarrow> set_price_req \<Rightarrow> 'db om_state \<Rightarrow>
    'db om_state \<times> (rpc_error, maker_order) rust_result" where
  "create_maker_order env req s =
    (case find_coin env (sp_base req) of Panic \<Rightarrow> (s, Panic) | Err e \<Rightarrow> (s, Err e) | Ok base_coin \<Rightarrow>
    (case find_coin env (sp_rel req) of Panic \<Rightarrow> (s, Panic) | Err e \<Rightarrow> (s, Err e) | Ok rel_coin \<Rightarrow>
     if \<not> re_pre_check_for_order_creation env base_coin rel_coin then (s, Err PreCheckFailed)
     else case set_price_volume env req base_coin rel_coin of
       Panic \<Rightarrow> (s, Panic)
     | Err (cancel, e) \<Rightarrow> (if cancel then cancel_orders_on_error (re_om env) req s else s, Err e)
     | Ok volume \<Rightarrow>
        (let s = (if sp_cancel_previous req
               then cancel_previous_maker_orders (re_om env) (sp_base req) (sp_rel req) s else s)
         in case maker_order_build (re_build env) (set_price_builder env req base_coin rel_coin volume) of
              Panic \<Rightarrow> (s, Panic)
            | Err e \<Rightarrow> (s, Err (MakerBuild e))
            | Ok new_order \<Rightarrow> add_new_maker_order env req base_coin rel_coin volume new_order s)))"

text \<open>Updating. The first part checks and computes under no lock, the second takes the lock and gives
  up when the order has changed since.\<close>

definition update_new_volume :: "rpc_env \<Rightarrow> maker_order_update_req \<Rightarrow> maker_order \<Rightarrow> mm_coin \<Rightarrow> mm_coin \<Rightarrow>
    maker_order_updated \<Rightarrow> (rpc_error, maker_order_updated \<times> mm_number) rust_result" where
  "update_new_volume env req order base_coin rel_coin update_msg =
    (if unwrap_or False (mu_max req) then
       (case re_get_max_maker_vol env base_coin of
          None \<Rightarrow> Err BalanceCheckFailed
        | Some volume \<Rightarrow>
            (let max_volume = volume + mo_reserved_amount order in
             if re_check_other_coin_balance env rel_coin
             then Ok (with_new_max_volume max_volume update_msg, max_volume) else Err BalanceCheckFailed))
     else case mu_volume_delta req of
       Some delta \<Rightarrow>
         (let volume = mo_max_base_vol order + delta in
          if volume \<le> 0 then Err (NewVolumeNotPositive volume)
          else if \<not> re_check_balance_for_maker_swap env base_coin rel_coin volume then Err BalanceCheckFailed
          else Ok (with_new_max_volume volume update_msg, volume))
     | None \<Rightarrow> Ok (update_msg, mo_max_base_vol order))"

definition update_maker_order_terms :: "rpc_env \<Rightarrow> maker_order_update_req \<Rightarrow> maker_order \<Rightarrow> mm_coin \<Rightarrow> mm_coin \<Rightarrow>
    (rpc_error, maker_order_updated \<times> mm_number) rust_result" where
  "update_maker_order_terms env req order base_coin rel_coin =
    (case mo_conf_settings order of None \<Rightarrow> Panic | Some original \<Rightarrow>
    (let conf = \<lparr>base_confs = unwrap_or (base_confs original) (mu_base_confs req),
           base_nota = unwrap_or (base_nota original) (mu_base_nota req),
           rel_confs = unwrap_or (rel_confs original) (mu_rel_confs req),
           rel_nota = unwrap_or (rel_nota original) (mu_rel_nota req)\<rparr>;
         reserved_amount = mo_reserved_amount order;
         update_msg = with_new_conf_settings conf (upd_new (oe_now_sec (re_om env)) (mu_uuid req));
         min_base_amount = min_trading_vol base_coin;
         min_rel_amount = min_trading_vol rel_coin
     in
     rbind (case mu_new_price req of
         Some price \<Rightarrow> rbind (map_err MakerBuild (validate_price price)) (\<lambda>_. Ok (with_new_price price update_msg, price))
       | None \<Rightarrow> Ok (update_msg, mo_price order)) (\<lambda>(update_msg, price).
     rbind (case mu_min_volume req of
         Some min_volume \<Rightarrow>
           rbind (map_err MakerBuild (validate_and_get_min_vol min_base_amount min_rel_amount (Some min_volume) price))
             (\<lambda>actual_min_vol. Ok (with_new_min_volume actual_min_vol update_msg))
       | None \<Rightarrow> Ok update_msg) (\<lambda>update_msg.
     rbind (update_new_volume env req order base_coin rel_coin update_msg) (\<lambda>(update_msg, new_volume).
     if new_volume \<le> reserved_amount then Err (NewVolumeBelowReserved new_volume reserved_amount)
     else rbind (map_err MakerBuild (validate_max_vol min_base_amount min_rel_amount
           (new_volume - reserved_amount) (mu_min_volume req) price)) (\<lambda>_. Ok (update_msg, new_volume)))))))"

definition update_maker_order_commit :: "rpc_env \<Rightarrow> uuid \<Rightarrow> maker_order \<Rightarrow> maker_order_updated \<Rightarrow> mm_number \<Rightarrow>
    'db om_state \<Rightarrow> 'db om_state \<times> (rpc_error, maker_order) rust_result" where
  "update_maker_order_commit env u before update_msg new_volume s =
    (case moc_get_order u (om_makers s) of
       None \<Rightarrow> (s, Err (NoOrderWithUuid u))
     | Some order \<Rightarrow>
         if order \<noteq> before then (s, Err OrderStateChanged)
         else
           (let order = mo_apply_updated (oe_now_ms (re_om env)) update_msg order;
                (st, saved) = save_maker_order_on_update (se_to_decimal (oe_swap (re_om env))) order (om_storage s)
            in case saved of
                 Ok _ \<Rightarrow>
                   (let s = om_set_maker u order (s\<lparr>om_storage := st\<rparr>);
                        msg = with_new_max_volume (new_volume - mo_reserved_amount before) update_msg
                    in (om_notify_updated msg order s, Ok order))
               | Err e \<Rightarrow> (s\<lparr>om_storage := st\<rparr>, Err (StorageFailed e))
               | Panic \<Rightarrow> (s\<lparr>om_storage := st\<rparr>, Panic)))"

definition update_maker_order :: "rpc_env \<Rightarrow> maker_order_update_req \<Rightarrow> 'db om_state \<Rightarrow>
    'db om_state \<times> (rpc_error, maker_order) rust_result" where
  "update_maker_order env req s = (case moc_get_order (mu_uuid req) (om_makers s) of
     None \<Rightarrow> (s, Err (NoOrderWithUuid (mu_uuid req)))
   | Some order \<Rightarrow>
       if mo_has_ongoing_matches order then (s, Err OrderHasOngoingMatches)
       else case find_pair (oe_swap (re_om env)) (mo_base order) (mo_rel order) of
         NotFound \<Rightarrow> (s, Err CoinsNotActivated)
       | FindError _ \<Rightarrow> (s, Err CoinsNotActivated)
       | Found (base_coin, rel_coin) \<Rightarrow>
           (case update_maker_order_terms env req order base_coin rel_coin of
              Panic \<Rightarrow> (s, Panic) | Err e \<Rightarrow> (s, Err e)
            | Ok (update_msg, new_volume) \<Rightarrow>
                update_maker_order_commit env (mu_uuid req) order update_msg new_volume s))"

section \<open>Cancelling\<close>

definition cancel_taker_order :: "om_env \<Rightarrow> taker_order_cancellation_reason \<Rightarrow> uuid \<Rightarrow> taker_order \<Rightarrow>
    'db om_state \<Rightarrow> 'db om_state" where
  "cancel_taker_order env reason u order s = s\<lparr>om_takers := AList.delete u (om_takers s),
     om_storage := delete_my_taker_order (oe_now_ms env) order reason (om_storage s)\<rparr>"

definition cancel_order :: "om_env \<Rightarrow> uuid \<Rightarrow> 'db om_state \<Rightarrow> 'db om_state \<times> (rpc_error, unit) rust_result" where
  "cancel_order env u s = (case moc_get_order u (om_makers s) of
     Some order \<Rightarrow>
       if \<not> mo_is_cancellable order then (s, Err (OrderBeingMatched u))
       else (fst (cancel_maker_order env MakerCancelled (mo_uuid order) order s), Ok ())
   | None \<Rightarrow> (case map_of (om_takers s) u of
       Some order \<Rightarrow>
         if \<not> to_is_cancellable order then (s, Err (UUIDNotFound u))
         else (cancel_taker_order env TakerCancelled u order s, Ok ())
     | None \<Rightarrow> (s, Err (UUIDNotFound u))))"

datatype cancel_by = CancelAll | CancelPair string string | CancelCoin string

fun cancels_maker :: "cancel_by \<Rightarrow> maker_order \<Rightarrow> bool" where
  "cancels_maker CancelAll order = True"
| "cancels_maker (CancelPair base rel) order = (mo_base order = base \<and> mo_rel order = rel)"
| "cancels_maker (CancelCoin ticker) order = (mo_base order = ticker \<or> mo_rel order = ticker)"

fun cancels_taker :: "cancel_by \<Rightarrow> taker_order \<Rightarrow> bool" where
  "cancels_taker CancelAll order = True"
| "cancels_taker (CancelPair base rel) order = (tr_base (to_request order) = base \<and> tr_rel (to_request order) = rel)"
| "cancels_taker (CancelCoin ticker) order = (tr_base (to_request order) = ticker \<or> tr_rel (to_request order) = ticker)"

text \<open>All orders are taken out first, then the removed ones are announced and filed away, in the order
  they were found.\<close>

definition cancelled_makers :: "cancel_by \<Rightarrow> 'db om_state \<Rightarrow> (uuid \<times> maker_order) list" where
  "cancelled_makers by s = filter (\<lambda>(_, m). cancels_maker by m \<and> mo_is_cancellable m) (moc_orders (om_makers s))"

definition cancelled_takers :: "cancel_by \<Rightarrow> 'db om_state \<Rightarrow> (uuid \<times> taker_order) list" where
  "cancelled_takers by s = filter (\<lambda>(_, t). cancels_taker by t \<and> to_is_cancellable t) (om_takers s)"

definition currently_matching :: "cancel_by \<Rightarrow> 'db om_state \<Rightarrow> uuid list" where
  "currently_matching by s =
     map fst (filter (\<lambda>(_, m). cancels_maker by m \<and> \<not> mo_is_cancellable m) (moc_orders (om_makers s)))
     @ map fst (filter (\<lambda>(_, t). cancels_taker by t \<and> \<not> to_is_cancellable t) (om_takers s))"

definition file_cancelled_maker :: "maker_order_cancellation_reason \<Rightarrow> om_env \<Rightarrow> uuid \<times> maker_order \<Rightarrow> 'db om_state \<Rightarrow> 'db om_state" where
  "file_cancelled_maker reason env x s = (case x of (_, order) \<Rightarrow>
     let s = om_notify_cancelled env order s
     in s\<lparr>om_storage := delete_my_maker_order (oe_now_ms env) order reason (om_storage s)\<rparr>)"

definition file_cancelled_taker :: "om_env \<Rightarrow> uuid \<times> taker_order \<Rightarrow> 'db om_state \<Rightarrow> 'db om_state" where
  "file_cancelled_taker env x s = (case x of (_, order) \<Rightarrow>
     s\<lparr>om_storage := delete_my_taker_order (oe_now_ms env) order TakerCancelled (om_storage s)\<rparr>)"

definition cancel_orders_by :: "om_env \<Rightarrow> cancel_by \<Rightarrow> 'db om_state \<Rightarrow> 'db om_state \<times> uuid list \<times> uuid list" where
  "cancel_orders_by env by s =
    (let makers = cancelled_makers by s;
         takers = cancelled_takers by s;
         matching = currently_matching by s;
         s = s\<lparr>om_makers := fold (\<lambda>(u, _) c. fst (moc_remove_order u c)) makers (om_makers s)\<rparr>;
         s = s\<lparr>om_takers := filter (\<lambda>(_, t). \<not> (cancels_taker by t \<and> to_is_cancellable t)) (om_takers s)\<rparr>;
         s = fold (file_cancelled_maker MakerCancelled env) makers s;
         s = fold (file_cancelled_taker env) takers s
     in (s, map fst makers @ map fst takers, matching))"

definition get_matching_orders :: "string set \<Rightarrow> 'db om_state \<Rightarrow> uuid list" where
  "get_matching_orders coins s =
     map fst (filter (\<lambda>(_, m). (mo_base m \<in> coins \<or> mo_rel m \<in> coins) \<and> \<not> mo_is_cancellable m) (moc_orders (om_makers s)))
     @ map fst (filter (\<lambda>(_, t). (tr_base (to_request t) \<in> coins \<or> tr_rel (to_request t) \<in> coins)
          \<and> \<not> to_is_cancellable t) (om_takers s))"

section \<open>Restart\<close>

definition orders_kick_start :: "'db om_state \<Rightarrow> 'db om_state \<times> string set" where
  "orders_kick_start s =
    (let saved_maker_orders = load_active_maker_orders (om_storage s);
         saved_taker_orders = load_active_taker_orders (om_storage s);
         s = s\<lparr>om_makers := fold moc_add_order saved_maker_orders (om_makers s)\<rparr>;
         s = s\<lparr>om_takers := fold (\<lambda>t. AList.update (tr_uuid (to_request t)) t) saved_taker_orders (om_takers s)\<rparr>
     in (s, (\<Union>m \<in> set saved_maker_orders. {mo_base m, mo_rel m})
          \<union> (\<Union>t \<in> set saved_taker_orders. {tr_base (to_request t), tr_rel (to_request t)})))"

section \<open>Adding and removing one order\<close>

lemma om_ok_add_maker:
  assumes ok: "om_ok s" and m: "maker_entry_ok (mo_uuid m) m"
    and fresh: "map_of (moc_orders (om_makers s)) (mo_uuid m) = None" "map_of (om_takers s) (mo_uuid m) = None"
    and st: "st_writable st = st_writable (om_storage s)" "st_active_takers st = st_active_takers (om_storage s)"
      "st_active_makers st = st_active_makers (fst (save_new_active_maker_order m (om_storage s)))"
  shows "om_ok (s\<lparr>om_makers := moc_add_order m (om_makers s), om_storage := st\<rparr>)"
proof -
  have inv: "moc_safe (moc_add_order m (om_makers s))"
    by (rule moc_add_order_safe[OF _ fresh(1)]) (use ok in \<open>simp add: om_ok_def\<close>)
  have entry: "maker_entry_ok v x" if "map_of (moc_orders (moc_add_order m (om_makers s))) v = Some x" for v x
    using that ok m by (auto simp: om_ok_def split: if_splits)
  have disj: "dom (map_of (om_takers s)) \<inter> dom (map_of (moc_orders (moc_add_order m (om_makers s)))) = {}"
    using ok fresh(2) by (auto simp: om_ok_def)
  have "storage_mirrors (om_storage s) (om_makers s) (om_takers s)" using ok by (simp add: om_ok_def)
  then have "storage_mirrors st (moc_add_order m (om_makers s)) (om_takers s)"
    by (rule storage_mirrors_makers) (simp_all add: st maker_dir.load_save)
  then show ?thesis using ok inv entry disj unfolding om_ok_def by simp
qed

lemma om_ok_add_taker:
  assumes ok: "om_ok s" and t: "taker_entry_ok (tr_uuid (to_request t)) t"
    and fresh: "map_of (moc_orders (om_makers s)) (tr_uuid (to_request t)) = None"
    and st: "st_writable st = st_writable (om_storage s)" "st_active_makers st = st_active_makers (om_storage s)"
      "st_active_takers st = st_active_takers (fst (save_new_active_taker_order t (om_storage s)))"
  shows "om_ok (s\<lparr>om_takers := AList.update (tr_uuid (to_request t)) t (om_takers s), om_storage := st\<rparr>)"
proof -
  let ?u = "tr_uuid (to_request t)"
  have entry: "taker_entry_ok v x" if "map_of (AList.update ?u t (om_takers s)) v = Some x" for v x
    using that ok t by (auto simp: om_ok_def hm_get_update split: if_splits)
  have disj: "dom (map_of (AList.update ?u t (om_takers s))) \<inter> dom (map_of (moc_orders (om_makers s))) = {}"
    using ok fresh by (auto simp: om_ok_def hm_get_update)
  have "storage_mirrors (om_storage s) (om_makers s) (om_takers s)" using ok by (simp add: om_ok_def)
  then have "storage_mirrors st (om_makers s) (AList.update ?u t (om_takers s))"
    by (rule storage_mirrors_takers) (simp_all add: st taker_dir.load_save hm_get_update)
  then show ?thesis using ok entry disj hm_wf_update[of "om_takers s" ?u t] unfolding om_ok_def by simp
qed

lemma om_ok_remove_maker:
  assumes ok: "om_ok s"
    and st: "st_writable st = st_writable (om_storage s)" "st_active_takers st = st_active_takers (om_storage s)"
      "st_active_makers st = st_active_makers (fst (delete_active_maker_order u (om_storage s)))"
  shows "om_ok (s\<lparr>om_makers := fst (moc_remove_order u (om_makers s)), om_storage := st\<rparr>)"
proof -
  let ?c = "fst (moc_remove_order u (om_makers s))"
  have inv0: "moc_safe (om_makers s)" using ok by (simp add: om_ok_def)
  have mem: "map_of (moc_orders ?c) = (map_of (moc_orders (om_makers s)))(u := None)"
    by (simp add: moc_remove_order_safe_eq[OF inv0] hm_get_delete)
  have "maker_entry_ok v x" if "map_of (moc_orders ?c) v = Some x" for v x
    using that ok unfolding mem by (auto simp: om_ok_def split: if_splits)
  moreover have "dom (map_of (om_takers s)) \<inter> dom (map_of (moc_orders ?c)) = {}"
    using ok unfolding mem om_ok_def by auto
  moreover have "storage_mirrors (om_storage s) (om_makers s) (om_takers s)" using ok by (simp add: om_ok_def)
  then have "storage_mirrors st ?c (om_takers s)"
    by (rule storage_mirrors_makers) (simp_all add: st maker_dir.load_delete mem)
  ultimately show ?thesis using ok moc_remove_order_safe[OF inv0, of u] unfolding om_ok_def by simp
qed

lemma om_ok_cancel_maker:
  assumes ok: "om_ok s" and "mo_uuid m = u"
  shows "om_ok (fst (cancel_maker_order env reason u m s))"
proof (cases "map_of (moc_orders (om_makers s)) u")
  case None
  then show ?thesis using ok by (simp add: cancel_maker_order_def moc_remove_order_def)
next
  case (Some m')
  have inv: "moc_safe (om_makers s)" using ok by (simp add: om_ok_def)
  let ?c = "fst (moc_remove_order u (om_makers s))"
  have "fst (cancel_maker_order env reason u m s) = om_notify_cancelled env m
      (s\<lparr>om_makers := ?c, om_storage := delete_my_maker_order (oe_now_ms env) m reason (om_storage s)\<rparr>)"
    using moc_remove_order_safe_eq(1)[OF inv, of u] Some
    by (simp add: cancel_maker_order_def om_notify_cancelled_def om_broadcast_def split_beta)
  then show ?thesis using om_ok_remove_maker[OF ok] assms(2) by simp
qed

lemma cancel_maker_order_makers [simp]:
  "om_makers (fst (cancel_maker_order env reason u m s)) = fst (moc_remove_order u (om_makers s))"
  "om_takers (fst (cancel_maker_order env reason u m s)) = om_takers s"
  by (simp_all add: cancel_maker_order_def Let_def split_beta split: option.split)

section \<open>Visiting every maker order\<close>

text \<open>Several routines walk over a copy of the maker orders and do something with each. Each visit keeps
  the invariant and changes no other order, so the whole walk does to every order what a visit does
  to it alone.\<close>

locale order_visitor =
  fixes visit :: "uuid \<times> maker_order \<Rightarrow> 'db om_state \<Rightarrow> 'db om_state"
    and becomes :: "maker_order \<Rightarrow> maker_order option"
  assumes visit_ok: "om_ok s \<Longrightarrow> map_of (moc_orders (om_makers s)) u = Some m \<Longrightarrow> om_ok (visit (u, m) s)"
    and visit_orders: "om_ok s \<Longrightarrow> map_of (moc_orders (om_makers s)) u = Some m \<Longrightarrow>
      map_of (moc_orders (om_makers (visit (u, m) s))) = (map_of (moc_orders (om_makers s)))(u := becomes m)"
    and visit_takers: "om_takers (visit x s) = om_takers s"
begin

lemma visits:
  assumes "om_ok s" "distinct (map fst xs)" "\<forall>(u, m) \<in> set xs. map_of (moc_orders (om_makers s)) u = Some m"
  shows "om_ok (fold visit xs s) \<and> om_takers (fold visit xs s) = om_takers s
    \<and> map_of (moc_orders (om_makers (fold visit xs s)))
      = (\<lambda>u. case map_of xs u of Some m \<Rightarrow> becomes m | None \<Rightarrow> map_of (moc_orders (om_makers s)) u)"
  using assms
proof (induction xs arbitrary: s)
  case (Cons x xs)
  obtain u m where x: "x = (u, m)" by (metis prod.collapse)
  have u: "map_of (moc_orders (om_makers s)) u = Some m" using Cons.prems(3) x by simp
  have mem: "map_of (moc_orders (om_makers (visit x s))) = (map_of (moc_orders (om_makers s)))(u := becomes m)"
    unfolding x by (rule visit_orders[OF Cons.prems(1) u])
  have notin: "u \<notin> fst ` set xs" using Cons.prems(2) x by simp
  have "\<forall>(v, n) \<in> set xs. map_of (moc_orders (om_makers (visit x s))) v = Some n"
    using Cons.prems(3) notin unfolding mem by force
  from Cons.IH[OF _ _ this] have IH: "om_ok (fold visit xs (visit x s))" "om_takers (fold visit xs (visit x s)) = om_takers s"
    "\<And>v. map_of (moc_orders (om_makers (fold visit xs (visit x s)))) v
      = (case map_of xs v of Some m \<Rightarrow> becomes m | None \<Rightarrow> map_of (moc_orders (om_makers (visit x s))) v)"
    using visit_ok[OF Cons.prems(1) u] visit_takers[of x s] Cons.prems(2) by (simp_all add: x)
  have "map_of xs u = None" using notin by (simp add: map_of_eq_None_iff)
  then have "map_of (moc_orders (om_makers (fold visit (x # xs) s))) v
      = (case map_of (x # xs) v of Some m \<Rightarrow> becomes m | None \<Rightarrow> map_of (moc_orders (om_makers s)) v)" for v
    using IH(3)[of v] unfolding mem by (cases "v = u") (simp_all add: x split: option.split)
  with IH(1,2) show ?case by auto
qed simp

lemma visit_all:
  assumes "om_ok s"
  shows "om_ok (fold visit (moc_orders (om_makers s)) s)"
    "map_of (moc_orders (om_makers (fold visit (moc_orders (om_makers s)) s)))
      = (\<lambda>u. Option.bind (map_of (moc_orders (om_makers s)) u) becomes)"
    "om_takers (fold visit (moc_orders (om_makers s)) s) = om_takers s"
proof -
  have "hm_wf (moc_orders (om_makers s))" using assms by (simp add: om_ok_def moc_safe_def)
  moreover from this have "\<forall>(u, m) \<in> set (moc_orders (om_makers s)). map_of (moc_orders (om_makers s)) u = Some m"
    by auto
  ultimately show "om_ok (fold visit (moc_orders (om_makers s)) s)"
    "map_of (moc_orders (om_makers (fold visit (moc_orders (om_makers s)) s)))
      = (\<lambda>u. Option.bind (map_of (moc_orders (om_makers s)) u) becomes)"
    "om_takers (fold visit (moc_orders (om_makers s)) s) = om_takers s"
    using visits[OF assms] by (auto simp: fun_eq_iff split: option.split)
qed

end

interpretation cancel_previous: order_visitor "cancel_previous_visit env base rel"
  "\<lambda>m. if mo_base m = base \<and> mo_rel m = rel then None else Some m" for env base rel
proof
  fix s :: "'a om_state" and u m
  assume ok: "om_ok s" and u: "map_of (moc_orders (om_makers s)) u = Some m"
  have m: "mo_uuid m = u" using om_ok_maker[OF ok u] by simp
  show "om_ok (cancel_previous_visit env base rel (u, m) s)"
    using om_ok_cancel_maker[OF ok m] ok by (simp add: cancel_previous_visit_def)
  show "map_of (moc_orders (om_makers (cancel_previous_visit env base rel (u, m) s)))
      = (map_of (moc_orders (om_makers s)))(u := if mo_base m = base \<and> mo_rel m = rel then None else Some m)"
    using ok u by (auto simp: cancel_previous_visit_def moc_remove_order_safe_eq om_ok_def hm_get_delete)
qed (simp add: cancel_previous_visit_def split: prod.split)

lemma om_ok_subscribe [simp]: "om_ok (om_subscribe env b r s) = om_ok s"
  by (simp add: om_subscribe_def)

lemma om_subscribe_frame [simp]:
  "om_makers (om_subscribe env b r s) = om_makers s" "om_takers (om_subscribe env b r s) = om_takers s"
  "om_storage (om_subscribe env b r s) = om_storage s" "om_pending (om_subscribe env b r s) = om_pending s"
  "om_sent (om_subscribe env b r s) = om_sent s" "om_swaps (om_subscribe env b r s) = om_swaps s"
  by (simp_all add: om_subscribe_def)

section \<open>Placing a taker order\<close>

text \<open>What the requests rely on: coins have a positive minimum volume, a positive amount is not
  rounded to zero when it is written to the database, and a new uuid is new.\<close>

definition rpc_env_ok :: "rpc_env \<Rightarrow> bool" where
  "rpc_env_ok env \<longleftrightarrow> (\<forall>t c. se_coinfind (oe_swap (re_om env)) t = Found c \<longrightarrow> 0 < min_trading_vol c)
     \<and> (\<forall>x > 0. se_to_decimal (oe_swap (re_om env)) x \<noteq> 0)"

definition fresh_uuid :: "uuid \<Rightarrow> 'db om_state \<Rightarrow> bool" where
  "fresh_uuid u s \<longleftrightarrow> map_of (moc_orders (om_makers s)) u = None \<and> map_of (om_takers s) u = None
     \<and> st_my_orders (om_storage s) u = None"

lemma taker_order_build_fields:
  assumes "taker_order_build env b = Ok t"
  shows "tr_uuid (to_request t) = be_new_uuid env" "tr_base_amount (to_request t) = tob_base_amount b"
    "tr_rel_amount (to_request t) = tob_rel_amount b" "tr_action (to_request t) = tob_action b"
    "tr_base (to_request t) = coin_ticker (tob_base_coin b)" "tr_rel (to_request t) = coin_ticker (tob_rel_coin b)"
    "to_matches t = []" "to_save_in_history t = tob_save_in_history b"
  using assms by (auto simp: taker_order_build_def Let_def split: if_splits)

lemma save_new_taker_Ok:
  assumes "st_writable st" "st_my_orders st (tr_uuid (to_request t)) = None"
    and "dec (tr_base_amount (to_request t)) \<noteq> 0"
  shows "snd (save_my_new_taker_order dec t st) = Ok ()"
  using assms
  by (simp add: save_my_new_taker_order_def save_new_active_taker_order_def insert_taker_order_def insert_my_order_def)

lemma save_new_taker_no_panic:
  assumes "dec (tr_base_amount (to_request t)) \<noteq> 0"
  shows "snd (save_my_new_taker_order dec t st) \<noteq> Panic"
  using assms
  by (simp add: save_my_new_taker_order_def insert_taker_order_def insert_my_order_def split: prod.split)

lemma find_coin_min_vol:
  "rpc_env_ok env \<Longrightarrow> find_coin env t = Ok c \<Longrightarrow> 0 < min_trading_vol c"
  by (auto simp: find_coin_def rpc_env_ok_def split: find_result.splits)

text \<open>What a request for a taker order leaves: the order is in memory, on disk and on its way to the
  makers, with the amounts and the action of the request, or nothing but the topic has changed.\<close>

definition taker_order_placed :: "taker_action \<Rightarrow> sell_buy_request \<Rightarrow> 'db om_state \<Rightarrow>
    'db om_state \<times> (rpc_error, taker_order) rust_result \<Rightarrow> bool" where
  "taker_order_placed action input s res = (case res of
     (s', Ok t) \<Rightarrow> (let u = tr_uuid (to_request t) in
        om_takers s' = AList.update u t (om_takers s)
        \<and> tr_action (to_request t) = action \<and> tr_base_amount (to_request t) = sb_volume input
        \<and> tr_rel_amount (to_request t) = sb_volume input * sb_price input
        \<and> (st_writable (om_storage s) \<longrightarrow> map_of (st_active_takers (om_storage s')) u = Some t)
        \<and> (\<exists>msg. msg_of_taker_order t = Ok msg \<and> om_sent s' = om_sent s @ [(to_orderbook_topic t, msg, to_p2p_privkey t)]))
   | (s', Err e) \<Rightarrow> om_takers s' = om_takers s
        \<and> (\<not> (\<exists>x. e = StorageFailed x) \<longrightarrow> om_sent s' = om_sent s \<and> om_storage s' = om_storage s)
   | (_, Panic) \<Rightarrow> False)"

lemma om_storage_takers: "s\<lparr>om_storage := st, om_takers := ts\<rparr> = s\<lparr>om_takers := ts, om_storage := st\<rparr>"
  by (cases s) simp

lemma om_updates_first:
  "(om_broadcast topic msg key s)\<lparr>om_storage := st\<rparr> = om_broadcast topic msg key (s\<lparr>om_storage := st\<rparr>)"
  "(om_broadcast topic msg key s)\<lparr>om_takers := ts\<rparr> = om_broadcast topic msg key (s\<lparr>om_takers := ts\<rparr>)"
  "(om_broadcast topic msg key s)\<lparr>om_makers := ms\<rparr> = om_broadcast topic msg key (s\<lparr>om_makers := ms\<rparr>)"
  "(om_subscribe env b r s)\<lparr>om_storage := st\<rparr> = om_subscribe env b r (s\<lparr>om_storage := st\<rparr>)"
  "(om_subscribe env b r s)\<lparr>om_takers := ts\<rparr> = om_subscribe env b r (s\<lparr>om_takers := ts\<rparr>)"
  by (simp_all add: om_broadcast_def om_subscribe_def)

lemma place_taker_order_placed:
  fixes s :: "'db om_state"
  assumes ok: "om_ok s" and env: "rpc_env_ok env" and fresh: "fresh_uuid (tr_uuid (to_request t)) s"
    and wf: "wf_taker_order t" "to_matches t = []"
    and input: "tr_action (to_request t) = action" "tr_base_amount (to_request t) = sb_volume input"
      "tr_rel_amount (to_request t) = sb_volume input * sb_price input"
  shows "taker_order_placed action input s (place_taker_order env t s)
    \<and> om_makers (fst (place_taker_order env t s)) = om_makers s \<and> om_ok (fst (place_taker_order env t s))"
proof -
  let ?u = "tr_uuid (to_request t)"
  obtain msg where msg: "msg_of_taker_order t = Ok msg"
    using wf by (auto simp: msg_of_taker_order_def wf_taker_order_def Let_def)
  have dec: "se_to_decimal (oe_swap (re_om env)) (tr_base_amount (to_request t)) \<noteq> 0"
    using wf env by (simp add: wf_taker_order_def rpc_env_ok_def)
  obtain st r where save: "save_my_new_taker_order (se_to_decimal (oe_swap (re_om env))) t (om_storage s) = (st, r)"
    by (metis prod.collapse)
  have st: "st_writable st = st_writable (om_storage s)" "st_active_makers st = st_active_makers (om_storage s)"
    "st_active_takers st = st_active_takers (fst (save_new_active_taker_order t (om_storage s)))"
    using save_my_new_frame(4-6)[of "se_to_decimal (oe_swap (re_om env))" t "om_storage s"] by (simp_all add: save)
  have entry: "taker_entry_ok ?u t" using wf by (simp add: taker_entry_ok_def)
  have "om_ok (s\<lparr>om_takers := AList.update ?u t (om_takers s), om_storage := st\<rparr>)"
    by (rule om_ok_add_taker[OF ok entry _ st]) (use fresh in \<open>simp add: fresh_uuid_def\<close>)
  then have added: "om_ok (s\<lparr>om_storage := st, om_takers := AList.update ?u t (om_takers s)\<rparr>)"
    by (simp add: om_storage_takers)
  have writes: "st_writable (om_storage s) \<Longrightarrow> r = Ok ()"
    using save_new_taker_Ok[where dec = "se_to_decimal (oe_swap (re_om env))", OF _ _ dec] fresh save
    by (metis fresh_uuid_def snd_conv)
  have stuck: "om_ok (s\<lparr>om_storage := st\<rparr>)" if "r \<noteq> Ok ()"
    using ok writes that st(1) by (auto simp: om_ok_def storage_mirrors_def)
  have np: "r \<noteq> Panic" using save_new_taker_no_panic[where dec = "se_to_decimal (oe_swap (re_om env))", OF dec] save by (metis snd_conv)
  have on_disk: "st_writable (om_storage s) \<Longrightarrow> map_of (st_active_takers st) ?u = Some t"
    by (simp add: st taker_dir.load_save)
  show ?thesis
    using np input on_disk added stuck
    by (cases r) (simp_all add: place_taker_order_def msg save Let_def taker_order_placed_def om_updates_first)
qed

lemma auto_buy_builder_fields [simp]:
  "tob_base_coin (auto_buy_builder env k action bc rc input) = bc"
  "tob_rel_coin (auto_buy_builder env k action bc rc input) = rc"
  "tob_base_amount (auto_buy_builder env k action bc rc input) = sb_volume input"
  "tob_rel_amount (auto_buy_builder env k action bc rc input) = sb_volume input * sb_price input"
  "tob_action (auto_buy_builder env k action bc rc input) = action"
  by (simp_all add: auto_buy_builder_def Let_def tob_defs split: option.split)

lemma lp_auto_buy_places:
  fixes s :: "'db om_state"
  assumes ok: "om_ok s" and env: "rpc_env_ok env" and fresh: "fresh_uuid (be_new_uuid (re_build env)) s"
    and min: "0 < min_trading_vol bc" "0 < min_trading_vol rc"
    and action: "action = (if sb_method input = ''buy'' then Buy else Sell)"
  shows "taker_order_placed action input s (lp_auto_buy env bc rc input s)
    \<and> om_makers (fst (lp_auto_buy env bc rc input s)) = om_makers s
    \<and> om_ok (fst (lp_auto_buy env bc rc input s))"
proof -
  have refused: ?thesis if "lp_auto_buy env bc rc input s = (s, Err e)" "\<And>x. e \<noteq> StorageFailed x" for e
    using ok that by (simp add: taker_order_placed_def)
  show ?thesis
  proof (cases "sb_price input < 1 / 100000000 \<or> sb_method input \<noteq> ''buy'' \<and> sb_method input \<noteq> ''sell''
      \<or> oe_public_id (re_om env) = None")
    case True
    then have "\<exists>e. lp_auto_buy env bc rc input s = (s, Err e) \<and> (\<forall>x. e \<noteq> StorageFailed x)"
      by (auto simp only: lp_auto_buy_def option.case if_True if_False) auto
    then show ?thesis using refused by blast
  next
    case False
    then obtain k where k: "oe_public_id (re_om env) = Some k" by blast
    let ?b = "auto_buy_builder env k action bc rc input"
    have res: "lp_auto_buy env bc rc input s = (case taker_order_build (re_build env) ?b of
          Panic \<Rightarrow> (s, Panic)
        | Err e \<Rightarrow> (s, Err (TakerBuild e))
        | Ok order \<Rightarrow> place_taker_order env order s)"
      using False by (auto simp: lp_auto_buy_def k action)
    show ?thesis
    proof (cases "taker_order_build (re_build env) ?b")
      case Panic
      then show ?thesis using taker_order_build_neq_Panic[of ?b "re_build env"] min by simp
    next
      case (Err e)
      then show ?thesis using refused by (simp add: res)
    next
      case (Ok t)
      have "wf_taker_order t \<and> to_matches t = []" using taker_order_build_wf[OF Ok] min by simp
      then show ?thesis
        using place_taker_order_placed[OF ok env, of t action input] taker_order_build_fields[OF Ok] fresh
        by (simp add: res Ok)
    qed
  qed
qed

section \<open>Placing a maker order\<close>

lemma after_checks_places:
  assumes "om_ok s" "rpc_env_ok env" "fresh_uuid (be_new_uuid (re_build env)) s"
    and "\<And>bc rc. checks = Ok (bc, rc) \<Longrightarrow> 0 < min_trading_vol bc \<and> 0 < min_trading_vol rc"
    and "checks \<noteq> Panic" "\<And>x. checks \<noteq> Err (StorageFailed x)"
    and "action = (if sb_method input = ''buy'' then Buy else Sell)"
  shows "taker_order_placed action input s (after_checks checks env input s)
    \<and> om_makers (fst (after_checks checks env input s)) = om_makers s \<and> om_ok (fst (after_checks checks env input s))"
proof (cases checks)
  case (Err e)
  then show ?thesis using assms(1,6) by (simp add: after_checks_def taker_order_placed_def)
next
  case (Ok p)
  obtain bc rc where p: "p = (bc, rc)" by (metis prod.collapse)
  show ?thesis
    using lp_auto_buy_places[OF assms(1-3) _ _ assms(7), of bc rc] assms(4)[of bc rc]
    by (simp add: Ok p after_checks_def)
qed (use assms(5) in simp)

lemma find_coin_error: "find_coin env t = Err e \<Longrightarrow> e = CoinNotFound t \<or> (\<exists>x. e = CoinLookup x)"
  by (auto simp: find_coin_def split: find_result.splits)

lemma find_coin_neq_Panic [simp]: "find_coin env t \<noteq> Panic"
  by (simp add: find_coin_def split: find_result.split)

lemma rbind_eq_Err_iff: "rbind m f = Err e \<longleftrightarrow> m = Err e \<or> (\<exists>a. m = Ok a \<and> f a = Err e)"
  by (cases m) auto

lemma taker_checks:
  assumes "rpc_env_ok env"
  shows "buy_checks env input = Ok (bc, rc) \<Longrightarrow> 0 < min_trading_vol bc \<and> 0 < min_trading_vol rc"
    "sell_checks env input = Ok (bc, rc) \<Longrightarrow> 0 < min_trading_vol bc \<and> 0 < min_trading_vol rc"
    "buy_checks env input \<noteq> Panic" "sell_checks env input \<noteq> Panic"
    "buy_checks env input \<noteq> Err (StorageFailed x)" "sell_checks env input \<noteq> Err (StorageFailed x)"
  using find_coin_min_vol[OF assms]
  by (auto simp: buy_checks_def sell_checks_def rbind_eq_Err_iff dest: find_coin_error split: if_splits)

lemma maker_order_build_fields:
  assumes "maker_order_build env b = Ok m" "0 < min_trading_vol (mob_base_coin b)"
  shows "maker_entry_ok (mo_uuid m) m" "mo_uuid m = be_new_uuid env" "mo_price m = mob_price b"
    "mo_max_base_vol m = mob_max_base_vol b" "mo_matches m = []" "mo_base m = coin_ticker (mob_base_coin b)"
    "mo_rel m = coin_ticker (mob_rel_coin b)" "mo_conf_settings m \<noteq> None"
    "mo_min_base_vol m = maker_lower_bound b"
  using assms by (auto simp: maker_order_build_Ok_iff maker_terms_ok_def maker_entry_ok_def holds_capacity_def
      wf_maker_order_def mo_available_amount_def mo_reserved_amount_def)

lemma save_new_maker_result:
  assumes "st_my_orders st (mo_uuid m) = None"
  shows "st_writable st \<Longrightarrow> snd (save_my_new_maker_order dec m st) = Ok ()"
    "snd (save_my_new_maker_order dec m st) \<noteq> Panic"
  using assms
  by (auto simp: save_my_new_maker_order_def save_new_active_maker_order_def insert_maker_order_def
      insert_my_order_def st_write_def)

lemma om_notify_created_Ok:
  assumes "mo_conf_settings m \<noteq> None"
  shows "\<exists>ns msg. om_notify_created env bi ri m s
      = Ok (om_broadcast (mo_orderbook_topic m) (MakerOrderCreatedMsg msg) (mo_p2p_privkey m) (s\<lparr>om_net := ns\<rparr>))
    \<and> created_message_of (oe_now_sec env) bi ri m = Ok msg"
  using assms by (auto simp: om_notify_created_def maker_order_created_p2p_notify_def created_message_of_def Let_def)

text \<open>The orders the request takes out before it adds its own.\<close>

definition after_cancelling :: "set_price_req \<Rightarrow> 'db om_state \<Rightarrow> uuid \<Rightarrow> maker_order option" where
  "after_cancelling req s u = (case map_of (moc_orders (om_makers s)) u of
     Some m \<Rightarrow> if sp_cancel_previous req \<and> mo_base m = sp_base req \<and> mo_rel m = sp_rel req then None else Some m
   | None \<Rightarrow> None)"

definition maker_order_placed :: "set_price_req \<Rightarrow> 'db om_state \<Rightarrow>
    'db om_state \<times> (rpc_error, maker_order) rust_result \<Rightarrow> bool" where
  "maker_order_placed req s res = (case res of
     (s', Ok m) \<Rightarrow>
        map_of (moc_orders (om_makers s')) = (after_cancelling req s)(mo_uuid m \<mapsto> m)
        \<and> mo_price m = sp_price req \<and> (\<not> sp_max req \<longrightarrow> mo_max_base_vol m = sp_volume req)
        \<and> mo_available_amount m = mo_max_base_vol m
        \<and> (\<forall>v. sp_min_volume req = Some v \<longrightarrow> mo_min_base_vol m = v)
        \<and> (st_writable (om_storage s) \<longrightarrow> map_of (st_active_makers (om_storage s')) (mo_uuid m) = Some m)
        \<and> (\<exists>msg. last (om_sent s') = (mo_orderbook_topic m, MakerOrderCreatedMsg msg, mo_p2p_privkey m)
             \<and> npc_uuid msg = mo_uuid m \<and> npc_price msg = sp_price req
             \<and> npc_max_volume msg = mo_max_base_vol m \<and> npc_min_volume msg = mo_min_base_vol m)
   | (s', Err e) \<Rightarrow> map_of (moc_orders (om_makers s')) = map_of (moc_orders (om_makers s))
        \<or> map_of (moc_orders (om_makers s')) = after_cancelling req s
   | (_, Panic) \<Rightarrow> False)"

lemma add_new_maker_order_placed:
  fixes s :: "'db om_state"
  assumes ok: "om_ok s" and fresh: "fresh_uuid (mo_uuid m) s"
    and m: "maker_entry_ok (mo_uuid m) m" "mo_conf_settings m \<noteq> None"
  shows "case add_new_maker_order env req bc rc volume m s of
      (s', Ok m') \<Rightarrow> m' = m \<and> om_ok s' \<and> om_takers s' = om_takers s
        \<and> map_of (moc_orders (om_makers s')) = (map_of (moc_orders (om_makers s)))(mo_uuid m \<mapsto> m)
        \<and> (st_writable (om_storage s) \<longrightarrow> map_of (st_active_makers (om_storage s')) (mo_uuid m) = Some m)
        \<and> (\<exists>msg bi ri. last (om_sent s') = (mo_orderbook_topic m, MakerOrderCreatedMsg msg, mo_p2p_privkey m)
             \<and> created_message_of (oe_now_sec (re_om env)) bi ri m = Ok msg)
    | (s', Err e) \<Rightarrow> om_ok s' \<and> om_makers s' = om_makers s \<and> om_takers s' = om_takers s
    | (_, Panic) \<Rightarrow> False"
proof -
  obtain st r where save: "save_my_new_maker_order (se_to_decimal (oe_swap (re_om env))) m (om_storage s) = (st, r)"
    by (metis prod.collapse)
  have st: "st_writable st = st_writable (om_storage s)" "st_active_takers st = st_active_takers (om_storage s)"
    "st_active_makers st = st_active_makers (fst (save_new_active_maker_order m (om_storage s)))"
    using save_my_new_frame(1-3)[of "se_to_decimal (oe_swap (re_om env))" m "om_storage s"] by (simp_all add: save)
  have added: "om_ok (s\<lparr>om_makers := moc_add_order m (om_makers s), om_storage := st\<rparr>)"
    by (rule om_ok_add_maker[OF ok m(1) _ _ st]) (use fresh in \<open>simp_all add: fresh_uuid_def\<close>)
  have r: "st_writable (om_storage s) \<Longrightarrow> r = Ok ()" "r \<noteq> Panic"
    using save_new_maker_result[of "om_storage s" m "se_to_decimal (oe_swap (re_om env))"] fresh
    by (simp_all add: fresh_uuid_def save)
  have stuck: "om_ok (s\<lparr>om_storage := st\<rparr>)" if "r \<noteq> Ok ()"
    using ok r(1) that st(1) by (auto simp: om_ok_def storage_mirrors_def)
  have on_disk: "st_writable (om_storage s) \<Longrightarrow> map_of (st_active_makers st) (mo_uuid m) = Some m"
    by (simp add: st maker_dir.load_save)
  let ?bi = "coin_protocol_info bc None" and ?ri = "coin_protocol_info rc (Some (volume * sp_price req))"
  let ?s = "om_subscribe (re_om env) (mo_base_ticker m) (mo_rel_ticker m) (s\<lparr>om_storage := st\<rparr>)"
  obtain ns msg where told: "om_notify_created (re_om env) ?bi ?ri m ?s
      = Ok (om_broadcast (mo_orderbook_topic m) (MakerOrderCreatedMsg msg) (mo_p2p_privkey m) (?s\<lparr>om_net := ns\<rparr>))"
    "created_message_of (oe_now_sec (re_om env)) ?bi ?ri m = Ok msg"
    using om_notify_created_Ok[OF m(2)] by blast
  have swap: "?s\<lparr>om_net := ns, om_makers := moc_add_order m (om_makers s)\<rparr>
      = (s\<lparr>om_makers := moc_add_order m (om_makers s), om_storage := st\<rparr>)\<lparr>om_net := ns\<rparr>"
    by (cases s) (simp add: om_subscribe_def)
  show ?thesis
    using r(2) on_disk added stuck told
    by (cases r) (auto simp add: add_new_maker_order_def save Let_def om_updates_first(1-3) swap om_updates_first(4))
qed

lemma delete_my_maker_order_rows:
  "st_my_orders st u = None \<Longrightarrow> st_my_orders (delete_my_maker_order now m reason st) u = None"
  by (auto simp: delete_my_maker_order_def Let_def delete_active_maker_order_def save_order_in_history_def
      update_order_status_def update_my_order_def st_write_def split: option.split)

lemma cancel_previous_storage:
  assumes "st_my_orders (om_storage s) u = None"
  shows "st_my_orders (om_storage (cancel_previous_maker_orders env base rel s)) u = None
    \<and> st_writable (om_storage (cancel_previous_maker_orders env base rel s)) = st_writable (om_storage s)"
  unfolding cancel_previous_maker_orders_def
  by (rule fold_invariant_set)
    (use assms in \<open>auto simp: cancel_previous_visit_def cancel_maker_order_def Let_def split_beta
       delete_my_maker_order_rows split: option.split\<close>)

lemma om_cancel_previous:
  assumes "om_ok s"
  shows "om_ok (cancel_previous_maker_orders env (sp_base req) (sp_rel req) s)"
    "om_takers (cancel_previous_maker_orders env (sp_base req) (sp_rel req) s) = om_takers s"
    "sp_cancel_previous req \<Longrightarrow>
      map_of (moc_orders (om_makers (cancel_previous_maker_orders env (sp_base req) (sp_rel req) s))) = after_cancelling req s"
  unfolding cancel_previous_maker_orders_def
  using cancel_previous.visit_all[OF assms, of env "sp_base req" "sp_rel req"]
  by (auto simp: after_cancelling_def fun_eq_iff split: option.split)

lemma after_cancelling_none: "\<not> sp_cancel_previous req \<Longrightarrow> after_cancelling req s = map_of (moc_orders (om_makers s))"
  by (auto simp: after_cancelling_def fun_eq_iff split: option.split)

lemma set_price_builder_fields [simp]:
  "mob_base_coin (set_price_builder env req bc rc volume) = bc"
  "mob_rel_coin (set_price_builder env req bc rc volume) = rc"
  "mob_price (set_price_builder env req bc rc volume) = sp_price req"
  "mob_max_base_vol (set_price_builder env req bc rc volume) = volume"
  "mob_min_base_vol (set_price_builder env req bc rc volume) = sp_min_volume req"
  by (simp_all add: set_price_builder_def Let_def mob_defs split: option.split)

lemma set_price_volume_cases:
  "set_price_volume env req bc rc \<noteq> Panic"
  "set_price_volume env req bc rc = Ok v \<Longrightarrow> \<not> sp_max req \<Longrightarrow> v = sp_volume req"
  by (auto simp: set_price_volume_def split: option.splits if_splits)

definition cancelled_first :: "om_env \<Rightarrow> set_price_req \<Rightarrow> 'db om_state \<Rightarrow> 'db om_state" where
  "cancelled_first env req s =
    (if sp_cancel_previous req then cancel_previous_maker_orders env (sp_base req) (sp_rel req) s else s)"

lemma cancelled_first_ok:
  assumes "om_ok s"
  shows "om_ok (cancelled_first env req s)" "om_takers (cancelled_first env req s) = om_takers s"
    "map_of (moc_orders (om_makers (cancelled_first env req s))) = after_cancelling req s"
  using om_cancel_previous[where env = env and req = req, OF assms] assms after_cancelling_none[of req s]
  by (simp_all add: cancelled_first_def)

lemma cancelled_first_fresh:
  assumes "om_ok s" "fresh_uuid u s"
  shows "fresh_uuid u (cancelled_first env req s)
    \<and> st_writable (om_storage (cancelled_first env req s)) = st_writable (om_storage s)"
  using assms cancel_previous_storage[of s u env "sp_base req" "sp_rel req"]
    cancelled_first_ok[OF assms(1), of env req]
  by (auto simp: fresh_uuid_def after_cancelling_def cancelled_first_def)

text \<open>A request ends in an error that changes at most the previous orders, or adds the built order.\<close>

lemma create_maker_order_cases:
  assumes env: "rpc_env_ok env"
  obtains (refused) e where "create_maker_order env req s = (s, Err e)
      \<or> create_maker_order env req s = (cancelled_first (re_om env) req s, Err e)"
  | (added) bc rc volume m where "maker_order_build (re_build env) (set_price_builder env req bc rc volume) = Ok m"
      "0 < min_trading_vol bc" "\<not> sp_max req \<Longrightarrow> volume = sp_volume req"
      "create_maker_order env req s = add_new_maker_order env req bc rc volume m (cancelled_first (re_om env) req s)"
proof (cases "\<exists>e. create_maker_order env req s = (s, Err e)
    \<or> create_maker_order env req s = (cancelled_first (re_om env) req s, Err e)")
  case True
  then show ?thesis using refused by blast
next
  case False
  note nf = False[unfolded create_maker_order_def cancel_orders_on_error_def cancelled_first_def[symmetric], simplified]
  obtain bc where bc: "find_coin env (sp_base req) = Ok bc" using nf by (cases "find_coin env (sp_base req)") auto
  obtain rc where rc: "find_coin env (sp_rel req) = Ok rc" using nf bc by (cases "find_coin env (sp_rel req)") auto
  have pre: "re_pre_check_for_order_creation env bc rc" using nf bc rc by (auto split: if_splits)
  obtain v where v: "set_price_volume env req bc rc = Ok v"
  proof (cases "set_price_volume env req bc rc")
    case (Err ce)
    then show ?thesis using nf bc rc pre by (cases ce) (auto split: if_splits)
  qed (use set_price_volume_cases(1)[of env req bc rc] in auto)
  obtain m where m: "maker_order_build (re_build env) (set_price_builder env req bc rc v) = Ok m"
    using nf bc rc pre v maker_order_build_neq_Panic[of "re_build env" "set_price_builder env req bc rc v"]
    by (cases "maker_order_build (re_build env) (set_price_builder env req bc rc v)") auto
  show ?thesis
    using added[OF m find_coin_min_vol[OF env bc] set_price_volume_cases(2)[OF v]]
    by (simp add: create_maker_order_def cancelled_first_def bc rc pre v m)
qed

lemma create_maker_order_placed:
  fixes s :: "'db om_state"
  assumes ok: "om_ok s" and env: "rpc_env_ok env" and fresh: "fresh_uuid (be_new_uuid (re_build env)) s"
  shows "maker_order_placed req s (create_maker_order env req s) \<and> om_ok (fst (create_maker_order env req s))
    \<and> om_takers (fst (create_maker_order env req s)) = om_takers s"
proof (cases rule: create_maker_order_cases[OF env, of req s, case_names refused added])
  case (refused e)
  then show ?thesis
    using ok cancelled_first_ok[OF ok, of "re_om env" req] by (elim disjE) (simp_all add: maker_order_placed_def)
next
  case (added bc rc volume m)
  let ?s1 = "cancelled_first (re_om env) req s"
  note s1 = cancelled_first_ok[OF ok, of "re_om env" req] and st1 = cancelled_first_fresh[OF ok fresh, of "re_om env" req]
  note f = maker_order_build_fields[OF added(1), simplified, OF added(2)]
  have "case add_new_maker_order env req bc rc volume m ?s1 of
      (s', Ok m') \<Rightarrow> m' = m \<and> om_ok s' \<and> om_takers s' = om_takers s
        \<and> map_of (moc_orders (om_makers s')) = (after_cancelling req s)(mo_uuid m \<mapsto> m)
        \<and> (st_writable (om_storage s) \<longrightarrow> map_of (st_active_makers (om_storage s')) (mo_uuid m) = Some m)
        \<and> (\<exists>msg bi ri. last (om_sent s') = (mo_orderbook_topic m, MakerOrderCreatedMsg msg, mo_p2p_privkey m)
             \<and> created_message_of (oe_now_sec (re_om env)) bi ri m = Ok msg)
    | (s', Err e) \<Rightarrow> om_ok s' \<and> map_of (moc_orders (om_makers s')) = after_cancelling req s \<and> om_takers s' = om_takers s
    | (_, Panic) \<Rightarrow> False"
    using add_new_maker_order_placed[OF s1(1), of m env req bc rc volume] st1 f s1(2,3)
    by (auto split: prod.splits rust_result.splits)
  then show ?thesis
    using f added(3)
    by (auto simp: added(4) maker_order_placed_def mo_available_amount_def created_message_of_def
        maker_lower_bound_def split: prod.splits rust_result.splits option.splits)
qed

section \<open>Updating a maker order\<close>

definition updated_terms :: "maker_order_update_req \<Rightarrow> maker_order \<Rightarrow> maker_order_updated \<Rightarrow> mm_number \<Rightarrow> bool" where
  "updated_terms req m upd volume \<longleftrightarrow>
     new_price upd = mu_new_price req \<and> (\<forall>p. mu_new_price req = Some p \<longrightarrow> 0 < p)
     \<and> new_min_volume upd = mu_min_volume req \<and> (\<forall>v. mu_min_volume req = Some v \<longrightarrow> 0 \<le> v)
     \<and> upd_uuid upd = mu_uuid req
     \<and> (\<forall>v. new_max_volume upd = Some v \<longrightarrow> v = volume) \<and> (new_max_volume upd = None \<longrightarrow> volume = mo_max_base_vol m)
     \<and> (\<not> unwrap_or False (mu_max req) \<longrightarrow> volume = mo_max_base_vol m + unwrap_or 0 (mu_volume_delta req))
     \<and> mo_reserved_amount m < volume \<and> new_conf_settings upd \<noteq> None"

lemma update_new_volume_Ok:
  assumes "update_new_volume env req m bc rc upd = Ok (upd', volume)"
  shows "upd' = with_new_max_volume volume upd \<or> upd' = upd \<and> volume = mo_max_base_vol m"
    "\<not> unwrap_or False (mu_max req) \<Longrightarrow> volume = mo_max_base_vol m + unwrap_or 0 (mu_volume_delta req)"
  using assms by (auto simp: update_new_volume_def Let_def split: option.splits if_splits)

lemma update_new_volume_no_panic: "update_new_volume env req m bc rc upd \<noteq> Panic"
  by (auto simp: update_new_volume_def Let_def split: option.splits)

lemma new_min_vol:
  assumes "validate_and_get_min_vol bmin rmin (Some v) p = Ok lo" "0 < p" "0 < bmin"
  shows "lo = v \<and> 0 \<le> v"
  using assms by (simp add: validate_min_vol_Ok_iff)

lemma update_terms_Ok:
  assumes run: "update_maker_order_terms env req m bc rc = Ok (upd, volume)"
    and m: "0 < mo_price m" and min: "0 < min_trading_vol bc"
  shows "updated_terms req m upd volume"
proof -
  obtain c0 where c0: "mo_conf_settings m = Some c0"
    using run by (cases "mo_conf_settings m") (simp_all add: update_maker_order_terms_def)
  define c where "c = \<lparr>base_confs = unwrap_or (base_confs c0) (mu_base_confs req),
           base_nota = unwrap_or (base_nota c0) (mu_base_nota req),
           rel_confs = unwrap_or (rel_confs c0) (mu_rel_confs req),
           rel_nota = unwrap_or (rel_nota c0) (mu_rel_nota req)\<rparr>"
  define u0 where "u0 = with_new_conf_settings c (upd_new (oe_now_sec (re_om env)) (mu_uuid req))"
  have u0: "new_price u0 = None" "new_min_volume u0 = None" "new_max_volume u0 = None"
    "new_conf_settings u0 = Some c" "upd_uuid u0 = mu_uuid req"
    by (simp_all add: u0_def upd_new_def)
  obtain u1 p where 1: "(case mu_new_price req of
         Some price \<Rightarrow> rbind (map_err MakerBuild (validate_price price)) (\<lambda>_. Ok (with_new_price price u0, price))
       | None \<Rightarrow> Ok (u0, mo_price m)) = Ok (u1, p)"
    and run2: "rbind (case mu_min_volume req of
         Some min_volume \<Rightarrow>
           rbind (map_err MakerBuild (validate_and_get_min_vol (min_trading_vol bc) (min_trading_vol rc) (Some min_volume) p))
             (\<lambda>actual_min_vol. Ok (with_new_min_volume actual_min_vol u1))
       | None \<Rightarrow> Ok u1) (\<lambda>update_msg.
     rbind (update_new_volume env req m bc rc update_msg) (\<lambda>(update_msg, new_volume).
     if new_volume \<le> mo_reserved_amount m then Err (NewVolumeBelowReserved new_volume (mo_reserved_amount m))
     else rbind (map_err MakerBuild (validate_max_vol (min_trading_vol bc) (min_trading_vol rc)
           (new_volume - mo_reserved_amount m) (mu_min_volume req) p)) (\<lambda>_. Ok (update_msg, new_volume)))) = Ok (upd, volume)"
    using run unfolding update_maker_order_terms_def Let_def c0 option.case c_def[symmetric] u0_def[symmetric]
    by (auto simp del: rbind.simps)
  have p: "0 < p" "new_price u1 = mu_new_price req" "\<forall>q. mu_new_price req = Some q \<longrightarrow> 0 < q"
    "new_min_volume u1 = None" "new_max_volume u1 = None" "new_conf_settings u1 = Some c" "upd_uuid u1 = mu_uuid req"
    using 1 m u0 by (auto split: option.splits)
  obtain u2 where 2: "(case mu_min_volume req of
         Some min_volume \<Rightarrow>
           rbind (map_err MakerBuild (validate_and_get_min_vol (min_trading_vol bc) (min_trading_vol rc) (Some min_volume) p))
             (\<lambda>actual_min_vol. Ok (with_new_min_volume actual_min_vol u1))
       | None \<Rightarrow> Ok u1) = Ok u2"
    and 3: "update_new_volume env req m bc rc u2 = Ok (upd, volume)" and vol: "mo_reserved_amount m < volume"
    using run2 by (auto split: if_splits)
  have u2: "new_min_volume u2 = mu_min_volume req" "\<forall>v. mu_min_volume req = Some v \<longrightarrow> 0 \<le> v"
    "new_price u2 = mu_new_price req" "new_max_volume u2 = None" "new_conf_settings u2 = Some c" "upd_uuid u2 = mu_uuid req"
    using 2 p new_min_vol[OF _ p(1) min] by (auto split: option.splits)
  show ?thesis
    using u2 p(3) vol update_new_volume_Ok[OF 3] unfolding updated_terms_def by auto
qed

lemma update_terms_no_panic:
  assumes "mo_conf_settings m \<noteq> None" "0 < mo_price m"
  shows "update_maker_order_terms env req m bc rc \<noteq> Panic"
  using assms update_new_volume_no_panic[of env req m bc rc]
  by (auto simp: update_maker_order_terms_def Let_def validate_min_vol_neq_Panic split: option.splits)

lemma updated_order_fields:
  assumes "updated_terms req m upd volume"
  shows "mo_price (mo_apply_updated now upd m) = unwrap_or (mo_price m) (mu_new_price req)"
    "mo_min_base_vol (mo_apply_updated now upd m) = unwrap_or (mo_min_base_vol m) (mu_min_volume req)"
    "mo_max_base_vol (mo_apply_updated now upd m) = volume"
    "mo_matches (mo_apply_updated now upd m) = mo_matches m" "mo_uuid (mo_apply_updated now upd m) = mo_uuid m"
    "mo_base (mo_apply_updated now upd m) = mo_base m" "mo_rel (mo_apply_updated now upd m) = mo_rel m"
    "mo_started_swaps (mo_apply_updated now upd m) = mo_started_swaps m"
    "mo_conf_settings (mo_apply_updated now upd m) \<noteq> None"
  using assms by (auto simp: mo_apply_updated_def Let_def updated_terms_def split: option.splits)

lemma updated_order_ok:
  assumes ok: "maker_entry_ok u m" and t: "updated_terms req m upd volume"
  shows "maker_entry_ok u (mo_apply_updated now upd m)" "0 < mo_available_amount (mo_apply_updated now upd m)"
proof -
  note f = updated_order_fields[OF t, of now]
  have "mo_reserved_amount (mo_apply_updated now upd m) = mo_reserved_amount m"
    by (simp add: mo_reserved_amount_def f(4))
  then show avail: "0 < mo_available_amount (mo_apply_updated now upd m)"
    using t by (simp add: mo_available_amount_def f(3) updated_terms_def)
  have "0 < unwrap_or (mo_price m) (mu_new_price req)" "0 \<le> unwrap_or (mo_min_base_vol m) (mu_min_volume req)"
    using ok t by (auto simp: maker_entry_ok_def holds_capacity_def wf_maker_order_def updated_terms_def unwrap_or_def
        split: option.splits)
  then show "maker_entry_ok u (mo_apply_updated now upd m)"
    using ok avail f by (simp add: maker_entry_ok_def holds_capacity_def wf_maker_order_def)
qed

lemma save_on_update_frame:
  "st_writable (fst (save_maker_order_on_update dec m st)) = st_writable st"
  "st_active_takers (fst (save_maker_order_on_update dec m st)) = st_active_takers st"
  "st_active_makers (fst (save_maker_order_on_update dec m st)) = st_active_makers (fst (save_new_active_maker_order m st))"
  "snd (save_maker_order_on_update dec m st) \<noteq> Panic"
  "snd (save_maker_order_on_update dec m st) = Err e \<Longrightarrow> fst (save_maker_order_on_update dec m st) = st"
  "snd (save_maker_order_on_update dec m st) = Ok () \<Longrightarrow> st_writable st"
  by (auto simp: save_maker_order_on_update_def update_active_maker_order_def save_new_active_maker_order_def
      update_maker_order_row_def update_my_order_def st_write_def split: if_splits)

lemma om_ok_update_maker:
  assumes ok: "om_ok s" and u: "map_of (moc_orders (om_makers s)) u = Some m"
    and m': "maker_entry_ok u m'" "mo_uuid m' = u" "mo_base m' = mo_base m"
  shows "om_ok (om_set_maker u m' (s\<lparr>om_storage := fst (save_maker_order_on_update dec m' (om_storage s))\<rparr>))"
proof (rule om_ok_intro_maker[OF ok])
  show "map_of (moc_orders (om_makers s)) u = Some m" "maker_entry_ok u m'" by fact+
  let ?s = "om_set_maker u m' (s\<lparr>om_storage := fst (save_maker_order_on_update dec m' (om_storage s))\<rparr>)"
  show "om_takers ?s = om_takers s" "om_pending ?s = om_pending s" by (simp_all add: om_set_maker_def)
  show "moc_safe (om_makers ?s)"
    using moc_set_order_safe[OF _ u m'(2,3)] ok by (simp add: om_ok_def om_set_maker_def)
  show mem: "map_of (moc_orders (om_makers ?s)) = (map_of (moc_orders (om_makers s)))(u \<mapsto> m')"
    using u by (simp add: om_set_maker_def)
  have "storage_mirrors (om_storage s) (om_makers s) (om_takers s)" using ok by (simp add: om_ok_def)
  then show "storage_mirrors (om_storage ?s) (om_makers ?s) (om_takers s)"
    by (rule storage_mirrors_makers)
      (unfold mem, simp_all add: om_set_maker_def save_on_update_frame maker_dir.load_save m'(2))
qed

text \<open>What an update leaves: the order with the new terms, which every node is told, or everything as it
  was.\<close>

definition maker_order_changed :: "maker_order_update_req \<Rightarrow> 'db om_state \<Rightarrow>
    'db om_state \<times> (rpc_error, maker_order) rust_result \<Rightarrow> bool" where
  "maker_order_changed req s res = (case res of
     (s', Ok m') \<Rightarrow> (\<exists>m. moc_get_order (mu_uuid req) (om_makers s) = Some m \<and> \<not> mo_has_ongoing_matches m
        \<and> mo_price m' = unwrap_or (mo_price m) (mu_new_price req)
        \<and> mo_min_base_vol m' = unwrap_or (mo_min_base_vol m) (mu_min_volume req)
        \<and> (\<not> unwrap_or False (mu_max req) \<longrightarrow> mo_max_base_vol m' = mo_max_base_vol m + unwrap_or 0 (mu_volume_delta req))
        \<and> mo_matches m' = mo_matches m \<and> 0 < mo_available_amount m'
        \<and> map_of (moc_orders (om_makers s')) = (map_of (moc_orders (om_makers s)))(mu_uuid req \<mapsto> m')
        \<and> (\<exists>upd. om_sent s' = om_sent s @ [(mo_orderbook_topic m', MakerOrderUpdatedMsg upd, mo_p2p_privkey m')]
             \<and> upd_uuid upd = mu_uuid req \<and> new_price upd = mu_new_price req
             \<and> new_max_volume upd = Some (mo_available_amount m') \<and> new_min_volume upd = mu_min_volume req))
   | (s', Err e) \<Rightarrow> s' = s
   | (_, Panic) \<Rightarrow> False)"

lemma upd_uuid_with_max [simp]: "upd_uuid (with_new_max_volume v m) = upd_uuid m"
  by (cases m) simp_all

lemma update_commit_changed:
  fixes s :: "'db om_state"
  assumes ok: "om_ok s" and m: "map_of (moc_orders (om_makers s)) (mu_uuid req) = Some m"
    and free: "\<not> mo_has_ongoing_matches m" and t: "updated_terms req m upd volume"
  shows "maker_order_changed req s (update_maker_order_commit env (mu_uuid req) m upd volume s)
    \<and> om_ok (fst (update_maker_order_commit env (mu_uuid req) m upd volume s))"
proof -
  let ?dec = "se_to_decimal (oe_swap (re_om env))"
  define m' where "m' = mo_apply_updated (oe_now_ms (re_om env)) upd m"
  have e: "maker_entry_ok (mu_uuid req) m" "mo_uuid m = mu_uuid req" using om_ok_maker[OF ok m] by simp_all
  note f = updated_order_fields[OF t, of "oe_now_ms (re_om env)", folded m'_def]
  note m'_ok = updated_order_ok[OF e(1) t, of "oe_now_ms (re_om env)", folded m'_def]
  have avail: "mo_available_amount m' = volume - mo_reserved_amount m"
    by (simp add: mo_available_amount_def f mo_reserved_amount_def)
  obtain st r where save: "save_maker_order_on_update ?dec m' (om_storage s) = (st, r)" by (metis prod.collapse)
  have run: "update_maker_order_commit env (mu_uuid req) m upd volume s = (case r of
      Ok _ \<Rightarrow> (om_notify_updated (with_new_max_volume (volume - mo_reserved_amount m) upd) m'
                 (om_set_maker (mu_uuid req) m' (s\<lparr>om_storage := st\<rparr>)), Ok m')
    | Err e \<Rightarrow> (s\<lparr>om_storage := st\<rparr>, Err (StorageFailed e)) | Panic \<Rightarrow> (s\<lparr>om_storage := st\<rparr>, Panic))"
    using m by (simp add: update_maker_order_commit_def moc_get_order_def m'_def[symmetric] Let_def save)
  have changed: "om_ok (om_set_maker (mu_uuid req) m' (s\<lparr>om_storage := st\<rparr>))"
    using om_ok_update_maker[OF ok m m'_ok(1), of ?dec] f e by (simp add: save)
  show ?thesis
  proof (cases r)
    case Panic
    then show ?thesis using save_on_update_frame(4)[of ?dec m' "om_storage s"] save by simp
  next
    case (Err x)
    then have "st = om_storage s" using save_on_update_frame(5)[of ?dec m' "om_storage s" x] save by simp
    then show ?thesis using ok Err by (simp add: run maker_order_changed_def)
  next
    case (Ok _)
    have "new_price upd = mu_new_price req" "new_min_volume upd = mu_min_volume req" "upd_uuid upd = mu_uuid req"
      using t by (simp_all add: updated_terms_def)
    moreover have "\<not> unwrap_or False (mu_max req) \<Longrightarrow> volume = mo_max_base_vol m + unwrap_or 0 (mu_volume_delta req)"
      using t by (simp add: updated_terms_def)
    ultimately show ?thesis
      using changed free m f m'_ok(2) avail
      by (auto simp: run Ok maker_order_changed_def moc_get_order_def om_notify_updated_def
          maker_order_updated_p2p_notify_def om_set_maker_def)
  qed
qed

lemma update_maker_order_changed:
  fixes s :: "'db om_state"
  assumes ok: "om_ok s" and env: "rpc_env_ok env"
  shows "maker_order_changed req s (update_maker_order env req s) \<and> om_ok (fst (update_maker_order env req s))"
proof (cases "\<exists>e. update_maker_order env req s = (s, Err e)")
  case True
  then show ?thesis using ok by (auto simp: maker_order_changed_def)
next
  case False
  note nf = False[unfolded update_maker_order_def moc_get_order_def]
  obtain m where m: "map_of (moc_orders (om_makers s)) (mu_uuid req) = Some m"
    using nf by (cases "map_of (moc_orders (om_makers s)) (mu_uuid req)") auto
  have free: "\<not> mo_has_ongoing_matches m" using nf m by (auto split: if_splits)
  obtain bc rc where coins: "find_pair (oe_swap (re_om env)) (mo_base m) (mo_rel m) = Found (bc, rc)"
    using nf m free by (cases "find_pair (oe_swap (re_om env)) (mo_base m) (mo_rel m)") auto
  have min: "0 < min_trading_vol bc"
    using coins env by (auto simp: find_pair_def rpc_env_ok_def split: find_result.splits)
  have e: "mo_conf_settings m \<noteq> None" "0 < mo_price m"
    using om_ok_maker[OF ok m] by (auto simp: maker_entry_ok_def holds_capacity_def wf_maker_order_def)
  obtain upd volume where terms: "update_maker_order_terms env req m bc rc = Ok (upd, volume)"
    using nf m free coins update_terms_no_panic[OF e, of env req bc rc]
    by (cases "update_maker_order_terms env req m bc rc") auto
  have "update_maker_order env req s = update_maker_order_commit env (mu_uuid req) m upd volume s"
    by (simp add: update_maker_order_def moc_get_order_def m free coins terms)
  then show ?thesis
    using update_commit_changed[OF ok m free update_terms_Ok[OF terms e(2) min]] by simp
qed

section \<open>Cancelling\<close>

lemma om_ok_cancel_taker:
  assumes "om_ok s" "map_of (om_takers s) u = Some t"
  shows "om_ok (cancel_taker_order env reason u t s)"
  unfolding cancel_taker_order_def by (rule om_ok_delete_taker[OF assms])

text \<open>Filing the cancelled orders away takes their files out, one by one.\<close>

lemma file_cancelled_makers:
  assumes "\<forall>(u, m) \<in> set xs. mo_uuid m = u"
  shows "om_makers (fold (file_cancelled_maker reason env) xs s) = om_makers s
    \<and> om_takers (fold (file_cancelled_maker reason env) xs s) = om_takers s
    \<and> om_pending (fold (file_cancelled_maker reason env) xs s) = om_pending s
    \<and> (let st = om_storage s; st' = om_storage (fold (file_cancelled_maker reason env) xs s) in
        st_writable st' = st_writable st \<and> st_active_takers st' = st_active_takers st
        \<and> (hm_wf (st_active_makers st) \<longrightarrow> hm_wf (st_active_makers st'))
        \<and> (st_writable st \<longrightarrow> map_of (st_active_makers st') = map_of (st_active_makers st) |` (- fst ` set xs)))"
  using assms
proof (induction xs arbitrary: s)
  case (Cons x xs)
  obtain u m where x: "x = (u, m)" by (metis prod.collapse)
  let ?s = "file_cancelled_maker reason env x s"
  have "om_makers ?s = om_makers s" "om_takers ?s = om_takers s" "om_pending ?s = om_pending s"
    "st_writable (om_storage ?s) = st_writable (om_storage s)"
    "st_active_takers (om_storage ?s) = st_active_takers (om_storage s)"
    "hm_wf (st_active_makers (om_storage s)) \<Longrightarrow> hm_wf (st_active_makers (om_storage ?s))"
    "st_writable (om_storage s) \<Longrightarrow>
      map_of (st_active_makers (om_storage ?s)) = (map_of (st_active_makers (om_storage s)))(u := None)"
    using Cons.prems by (simp_all add: file_cancelled_maker_def x Let_def maker_dir.load_delete)
  then show ?case
    using Cons.IH[of ?s] Cons.prems
    by (auto simp: x Let_def restrict_map_def fun_eq_iff)
qed (simp add: restrict_map_def)

lemma file_cancelled_takers:
  assumes "\<forall>(u, t) \<in> set xs. tr_uuid (to_request t) = u"
  shows "om_makers (fold (file_cancelled_taker env) xs s) = om_makers s
    \<and> om_takers (fold (file_cancelled_taker env) xs s) = om_takers s
    \<and> om_pending (fold (file_cancelled_taker env) xs s) = om_pending s
    \<and> (let st = om_storage s; st' = om_storage (fold (file_cancelled_taker env) xs s) in
        st_writable st' = st_writable st \<and> st_active_makers st' = st_active_makers st
        \<and> (hm_wf (st_active_takers st) \<longrightarrow> hm_wf (st_active_takers st'))
        \<and> (st_writable st \<longrightarrow> map_of (st_active_takers st') = map_of (st_active_takers st) |` (- fst ` set xs)))"
  using assms
proof (induction xs arbitrary: s)
  case (Cons x xs)
  obtain u t where x: "x = (u, t)" by (metis prod.collapse)
  let ?s = "file_cancelled_taker env x s"
  have "om_makers ?s = om_makers s" "om_takers ?s = om_takers s" "om_pending ?s = om_pending s"
    "st_writable (om_storage ?s) = st_writable (om_storage s)"
    "st_active_makers (om_storage ?s) = st_active_makers (om_storage s)"
    "hm_wf (st_active_takers (om_storage s)) \<Longrightarrow> hm_wf (st_active_takers (om_storage ?s))"
    "st_writable (om_storage s) \<Longrightarrow>
      map_of (st_active_takers (om_storage ?s)) = (map_of (st_active_takers (om_storage s)))(u := None)"
    using Cons.prems by (simp_all add: file_cancelled_taker_def x taker_dir.load_delete)
  then show ?case
    using Cons.IH[of ?s] Cons.prems
    by (auto simp: x Let_def restrict_map_def fun_eq_iff)
qed (simp add: restrict_map_def)

lemma cancel_orders_by_result:
  fixes s :: "'db om_state"
  assumes ok: "om_ok s" and run: "cancel_orders_by env by s = (s', cancelled, matching)"
  shows "om_ok s'"
    "map_of (moc_orders (om_makers s')) = (\<lambda>u. case map_of (moc_orders (om_makers s)) u of
       Some m \<Rightarrow> if cancels_maker by m \<and> mo_is_cancellable m then None else Some m | None \<Rightarrow> None)"
    "map_of (om_takers s') = (\<lambda>u. case map_of (om_takers s) u of
       Some t \<Rightarrow> if cancels_taker by t \<and> to_is_cancellable t then None else Some t | None \<Rightarrow> None)"
    "u \<in> set cancelled \<longleftrightarrow>
       (\<exists>m. map_of (moc_orders (om_makers s)) u = Some m \<and> cancels_maker by m \<and> mo_is_cancellable m)
       \<or> (\<exists>t. map_of (om_takers s) u = Some t \<and> cancels_taker by t \<and> to_is_cancellable t)"
    "u \<in> set matching \<longleftrightarrow>
       (\<exists>m. map_of (moc_orders (om_makers s)) u = Some m \<and> cancels_maker by m \<and> \<not> mo_is_cancellable m)
       \<or> (\<exists>t. map_of (om_takers s) u = Some t \<and> cancels_taker by t \<and> \<not> to_is_cancellable t)"
proof -
  let ?ms = "cancelled_makers by s" and ?ts = "cancelled_takers by s"
  have inv: "moc_safe (om_makers s)" and wf: "hm_wf (moc_orders (om_makers s))" "hm_wf (om_takers s)"
    using ok by (simp_all add: om_ok_def moc_safe_def)
  have ms: "u \<in> fst ` set ?ms \<longleftrightarrow> (\<exists>m. map_of (moc_orders (om_makers s)) u = Some m \<and> cancels_maker by m \<and> mo_is_cancellable m)" for u
    unfolding cancelled_makers_def by (rule hm_keys_filter[OF wf(1)])
  have ts: "u \<in> fst ` set ?ts \<longleftrightarrow> (\<exists>t. map_of (om_takers s) u = Some t \<and> cancels_taker by t \<and> to_is_cancellable t)" for u
    unfolding cancelled_takers_def by (rule hm_keys_filter[OF wf(2)])
  let ?c = "fold (\<lambda>(u, _) c. fst (moc_remove_order u c)) ?ms (om_makers s)"
  let ?t = "filter (\<lambda>(_, t). \<not> (cancels_taker by t \<and> to_is_cancellable t)) (om_takers s)"
  let ?s0 = "s\<lparr>om_makers := ?c, om_takers := ?t\<rparr>"
  let ?s1 = "fold (file_cancelled_maker MakerCancelled env) ?ms ?s0"
  let ?s2 = "fold (file_cancelled_taker env) ?ts ?s1"
  have res: "s' = ?s2" "cancelled = map fst ?ms @ map fst ?ts" "matching = currently_matching by s"
    using run by (simp_all add: cancel_orders_by_def Let_def)
  note c = moc_remove_orders[OF inv, of ?ms]
  have c_orders: "map_of (moc_orders ?c) = (\<lambda>u. case map_of (moc_orders (om_makers s)) u of
       Some m \<Rightarrow> if cancels_maker by m \<and> mo_is_cancellable m then None else Some m | None \<Rightarrow> None)"
    unfolding conjunct2[OF c] by (auto simp: fun_eq_iff restrict_map_def ms split: option.split)
  have t_orders: "map_of ?t = (\<lambda>u. case map_of (om_takers s) u of
       Some t \<Rightarrow> if cancels_taker by t \<and> to_is_cancellable t then None else Some t | None \<Rightarrow> None)"
    by (auto simp: fun_eq_iff hm_get_filter[OF wf(2)] split: option.split)
  have t_restrict: "map_of ?t = map_of (om_takers s) |` (- fst ` set ?ts)"
    unfolding t_orders by (auto simp: fun_eq_iff restrict_map_def ts split: option.split)
  have "\<forall>(u, m) \<in> set ?ms. mo_uuid m = u" "\<forall>(u, t) \<in> set ?ts. tr_uuid (to_request t) = u"
    using om_ok_maker[OF ok] om_ok_taker[OF ok] wf by (auto simp: cancelled_makers_def cancelled_takers_def taker_entry_ok_def)
  note f1 = file_cancelled_makers[OF this(1), of MakerCancelled env ?s0, unfolded Let_def]
    and f2 = file_cancelled_takers[OF this(2), of env ?s1, unfolded Let_def]
  have same: "om_makers ?s2 = ?c" "om_takers ?s2 = ?t" "om_pending ?s2 = om_pending s" using f1 f2 by simp_all
  have "storage_mirrors (om_storage s) (om_makers s) (om_takers s)" using ok by (simp add: om_ok_def)
  then have "storage_mirrors (om_storage ?s1) ?c (om_takers s)"
    by (rule storage_mirrors_makers) (use f1 in \<open>simp_all add: restrict_map_def conjunct2[OF c]\<close>)
  then have mirror: "storage_mirrors (om_storage ?s2) ?c ?t"
  proof (rule storage_mirrors_takers)
    assume "st_writable (om_storage ?s1)" "map_of (st_active_takers (om_storage ?s1)) = map_of (om_takers s)"
    then show "map_of (st_active_takers (om_storage ?s2)) = map_of ?t" unfolding t_restrict using f2 by metis
  qed (use f2 in blast)+
  have makers: "maker_entry_ok u m" if "map_of (moc_orders ?c) u = Some m" for u m
    using that ok unfolding c_orders om_ok_def by (auto split: option.splits if_splits)
  have takers: "taker_entry_ok u t" if "map_of ?t u = Some t" for u t
    using that ok unfolding t_orders om_ok_def by (auto split: option.splits if_splits)
  have "dom (map_of ?t) \<subseteq> dom (map_of (om_takers s))" "dom (map_of (moc_orders ?c)) \<subseteq> dom (map_of (moc_orders (om_makers s)))"
    unfolding c_orders t_orders by (auto split: option.splits)
  then have "dom (map_of ?t) \<inter> dom (map_of (moc_orders ?c)) = {}" using ok unfolding om_ok_def by blast
  moreover have "hm_wf ?t" using wf(2) by (simp add: distinct_map_filter)
  ultimately show "om_ok s'"
    using ok conjunct1[OF c] mirror makers takers unfolding res(1) om_ok_def same by blast
  show "map_of (moc_orders (om_makers s')) = (\<lambda>u. case map_of (moc_orders (om_makers s)) u of
       Some m \<Rightarrow> if cancels_maker by m \<and> mo_is_cancellable m then None else Some m | None \<Rightarrow> None)"
    unfolding res(1) same by (rule c_orders)
  show "map_of (om_takers s') = (\<lambda>u. case map_of (om_takers s) u of
       Some t \<Rightarrow> if cancels_taker by t \<and> to_is_cancellable t then None else Some t | None \<Rightarrow> None)"
    unfolding res(1) same by (rule t_orders)
  show "u \<in> set cancelled \<longleftrightarrow>
       (\<exists>m. map_of (moc_orders (om_makers s)) u = Some m \<and> cancels_maker by m \<and> mo_is_cancellable m)
       \<or> (\<exists>t. map_of (om_takers s) u = Some t \<and> cancels_taker by t \<and> to_is_cancellable t)"
    unfolding res(2) by (simp add: ms ts)
  show "u \<in> set matching \<longleftrightarrow>
       (\<exists>m. map_of (moc_orders (om_makers s)) u = Some m \<and> cancels_maker by m \<and> \<not> mo_is_cancellable m)
       \<or> (\<exists>t. map_of (om_takers s) u = Some t \<and> cancels_taker by t \<and> \<not> to_is_cancellable t)"
    unfolding res(3) currently_matching_def set_append set_map Un_iff hm_keys_filter[OF wf(1)] hm_keys_filter[OF wf(2)]
    by (rule refl)
qed

lemma om_ok_cancel_order:
  assumes ok: "om_ok s"
  shows "om_ok (fst (cancel_order env u s))"
proof -
  have "mo_uuid m = u" if "map_of (moc_orders (om_makers s)) u = Some m" for m
    using om_ok_maker[OF ok that] by simp
  then show ?thesis
    using ok om_ok_cancel_maker[OF ok, of _ u env MakerCancelled] om_ok_cancel_taker[OF ok, of u]
    by (auto simp: cancel_order_def moc_get_order_def split: option.split)
qed

section \<open>Restart\<close>

lemma map_of_keyed: "map_of (map (\<lambda>x. (key x, x)) xs) k = None \<longleftrightarrow> k \<notin> key ` set xs"
  by (simp add: map_of_eq_None_iff image_image)

lemma keyed_add:
  assumes "key x \<notin> key ` set xs"
  shows "m(key x \<mapsto> x) ++ map_of (map (\<lambda>x. (key x, x)) xs) = m ++ map_of (map (\<lambda>x. (key x, x)) (x # xs))"
  using assms map_of_keyed[of key xs "key x"] by (auto simp: fun_eq_iff map_add_def split: option.split)

lemma moc_add_orders:
  assumes "moc_safe c" "distinct (map mo_uuid ms)" "\<forall>m \<in> set ms. map_of (moc_orders c) (mo_uuid m) = None"
  shows "moc_safe (fold moc_add_order ms c)
    \<and> map_of (moc_orders (fold moc_add_order ms c)) = map_of (moc_orders c) ++ map_of (map (\<lambda>m. (mo_uuid m, m)) ms)"
  using assms
proof (induction ms arbitrary: c)
  case (Cons m ms)
  have notin: "mo_uuid m \<notin> mo_uuid ` set ms" using Cons.prems(2) by simp
  have inv: "moc_safe (moc_add_order m c)" by (rule moc_add_order_safe) (use Cons.prems in simp_all)
  have fresh: "\<forall>m' \<in> set ms. map_of (moc_orders (moc_add_order m c)) (mo_uuid m') = None"
  proof
    fix m' assume m': "m' \<in> set ms"
    then have "mo_uuid m' \<noteq> mo_uuid m" using notin by (metis image_eqI)
    then show "map_of (moc_orders (moc_add_order m c)) (mo_uuid m') = None" using Cons.prems(3) m' by simp
  qed
  have IH: "moc_safe (fold moc_add_order ms (moc_add_order m c))
    \<and> map_of (moc_orders (fold moc_add_order ms (moc_add_order m c)))
      = map_of (moc_orders (moc_add_order m c)) ++ map_of (map (\<lambda>m. (mo_uuid m, m)) ms)"
    by (rule Cons.IH[OF inv _ fresh]) (use Cons.prems(2) in simp)
  show ?case
    using IH unfolding fold_simps moc_add_order_orders keyed_add[of mo_uuid m ms, OF notin] by blast
qed simp

lemma takers_inserted:
  "distinct (map (\<lambda>t. tr_uuid (to_request t)) ts) \<Longrightarrow>
   map_of (fold (\<lambda>t. AList.update (tr_uuid (to_request t)) t) ts m)
     = map_of m ++ map_of (map (\<lambda>t. (tr_uuid (to_request t), t)) ts)
   \<and> (hm_wf m \<longrightarrow> hm_wf (fold (\<lambda>t. AList.update (tr_uuid (to_request t)) t) ts m))"
proof (induction ts arbitrary: m)
  case (Cons t ts)
  let ?m = "AList.update (tr_uuid (to_request t)) t m"
  have "tr_uuid (to_request t) \<notin> (\<lambda>t. tr_uuid (to_request t)) ` set ts" using Cons.prems by simp
  note keyed = keyed_add[OF this, of "map_of m"]
  have "map_of (fold (\<lambda>t. AList.update (tr_uuid (to_request t)) t) ts ?m)
      = map_of ?m ++ map_of (map (\<lambda>t. (tr_uuid (to_request t), t)) ts)" using Cons by simp
  then have "map_of (fold (\<lambda>t. AList.update (tr_uuid (to_request t)) t) ts ?m)
      = map_of m ++ map_of (map (\<lambda>t. (tr_uuid (to_request t), t)) (t # ts))"
    unfolding hm_get_update by (simp only: keyed)
  moreover have "hm_wf m \<longrightarrow> hm_wf (fold (\<lambda>t. AList.update (tr_uuid (to_request t)) t) ts ?m)"
    using Cons.IH[of ?m] Cons.prems hm_wf_update[of m "tr_uuid (to_request t)" t] by simp
  ultimately show ?case unfolding fold_simps by blast
qed simp

text \<open>Reading back a directory whose files are named by the orders' uuids.\<close>

lemma keyed_values:
  "\<forall>(k, v) \<in> set m. key v = k \<Longrightarrow> map (\<lambda>v. (key v, v)) (map snd m) = m"
  by (induction m) auto

lemma saved_as_ok:
  assumes "saved_as x m" "maker_entry_ok u m"
  shows "maker_entry_ok u x"
proof -
  have x: "x = m\<lparr>mo_max_base_vol := mo_max_base_vol x\<rparr>" and v: "mo_max_base_vol m \<le> mo_max_base_vol x"
    using assms(1) by (simp_all add: saved_as_def)
  have "maker_entry_ok u (m\<lparr>mo_max_base_vol := v\<rparr>)" if "mo_max_base_vol m \<le> v" for v
    using assms(2) that
    by (simp add: maker_entry_ok_def holds_capacity_def wf_maker_order_def mo_available_amount_def mo_reserved_amount_def)
  from this[OF v] show ?thesis by (subst x)
qed

text \<open>What the mirror says of the files: each has the uuid of its order as its name.\<close>

lemma saved_makers:
  assumes ok: "om_ok s" and w: "st_writable (om_storage s)" and x: "map_of (st_active_makers (om_storage s)) u = Some x"
  shows "\<exists>m. map_of (moc_orders (om_makers s)) u = Some m \<and> saved_as x m \<and> mo_uuid x = u \<and> maker_entry_ok u x"
proof -
  have "rel_option saved_as (Some x) (map_of (moc_orders (om_makers s)) u)"
    using ok w x unfolding om_ok_def storage_mirrors_def by metis
  then obtain m where m: "map_of (moc_orders (om_makers s)) u = Some m" "saved_as x m"
    by (auto simp: option_rel_Some1)
  then show ?thesis
    using om_ok_maker[OF ok m(1)] saved_as_uuid[OF m(2)] saved_as_ok[OF m(2)] by simp
qed

lemma kick_start_restores:
  fixes s :: "'db om_state"
  assumes ok: "om_ok s" and w: "st_writable (om_storage s)"
    and new: "om_makers s0 = moc_new" "om_takers s0 = []" "om_pending s0 = []" "om_storage s0 = om_storage s"
    and run: "orders_kick_start s0 = (s', coins)"
  shows "om_ok s' \<and> map_of (om_takers s') = map_of (om_takers s)
    \<and> (\<forall>u. rel_option saved_as (map_of (moc_orders (om_makers s')) u) (map_of (moc_orders (om_makers s)) u))"
proof -
  let ?st = "om_storage s"
  have mir: "hm_wf (st_active_makers ?st)" "hm_wf (st_active_takers ?st)" "map_of (st_active_takers ?st) = map_of (om_takers s)"
    "\<And>u. rel_option saved_as (map_of (st_active_makers ?st) u) (map_of (moc_orders (om_makers s)) u)"
    using ok w by (simp_all add: om_ok_def storage_mirrors_def)
  have mk: "\<forall>(k, v) \<in> set (st_active_makers ?st). mo_uuid v = k"
  proof clarify
    fix k v assume "(k, v) \<in> set (st_active_makers ?st)"
    with mir(1) have "map_of (st_active_makers ?st) k = Some v" by simp
    from saved_makers[OF ok w this] show "mo_uuid v = k" by blast
  qed
  have tk: "\<forall>(k, v) \<in> set (st_active_takers ?st). tr_uuid (to_request v) = k"
  proof clarify
    fix k v assume "(k, v) \<in> set (st_active_takers ?st)"
    with mir(2) have "map_of (st_active_takers ?st) k = Some v" by simp
    then have "map_of (om_takers s) k = Some v" using mir(3) by simp
    from om_ok_taker[OF ok this] show "tr_uuid (to_request v) = k" by (simp add: taker_entry_ok_def)
  qed
  note mv = keyed_values[where key = mo_uuid, OF mk] and tv = keyed_values[where key = "\<lambda>t. tr_uuid (to_request t)", OF tk]
  have "map fst (map (\<lambda>v. (mo_uuid v, v)) (map snd (st_active_makers ?st))) = map mo_uuid (load_active_maker_orders ?st)"
    "map fst (map (\<lambda>v. (tr_uuid (to_request v), v)) (map snd (st_active_takers ?st)))
      = map (\<lambda>t. tr_uuid (to_request t)) (load_active_taker_orders ?st)"
    by (simp_all add: load_active_maker_orders_def load_active_taker_orders_def)
  then have dist: "distinct (map mo_uuid (load_active_maker_orders ?st))"
    "distinct (map (\<lambda>t. tr_uuid (to_request t)) (load_active_taker_orders ?st))"
    unfolding mv tv using mir(1,2) by simp_all
  let ?c = "fold moc_add_order (load_active_maker_orders ?st) moc_new"
  let ?t = "fold (\<lambda>t. AList.update (tr_uuid (to_request t)) t) (load_active_taker_orders ?st) []"
  have "\<forall>m \<in> set (load_active_maker_orders ?st). map_of (moc_orders moc_new) (mo_uuid m) = None"
    by (simp add: moc_new_def)
  from moc_add_orders[OF moc_new_safe dist(1) this]
  have c: "moc_safe ?c" "map_of (moc_orders ?c) = map_of (st_active_makers ?st)"
    unfolding load_active_maker_orders_def mv by (simp_all add: moc_new_def)
  have t: "map_of ?t = map_of (om_takers s)" "hm_wf ?t"
    using takers_inserted[OF dist(2), of "[]"] unfolding load_active_taker_orders_def tv mir(3) by simp_all
  have s': "om_makers s' = ?c" "om_takers s' = ?t" "om_storage s' = ?st" "om_pending s' = []"
    using run new by (auto simp: orders_kick_start_def Let_def)
  have entries: "maker_entry_ok u x" if "map_of (moc_orders ?c) u = Some x" for u x
    using saved_makers[OF ok w, of u x] that unfolding c(2) by blast
  have "dom (map_of (moc_orders ?c)) \<subseteq> dom (map_of (moc_orders (om_makers s)))"
  proof
    fix u assume "u \<in> dom (map_of (moc_orders ?c))"
    then obtain x where "map_of (st_active_makers ?st) u = Some x" unfolding c(2) by blast
    from saved_makers[OF ok w this] show "u \<in> dom (map_of (moc_orders (om_makers s)))" by blast
  qed
  then have disj: "dom (map_of ?t) \<inter> dom (map_of (moc_orders ?c)) = {}"
    using ok unfolding t om_ok_def by blast
  have "rel_option saved_as y y" for y by (cases y) simp_all
  then have "storage_mirrors ?st ?c ?t" using mir unfolding storage_mirrors_def c(2) t(1) by blast
  then have "om_ok s'"
    using ok c(1) entries t disj unfolding om_ok_def s' by (simp add: pending_ok_def)
  then show ?thesis using mir(4) unfolding s' c(2) t(1) by blast
qed

section \<open>Properties\<close>





text \<open>C17: a restart loses no order. From the saved orders of a node whose disk took its writes, the
  new process restores every taker order as it was and every maker order up to its maximum volume,
  which is at least what it was (reductions by a balance check are in memory only), restores no other
  order, and starts in a state that satisfies the invariant.\<close>

theorem restart_restores_the_orders:
  assumes "om_ok s" "st_writable (om_storage s)"
    and "om_makers s0 = moc_new" "om_takers s0 = []" "om_pending s0 = []" "om_storage s0 = om_storage s"
    and "orders_kick_start s0 = (s', coins)"
  shows "om_ok s' \<and> map_of (om_takers s') = map_of (om_takers s)
    \<and> (\<forall>u. rel_option saved_as (moc_get_order u (om_makers s')) (moc_get_order u (om_makers s)))"
  unfolding moc_get_order_def by (rule kick_start_restores[OF assms])

section \<open>Witnesses\<close>

definition demo_rpc_env :: rpc_env where
  "demo_rpc_env = \<lparr>re_om = demo_om_env 8, re_build = demo_env\<lparr>be_new_uuid := 12\<rparr>,
     re_use_trading_proto_v2 = True, re_pre_check_for_order_creation = (\<lambda>_ _. True),
     re_get_max_maker_vol = (\<lambda>_. Some 100), re_check_other_coin_balance = (\<lambda>_. True),
     re_check_balance_for_maker_swap = (\<lambda>_ _ _. True), re_check_balance_for_taker_swap = (\<lambda>_ _ _. True)\<rparr>"

definition demo_buy :: sell_buy_request where
  "demo_buy = \<lparr>sb_base = ''KMD'', sb_rel = ''XFG'', sb_price = 2, sb_volume = 3, sb_timeout = None,
     sb_method = ''buy'', sb_match_by = MatchAny, sb_order_type = GoodTillCancelled, sb_base_confs = None,
     sb_base_nota = None, sb_rel_confs = None, sb_rel_nota = None, sb_min_volume = None,
     sb_save_in_history = True, sb_swap_method = ''htlc''\<rparr>"

definition demo_set_price :: set_price_req where
  "demo_set_price = \<lparr>sp_base = ''KMD'', sp_rel = ''XFG'', sp_price = 3, sp_max = False, sp_volume = 5,
     sp_min_volume = None, sp_cancel_previous = True, sp_base_confs = None, sp_base_nota = None,
     sp_rel_confs = None, sp_rel_nota = None, sp_save_in_history = True, sp_timeout_in_minutes = None,
     sp_swap_method = ''htlc''\<rparr>"

definition demo_update :: maker_order_update_req where
  "demo_update = \<lparr>mu_uuid = 7, mu_new_price = Some 3, mu_max = None, mu_volume_delta = Some (- 4),
     mu_min_volume = None, mu_base_confs = None, mu_base_nota = None, mu_rel_confs = None, mu_rel_nota = None\<rparr>"

lemma demo_rpc_env_simps [simp]:
  "re_om demo_rpc_env = demo_om_env 8" "re_build demo_rpc_env = demo_env\<lparr>be_new_uuid := 12\<rparr>"
  "oe_swap (demo_om_env k) = demo_swap_env" "re_use_trading_proto_v2 demo_rpc_env"
  "re_pre_check_for_order_creation demo_rpc_env b r" "re_check_balance_for_maker_swap demo_rpc_env b r v"
  "re_check_balance_for_taker_swap demo_rpc_env b r v"
  by (simp_all add: demo_rpc_env_def demo_om_env_def)

lemma demo_rpc_env_ok: "rpc_env_ok demo_rpc_env"
  by (simp add: rpc_env_ok_def demo_coins demo_coin_def demo_swap_env_def)

lemma demo_fresh: "fresh_uuid (be_new_uuid (re_build demo_rpc_env)) demo_bob"
  by (simp add: fresh_uuid_def) (simp add: demo_bob_def demo_storage_def)

lemma demo_bob_writable [simp]: "st_writable (om_storage demo_bob)"
  by (simp add: demo_bob_def demo_storage_def)





theorem restart_restores_the_orders_witness:
  "\<exists>s' coins m. orders_kick_start (demo_bob\<lparr>om_makers := moc_new\<rparr>) = (s', coins)
     \<and> moc_get_order 7 (om_makers s') = Some m \<and> saved_as m demo_v2_order"
proof -
  let ?s0 = "demo_bob\<lparr>om_makers := moc_new\<rparr>"
  have new: "om_makers ?s0 = moc_new" "om_takers ?s0 = []" "om_pending ?s0 = []" "om_storage ?s0 = om_storage demo_bob"
    by (simp_all add: demo_bob_def)
  obtain s' coins where run: "orders_kick_start ?s0 = (s', coins)" by (metis prod.collapse)
  have "rel_option saved_as (moc_get_order 7 (om_makers s')) (moc_get_order 7 (om_makers demo_bob))"
    using restart_restores_the_orders[OF demo_bob_ok demo_bob_writable new run] by blast
  then show ?thesis using run by (auto simp: moc_get_order_def option_rel_Some2)
qed

end
