(* ===== verification/Ordermatch_Loop.thy ===== *)
theory Ordermatch_Loop
  imports Own_Orders
begin

text \<open>
  What the order matching service does by itself (\<open>mm2_main/src/lp_ordermatch.rs\<close>): the main loop
  with its time-outs, balance checks and expired orders, the handler of balance events, the removal of
  the orders of silent peers, and the dispatch of the messages. The last part puts every operation of
  the service together as one step relation and proves the invariant of every reachable state.

  The clock, the balances and the volume the coins allow are arguments. A walk over the maker orders
  locks one order at a time; here a walk is one step.
\<close>

section \<open>Balance events\<close>

definition balance_updated_visit :: "om_env \<Rightarrow> string \<Rightarrow> mm_number \<Rightarrow> uuid \<times> maker_order \<Rightarrow> 'db om_state \<Rightarrow>
    'db om_state" where
  "balance_updated_visit env ticker new_volume x s = (case x of (u, order) \<Rightarrow>
     if mo_base order \<noteq> ticker then s
     else
       (let (s, cancelled) = (if new_volume < mo_min_base_vol order
              then cancel_maker_order env MakerInsufficientBalance u order s else (s, False))
        in if cancelled then s
           else if new_volume < mo_available_amount order then
             (let order = order\<lparr>mo_max_base_vol := mo_reserved_amount order + new_volume\<rparr>;
                  update_msg = with_new_max_volume (mo_available_amount order) (upd_new (oe_now_sec env) (mo_uuid order))
              in om_notify_updated update_msg order (om_set_maker u order s))
           else s))"

definition balance_updated :: "om_env \<Rightarrow> (mm_coin \<Rightarrow> bool) \<Rightarrow> mm_coin \<Rightarrow> rat \<Rightarrow> 'db om_state \<Rightarrow> 'db om_state" where
  "balance_updated env wallet_only coin new_balance s =
    (if wallet_only coin then s
     else case oe_calc_max_maker_vol env coin new_balance of
       MaxVol v \<Rightarrow> fold (balance_updated_visit env (coin_ticker coin) v) (moc_orders (om_makers s)) s
     | NotSufficientBalance \<Rightarrow> fold (balance_updated_visit env (coin_ticker coin) 0) (moc_orders (om_makers s)) s
     | MaxVolError \<Rightarrow> s)"

section \<open>Time-outs\<close>

definition taker_timed_out :: "om_env \<Rightarrow> taker_order \<Rightarrow> bool" where
  "taker_timed_out env order \<longleftrightarrow> \<not> (to_created_at order + to_timeout order * 1000 \<ge> oe_now_ms env)"

definition transform_to_maker :: "om_env \<Rightarrow> uuid \<Rightarrow> taker_order \<Rightarrow> 'db om_state \<Rightarrow>
    (unit, 'db om_state) rust_result" where
  "transform_to_maker env u order s =
    (let s = cancel_taker_order env TakerToMaker u order s in
     rbind (maker_order_from_taker (oe_now_ms env) order) (\<lambda>maker_order.
       let s = s\<lparr>om_makers := moc_add_order maker_order (om_makers s)\<rparr>;
           st = fst (save_new_active_maker_order maker_order (om_storage s));
           st = (if mo_save_in_history maker_order then fst (update_was_taker (oe_now_ms env) u st) else st);
           s = s\<lparr>om_storage := st\<rparr>
       in case find_pair (oe_swap env) (mo_base maker_order) (mo_rel maker_order) of
            Found (base, rel) \<Rightarrow> om_notify_created env (coin_protocol_info base None)
              (coin_protocol_info rel (Some (mo_max_base_vol maker_order * mo_price maker_order))) maker_order s
          | _ \<Rightarrow> Ok s))"

text \<open>The map of taker orders is drained and rebuilt from the orders that have not timed out; here each
  order that has is deleted from it.\<close>

fun timed_out_takers_loop :: "om_env \<Rightarrow> (uuid \<times> taker_order) list \<Rightarrow> 'db om_state \<Rightarrow>
    (unit, 'db om_state) rust_result" where
  "timed_out_takers_loop env [] s = Ok s"
| "timed_out_takers_loop env ((u, order) # orders) s =
     rbind (if \<not> taker_timed_out env order then Ok s
            else if to_matches order \<noteq> [] \<or> to_order_type order \<noteq> GoodTillCancelled
              then Ok (cancel_taker_order env TakerTimedOut u order s)
            else transform_to_maker env u order s)
       (timed_out_takers_loop env orders)"

definition handle_timed_out_taker_orders :: "om_env \<Rightarrow> 'db om_state \<Rightarrow> (unit, 'db om_state) rust_result" where
  "handle_timed_out_taker_orders env s = timed_out_takers_loop env (om_takers s) s"

definition match_kept :: "om_env \<Rightarrow> maker_match \<Rightarrow> bool" where
  "match_kept env order_match \<longleftrightarrow>
     mm_last_updated order_match + ORDER_MATCH_TIMEOUT * 1000 > oe_now_ms env \<or> mm_connected order_match \<noteq> None"

definition retain_matches :: "om_env \<Rightarrow> maker_order \<Rightarrow> maker_order" where
  "retain_matches env order = order\<lparr>mo_matches := filter (\<lambda>(_, x). match_kept env x) (mo_matches order)\<rparr>"

definition timed_out_matches_visit :: "om_env \<Rightarrow> uuid \<times> maker_order \<Rightarrow> 'db om_state \<Rightarrow> 'db om_state" where
  "timed_out_matches_visit env x s = (case x of (u, order) \<Rightarrow>
     let old_len = length (mo_matches order);
         order = retain_matches env order
     in if old_len \<noteq> length (mo_matches order) then om_save_maker order (om_set_maker u order s)
        else om_set_maker u order s)"

definition handle_timed_out_maker_matches :: "om_env \<Rightarrow> 'db om_state \<Rightarrow> 'db om_state" where
  "handle_timed_out_maker_matches env s = fold (timed_out_matches_visit env) (moc_orders (om_makers s)) s"

section \<open>Orders that cannot be traded\<close>

definition check_balance_visit :: "om_env \<Rightarrow> uuid \<times> maker_order \<Rightarrow> 'db om_state \<Rightarrow> 'db om_state" where
  "check_balance_visit env x s = (case x of (u, order) \<Rightarrow>
     if mo_min_base_vol order \<le> mo_available_amount order \<or> mo_has_ongoing_matches order then s
     else
       (let reason = (if mo_matches order = [] then MakerInsufficientBalance else MakerFulfilled)
        in fst (cancel_maker_order env reason u order s)))"

definition check_balance_for_maker_orders :: "om_env \<Rightarrow> 'db om_state \<Rightarrow> 'db om_state" where
  "check_balance_for_maker_orders env s = fold (check_balance_visit env) (moc_orders (om_makers s)) s"

definition cancel_expired_orders :: "om_env \<Rightarrow> uuid list \<Rightarrow> 'db om_state \<Rightarrow> 'db om_state" where
  "cancel_expired_orders env expired s =
    (let (makers, expired_orders) = moc_drop_expired_entries expired (om_makers s);
         s = s\<lparr>om_makers := makers\<rparr>
     in fold (file_cancelled_maker MakerExpired env) expired_orders s)"

section \<open>Silent peers\<close>

text \<open>\<open>keys\<close> lists the keys of the map of pubkey states, and \<open>uuids\<close> the set of uuids of a state, in the
  order of the iteration.\<close>

definition stale_pubkeys :: "string \<Rightarrow> u64 \<Rightarrow> u64 \<Rightarrow> string list \<Rightarrow> 'db net_state \<Rightarrow> string list" where
  "stale_pubkeys my_pubsecp maker_order_timeout now keys ns = filter (\<lambda>pubkey.
     case ts_pubkeys_state (ns_trie_store ns) pubkey of
       None \<Rightarrow> False
     | Some state \<Rightarrow> \<not> (pubkey = my_pubsecp \<or> pubkey \<in> set (ob_my_p2p_pubkeys (ns_orderbook ns))
         \<or> ps_last_keep_alive state + maker_order_timeout > now)) keys"

definition remove_uuids :: "uuid list \<Rightarrow> orderbook \<Rightarrow> orderbook \<times> trie_op list" where
  "remove_uuids uuids ob = fold (\<lambda>u (ob, ops). case index_remove u ob of
       (ob', Some (_, op)) \<Rightarrow> (ob', ops @ [op]) | (ob', None) \<Rightarrow> (ob', ops)) uuids (ob, [])"

definition remove_stale_pubkeys :: "string \<Rightarrow> u64 \<Rightarrow> u64 \<Rightarrow> string list \<Rightarrow> (string \<Rightarrow> uuid list) \<Rightarrow>
    'db net_state \<Rightarrow> 'db net_state" where
  "remove_stale_pubkeys my_pubsecp maker_order_timeout now keys uuids ns =
    (let pubs = stale_pubkeys my_pubsecp maker_order_timeout now keys ns;
         (ob, ops) = remove_uuids (concat (map uuids pubs)) (ns_orderbook ns)
     in send_trie_ops (ops @ map RemovePubkey pubs) (ns\<lparr>ns_orderbook := ob\<rparr>))"

section \<open>Announcing orders again\<close>

text \<open>An own order that is missing in the index (after a restart, or when its coins were not active) is
  announced, or marked to be cancelled.\<close>

definition missing_uuids :: "'db om_state \<Rightarrow> uuid list" where
  "missing_uuids s = filter (\<lambda>u. ob_order_set (ns_orderbook (om_net s)) u = None) (map fst (moc_orders (om_makers s)))"

definition kickstart_order :: "om_env \<Rightarrow> (mm_coin \<Rightarrow> rat option) \<Rightarrow> uuid \<Rightarrow> 'db om_state \<times> uuid list \<Rightarrow>
    (unit, 'db om_state \<times> uuid list) rust_result" where
  "kickstart_order env my_spendable_balance u acc = (case acc of (s, to_cancel) \<Rightarrow>
    (case moc_get_order u (om_makers s) of None \<Rightarrow> Ok (s, to_cancel) | Some order \<Rightarrow>
    (case find_pair (oe_swap env) (mo_base order) (mo_rel order) of
       NotFound \<Rightarrow> Ok (s, to_cancel) | FindError _ \<Rightarrow> Ok (s, to_cancel)
     | Found (base, rel) \<Rightarrow>
        (case my_spendable_balance base of None \<Rightarrow> Ok (s, to_cancel @ [u]) | Some current_balance \<Rightarrow>
        (case oe_calc_max_maker_vol env base current_balance of
           MaxVol max_vol \<Rightarrow>
             (let order = (if max_vol < mo_available_amount order
                    then order\<lparr>mo_max_base_vol := mo_reserved_amount order + max_vol\<rparr> else order);
                  s = om_set_maker u order s
              in if mo_available_amount order < mo_min_base_vol order then Ok (s, to_cancel @ [u])
                 else
                   (let s = om_subscribe env (mo_base_ticker order) (mo_rel_ticker order) s in
                    rbind (om_notify_created env (coin_protocol_info base None)
                        (coin_protocol_info rel (Some (mo_max_base_vol order * mo_price order))) order s)
                      (\<lambda>s. Ok (s, to_cancel))))
         | _ \<Rightarrow> Ok (s, to_cancel @ [u]))))))"

definition cancel_unfunded :: "om_env \<Rightarrow> uuid \<Rightarrow> 'db om_state \<Rightarrow> 'db om_state" where
  "cancel_unfunded env u s = (case moc_get_order u (om_makers s) of
     None \<Rightarrow> s | Some order \<Rightarrow> fst (cancel_maker_order env MakerInsufficientBalance u order s))"

fun kickstart_orders :: "om_env \<Rightarrow> (mm_coin \<Rightarrow> rat option) \<Rightarrow> uuid list \<Rightarrow> 'db om_state \<times> uuid list \<Rightarrow>
    (unit, 'db om_state \<times> uuid list) rust_result" where
  "kickstart_orders env bal [] acc = Ok acc"
| "kickstart_orders env bal (u # us) acc = rbind (kickstart_order env bal u acc) (kickstart_orders env bal us)"

definition kickstart_missing_orders :: "om_env \<Rightarrow> (mm_coin \<Rightarrow> rat option) \<Rightarrow> 'db om_state \<Rightarrow>
    (unit, 'db om_state) rust_result" where
  "kickstart_missing_orders env my_spendable_balance s =
     rbind (kickstart_orders env my_spendable_balance (missing_uuids s) (s, []))
       (\<lambda>(s, to_cancel). Ok (fold (cancel_unfunded env) to_cancel s))"

section \<open>One turn of the main loop\<close>

record loop_env =
  le_om :: om_env
  le_my_pubsecp :: string
  le_maker_order_timeout :: u64
  le_expired :: "uuid list"
  le_pubkeys :: "string list"
  le_uuids :: "string \<Rightarrow> uuid list"
  le_my_spendable_balance :: "mm_coin \<Rightarrow> rat option"

definition lp_ordermatch_loop_turn :: "loop_env \<Rightarrow> 'db om_state \<Rightarrow> (unit, 'db om_state) rust_result" where
  "lp_ordermatch_loop_turn le s =
     rbind (handle_timed_out_taker_orders (le_om le) s) (\<lambda>s.
     let s = handle_timed_out_maker_matches (le_om le) s;
         s = check_balance_for_maker_orders (le_om le) s;
         s = cancel_expired_orders (le_om le) (le_expired le) s;
         s = s\<lparr>om_net := remove_stale_pubkeys (le_my_pubsecp le) (le_maker_order_timeout le)
                (oe_now_sec (le_om le)) (le_pubkeys le) (le_uuids le) (om_net s)\<rparr>
     in kickstart_missing_orders (le_om le) (le_my_spendable_balance le) s)"

section \<open>The loop keeps the invariant\<close>

lemma cancel_maker_order_done:
  assumes "om_ok s" "map_of (moc_orders (om_makers s)) u = Some m"
  shows "snd (cancel_maker_order env reason u m' s)"
proof -
  have "snd (moc_remove_order u (om_makers s)) = Some m"
    using assms by (simp add: moc_remove_order_safe_eq om_ok_def)
  then show ?thesis by (simp add: cancel_maker_order_def split_beta Let_def)
qed

lemma cancel_visit:
  assumes ok: "om_ok s" and u: "map_of (moc_orders (om_makers s)) u = Some m"
  shows "om_ok (fst (cancel_maker_order env reason u m s))"
    "map_of (moc_orders (om_makers (fst (cancel_maker_order env reason u m s)))) = (map_of (moc_orders (om_makers s)))(u := None)"
  using om_ok_cancel_maker[OF ok, of m u] om_ok_maker[OF ok u] ok
  by (simp_all add: moc_remove_order_safe_eq om_ok_def hm_get_delete)

text \<open>Lowering the volume of an order to what is reserved and a volume that is still available.\<close>

definition lowered_to :: "mm_number \<Rightarrow> maker_order \<Rightarrow> maker_order" where
  "lowered_to v m = m\<lparr>mo_max_base_vol := mo_reserved_amount m + v\<rparr>"

lemma lowered_to_simps [simp]:
  "mo_available_amount (lowered_to v m) = v" "mo_reserved_amount (lowered_to v m) = mo_reserved_amount m"
  "mo_min_base_vol (lowered_to v m) = mo_min_base_vol m" "mo_uuid (lowered_to v m) = mo_uuid m"
  "mo_base (lowered_to v m) = mo_base m" "mo_rel (lowered_to v m) = mo_rel m"
  "mo_conf_settings (lowered_to v m) = mo_conf_settings m"
  by (simp_all add: lowered_to_def mo_available_amount_def mo_reserved_amount_def)

lemma om_ok_lowered:
  assumes ok: "om_ok s" and u: "map_of (moc_orders (om_makers s)) u = Some m"
    and v: "0 \<le> v" "v < mo_available_amount m"
  shows "om_ok (om_set_maker u (lowered_to v m) s)"
proof -
  have "maker_entry_ok u (lowered_to v m)"
    using om_ok_maker[OF ok u] v(1)
    by (simp add: maker_entry_ok_def holds_capacity_def wf_maker_order_def) (simp add: lowered_to_def)
  then show ?thesis
    unfolding lowered_to_def by (rule om_ok_lower_volume[OF ok u]) (use v(2) in \<open>simp add: mo_available_amount_def\<close>)
qed

lemma om_ok_set_same:
  assumes ok: "om_ok s" and u: "map_of (moc_orders (om_makers s)) u = Some m"
  shows "om_ok (om_set_maker u m s)"
proof -
  have "m\<lparr>mo_max_base_vol := mo_max_base_vol m\<rparr> = m" by simp
  then show ?thesis
    using om_ok_lower_volume[OF ok u, of "mo_max_base_vol m"] om_ok_maker[OF ok u] by simp
qed

lemma om_set_maker_orders:
  "map_of (moc_orders (om_makers s)) u = Some m \<Longrightarrow>
   map_of (moc_orders (om_makers (om_set_maker u m' s))) = (map_of (moc_orders (om_makers s)))(u \<mapsto> m')"
  by (simp add: om_set_maker_def)

lemma om_set_maker_frame [simp]:
  "om_takers (om_set_maker u m s) = om_takers s" "om_pending (om_set_maker u m s) = om_pending s"
  "om_storage (om_set_maker u m s) = om_storage s" "om_net (om_set_maker u m s) = om_net s"
  by (simp_all add: om_set_maker_def)

lemma om_save_maker_frame [simp]:
  "om_makers (om_save_maker m s) = om_makers s" "om_takers (om_save_maker m s) = om_takers s"
  "om_pending (om_save_maker m s) = om_pending s" "om_net (om_save_maker m s) = om_net s"
  by (simp_all add: om_save_maker_def)

interpretation balance_event: order_visitor "balance_updated_visit env ticker v"
  "\<lambda>m. if mo_base m \<noteq> ticker then Some m else if v < mo_min_base_vol m then None
       else if v < mo_available_amount m then Some (lowered_to v m) else Some m" for env ticker v
proof
  fix s :: "'a om_state" and u m
  assume ok: "om_ok s" and u: "map_of (moc_orders (om_makers s)) u = Some m"
  have min: "0 \<le> mo_min_base_vol m"
    using om_ok_maker[OF ok u] by (simp add: maker_entry_ok_def holds_capacity_def wf_maker_order_def)
  have same: "(map_of (moc_orders (om_makers s)))(u \<mapsto> m) = map_of (moc_orders (om_makers s))"
    using u by (rule map_upd_triv)
  note c = cancel_visit[OF ok u, of env MakerInsufficientBalance] cancel_maker_order_done[OF ok u, of env MakerInsufficientBalance m]
  have run: "balance_updated_visit env ticker v (u, m) s =
     (if mo_base m \<noteq> ticker then s
      else if v < mo_min_base_vol m then fst (cancel_maker_order env MakerInsufficientBalance u m s)
      else if v < mo_available_amount m
        then om_notify_updated (with_new_max_volume v (upd_new (oe_now_sec env) (mo_uuid m))) (lowered_to v m)
               (om_set_maker u (lowered_to v m) s)
      else s)"
    using c(3) lowered_to_simps(1)[of v m] unfolding balance_updated_visit_def lowered_to_def Let_def
    by (simp add: split_beta)
  show "om_ok (balance_updated_visit env ticker v (u, m) s)"
    unfolding run using ok c(1) om_ok_lowered[OF ok u, of v] min by auto
  show "map_of (moc_orders (om_makers (balance_updated_visit env ticker v (u, m) s)))
      = (map_of (moc_orders (om_makers s)))(u := if mo_base m \<noteq> ticker then Some m else if v < mo_min_base_vol m then None
       else if v < mo_available_amount m then Some (lowered_to v m) else Some m)"
    unfolding run using c(2) om_set_maker_orders[OF u] same by simp
qed (auto simp: balance_updated_visit_def Let_def split_beta split: prod.split)

lemma retain_matches_ok:
  assumes "maker_entry_ok u m"
  shows "maker_entry_ok u (retain_matches env m)"
proof -
  have wf: "hm_wf (mo_matches m)" and nn: "\<forall>x \<in> snd ` set (mo_matches m). 0 \<le> maker_match_amount x"
    using assms by (auto simp: maker_entry_ok_def holds_capacity_def wf_maker_order_def)
  have "hm_sum maker_match_amount (mo_matches (retain_matches env m)) \<le> hm_sum maker_match_amount (mo_matches m)"
    unfolding retain_matches_def by (simp add: hm_sum_filter_le[OF nn])
  then have "0 \<le> mo_available_amount (retain_matches env m)"
    using assms by (simp add: maker_entry_ok_def holds_capacity_def mo_available_amount_def mo_reserved_amount_sum)
      (simp add: retain_matches_def)
  then have cap: "holds_capacity (retain_matches env m)"
    using assms nn wf by (auto simp: maker_entry_ok_def holds_capacity_def wf_maker_order_def retain_matches_def distinct_map_filter)
  have kept: "map_of (mo_matches (retain_matches env m)) k = Some x \<longleftrightarrow>
      map_of (mo_matches m) k = Some x \<and> match_kept env x" for k x
    unfolding retain_matches_def by (cases "map_of (mo_matches m) k") (auto simp: hm_get_filter[OF wf])
  have connected_kept: "{k. \<exists>x. map_of (mo_matches (retain_matches env m)) k = Some x \<and> mm_connected x \<noteq> None}
      = {k. \<exists>x. map_of (mo_matches m) k = Some x \<and> mm_connected x \<noteq> None}"
    unfolding kept by (auto simp: match_kept_def)
  have rest: "mo_conf_settings (retain_matches env m) = mo_conf_settings m"
    "mo_started_swaps (retain_matches env m) = mo_started_swaps m"
    by (simp_all add: retain_matches_def)
  have "tr_uuid (mm_request x) = k \<and> mr_taker_order_uuid (mm_reserved x) = k
      \<and> mr_maker_order_uuid (mm_reserved x) = u \<and> (mm_connect x = None) = (mm_connected x = None)"
    if "map_of (mo_matches (retain_matches env m)) k = Some x" for k x
    using that assms unfolding kept maker_entry_ok_def by blast
  then show ?thesis
    unfolding maker_entry_ok_def connected_kept rest
    by (intro conjI cap allI impI) (use assms in \<open>simp_all add: maker_entry_ok_def\<close>)
qed

lemma filter_same_length: "length (filter p xs) = length xs \<Longrightarrow> filter p xs = xs"
proof (induction xs)
  case (Cons x xs)
  then show ?case using length_filter_le[of p xs] by (cases "p x") simp_all
qed simp

lemma retain_matches_same:
  assumes "length (mo_matches (retain_matches env m)) = length (mo_matches m)"
  shows "retain_matches env m = m"
proof -
  have "filter (\<lambda>(_, x). match_kept env x) (mo_matches m) = mo_matches m"
    using assms by (intro filter_same_length) (simp add: retain_matches_def)
  then show ?thesis by (simp add: retain_matches_def)
qed

interpretation timed_out_matches: order_visitor "timed_out_matches_visit env" "\<lambda>m. Some (retain_matches env m)" for env
proof
  fix s :: "'a om_state" and u m
  assume ok: "om_ok s" and u: "map_of (moc_orders (om_makers s)) u = Some m"
  have e: "maker_entry_ok u m" "mo_uuid m = u" using om_ok_maker[OF ok u] by simp_all
  have keep: "mo_uuid (retain_matches env m) = u" "mo_base (retain_matches env m) = mo_base m"
    using e(2) by (simp_all add: retain_matches_def)
  show "om_ok (timed_out_matches_visit env (u, m) s)"
  proof (cases "length (mo_matches (retain_matches env m)) = length (mo_matches m)")
    case True
    then show ?thesis
      using om_ok_set_same[OF ok u] retain_matches_same[OF True] by (simp add: timed_out_matches_visit_def Let_def)
  next
    case False
    then have "timed_out_matches_visit env (u, m) s
        = om_save_maker (retain_matches env m) (om_set_maker u (retain_matches env m) s)"
      by (simp add: timed_out_matches_visit_def Let_def)
    then show ?thesis using om_ok_write_maker[OF ok u retain_matches_ok[OF e(1)] keep] by simp
  qed
  show "map_of (moc_orders (om_makers (timed_out_matches_visit env (u, m) s)))
      = (map_of (moc_orders (om_makers s)))(u := Some (retain_matches env m))"
    using om_set_maker_orders[OF u] by (simp add: timed_out_matches_visit_def Let_def)
qed (simp add: timed_out_matches_visit_def Let_def split: prod.split)

interpretation balance_check: order_visitor "check_balance_visit env"
  "\<lambda>m. if mo_min_base_vol m \<le> mo_available_amount m \<or> mo_has_ongoing_matches m then Some m else None" for env
proof
  fix s :: "'a om_state" and u m
  assume ok: "om_ok s" and u: "map_of (moc_orders (om_makers s)) u = Some m"
  note c = cancel_visit[OF ok u, of env]
  show "om_ok (check_balance_visit env (u, m) s)" using ok c(1) by (simp add: check_balance_visit_def)
  have "(map_of (moc_orders (om_makers s)))(u \<mapsto> m) = map_of (moc_orders (om_makers s))" using u by (rule map_upd_triv)
  then show "map_of (moc_orders (om_makers (check_balance_visit env (u, m) s))) = (map_of (moc_orders (om_makers s)))
      (u := if mo_min_base_vol m \<le> mo_available_amount m \<or> mo_has_ongoing_matches m then Some m else None)"
    using c(2) unfolding check_balance_visit_def by (simp del: cancel_maker_order_makers)
qed (simp add: check_balance_visit_def Let_def split: prod.split)

section \<open>Taker orders that time out\<close>

lemma maker_from_taker_ok:
  assumes "wf_taker_order t"
  shows "\<exists>m. maker_order_from_taker now t = Ok m \<and> mo_uuid m = tr_uuid (to_request t)
    \<and> maker_entry_ok (tr_uuid (to_request t)) m \<and> mo_conf_settings m \<noteq> None"
proof -
  have "0 < tr_base_amount (to_request t)" "0 < tr_rel_amount (to_request t)" "0 \<le> to_min_volume t"
    "to_min_volume t \<le> tr_base_amount (to_request t)" "tr_conf_settings (to_request t) \<noteq> None"
    using assms by (auto simp: wf_taker_order_def)
  then show ?thesis
    by (cases "tr_action (to_request t)")
      (auto simp: maker_order_from_taker_def Let_def maker_entry_ok_def holds_capacity_def wf_maker_order_def
        mo_available_amount_def mo_reserved_amount_def)
qed

lemma cancel_taker_frame [simp]:
  "om_makers (cancel_taker_order env reason u t s) = om_makers s"
  "map_of (om_takers (cancel_taker_order env reason u t s)) = (map_of (om_takers s))(u := None)"
  by (simp_all add: cancel_taker_order_def hm_get_delete)

lemma transform_to_maker_ok:
  fixes s :: "'db om_state"
  assumes ok: "om_ok s" and t: "map_of (om_takers s) u = Some t"
  shows "\<exists>s' m. transform_to_maker env u t s = Ok s' \<and> om_ok s' \<and> maker_order_from_taker (oe_now_ms env) t = Ok m
    \<and> map_of (om_takers s') = (map_of (om_takers s))(u := None)
    \<and> map_of (moc_orders (om_makers s')) = (map_of (moc_orders (om_makers s)))(u \<mapsto> m)"
proof -
  let ?s1 = "cancel_taker_order env TakerToMaker u t s"
  have entry: "taker_entry_ok u t" by (rule om_ok_taker[OF ok t])
  then have wf: "wf_taker_order t" and u: "tr_uuid (to_request t) = u" by (simp_all add: taker_entry_ok_def)
  obtain m where m: "maker_order_from_taker (oe_now_ms env) t = Ok m" "mo_uuid m = u" "maker_entry_ok (mo_uuid m) m"
    "mo_conf_settings m \<noteq> None" using maker_from_taker_ok[OF wf] u by metis
  define st where "st = (let st = fst (save_new_active_maker_order m (om_storage ?s1))
    in if mo_save_in_history m then fst (update_was_taker (oe_now_ms env) u st) else st)"
  let ?s2 = "?s1\<lparr>om_makers := moc_add_order m (om_makers ?s1), om_storage := st\<rparr>"
  have ok1: "om_ok ?s1" by (rule om_ok_cancel_taker[OF ok t])
  have fresh: "map_of (moc_orders (om_makers ?s1)) (mo_uuid m) = None" "map_of (om_takers ?s1) (mo_uuid m) = None"
    using om_ok_disjoint[OF ok t] m(2) by simp_all
  have st: "st_writable st = st_writable (om_storage ?s1)" "st_active_takers st = st_active_takers (om_storage ?s1)"
    "st_active_makers st = st_active_makers (fst (save_new_active_maker_order m (om_storage ?s1)))"
    by (simp_all add: st_def Let_def)
  have ok2: "om_ok ?s2" by (rule om_ok_add_maker[OF ok1 m(3) fresh st])
  have run: "transform_to_maker env u t s = (case find_pair (oe_swap env) (mo_base m) (mo_rel m) of
            Found (base, rel) \<Rightarrow> om_notify_created env (coin_protocol_info base None)
              (coin_protocol_info rel (Some (mo_max_base_vol m * mo_price m))) m ?s2
          | _ \<Rightarrow> Ok ?s2)"
    by (simp add: transform_to_maker_def m(1) st_def Let_def split: find_result.split prod.split)
  have s2: "map_of (om_takers ?s2) = (map_of (om_takers s))(u := None)"
    "map_of (moc_orders (om_makers ?s2)) = (map_of (moc_orders (om_makers s)))(u \<mapsto> m)"
    by (simp_all add: m(2))
  have "\<exists>s'. transform_to_maker env u t s = Ok s' \<and> om_ok s' \<and> om_takers s' = om_takers ?s2 \<and> om_makers s' = om_makers ?s2"
  proof (cases "find_pair (oe_swap env) (mo_base m) (mo_rel m)")
    case (Found p)
    then show ?thesis
      using om_notify_created_Ok[OF m(4), of env _ _ ?s2] ok2 by (cases p) (fastforce simp: run)
  qed (use ok2 in \<open>simp_all add: run\<close>)
  then show ?thesis using s2 m(1) by metis
qed

text \<open>What the time-out makes of a taker order: \<open>None\<close> when it stays.\<close>

definition taker_becomes :: "om_env \<Rightarrow> taker_order \<Rightarrow> maker_order option option" where
  "taker_becomes env t = (if \<not> taker_timed_out env t then None
     else if to_matches t \<noteq> [] \<or> to_order_type t \<noteq> GoodTillCancelled then Some None
     else (case maker_order_from_taker (oe_now_ms env) t of Ok m \<Rightarrow> Some (Some m) | _ \<Rightarrow> Some None))"

lemma timed_out_takers:
  fixes s :: "'db om_state"
  assumes "om_ok s" "distinct (map fst xs)" "\<forall>(u, t) \<in> set xs. map_of (om_takers s) u = Some t"
  shows "\<exists>s'. timed_out_takers_loop env xs s = Ok s' \<and> om_ok s'
    \<and> map_of (om_takers s') = (\<lambda>u. case map_of xs u of
         Some t \<Rightarrow> if taker_timed_out env t then None else Some t | None \<Rightarrow> map_of (om_takers s) u)
    \<and> map_of (moc_orders (om_makers s')) = (\<lambda>u. case Option.bind (map_of xs u) (taker_becomes env) of
         Some (Some m) \<Rightarrow> Some m | _ \<Rightarrow> map_of (moc_orders (om_makers s)) u)"
  using assms
proof (induction xs arbitrary: s)
  case (Cons x xs)
  obtain u t where x: "x = (u, t)" by (metis prod.collapse)
  have t: "map_of (om_takers s) u = Some t" using Cons.prems(3) x by simp
  have notin: "u \<notin> fst ` set xs" using Cons.prems(2) x by simp
  have none: "map_of xs u = None" using notin by (simp add: map_of_eq_None_iff)
  have one: "\<exists>s1. timed_out_takers_loop env (x # xs) s = timed_out_takers_loop env xs s1 \<and> om_ok s1
      \<and> map_of (om_takers s1) = (if taker_timed_out env t then (map_of (om_takers s))(u := None) else map_of (om_takers s))
      \<and> map_of (moc_orders (om_makers s1)) = (case taker_becomes env t of
           Some (Some m) \<Rightarrow> (map_of (moc_orders (om_makers s)))(u \<mapsto> m) | _ \<Rightarrow> map_of (moc_orders (om_makers s)))"
  proof (cases "taker_timed_out env t")
    case False
    then show ?thesis using Cons.prems(1) by (simp add: x taker_becomes_def) blast
  next
    case True
    show ?thesis
    proof (cases "to_matches t \<noteq> [] \<or> to_order_type t \<noteq> GoodTillCancelled")
      case True
      then show ?thesis
        using om_ok_cancel_taker[OF Cons.prems(1) t] \<open>taker_timed_out env t\<close>
        by (intro exI[of _ "cancel_taker_order env TakerTimedOut u t s"]) (simp add: x taker_becomes_def)
    next
      case False
      obtain s1 m where "transform_to_maker env u t s = Ok s1" "om_ok s1" "maker_order_from_taker (oe_now_ms env) t = Ok m"
        "map_of (om_takers s1) = (map_of (om_takers s))(u := None)"
        "map_of (moc_orders (om_makers s1)) = (map_of (moc_orders (om_makers s)))(u \<mapsto> m)"
        using transform_to_maker_ok[OF Cons.prems(1) t, of env] by blast
      then show ?thesis
        using False \<open>taker_timed_out env t\<close> by (intro exI[of _ s1]) (simp add: x taker_becomes_def)
    qed
  qed
  then obtain s1 where s1: "timed_out_takers_loop env (x # xs) s = timed_out_takers_loop env xs s1" "om_ok s1"
    "map_of (om_takers s1) = (if taker_timed_out env t then (map_of (om_takers s))(u := None) else map_of (om_takers s))"
    "map_of (moc_orders (om_makers s1)) = (case taker_becomes env t of
           Some (Some m) \<Rightarrow> (map_of (moc_orders (om_makers s)))(u \<mapsto> m) | _ \<Rightarrow> map_of (moc_orders (om_makers s)))"
    by blast
  have "\<forall>(v, t') \<in> set xs. map_of (om_takers s1) v = Some t'"
    using Cons.prems(3) notin unfolding s1(3) by force
  then obtain s' where s': "timed_out_takers_loop env xs s1 = Ok s'" "om_ok s'"
    "map_of (om_takers s') = (\<lambda>u. case map_of xs u of
         Some t \<Rightarrow> if taker_timed_out env t then None else Some t | None \<Rightarrow> map_of (om_takers s1) u)"
    "map_of (moc_orders (om_makers s')) = (\<lambda>u. case Option.bind (map_of xs u) (taker_becomes env) of
         Some (Some m) \<Rightarrow> Some m | _ \<Rightarrow> map_of (moc_orders (om_makers s1)) u)"
    using Cons.IH[OF s1(2)] Cons.prems(2) by auto
  have "map_of (om_takers s') v = (case map_of (x # xs) v of
         Some t \<Rightarrow> if taker_timed_out env t then None else Some t | None \<Rightarrow> map_of (om_takers s) v)" for v
    using none t unfolding s'(3) s1(3) by (cases "v = u") (simp_all add: x split: option.split)
  moreover have "map_of (moc_orders (om_makers s')) v = (case Option.bind (map_of (x # xs) v) (taker_becomes env) of
         Some (Some m) \<Rightarrow> Some m | _ \<Rightarrow> map_of (moc_orders (om_makers s)) v)" for v
    using none unfolding s'(4) s1(4) by (cases "v = u") (simp_all add: x split: option.split)
  ultimately show ?case using s1(1) s'(1,2) by auto
qed simp

lemma handle_timed_out_takers_ok:
  assumes ok: "om_ok s"
  shows "\<exists>s'. handle_timed_out_taker_orders env s = Ok s' \<and> om_ok s'
    \<and> map_of (om_takers s') = (\<lambda>u. case map_of (om_takers s) u of
         Some t \<Rightarrow> if taker_timed_out env t then None else Some t | None \<Rightarrow> None)
    \<and> map_of (moc_orders (om_makers s')) = (\<lambda>u. case Option.bind (map_of (om_takers s) u) (taker_becomes env) of
         Some (Some m) \<Rightarrow> Some m | _ \<Rightarrow> map_of (moc_orders (om_makers s)) u)"
proof -
  have wf: "hm_wf (om_takers s)" using ok by (simp add: om_ok_def)
  then have "\<forall>(u, t) \<in> set (om_takers s). map_of (om_takers s) u = Some t" by auto
  moreover have "(\<lambda>u. case map_of (om_takers s) u of
         Some t \<Rightarrow> if taker_timed_out env t then None else Some t | None \<Rightarrow> map_of (om_takers s) u)
    = (\<lambda>u. case map_of (om_takers s) u of
         Some t \<Rightarrow> if taker_timed_out env t then None else Some t | None \<Rightarrow> None)"
    by (auto simp: fun_eq_iff split: option.split)
  ultimately show ?thesis
    using timed_out_takers[OF ok wf, of env] unfolding handle_timed_out_taker_orders_def by simp
qed

section \<open>Expired orders, announcing again, a turn\<close>

lemma cancel_expired_ok:
  assumes ok: "om_ok s"
  shows "om_ok (cancel_expired_orders env expired s)"
    "map_of (moc_orders (om_makers (cancel_expired_orders env expired s)))
      = map_of (moc_orders (om_makers s)) |` (- set expired)"
    "om_takers (cancel_expired_orders env expired s) = om_takers s"
proof -
  let ?c = "fst (moc_drop_expired_entries expired (om_makers s))"
  let ?xs = "snd (moc_drop_expired_entries expired (om_makers s))"
  let ?s = "fold (file_cancelled_maker MakerExpired env) ?xs (s\<lparr>om_makers := ?c\<rparr>)"
  have safe: "moc_safe (om_makers s)" using ok by (simp add: om_ok_def)
  note c = moc_drop_expired_safe[OF safe, of expired]
  have run: "cancel_expired_orders env expired s = ?s"
    by (simp add: cancel_expired_orders_def split_beta Let_def)
  have xs: "?xs = filter (\<lambda>(u, _). u \<in> set expired) (moc_orders (om_makers s))" by (simp add: moc_drop_expired_entries_def)
  have keyed: "mo_uuid m = u" if "(u, m) \<in> set (moc_orders (om_makers s))" for u m
    using that safe by (simp add: moc_safe_def)
  have keys: "v \<in> fst ` set ?xs \<longleftrightarrow> v \<in> set expired \<and> map_of (moc_orders (om_makers s)) v \<noteq> None" for v
    unfolding xs by (force simp: map_of_eq_None_iff)
  have "\<forall>(u, m) \<in> set ?xs. mo_uuid m = u" unfolding xs using keyed by auto
  note f = file_cancelled_makers[OF this, of MakerExpired env "s\<lparr>om_makers := ?c\<rparr>", unfolded Let_def, simplified]
  have mem: "map_of (moc_orders (om_makers ?s)) = map_of (moc_orders (om_makers s)) |` (- set expired)"
    using f c(2) by simp
  have mir: "storage_mirrors (om_storage s) (om_makers s) (om_takers s)" using ok by (simp add: om_ok_def)
  have "storage_mirrors (om_storage ?s) (om_makers ?s) (om_takers s)"
  proof (rule storage_mirrors_makers[OF mir])
    fix v assume w: "st_writable (om_storage s)"
      and rel: "rel_option saved_as (map_of (st_active_makers (om_storage s)) v) (map_of (moc_orders (om_makers s)) v)"
    have "map_of (st_active_makers (om_storage ?s)) v
        = (if v \<in> fst ` set ?xs then None else map_of (st_active_makers (om_storage s)) v)"
      using f w by (simp add: restrict_map_def)
    then show "rel_option saved_as (map_of (st_active_makers (om_storage ?s)) v) (map_of (moc_orders (om_makers ?s)) v)"
      using rel unfolding keys mem by (auto simp: restrict_map_def)
  qed (use f in blast)+
  moreover have "maker_entry_ok v m" if "map_of (moc_orders (om_makers ?s)) v = Some m" for v m
    using that ok unfolding mem om_ok_def by (auto simp: restrict_map_def split: if_splits)
  moreover have "dom (map_of (moc_orders (om_makers ?s))) \<subseteq> dom (map_of (moc_orders (om_makers s)))"
    unfolding mem by (auto simp: restrict_map_def split: if_splits)
  then have "dom (map_of (om_takers s)) \<inter> dom (map_of (moc_orders (om_makers ?s))) = {}"
    using ok unfolding om_ok_def by blast
  moreover have "moc_safe (om_makers ?s)" using f c(1) by simp
  moreover have same: "om_takers ?s = om_takers s" "om_pending ?s = om_pending s" using f by simp_all
  ultimately show "om_ok (cancel_expired_orders env expired s)"
    using ok unfolding run om_ok_def same by blast
  show "map_of (moc_orders (om_makers (cancel_expired_orders env expired s)))
      = map_of (moc_orders (om_makers s)) |` (- set expired)" unfolding run by (rule mem)
  show "om_takers (cancel_expired_orders env expired s) = om_takers s" unfolding run by (rule same(1))
qed

text \<open>The coins never allow a negative volume.\<close>

definition om_env_ok :: "om_env \<Rightarrow> bool" where
  "om_env_ok env \<longleftrightarrow> (\<forall>c b v. oe_calc_max_maker_vol env c b = MaxVol v \<longrightarrow> 0 \<le> v)"

lemma om_notify_created_ok:
  assumes "om_ok s" "mo_conf_settings m \<noteq> None"
  shows "\<exists>s'. om_notify_created env bi ri m s = Ok s' \<and> om_ok s' \<and> om_makers s' = om_makers s \<and> om_takers s' = om_takers s"
  using om_notify_created_Ok[OF assms(2), of env bi ri s] assms(1) by fastforce

lemma kickstart_order_ok:
  fixes s :: "'db om_state"
  assumes ok: "om_ok s" and env: "om_env_ok env"
  shows "\<exists>s' us'. kickstart_order env bal u (s, us) = Ok (s', us') \<and> om_ok s' \<and> om_takers s' = om_takers s
    \<and> dom (map_of (moc_orders (om_makers s'))) = dom (map_of (moc_orders (om_makers s)))"
proof (cases "map_of (moc_orders (om_makers s)) u")
  case None
  then show ?thesis using ok by (simp add: kickstart_order_def moc_get_order_def)
next
  case (Some m)
  have untouched: ?thesis if "\<exists>us'. kickstart_order env bal u (s, us) = Ok (s, us')" using that ok by blast
  show ?thesis
  proof (cases "\<exists>us'. kickstart_order env bal u (s, us) = Ok (s, us')")
    case False
    obtain b r where p: "find_pair (oe_swap env) (mo_base m) (mo_rel m) = Found (b, r)"
      using False Some
      by (cases "find_pair (oe_swap env) (mo_base m) (mo_rel m)") (auto simp: kickstart_order_def moc_get_order_def)
    obtain balance where bal: "bal b = Some balance" using False Some p
      by (cases "bal b") (auto simp: kickstart_order_def moc_get_order_def)
    obtain v where v: "oe_calc_max_maker_vol env b balance = MaxVol v"
      using False Some p bal
      by (cases "oe_calc_max_maker_vol env b balance") (auto simp: kickstart_order_def moc_get_order_def)
    define m' where "m' = (if v < mo_available_amount m then lowered_to v m else m)"
    have m': "mo_conf_settings m' \<noteq> None" using om_ok_maker[OF ok Some] by (simp add: m'_def maker_entry_ok_def)
    have set: "om_ok (om_set_maker u m' s)"
      using om_ok_lowered[OF ok Some, of v] om_ok_set_same[OF ok Some] env v by (auto simp: m'_def om_env_ok_def)
    have dom: "dom (map_of (moc_orders (om_makers (om_set_maker u m' s)))) = dom (map_of (moc_orders (om_makers s)))"
      using Some by (auto simp: om_set_maker_orders)
    have run: "kickstart_order env bal u (s, us) = (let s = om_set_maker u m' s in
        if mo_available_amount m' < mo_min_base_vol m' then Ok (s, us @ [u])
        else rbind (om_notify_created env (coin_protocol_info b None)
               (coin_protocol_info r (Some (mo_max_base_vol m' * mo_price m'))) m'
               (om_subscribe env (mo_base_ticker m') (mo_rel_ticker m') s)) (\<lambda>s. Ok (s, us)))"
      by (simp add: kickstart_order_def moc_get_order_def Some p bal v m'_def lowered_to_def Let_def)
    show ?thesis
    proof (cases "mo_available_amount m' < mo_min_base_vol m'")
      case True
      then show ?thesis using set dom by (simp add: run)
    next
      case False
      then show ?thesis
        using om_notify_created_ok[where s = "om_subscribe env (mo_base_ticker m') (mo_rel_ticker m') (om_set_maker u m' s)"
            and env = env and bi = "coin_protocol_info b None"
            and ri = "coin_protocol_info r (Some (mo_max_base_vol m' * mo_price m'))", OF _ m'] set dom
        by (auto simp: run)
    qed
  qed (rule untouched)
qed

lemma kickstart_orders_ok:
  fixes s :: "'db om_state"
  assumes "om_ok s" "om_env_ok env"
  shows "\<exists>s' us'. kickstart_orders env bal xs (s, us) = Ok (s', us') \<and> om_ok s' \<and> om_takers s' = om_takers s
    \<and> dom (map_of (moc_orders (om_makers s'))) = dom (map_of (moc_orders (om_makers s)))"
  using assms(1)
proof (induction xs arbitrary: s us)
  case (Cons u xs)
  obtain s1 us1 where 1: "kickstart_order env bal u (s, us) = Ok (s1, us1)" "om_ok s1" "om_takers s1 = om_takers s"
    "dom (map_of (moc_orders (om_makers s1))) = dom (map_of (moc_orders (om_makers s)))"
    using kickstart_order_ok[OF Cons.prems assms(2)] by blast
  then show ?case using Cons.IH[OF 1(2), of us1] by simp
qed simp

lemma cancel_unfunded_ok:
  fixes s :: "'db om_state"
  assumes "om_ok s"
  shows "om_ok (fold (cancel_unfunded env) us s) \<and> om_takers (fold (cancel_unfunded env) us s) = om_takers s"
  using assms
proof (induction us arbitrary: s)
  case (Cons u us)
  have "om_ok (cancel_unfunded env u s)"
    using Cons.prems cancel_visit(1)[OF Cons.prems, of u]
    by (simp add: cancel_unfunded_def moc_get_order_def split: option.split)
  moreover have "om_takers (cancel_unfunded env u s) = om_takers s"
    by (simp add: cancel_unfunded_def split: option.split)
  ultimately show ?case using Cons.IH[of "cancel_unfunded env u s"] by simp
qed simp

lemma kickstart_missing_ok:
  fixes s :: "'db om_state"
  assumes "om_ok s" "om_env_ok env"
  shows "\<exists>s'. kickstart_missing_orders env bal s = Ok s' \<and> om_ok s' \<and> om_takers s' = om_takers s"
proof -
  obtain s1 us where "kickstart_orders env bal (missing_uuids s) (s, []) = Ok (s1, us)" "om_ok s1" "om_takers s1 = om_takers s"
    using kickstart_orders_ok[OF assms, of bal "missing_uuids s" "[]"] by blast
  then show ?thesis using cancel_unfunded_ok[of s1 env us] by (simp add: kickstart_missing_orders_def)
qed

lemma loop_turn_ok:
  fixes s :: "'db om_state"
  assumes ok: "om_ok s" and env: "om_env_ok (le_om le)"
  shows "\<exists>s'. lp_ordermatch_loop_turn le s = Ok s' \<and> om_ok s'"
proof -
  obtain s1 where 1: "handle_timed_out_taker_orders (le_om le) s = Ok s1" "om_ok s1"
    using handle_timed_out_takers_ok[OF ok] by blast
  define s2 where "s2 = check_balance_for_maker_orders (le_om le) (handle_timed_out_maker_matches (le_om le) s1)"
  have "om_ok (handle_timed_out_maker_matches (le_om le) s1)"
    unfolding handle_timed_out_maker_matches_def by (rule timed_out_matches.visit_all(1)[OF 1(2)])
  then have "om_ok s2" unfolding s2_def check_balance_for_maker_orders_def by (rule balance_check.visit_all(1))
  then have ok3: "om_ok (cancel_expired_orders (le_om le) (le_expired le) s2)" by (rule cancel_expired_ok(1))
  define s3 where "s3 = (let s = cancel_expired_orders (le_om le) (le_expired le) s2 in
    s\<lparr>om_net := remove_stale_pubkeys (le_my_pubsecp le) (le_maker_order_timeout le)
                (oe_now_sec (le_om le)) (le_pubkeys le) (le_uuids le) (om_net s)\<rparr>)"
  have "om_ok s3" using ok3 by (simp add: s3_def Let_def)
  moreover have "lp_ordermatch_loop_turn le s = kickstart_missing_orders (le_om le) (le_my_spendable_balance le) s3"
    by (simp add: lp_ordermatch_loop_turn_def Let_def s3_def s2_def 1(1))
  ultimately show ?thesis using kickstart_missing_ok[OF _ env] by metis
qed

section \<open>Messages\<close>

text \<open>What the network layer and the peer's answers give: the decoder of signed messages, the hexadecimal
  form of a key, the ban list, whether the node relays, and the answer to a sync request.\<close>

record ('db, 't) msg_env =
  ge_om :: om_env
  ge_lib :: "('db, 't) trie_lib"
  ge_decode :: "bytes \<Rightarrow> (ordermatch_message \<times> bytes) option"
  ge_to_hex :: "bytes \<Rightarrow> string"
  ge_is_banned :: "h256 \<Rightarrow> bool"
  ge_i_am_relay :: bool
  ge_request_one_peer :: "sync_pubkey_orderbook_state \<Rightarrow> (p2p_handler_error, sync_pubkey_orderbook_state_res option) rust_result"

text \<open>Collecting a reservation is spawned as a task of its own: what is to be run is returned.\<close>

datatype spawned = NothingSpawned | SpawnMakerReserved h256 maker_reserved

definition process_msg :: "('db, 't) msg_env \<Rightarrow> bytes \<Rightarrow> 'db om_state \<Rightarrow>
    'db om_state \<times> (p2p_handler_error, unit) rust_result \<times> spawned" where
  "process_msg ge msg s = (case ge_decode ge msg of
     None \<Rightarrow> (s, Err DecodeError, NothingSpawned)
   | Some (message, pubkey) \<Rightarrow>
      (let env = ge_om ge; unprefixed = oe_unprefixed env pubkey; hex = ge_to_hex ge pubkey in
       if ge_is_banned ge unprefixed then (s, Err (PubkeyNotAllowed hex), NothingSpawned)
       else case message of
         MakerOrderCreatedMsg m \<Rightarrow> (s\<lparr>om_net := process_maker_order_created hex m (om_net s)\<rparr>, Ok (), NothingSpawned)
       | PubkeyKeepAliveMsg m \<Rightarrow>
           (let (ns, r) = process_orders_keep_alive (ge_lib ge) (oe_now_sec env) (ge_i_am_relay ge)
                 (ge_request_one_peer ge) hex m (om_net s)
            in (s\<lparr>om_net := ns\<rparr>, r, NothingSpawned))
       | TakerRequestMsg m \<Rightarrow>
           (case process_taker_request env unprefixed (tr_from_new_proto_and_pubkey m unprefixed) s of
              Ok s \<Rightarrow> (s, Ok (), NothingSpawned) | _ \<Rightarrow> (s, Panic, NothingSpawned))
       | MakerReservedMsg m \<Rightarrow> (s, Ok (), SpawnMakerReserved unprefixed (mr_from_new_proto_and_pubkey m unprefixed))
       | TakerConnectMsg m \<Rightarrow> (process_taker_connect env pubkey (tc_from_new_proto m) s, Ok (), NothingSpawned)
       | MakerConnectedMsg m \<Rightarrow> (process_maker_connected env pubkey (mc_from_new_proto m) s, Ok (), NothingSpawned)
       | MakerOrderCancelledMsg m \<Rightarrow> (s\<lparr>om_net := process_maker_order_cancelled hex m (om_net s)\<rparr>, Ok (), NothingSpawned)
       | MakerOrderUpdatedMsg m \<Rightarrow>
           (let (ns, r) = process_maker_order_updated hex m (om_net s)
            in (s\<lparr>om_net := ns\<rparr>, r, NothingSpawned))))"

definition handle_orderbook_msg :: "('db, 't) msg_env \<Rightarrow> string \<Rightarrow> bytes \<Rightarrow> 'db om_state \<Rightarrow>
    'db om_state \<times> (p2p_handler_error, unit) rust_result \<times> spawned" where
  "handle_orderbook_msg ge topic msg s = (case str_split TOPIC_SEPARATOR topic of
     p # pair # rest \<Rightarrow> if p = ORDERBOOK_PREFIX then process_msg ge msg s else (s, Err (InvalidTopic topic), NothingSpawned)
   | _ \<Rightarrow> (s, Err (InvalidTopic topic), NothingSpawned))"

lemma om_ok_process_taker_request_Ok: "om_ok s \<Longrightarrow> process_taker_request env pk r s = Ok s' \<Longrightarrow> om_ok s'"
  using om_ok_process_taker_request[of s env pk r] by auto

lemma process_msg_ok:
  assumes ok: "om_ok s"
  shows "om_ok (fst (process_msg ge msg s))"
  using om_ok_process_taker_request_Ok[OF ok] om_ok_process_taker_connect[OF ok] om_ok_process_maker_connected[OF ok] ok
  by (auto simp: process_msg_def Let_def split_beta split: option.split ordermatch_message.split rust_result.split)

lemma handle_orderbook_msg_ok: "om_ok s \<Longrightarrow> om_ok (fst (handle_orderbook_msg ge topic msg s))"
  by (auto simp: handle_orderbook_msg_def process_msg_ok split: list.split)

section \<open>The service as a whole\<close>

text \<open>One step of the service: a message, one of the two halves of a spawned reservation task, a request
  of the user, a balance event, a turn of the main loop, or a turn of the trie worker. The surroundings
  (clock, keys, coins, balances, expiry) may differ from step to step. Tasks that panic leave the state
  as it was: their locks are released.\<close>

inductive om_step :: "('db, 't) trie_lib \<Rightarrow> 'db om_state \<Rightarrow> 'db om_state \<Rightarrow> bool" for lib where
  Message: "ge_lib ge = lib \<Longrightarrow> om_step lib s (fst (handle_orderbook_msg ge topic msg s))"
| Collect: "process_maker_reserved_collect env from_pubkey r s = Ok (s', go) \<Longrightarrow> om_step lib s s'"
| Choose: "process_maker_reserved_choose env our_public_id u s = Ok s' \<Longrightarrow> om_step lib s s'"
| Buy_rpc: "rpc_env_ok re \<Longrightarrow> fresh_uuid (be_new_uuid (re_build re)) s \<Longrightarrow> om_step lib s (fst (om_buy re input s))"
| Sell_rpc: "rpc_env_ok re \<Longrightarrow> fresh_uuid (be_new_uuid (re_build re)) s \<Longrightarrow> om_step lib s (fst (om_sell re input s))"
| Set_price: "rpc_env_ok re \<Longrightarrow> fresh_uuid (be_new_uuid (re_build re)) s \<Longrightarrow> om_step lib s (fst (create_maker_order re req s))"
| Update: "rpc_env_ok re \<Longrightarrow> om_step lib s (fst (update_maker_order re upd s))"
| Cancel: "om_step lib s (fst (cancel_order env u s))"
| Cancel_by: "om_step lib s (fst (cancel_orders_by env by s))"
| Balance: "om_step lib s (balance_updated env wallet_only coin new_balance s)"
| Turn: "om_env_ok (le_om le) \<Longrightarrow> lp_ordermatch_loop_turn le s = Ok s' \<Longrightarrow> om_step lib s s'"
| Trie_worker: "om_step lib s (s\<lparr>om_net := trie_worker_step lib now (om_net s)\<rparr>)"

text \<open>A node starts with no orders and an empty directory, or restarts from the files of a node.\<close>

definition om_new :: "'db \<Rightarrow> orders_storage \<Rightarrow> 'db om_state" where
  "om_new db st = \<lparr>om_net = net_new db, om_makers = moc_new, om_takers = [], om_pending = [],
     om_storage = st, om_sent = [], om_swaps = []\<rparr>"

inductive om_reachable :: "('db, 't) trie_lib \<Rightarrow> 'db om_state \<Rightarrow> bool" for lib where
  First_start: "st_active_makers st = [] \<Longrightarrow> st_active_takers st = [] \<Longrightarrow> om_reachable lib (om_new db st)"
| Restart: "om_reachable lib s \<Longrightarrow> st_writable (om_storage s) \<Longrightarrow>
    om_reachable lib (fst (orders_kick_start (om_new db (om_storage s))))"
| Step: "om_reachable lib s \<Longrightarrow> om_step lib s s' \<Longrightarrow> om_reachable lib s'"

lemma balance_updated_ok: "om_ok s \<Longrightarrow> om_ok (balance_updated env wallet_only coin new_balance s)"
  by (simp add: balance_updated_def balance_event.visit_all(1) split: max_vol_result.split)

lemma om_step_ok: "om_step lib s s' \<Longrightarrow> om_ok s \<Longrightarrow> om_ok s'"
proof (induction rule: om_step.induct)
  case (Message ge s topic msg)
  then show ?case by (simp add: handle_orderbook_msg_ok)
next
  case (Collect env from_pubkey r s s' go)
  then show ?case using om_ok_collect by blast
next
  case (Choose env our_public_id u s s')
  then show ?case using om_ok_choose by blast
next
  case (Buy_rpc re s input)
  then show ?case
    using after_checks_places[OF Buy_rpc(3,1,2) _ _ _ refl, of "buy_checks re input" input] taker_checks[OF Buy_rpc(1), of input]
    unfolding om_buy_def by blast
next
  case (Sell_rpc re s input)
  then show ?case
    using after_checks_places[OF Sell_rpc(3,1,2) _ _ _ refl, of "sell_checks re input" input] taker_checks[OF Sell_rpc(1), of input]
    unfolding om_sell_def by blast
next
  case (Set_price re s req)
  then show ?case using create_maker_order_placed[OF Set_price(3,1,2)] by blast
next
  case (Update re s upd)
  then show ?case using update_maker_order_changed[OF Update(2,1)] by blast
next
  case (Cancel s env u)
  then show ?case by (rule om_ok_cancel_order)
next
  case (Cancel_by s env "by")
  then show ?case using cancel_orders_by_result(1) by (metis prod.collapse)
next
  case (Balance s env wallet_only coin new_balance)
  then show ?case by (rule balance_updated_ok)
next
  case (Turn le s s')
  then show ?case using loop_turn_ok[OF Turn(3,1)] by auto
next
  case (Trie_worker s now)
  then show ?case by simp
qed

lemma om_reachable_ok: "om_reachable lib s \<Longrightarrow> om_ok s"
proof (induction rule: om_reachable.induct)
  case (First_start st db)
  then show ?case
    by (simp add: om_ok_def om_new_def storage_mirrors_def pending_ok_def moc_new_safe) (simp add: moc_new_def)
next
  case (Restart s db)
  have new: "om_makers (om_new db (om_storage s)) = moc_new" "om_takers (om_new db (om_storage s)) = []"
    "om_pending (om_new db (om_storage s)) = []" "om_storage (om_new db (om_storage s)) = om_storage s"
    by (simp_all add: om_new_def)
  obtain s' coins where "orders_kick_start (om_new db (om_storage s)) = (s', coins)" by (metis prod.collapse)
  then show ?case using kick_start_restores[OF Restart(3,2) new] by simp
next
  case (Step s s')
  then show ?case using om_step_ok by blast
qed

section \<open>Properties\<close>

text \<open>C12: whatever messages, requests, balance events, expiries, turns of the loop and restarts happen,
  in any order, the node's own orders stay sound: every maker order has its uuid, never reserves more
  than it offers, names each of its matches by the taker's uuid and has started exactly the swaps of its
  connected matches, each once; a taker order is matched with at most one maker; no uuid is both; and
  while the disk takes writes, the files are the orders. Neither a taker's request nor a turn of the
  main loop can panic.\<close>

theorem own_orders_stay_sound:
  assumes "om_reachable lib s"
  shows "om_ok s
    \<and> (\<forall>env pk r. \<exists>s'. process_taker_request env pk r s = Ok s' \<and> om_ok s')
    \<and> (\<forall>le. om_env_ok (le_om le) \<longrightarrow> (\<exists>s'. lp_ordermatch_loop_turn le s = Ok s' \<and> om_ok s'))
    \<and> (moc_get_order u (om_makers s) = Some m \<longrightarrow> mo_uuid m = u \<and> 0 \<le> mo_available_amount m
         \<and> map_of (om_takers s) u = None \<and> distinct (mo_started_swaps m)
         \<and> (k \<in> set (mo_started_swaps m) \<longleftrightarrow> (\<exists>x. map_of (mo_matches m) k = Some x \<and> mm_connected x \<noteq> None)))"
proof -
  have ok: "om_ok s" by (rule om_reachable_ok[OF assms])
  moreover have "map_of (om_takers s) u = None" if "map_of (moc_orders (om_makers s)) u = Some m"
    using om_ok_disjoint[OF ok, of u] that by (cases "map_of (om_takers s) u") auto
  ultimately show ?thesis
    using om_ok_process_taker_request[OF ok] loop_turn_ok[OF ok] om_ok_maker[OF ok, of u m]
    unfolding moc_get_order_def maker_entry_ok_def holds_capacity_def by blast
qed

text \<open>C18: after a balance event no order of the coin offers more than the coin allows: an order whose
  minimum is above it is gone, the others offer at most it (what is reserved for matches is kept on
  top), and an order that offered less, or sells another coin, is as it was.\<close>

theorem balance_bounds_what_is_offered:
  assumes "om_ok s" "\<not> wallet_only coin" "oe_calc_max_maker_vol env coin new_balance = MaxVol v"
  shows "om_ok (balance_updated env wallet_only coin new_balance s)
    \<and> moc_get_order u (om_makers (balance_updated env wallet_only coin new_balance s)) =
        (case moc_get_order u (om_makers s) of
           None \<Rightarrow> None
         | Some m \<Rightarrow> if mo_base m \<noteq> coin_ticker coin then Some m
             else if v < mo_min_base_vol m then None
             else if v < mo_available_amount m then Some (lowered_to v m) else Some m)
    \<and> (\<forall>m'. moc_get_order u (om_makers (balance_updated env wallet_only coin new_balance s)) = Some m' \<longrightarrow>
         mo_base m' = coin_ticker coin \<longrightarrow> mo_min_base_vol m' \<le> v \<and> mo_available_amount m' \<le> v)"
  using balance_event.visit_all[OF assms(1), of env "coin_ticker coin" v] assms(2,3)
  by (auto simp: balance_updated_def moc_get_order_def split: option.splits)

text \<open>C19: when taker orders time out, an unmatched good-till-cancelled one becomes the maker order of the
  same uuid that offers the same, any other is gone, and those that have not timed out stay; this
  cannot panic and keeps the invariant.\<close>

theorem timed_out_taker_orders_become_maker_orders:
  assumes "om_ok s"
  shows "\<exists>s'. handle_timed_out_taker_orders env s = Ok s' \<and> om_ok s'
    \<and> (\<forall>u. map_of (om_takers s') u = (case map_of (om_takers s) u of
         Some t \<Rightarrow> if taker_timed_out env t then None else Some t | None \<Rightarrow> None))
    \<and> (\<forall>u t. map_of (om_takers s) u = Some t \<longrightarrow> taker_timed_out env t \<longrightarrow>
         (if to_matches t = [] \<and> to_order_type t = GoodTillCancelled
          then \<exists>m. maker_order_from_taker (oe_now_ms env) t = Ok m \<and> moc_get_order u (om_makers s') = Some m \<and> mo_uuid m = u
          else moc_get_order u (om_makers s') = None))"
proof -
  obtain s' where s': "handle_timed_out_taker_orders env s = Ok s'" "om_ok s'"
    "map_of (om_takers s') = (\<lambda>u. case map_of (om_takers s) u of
         Some t \<Rightarrow> if taker_timed_out env t then None else Some t | None \<Rightarrow> None)"
    "map_of (moc_orders (om_makers s')) = (\<lambda>u. case Option.bind (map_of (om_takers s) u) (taker_becomes env) of
         Some (Some m) \<Rightarrow> Some m | _ \<Rightarrow> map_of (moc_orders (om_makers s)) u)"
    using handle_timed_out_takers_ok[OF assms] by blast
  have "if to_matches t = [] \<and> to_order_type t = GoodTillCancelled
      then \<exists>m. maker_order_from_taker (oe_now_ms env) t = Ok m \<and> moc_get_order u (om_makers s') = Some m \<and> mo_uuid m = u
      else moc_get_order u (om_makers s') = None"
    if t: "map_of (om_takers s) u = Some t" and out: "taker_timed_out env t" for u t
  proof -
    have "wf_taker_order t" "tr_uuid (to_request t) = u" using om_ok_taker[OF assms t] by (simp_all add: taker_entry_ok_def)
    then obtain m where "maker_order_from_taker (oe_now_ms env) t = Ok m" "mo_uuid m = u"
      using maker_from_taker_ok by metis
    then show ?thesis
      using t out om_ok_disjoint[OF assms t] unfolding moc_get_order_def s'(4) by (auto simp: taker_becomes_def)
  qed
  then show ?thesis using s'(1,2) by (intro exI[of _ s'] conjI allI impI) (simp_all only: s'(3))
qed

text \<open>The time of a taker order is counted in milliseconds on 64 bits: an order with the time-out
  18446744073709552 seconds, which \<open>buy\<close> accepts, has timed out one second after it was placed.\<close>

theorem huge_timeout_wraps:
  "taker_timed_out ((demo_om_env 5)\<lparr>oe_now_ms := 1900\<rparr>) (demo_taker_order\<lparr>to_timeout := 18446744073709552\<rparr>)
   \<and> \<not> taker_timed_out ((demo_om_env 5)\<lparr>oe_now_ms := 1900\<rparr>) demo_taker_order"
  by (simp add: taker_timed_out_def demo_swap_defs)

text \<open>An update that lowers the volume of an order below the order's own minimum is accepted and
  broadcast (only a minimum in the request is compared with the new volume), and the next turn of the
  main loop cancels the order for insufficient balance.\<close>

theorem update_below_minimum_cancels_the_order:
  "(case update_maker_order demo_rpc_env (demo_update\<lparr>mu_volume_delta := Some (- (19 / 2))\<rparr>) demo_bob of
     (s', Ok m) \<Rightarrow> mo_available_amount m < mo_min_base_vol m \<and> moc_get_order 7 (om_makers s') = Some m
        \<and> moc_get_order 7 (om_makers (check_balance_for_maker_orders (demo_om_env 8) s')) = None
   | _ \<Rightarrow> False)"
proof -
  let ?req = "demo_update\<lparr>mu_volume_delta := Some (- (19 / 2))\<rparr>"
  obtain s' r where run: "update_maker_order demo_rpc_env ?req demo_bob = (s', r)" by (metis prod.collapse)
  have changed: "maker_order_changed ?req demo_bob (s', r)" "om_ok s'"
    using update_maker_order_changed[OF demo_bob_ok demo_rpc_env_ok, of ?req] run by simp_all
  have "\<not> mo_has_ongoing_matches demo_v2_order" by (simp add: mo_has_ongoing_matches_def)
  moreover have "find_pair demo_swap_env ''KMD'' ''XFG'' = Found (demo_coin ''KMD'', demo_coin ''XFG'')"
    by (simp add: find_pair_def demo_coins)
  moreover have "\<exists>upd. update_maker_order_terms demo_rpc_env ?req demo_v2_order (demo_coin ''KMD'') (demo_coin ''XFG'')
      = Ok (upd, 1 / 2)"
    by (simp add: update_maker_order_terms_def Let_def update_new_volume_def demo_update_def demo_swap_defs demo_coin_def
        demo_conf_def validate_price_def validate_max_vol_def)
  moreover have "snd (save_maker_order_on_update (\<lambda>x. x) m (om_storage demo_bob)) = Ok ()" for m
    by (simp add: save_maker_order_on_update_def update_active_maker_order_def save_new_active_maker_order_def
        update_maker_order_row_def update_my_order_def)
  ultimately have "\<exists>m. snd (update_maker_order demo_rpc_env ?req demo_bob) = Ok m"
    by (auto simp: update_maker_order_def update_maker_order_commit_def moc_get_order_def demo_coins Let_def split_beta
        demo_update_def demo_swap_env_def)
  then obtain m where m: "r = Ok m" using run by auto
  then have "mo_matches m = []" "mo_max_base_vol m = 1 / 2" "mo_min_base_vol m = 1"
    and get: "map_of (moc_orders (om_makers s')) 7 = Some m"
    using changed(1) by (auto simp: maker_order_changed_def moc_get_order_def demo_update_def demo_swap_defs)
  then have less: "mo_available_amount m < mo_min_base_vol m" "\<not> mo_has_ongoing_matches m"
    by (simp_all add: mo_available_amount_def mo_has_ongoing_matches_def)
  have "map_of (moc_orders (om_makers (check_balance_for_maker_orders (demo_om_env 8) s'))) 7 = None"
    using balance_check.visit_all(2)[OF changed(2), of "demo_om_env 8"] get less
    by (simp add: check_balance_for_maker_orders_def)
  then show ?thesis using run m get less by (simp add: moc_get_order_def)
qed

section \<open>Witnesses\<close>

lemma demo_om_env_ok: "om_env_ok ((demo_om_env 8)\<lparr>oe_calc_max_maker_vol := (\<lambda>_ _. MaxVol 4)\<rparr>)"
  by (simp add: om_env_ok_def)

theorem own_orders_stay_sound_witness:
  "om_ok (om_new () demo_storage) \<and> (\<exists>s'. process_taker_request (demo_om_env 8) 5 demo_v2_request (om_new () demo_storage) = Ok s')"
proof -
  have "om_reachable undefined (om_new () demo_storage)"
    by (rule om_reachable.First_start) (simp_all add: demo_storage_def)
  from own_orders_stay_sound[OF this] show ?thesis by blast
qed

theorem balance_bounds_what_is_offered_witness:
  "moc_get_order 7 (om_makers (balance_updated ((demo_om_env 8)\<lparr>oe_calc_max_maker_vol := (\<lambda>_ _. MaxVol 4)\<rparr>)
      (\<lambda>_. False) (demo_coin ''KMD'') 5 demo_bob)) = Some (lowered_to 4 demo_v2_order)"
proof -
  let ?env = "(demo_om_env 8)\<lparr>oe_calc_max_maker_vol := (\<lambda>_ _. MaxVol 4)\<rparr>"
  have "\<not> (\<lambda>_. False) (demo_coin ''KMD'')" "oe_calc_max_maker_vol ?env (demo_coin ''KMD'') 5 = MaxVol 4" by simp_all
  from balance_bounds_what_is_offered[OF demo_bob_ok this, of 7] show ?thesis
    by (simp add: moc_get_order_def demo_coin_def) (simp add: demo_swap_defs mo_available_amount_def mo_reserved_amount_def)
qed

theorem timed_out_taker_orders_become_maker_orders_witness:
  "\<exists>s' m. handle_timed_out_taker_orders ((demo_om_env 5)\<lparr>oe_now_ms := 40000\<rparr>) demo_alice = Ok s'
     \<and> map_of (om_takers s') 9 = None \<and> moc_get_order 9 (om_makers s') = Some m"
proof -
  let ?env = "(demo_om_env 5)\<lparr>oe_now_ms := 40000\<rparr>"
  have t: "map_of (om_takers demo_alice) 9 = Some demo_taker_order" by (simp add: demo_alice_def)
  have out: "taker_timed_out ?env demo_taker_order" "to_order_type demo_taker_order = GoodTillCancelled"
    by (simp_all add: taker_timed_out_def demo_swap_defs)
  from timed_out_taker_orders_become_maker_orders[OF demo_alice_ok, of ?env] t out show ?thesis by force
qed

end
