(* ===== verification/Swap_Coin.thy ===== *)
theory Swap_Coin
  imports Swap_Routing
begin

text \<open>
  What the swaps ask of a coin (the traits \<open>MmCoin\<close>, \<open>SwapOps\<close> and \<open>WatcherOps\<close> of
  \<open>coins/lp_coins.rs\<close>): the data types the calls exchange, and the record \<open>swap_coin\<close> of the
  methods that answer at once and always in the same way. The calls that go to a network are not in
  it: what they answer is drawn anew each time, from the record of answers of the swap that makes
  them. The dex fee, which the code computes from the coin's settings, is at the end.

  A public key (\<open>H264\<close>) and a transaction are lists of bytes; a transaction is read through its
  serialisation \<open>tx_hex\<close> and its hash \<open>tx_hash_as_bytes\<close> (and whether the helper topic of its coin
  carries it).
\<close>

section \<open>Data of the calls\<close>

type_synonym h264 = bytes

record trade_fee =
  tf_coin :: string
  tf_amount :: mm_number
  tf_paid_from_trading_vol :: bool

record transaction_enum =
  te_tx_hex :: bytes
  te_tx_hash :: bytes
  te_supports_tx_helper :: bool

datatype transaction_err =
    TxRecoverable transaction_enum string
  | TxPlain string
  | TxProtocolNotSupported string
  | TxInternalError string

fun te_get_tx :: "transaction_err \<Rightarrow> transaction_enum option" where
  "te_get_tx (TxRecoverable tx _) = Some tx"
| "te_get_tx _ = None"

fun te_get_plain_text_format :: "transaction_err \<Rightarrow> string" where
  "te_get_plain_text_format (TxRecoverable _ err) = err"
| "te_get_plain_text_format (TxPlain err) = err"
| "te_get_plain_text_format (TxProtocolNotSupported err) = err"
| "te_get_plain_text_format (TxInternalError err) = err"

datatype found_swap_tx_spend = TxSpent transaction_enum | TxRefunded transaction_enum

datatype can_refund_htlc = CanRefundNow | HaveToWait u64

datatype reward_target =
    RewardNone | RewardContract | RewardPaymentSender | RewardPaymentSpender | RewardPaymentReceiver

record watcher_reward =
  wr_amount :: mm_number
  wr_is_exact_amount :: bool
  wr_reward_target :: reward_target
  wr_send_contract_reward_on_spend :: bool

text \<open>A lightning invoice is not looked into: it is the text it is exchanged as.\<close>

datatype payment_instructions = LightningInvoice string | WatcherRewardInstructions mm_number

record payment_instruction_args =
  pia_secret_hash :: bytes
  pia_amount :: mm_number
  pia_maker_lock_duration :: u64
  pia_expires_in :: u64
  pia_watcher_reward :: bool
  pia_wait_until :: u64

record confirm_payment_input =
  cpi_payment_tx :: bytes
  cpi_confirmations :: u64
  cpi_requires_nota :: bool
  cpi_wait_until :: u64
  cpi_check_every :: u64

record validate_payment_input =
  vpi_payment_tx :: bytes
  vpi_time_lock_duration :: u64
  vpi_time_lock :: u64
  vpi_other_pub :: bytes
  vpi_secret_hash :: bytes
  vpi_amount :: mm_number
  vpi_swap_contract_address :: "bytes option"
  vpi_try_spv_proof_until :: u64
  vpi_confirmations :: u64
  vpi_unique_swap_data :: bytes
  vpi_watcher_reward :: "watcher_reward option"

record send_payment_args =
  spa_time_lock_duration :: u64
  spa_time_lock :: u64
  spa_other_pubkey :: bytes
  spa_secret_hash :: bytes
  spa_amount :: mm_number
  spa_swap_contract_address :: "bytes option"
  spa_swap_unique_data :: bytes
  spa_payment_instructions :: "payment_instructions option"
  spa_watcher_reward :: "watcher_reward option"
  spa_wait_for_confirmation_until :: u64

record spend_payment_args =
  spe_other_payment_tx :: bytes
  spe_time_lock :: u64
  spe_other_pubkey :: bytes
  spe_secret :: bytes
  spe_secret_hash :: bytes
  spe_swap_contract_address :: "bytes option"
  spe_swap_unique_data :: bytes
  spe_watcher_reward :: bool

text \<open>\<open>RefundPaymentArgs\<close>, whose \<open>tx_type_with_secret_hash\<close> is \<open>TakerOrMakerPayment\<close> in both legacy swaps.\<close>

record refund_payment_args =
  rpa_payment_tx :: bytes
  rpa_time_lock :: u64
  rpa_other_pubkey :: bytes
  rpa_maker_secret_hash :: bytes
  rpa_swap_contract_address :: "bytes option"
  rpa_swap_unique_data :: bytes
  rpa_watcher_reward :: bool

record check_if_my_payment_sent_args =
  cps_time_lock :: u64
  cps_other_pub :: bytes
  cps_secret_hash :: bytes
  cps_search_from_block :: u64
  cps_swap_contract_address :: "bytes option"
  cps_swap_unique_data :: bytes
  cps_amount :: mm_number
  cps_payment_instructions :: "payment_instructions option"

record search_for_swap_tx_spend_input =
  sst_time_lock :: u64
  sst_other_pub :: bytes
  sst_secret_hash :: bytes
  sst_tx :: bytes
  sst_search_from_block :: u64
  sst_swap_contract_address :: "bytes option"
  sst_swap_unique_data :: bytes

record wait_for_htlc_tx_spend_args =
  wht_tx_bytes :: bytes
  wht_secret_hash :: bytes
  wht_wait_until :: u64
  wht_from_block :: u64
  wht_swap_contract_address :: "bytes option"
  wht_watcher_reward :: bool

section \<open>The methods that answer at once\<close>

text \<open>
  A coin as the swaps see it: the methods order matching uses, and those of the swaps. They are those
  of the coin's implementation, any of the coins of the repository: the model is generic in it, as the
  code that calls the trait objects is.
\<close>

record swap_coin = mm_coin +
  sc_is_eth :: bool
  sc_burn_pubkey :: bytes
  sc_min_tx_amount :: mm_number
  sc_should_burn_directly :: bool
  sc_should_burn_dex_fee :: bool
  sc_swap_contract_address :: "bytes option"
  sc_fallback_swap_contract :: "bytes option"
  sc_negotiate_swap_contract_addr :: "bytes option \<Rightarrow> string + bytes option"
  sc_derive_htlc_pubkey :: "bytes \<Rightarrow> h264"
  sc_validate_other_pubkey :: "h264 \<Rightarrow> string + unit"
  sc_is_auto_refundable :: bool
  sc_is_supported_by_watchers :: bool
  sc_tx_enum_from_bytes :: "bytes \<Rightarrow> string + transaction_enum"
  sc_validate_maker_payment_instructions ::
    "bytes \<Rightarrow> payment_instruction_args \<Rightarrow> string + payment_instructions"
  sc_validate_taker_payment_instructions ::
    "bytes \<Rightarrow> payment_instruction_args \<Rightarrow> string + payment_instructions"
  sc_address_from_pubkey :: "h264 \<Rightarrow> string + string"

fun is_tendermint :: "coin_variant \<Rightarrow> bool" where
  "is_tendermint TendermintVariant = True"
| "is_tendermint TendermintTokenVariant = True"
| "is_tendermint _ = False"

definition detect_secret_hash_algo :: "swap_coin \<Rightarrow> swap_coin \<Rightarrow> secret_hash_algo" where
  "detect_secret_hash_algo maker_coin taker_coin =
    (if is_tendermint (coin_variant maker_coin) \<or> coin_variant maker_coin = LightningCoinVariant then SHA256
     else if is_tendermint (coin_variant taker_coin) then SHA256
     else if coin_variant taker_coin = SiaCoinVariant then SHA256
     else if coin_variant maker_coin = SiaCoinVariant then SHA256
     else DHASH160)"

section \<open>The dex fee\<close>

datatype dex_fee_burn_destination = KmdOpReturn | PreBurnAccount

datatype dex_fee =
    NoFee
  | StandardFee mm_number
  | WithBurn mm_number mm_number dex_fee_burn_destination

definition DEX_FEE_SHARE :: mm_number where
  "DEX_FEE_SHARE = 3 / 4"

text \<open>The rate is one percent when one of the coins is \<open>GLEEC\<close>, two percent otherwise.\<close>

definition dex_fee_rate :: "string \<Rightarrow> string \<Rightarrow> mm_number" where
  "dex_fee_rate base rel = (if ''GLEEC'' = base \<or> ''GLEEC'' = rel then 1 / 100 else 2 / 100)"

definition calc_dex_fee_for_op_return :: "mm_number \<Rightarrow> mm_number \<Rightarrow> dex_fee" where
  "calc_dex_fee_for_op_return fee min_tx_amount =
    (if fee \<le> min_tx_amount then StandardFee min_tx_amount
     else let new_fee = fee * DEX_FEE_SHARE
          in if min_tx_amount \<le> new_fee then WithBurn new_fee (fee - new_fee) KmdOpReturn
             else WithBurn min_tx_amount (fee - min_tx_amount) KmdOpReturn)"

definition calc_dex_fee_for_burn_account :: "mm_number \<Rightarrow> mm_number \<Rightarrow> dex_fee" where
  "calc_dex_fee_for_burn_account fee min_tx_amount =
    (if fee \<le> min_tx_amount then StandardFee min_tx_amount
     else let new_fee = fee * DEX_FEE_SHARE;
              burn = fee - new_fee
          in if min_tx_amount \<le> new_fee \<and> min_tx_amount \<le> burn then WithBurn new_fee burn PreBurnAccount
             else let burn' = fee - min_tx_amount
                  in if new_fee < min_tx_amount \<and> min_tx_amount \<le> burn'
                     then WithBurn min_tx_amount burn' PreBurnAccount
                     else StandardFee fee)"

definition dex_fee_new_from_taker_coin :: "swap_coin \<Rightarrow> string \<Rightarrow> mm_number \<Rightarrow> dex_fee" where
  "dex_fee_new_from_taker_coin taker_coin maker_ticker trade_amount =
    (let rate = dex_fee_rate (coin_ticker taker_coin) maker_ticker;
         fee = trade_amount * rate;
         min_tx_amount = sc_min_tx_amount taker_coin
     in if sc_should_burn_directly taker_coin then calc_dex_fee_for_op_return fee min_tx_amount
        else if sc_should_burn_dex_fee taker_coin then calc_dex_fee_for_burn_account fee min_tx_amount
        else if fee \<le> min_tx_amount then StandardFee min_tx_amount
        else StandardFee fee)"

definition dex_fee_new_with_taker_pubkey :: "swap_coin \<Rightarrow> string \<Rightarrow> mm_number \<Rightarrow> bytes \<Rightarrow> dex_fee" where
  "dex_fee_new_with_taker_pubkey taker_coin maker_ticker trade_amount taker_pubkey =
    (if \<not> is_privacy taker_coin \<and> sc_burn_pubkey taker_coin = taker_pubkey then NoFee
     else dex_fee_new_from_taker_coin taker_coin maker_ticker trade_amount)"

fun df_fee_amount :: "dex_fee \<Rightarrow> mm_number" where
  "df_fee_amount NoFee = 0"
| "df_fee_amount (StandardFee t) = t"
| "df_fee_amount (WithBurn fee burn _) = fee"

fun df_burn_amount :: "dex_fee \<Rightarrow> mm_number option" where
  "df_burn_amount (WithBurn fee burn _) = Some burn"
| "df_burn_amount _ = None"

fun df_total_spend_amount :: "dex_fee \<Rightarrow> mm_number" where
  "df_total_spend_amount NoFee = 0"
| "df_total_spend_amount (StandardFee t) = t"
| "df_total_spend_amount (WithBurn fee burn _) = fee + burn"

record max_taker_volume_less_than_dust =
  mtv_max_vol :: mm_number
  mtv_min_tx_amount :: mm_number

text \<open>
  The largest volume a taker can buy with what is available. The division by the rate cannot panic:
  the rate is one of two constants.
\<close>

definition max_taker_vol_from_available ::
    "mm_number \<Rightarrow> string \<Rightarrow> string \<Rightarrow> mm_number \<Rightarrow> (max_taker_volume_less_than_dust, mm_number) rust_result" where
  "max_taker_vol_from_available available base rel min_tx_amount =
    (let rate = dex_fee_rate base rel
     in rbind (mm_div (1 + rate) rate) (\<lambda>threshold_coef.
          rbind (if min_tx_amount * threshold_coef < available then mm_div available (1 + rate)
                 else Ok (available - min_tx_amount)) (\<lambda>max_vol.
            if max_vol \<le> min_tx_amount
            then Err \<lparr>mtv_max_vol = max_vol, mtv_min_tx_amount = min_tx_amount\<rparr>
            else Ok max_vol)))"

lemma dex_fee_rate_cases: "dex_fee_rate base rel = 1 / 100 \<or> dex_fee_rate base rel = 2 / 100"
  by (simp add: dex_fee_rate_def)

lemma dex_fee_rate_bounds: "0 < dex_fee_rate base rel" "dex_fee_rate base rel < 1"
  using dex_fee_rate_cases [of base rel] by auto

lemma dex_fee_total:
  "df_total_spend_amount (dex_fee_new_from_taker_coin c rel v)
    = max (sc_min_tx_amount c) (v * dex_fee_rate (coin_ticker c) rel)"
  by (auto simp: dex_fee_new_from_taker_coin_def calc_dex_fee_for_op_return_def
      calc_dex_fee_for_burn_account_def Let_def max_def)

lemma volume_with_fee_mono:
  fixes v v' :: mm_number
  shows "v < v' \<Longrightarrow> v + max m (v * dex_fee_rate a b) < v' + max m (v' * dex_fee_rate a b)"
  using dex_fee_rate_bounds(1) [of a b] by (intro add_less_le_mono max.mono mult_right_mono) auto

lemma volume_with_fee_solved:
  fixes av m :: mm_number
  assumes "v = (if m * ((1 + r) / r) < av then av / (1 + r) else av - m)" "0 < r"
  shows "v + max m (v * r) = av"
proof (cases "m * ((1 + r) / r) < av")
  case True
  then have "m * (1 + r) < av * r" using assms(2) by (simp add: field_simps)
  then have "m < av * r / (1 + r)" using assms(2) by (simp add: pos_less_divide_eq)
  moreover have v: "v = av / (1 + r)" using True assms by simp
  ultimately have "m < v * r" by simp
  moreover have "v + v * r = av" using assms(2) v by (simp add: field_simps)
  ultimately show ?thesis by (simp add: max_def)
next
  case False
  then have "av * r \<le> m * (1 + r)" using assms(2) by (simp add: field_simps not_less)
  moreover have "v * r = av * r - m * r" using False assms by (simp add: left_diff_distrib)
  ultimately have "v * r \<le> m" by (simp add: distrib_left)
  then show ?thesis using False assms by (simp add: max_def)
qed

lemma max_taker_vol_from_available_eq:
  "max_taker_vol_from_available av base rel m =
    (let r = dex_fee_rate base rel; v = (if m * ((1 + r) / r) < av then av / (1 + r) else av - m)
     in if v \<le> m then Err \<lparr>mtv_max_vol = v, mtv_min_tx_amount = m\<rparr> else Ok v)"
  using dex_fee_rate_bounds [of base rel] by (simp add: max_taker_vol_from_available_def Let_def)

text \<open>
  C20: The dex fee of a trade is the rate of the volume, or the least amount the coin can send when
  that is more, whatever the coin does with it. What goes to the dex is never dust, what is burnt is
  positive and at most a quarter of the fee, and what goes to the burn account is never dust either.
\<close>

theorem dex_fee_is_the_rate_and_never_dust:
  assumes "0 \<le> sc_min_tx_amount c"
  shows "df_total_spend_amount (dex_fee_new_from_taker_coin c rel v)
      = max (sc_min_tx_amount c) (v * dex_fee_rate (coin_ticker c) rel)
    \<and> sc_min_tx_amount c \<le> df_fee_amount (dex_fee_new_from_taker_coin c rel v)
    \<and> (case dex_fee_new_from_taker_coin c rel v of
        NoFee \<Rightarrow> False
      | StandardFee fee \<Rightarrow> True
      | WithBurn fee burn dest \<Rightarrow> 0 < burn \<and> burn \<le> (fee + burn) / 4
          \<and> (dest = PreBurnAccount \<longrightarrow> sc_min_tx_amount c \<le> burn))"
  using assms dex_fee_total [of c rel v]
  by (auto simp: dex_fee_new_from_taker_coin_def calc_dex_fee_for_op_return_def DEX_FEE_SHARE_def
      calc_dex_fee_for_burn_account_def Let_def not_le)

definition demo_swap_coin :: "string \<Rightarrow> swap_coin" where
  "demo_swap_coin ticker = mm_coin.extend (demo_coin ticker)
    \<lparr>sc_is_eth = False, sc_burn_pubkey = [9], sc_min_tx_amount = 1 / 100000, sc_should_burn_directly = False,
     sc_should_burn_dex_fee = True, sc_swap_contract_address = None, sc_fallback_swap_contract = None,
     sc_negotiate_swap_contract_addr = (\<lambda>_. Inr None), sc_derive_htlc_pubkey = (\<lambda>_. [1]),
     sc_validate_other_pubkey = (\<lambda>_. Inr ()), sc_is_auto_refundable = False,
     sc_is_supported_by_watchers = False,
     sc_tx_enum_from_bytes =
       (\<lambda>b. Inr \<lparr>te_tx_hex = b, te_tx_hash = b, te_supports_tx_helper = True\<rparr>),
     sc_validate_maker_payment_instructions = (\<lambda>_ _. Inl ''unsupported''),
     sc_validate_taker_payment_instructions = (\<lambda>_ _. Inl ''unsupported''),
     sc_address_from_pubkey = (\<lambda>_. Inr ''address'')\<rparr>"

lemma dex_fee_is_the_rate_and_never_dust_witness:
  "dex_fee_new_from_taker_coin (demo_swap_coin ''BTC'') ''KMD'' 1 = WithBurn (15 / 1000) (5 / 1000) PreBurnAccount
    \<and> df_total_spend_amount (dex_fee_new_from_taker_coin (demo_swap_coin ''BTC'') ''KMD'' 1)
        = max (sc_min_tx_amount (demo_swap_coin ''BTC'')) (1 * dex_fee_rate (coin_ticker (demo_swap_coin ''BTC'')) ''KMD'')"
  using dex_fee_is_the_rate_and_never_dust [of "demo_swap_coin ''BTC''" "''KMD''" 1]
  by (simp add: demo_swap_coin_def demo_coin_def mm_coin.defs dex_fee_new_from_taker_coin_def calc_dex_fee_for_burn_account_def
      dex_fee_rate_def DEX_FEE_SHARE_def)

text \<open>
  C21: What \<open>max_taker_vol_from_available\<close> finds is the largest volume the available amount pays for
  together with its dex fee, and the two use it up to the last unit; it gives an error exactly when no
  volume above the least amount of the coin fits.
\<close>

theorem max_taker_vol_is_the_most_that_fits:
  "case max_taker_vol_from_available av (coin_ticker c) rel (sc_min_tx_amount c) of
      Panic \<Rightarrow> False
    | Ok v \<Rightarrow> sc_min_tx_amount c < v
        \<and> v + df_total_spend_amount (dex_fee_new_from_taker_coin c rel v) = av
        \<and> (\<forall>v'. v < v' \<longrightarrow> av < v' + df_total_spend_amount (dex_fee_new_from_taker_coin c rel v'))
    | Err e \<Rightarrow> \<forall>v'. sc_min_tx_amount c < v' \<longrightarrow>
        av < v' + df_total_spend_amount (dex_fee_new_from_taker_coin c rel v')"
proof -
  let ?r = "dex_fee_rate (coin_ticker c) rel" and ?m = "sc_min_tx_amount c"
  define v where "v = (if ?m * ((1 + ?r) / ?r) < av then av / (1 + ?r) else av - ?m)"
  have v: "v + max ?m (v * ?r) = av"
    using v_def dex_fee_rate_bounds(1) by (rule volume_with_fee_solved)
  have more: "av < v' + max ?m (v' * ?r)" if "v < v'" for v'
    using volume_with_fee_mono [OF that, of ?m "coin_ticker c" rel] v by simp
  have eq: "max_taker_vol_from_available av (coin_ticker c) rel ?m =
      (if v \<le> ?m then Err \<lparr>mtv_max_vol = v, mtv_min_tx_amount = ?m\<rparr> else Ok v)"
    unfolding max_taker_vol_from_available_eq Let_def v_def by (rule refl)
  show ?thesis
    unfolding eq dex_fee_total using v more by simp
qed

lemma max_taker_vol_is_the_most_that_fits_witness:
  "max_taker_vol_from_available (102 / 100) ''BTC'' ''KMD'' (1 / 100000) = Ok 1
    \<and> 1 + df_total_spend_amount (dex_fee_new_from_taker_coin (demo_swap_coin ''BTC'') ''KMD'' 1) = 102 / 100"
  using max_taker_vol_is_the_most_that_fits [where av = "102 / 100" and c = "demo_swap_coin ''BTC''" and rel = "''KMD''"]
  by (simp add: demo_swap_coin_def demo_coin_def mm_coin.defs max_taker_vol_from_available_def dex_fee_rate_def)

end
