(* ===== verification/Swap_Common.thy ===== *)
theory Swap_Common
  imports Swap_Coin
begin

text \<open>
  What the two legacy swaps share (\<open>mm2_main/src/lp_swap.rs\<close>): the deadlines derived from the lock
  duration, the messages a maker and a taker exchange and the store an arriving message is put into,
  the saved fees and errors, and the surroundings of a swap. A step of a swap is a function of the
  swap and of \<open>step_answers\<close>: the clock, the messages received, and what the two coins answer to the
  calls of the step. What it does to the outside is a list of \<open>swap_act\<close>s, in the order of the code.

  The text of an error is the literal text of the code followed by the text of its cause, without the
  file and the line \<open>ERRL!\<close> puts in front and without the quotes \<open>{:?}\<close> puts around.
\<close>

section \<open>Deadlines\<close>

definition MAX_TIME_GAP_FOR_CONNECTED_PEER :: u64 where
  "MAX_TIME_GAP_FOR_CONNECTED_PEER = 20"

definition MAX_STARTED_AT_DIFF :: u64 where
  "MAX_STARTED_AT_DIFF = MAX_TIME_GAP_FOR_CONNECTED_PEER * 3"

definition TAKER_FEE_VALIDATION_ATTEMPTS :: nat where
  "TAKER_FEE_VALIDATION_ATTEMPTS = 6"

definition WAIT_CONFIRM_INTERVAL_SEC :: u64 where
  "WAIT_CONFIRM_INTERVAL_SEC = 15"

definition taker_payment_spend_duration :: "u64 \<Rightarrow> u64" where
  "taker_payment_spend_duration locktime = (locktime * 4) div 5"

definition taker_payment_spend_deadline :: "u64 \<Rightarrow> u64 \<Rightarrow> u64" where
  "taker_payment_spend_deadline swap_started_at locktime
    = swap_started_at + taker_payment_spend_duration locktime"

definition wait_for_maker_payment_conf_duration :: "u64 \<Rightarrow> u64" where
  "wait_for_maker_payment_conf_duration locktime = (locktime * 2) div 5"

definition wait_for_maker_payment_conf_until :: "u64 \<Rightarrow> u64 \<Rightarrow> u64" where
  "wait_for_maker_payment_conf_until swap_started_at locktime
    = swap_started_at + wait_for_maker_payment_conf_duration locktime"

text \<open>
  \<open>(lock_duration as f64 * multiplier).ceil() as u64\<close>. The product is taken exactly, which \<open>f64\<close> does
  for durations below \<open>2 ^ 52\<close> and the multipliers of the coins (\<open>2.0\<close>, and \<open>1.5\<close> for lightning); the
  conversion to \<open>u64\<close> saturates.
\<close>

definition f64_ceil_as_u64 :: "rat \<Rightarrow> u64" where
  "f64_ceil_as_u64 x = (if \<lceil>x\<rceil> \<le> 0 then 0 else if 2 ^ 64 \<le> \<lceil>x\<rceil> then - 1 else word_of_int \<lceil>x\<rceil>)"

definition multiplied_lock_duration :: "u64 \<Rightarrow> rat \<Rightarrow> u64" where
  "multiplied_lock_duration d m = f64_ceil_as_u64 (rat_of_nat (unat d) * m)"

definition u64_abs_diff :: "u64 \<Rightarrow> u64 \<Rightarrow> u64" where
  "u64_abs_diff a b = (if a \<le> b then b - a else a - b)"

definition u64_checked_add :: "u64 \<Rightarrow> u64 \<Rightarrow> u64 option" where
  "u64_checked_add a b = (if unat a + unat b < 2 ^ 64 then Some (a + b) else None)"

section \<open>Errors and transactions\<close>

text \<open>The decimal digits of a number, as \<open>{}\<close> prints it.\<close>

fun show_nat :: "nat \<Rightarrow> string" where
  "show_nat n = (if n < 10 then [char_of (48 + n)] else show_nat (n div 10) @ [char_of (48 + n mod 10)])"

declare show_nat.simps [simp del]

definition show_u64 :: "u64 \<Rightarrow> string" where
  "show_u64 w = show_nat (unat w)"

type_synonym swap_error = string

record transaction_identifier =
  ti_tx_hex :: bytes
  ti_tx_hash :: bytes

definition tx_ident_of :: "transaction_enum \<Rightarrow> transaction_identifier" where
  "tx_ident_of tx = \<lparr>ti_tx_hex = te_tx_hex tx, ti_tx_hash = te_tx_hash tx\<rparr>"

definition empty_tx_ident :: transaction_identifier where
  "empty_tx_ident = \<lparr>ti_tx_hex = [], ti_tx_hash = []\<rparr>"

record saved_trade_fee =
  stf_coin :: string
  stf_amount :: mm_number
  stf_paid_from_trading_vol :: bool

definition trade_fee_of_saved :: "saved_trade_fee \<Rightarrow> trade_fee" where
  "trade_fee_of_saved orig = \<lparr>tf_coin = stf_coin orig, tf_amount = stf_amount orig,
     tf_paid_from_trading_vol = stf_paid_from_trading_vol orig\<rparr>"

definition saved_trade_fee_of :: "trade_fee \<Rightarrow> saved_trade_fee" where
  "saved_trade_fee_of orig = \<lparr>stf_coin = tf_coin orig, stf_amount = tf_amount orig,
     stf_paid_from_trading_vol = tf_paid_from_trading_vol orig\<rparr>"

lemma trade_fee_of_saved_inverse [simp]: "trade_fee_of_saved (saved_trade_fee_of f) = f"
  by (simp add: trade_fee_of_saved_def saved_trade_fee_of_def)

section \<open>Messages\<close>

record negotiation_data_v1 =
  nd1_started_at :: u64
  nd1_payment_locktime :: u64
  nd1_secret_hash :: bytes
  nd1_persistent_pubkey :: h264

record negotiation_data_v2 =
  nd2_started_at :: u64
  nd2_payment_locktime :: u64
  nd2_secret_hash :: bytes
  nd2_persistent_pubkey :: h264
  nd2_maker_coin_swap_contract :: bytes
  nd2_taker_coin_swap_contract :: bytes

record negotiation_data_v3 =
  nd3_started_at :: u64
  nd3_payment_locktime :: u64
  nd3_secret_hash :: bytes
  nd3_maker_coin_swap_contract :: bytes
  nd3_taker_coin_swap_contract :: bytes
  nd3_maker_coin_htlc_pub :: h264
  nd3_taker_coin_htlc_pub :: h264

datatype negotiation_data_msg =
    NegotiationV1 negotiation_data_v1
  | NegotiationV2 negotiation_data_v2
  | NegotiationV3 negotiation_data_v3

fun nd_started_at :: "negotiation_data_msg \<Rightarrow> u64" where
  "nd_started_at (NegotiationV1 v1) = nd1_started_at v1"
| "nd_started_at (NegotiationV2 v2) = nd2_started_at v2"
| "nd_started_at (NegotiationV3 v3) = nd3_started_at v3"

fun nd_payment_locktime :: "negotiation_data_msg \<Rightarrow> u64" where
  "nd_payment_locktime (NegotiationV1 v1) = nd1_payment_locktime v1"
| "nd_payment_locktime (NegotiationV2 v2) = nd2_payment_locktime v2"
| "nd_payment_locktime (NegotiationV3 v3) = nd3_payment_locktime v3"

fun nd_secret_hash :: "negotiation_data_msg \<Rightarrow> bytes" where
  "nd_secret_hash (NegotiationV1 v1) = nd1_secret_hash v1"
| "nd_secret_hash (NegotiationV2 v2) = nd2_secret_hash v2"
| "nd_secret_hash (NegotiationV3 v3) = nd3_secret_hash v3"

fun nd_maker_coin_htlc_pub :: "negotiation_data_msg \<Rightarrow> h264" where
  "nd_maker_coin_htlc_pub (NegotiationV1 v1) = nd1_persistent_pubkey v1"
| "nd_maker_coin_htlc_pub (NegotiationV2 v2) = nd2_persistent_pubkey v2"
| "nd_maker_coin_htlc_pub (NegotiationV3 v3) = nd3_maker_coin_htlc_pub v3"

fun nd_taker_coin_htlc_pub :: "negotiation_data_msg \<Rightarrow> h264" where
  "nd_taker_coin_htlc_pub (NegotiationV1 v1) = nd1_persistent_pubkey v1"
| "nd_taker_coin_htlc_pub (NegotiationV2 v2) = nd2_persistent_pubkey v2"
| "nd_taker_coin_htlc_pub (NegotiationV3 v3) = nd3_taker_coin_htlc_pub v3"

fun nd_maker_coin_swap_contract :: "negotiation_data_msg \<Rightarrow> bytes option" where
  "nd_maker_coin_swap_contract (NegotiationV1 v1) = None"
| "nd_maker_coin_swap_contract (NegotiationV2 v2) = Some (nd2_maker_coin_swap_contract v2)"
| "nd_maker_coin_swap_contract (NegotiationV3 v3) = Some (nd3_maker_coin_swap_contract v3)"

fun nd_taker_coin_swap_contract :: "negotiation_data_msg \<Rightarrow> bytes option" where
  "nd_taker_coin_swap_contract (NegotiationV1 v1) = None"
| "nd_taker_coin_swap_contract (NegotiationV2 v2) = Some (nd2_taker_coin_swap_contract v2)"
| "nd_taker_coin_swap_contract (NegotiationV3 v3) = Some (nd3_taker_coin_swap_contract v3)"

datatype swap_tx_data_msg = RegularTxData bytes | WithInstructions bytes bytes

fun std_data :: "swap_tx_data_msg \<Rightarrow> bytes" where
  "std_data (RegularTxData data) = data"
| "std_data (WithInstructions data _) = data"

fun std_instructions :: "swap_tx_data_msg \<Rightarrow> bytes option" where
  "std_instructions (RegularTxData data) = None"
| "std_instructions (WithInstructions _ next_step) = Some next_step"

definition swap_tx_data_new :: "bytes \<Rightarrow> bytes option \<Rightarrow> swap_tx_data_msg" where
  "swap_tx_data_new data instructions = (case instructions of
      Some next_step \<Rightarrow> WithInstructions data next_step
    | None \<Rightarrow> RegularTxData data)"

datatype swap_msg =
    Negotiation negotiation_data_msg
  | NegotiationReply negotiation_data_msg
  | Negotiated bool
  | TakerFee swap_tx_data_msg
  | MakerPayment swap_tx_data_msg
  | TakerPayment bytes

text \<open>The \<open>TakerSwapWatcherData\<close> of \<open>swap_watcher.rs\<close>.\<close>

record taker_swap_watcher_data =
  wd_uuid :: uuid
  wd_secret_hash :: bytes
  wd_taker_payment_hash :: bytes
  wd_maker_payment_spend_preimage :: bytes
  wd_taker_payment_refund_preimage :: bytes
  wd_swap_started_at :: u64
  wd_lock_duration :: u64
  wd_taker_coin :: string
  wd_taker_fee_hash :: bytes
  wd_taker_coin_start_block :: u64
  wd_taker_payment_confirmations :: u64
  wd_taker_payment_requires_nota :: "bool option"
  wd_maker_coin :: string
  wd_maker_pub :: bytes
  wd_maker_payment_hash :: bytes
  wd_maker_coin_start_block :: u64

text \<open>
  The store of the messages received for a swap. \<open>process_swap_msg\<close> gets the decoded message and the
  (unprefixed) key that signed it; what cannot be decoded as a message is a status report of another
  node, which the code saves for statistics.
\<close>

record swap_msg_store =
  sms_negotiation :: "negotiation_data_msg option"
  sms_negotiation_reply :: "negotiation_data_msg option"
  sms_negotiated :: "bool option"
  sms_taker_fee :: "swap_tx_data_msg option"
  sms_maker_payment :: "swap_tx_data_msg option"
  sms_taker_payment :: "bytes option"
  sms_accept_only_from :: h256

definition swap_msg_store_new :: "h256 \<Rightarrow> swap_msg_store" where
  "swap_msg_store_new accept_only_from = \<lparr>sms_negotiation = None, sms_negotiation_reply = None,
     sms_negotiated = None, sms_taker_fee = None, sms_maker_payment = None, sms_taker_payment = None,
     sms_accept_only_from = accept_only_from\<rparr>"

fun swap_msg_to_store :: "swap_msg \<Rightarrow> swap_msg_store \<Rightarrow> swap_msg_store" where
  "swap_msg_to_store (Negotiation data) st = st\<lparr>sms_negotiation := Some data\<rparr>"
| "swap_msg_to_store (NegotiationReply data) st = st\<lparr>sms_negotiation_reply := Some data\<rparr>"
| "swap_msg_to_store (Negotiated negotiated) st = st\<lparr>sms_negotiated := Some negotiated\<rparr>"
| "swap_msg_to_store (TakerFee data) st = st\<lparr>sms_taker_fee := Some data\<rparr>"
| "swap_msg_to_store (MakerPayment data) st = st\<lparr>sms_maker_payment := Some data\<rparr>"
| "swap_msg_to_store (TakerPayment payment) st = st\<lparr>sms_taker_payment := Some payment\<rparr>"

type_synonym swap_msgs = "uuid \<rightharpoonup> swap_msg_store"

definition init_msg_store :: "uuid \<Rightarrow> h256 \<Rightarrow> swap_msgs \<Rightarrow> swap_msgs" where
  "init_msg_store u accept_only_from msgs = msgs(u \<mapsto> swap_msg_store_new accept_only_from)"

definition process_swap_msg :: "uuid \<Rightarrow> swap_msg \<Rightarrow> h256 \<Rightarrow> swap_msgs \<Rightarrow> swap_msgs" where
  "process_swap_msg u msg sender msgs = (case msgs u of
      None \<Rightarrow> msgs
    | Some st \<Rightarrow> if sms_accept_only_from st = sender then msgs(u \<mapsto> swap_msg_to_store msg st) else msgs)"

text \<open>
  \<open>recv_swap_msg\<close> looks into the store once a second until the message is there or the time is over:
  a list of what it sees, the store and the clock at each look. \<open>None\<close> is the loop that is still
  waiting at the end of the list.
\<close>

definition BASIC_COMM_TIMEOUT :: u64 where
  "BASIC_COMM_TIMEOUT = 90"

fun recv_loop ::
    "(swap_msg_store \<Rightarrow> 'a option) \<Rightarrow> u64 \<Rightarrow> u64 \<Rightarrow> u64 \<Rightarrow> (swap_msg_store option \<times> u64) list
       \<Rightarrow> (string + 'a) option" where
  "recv_loop getter started timeout wait_until [] = None"
| "recv_loop getter started timeout wait_until ((st, now) # looks) =
    (case Option.bind st getter of
       Some msg \<Rightarrow> Some (Inr msg)
     | None \<Rightarrow> if wait_until < now
         then Some (Inl (''Timeout ('' @ show_u64 (now - started) @ '' > '' @ show_u64 timeout @ '')''))
         else recv_loop getter started timeout wait_until looks)"

definition recv_swap_msg ::
    "(swap_msg_store \<Rightarrow> 'a option) \<Rightarrow> u64 \<Rightarrow> u64 \<Rightarrow> (swap_msg_store option \<times> u64) list
       \<Rightarrow> (string + 'a) option" where
  "recv_swap_msg getter started timeout looks =
    (let timeout' = BASIC_COMM_TIMEOUT + timeout
     in recv_loop getter started timeout' (started + timeout') looks)"

section \<open>The surroundings of a step\<close>

text \<open>What the context of the node holds for every swap.\<close>

record swap_ctx =
  sx_sha256 :: "h256 \<Rightarrow> bytes"
  sx_dhash160 :: "h256 \<Rightarrow> bytes"
  sx_mm2_internal_pubkey :: "string + h264"
  sx_use_watcher_reward :: bool
  sx_disable_watchers_globally :: bool
  sx_gui :: "string option"
  sx_mm_version :: string

definition hash_secret :: "swap_ctx \<Rightarrow> secret_hash_algo \<Rightarrow> h256 \<Rightarrow> bytes" where
  "hash_secret cx algo secret = (case algo of DHASH160 \<Rightarrow> sx_dhash160 cx secret | SHA256 \<Rightarrow> sx_sha256 cx secret)"

text \<open>
  What the network of a coin answers during one step, each call as a function of its arguments.
  \<open>ca_validate_fee\<close> is called up to seven times and gets the number of the call;
  \<open>ca_can_refund_htlc\<close> is called until it says that the refund is possible and is the list of its
  answers up to now.
\<close>

record coin_answers =
  ca_current_block :: "string + u64"
  ca_sender_trade_fee :: "mm_number \<Rightarrow> string + trade_fee"
  ca_receiver_trade_fee :: "string + trade_fee"
  ca_fee_to_send_taker_fee :: "dex_fee \<Rightarrow> string + trade_fee"
  ca_validate_fee :: "nat \<Rightarrow> transaction_enum \<Rightarrow> h264 \<Rightarrow> dex_fee \<Rightarrow> u64 \<Rightarrow> uuid \<Rightarrow> string + unit"
  ca_send_taker_fee :: "dex_fee \<Rightarrow> uuid \<Rightarrow> u64 \<Rightarrow> transaction_err + transaction_enum"
  ca_check_if_my_payment_sent :: "check_if_my_payment_sent_args \<Rightarrow> string + transaction_enum option"
  ca_send_payment :: "send_payment_args \<Rightarrow> transaction_err + transaction_enum"
  ca_spend_payment :: "spend_payment_args \<Rightarrow> transaction_err + transaction_enum"
  ca_refund_payment :: "refund_payment_args \<Rightarrow> transaction_err + transaction_enum"
  ca_wait_for_confirmations :: "confirm_payment_input \<Rightarrow> string + unit"
  ca_validate_payment :: "validate_payment_input \<Rightarrow> string + unit"
  ca_wait_for_htlc_refund :: "bytes \<Rightarrow> u64 \<Rightarrow> string + unit"
  ca_can_refund_htlc :: "(string + can_refund_htlc) list"
  ca_wait_for_htlc_tx_spend :: "wait_for_htlc_tx_spend_args \<Rightarrow> transaction_err + transaction_enum"
  ca_extract_secret :: "bytes \<Rightarrow> bytes \<Rightarrow> string + h256"
  ca_search_for_swap_tx_spend_my :: "search_for_swap_tx_spend_input \<Rightarrow> string + found_swap_tx_spend option"
  ca_search_for_swap_tx_spend_other :: "search_for_swap_tx_spend_input \<Rightarrow> string + found_swap_tx_spend option"
  ca_payment_instructions :: "payment_instruction_args \<Rightarrow> string + bytes option"
  ca_maker_watcher_reward :: "mm_number option \<Rightarrow> u64 \<Rightarrow> string + watcher_reward option"
  ca_taker_watcher_reward :: "mm_number \<Rightarrow> mm_number \<Rightarrow> mm_number option \<Rightarrow> u64 \<Rightarrow> string + watcher_reward"
  ca_create_spend_preimage :: "bytes \<Rightarrow> u64 \<Rightarrow> bytes \<Rightarrow> bytes \<Rightarrow> bytes \<Rightarrow> transaction_err + transaction_enum"
  ca_create_refund_preimage ::
    "bytes \<Rightarrow> u64 \<Rightarrow> bytes \<Rightarrow> bytes \<Rightarrow> bytes option \<Rightarrow> bytes \<Rightarrow> transaction_err + transaction_enum"
  ca_taker_validates_spend_or_refund :: "bytes \<Rightarrow> h264 \<Rightarrow> bytes option \<Rightarrow> u64 \<Rightarrow> bytes \<Rightarrow> mm_number \<Rightarrow> string + unit"

record step_answers =
  an_now_sec :: u64
  an_maker_coin :: coin_answers
  an_taker_coin :: coin_answers
  an_check_balance :: "string + unit"
  an_negotiation :: "string + negotiation_data_msg"
  an_negotiated :: "string + bool"
  an_tx_data :: "string + swap_tx_data_msg"
  an_taker_payment :: "string + bytes"

section \<open>What a step does\<close>

text \<open>
  A call that sends a transaction carries the transaction the coin answered with, if it did. A
  message is broadcast again and again until the step ends; it appears once.
\<close>

datatype swap_act =
    Broadcasts swap_msg
  | BroadcastsTx string bytes
  | BroadcastsWatcherData taker_swap_watcher_data
  | SendsTakerFee dex_fee "transaction_enum option"
  | SendsPayment send_payment_args "transaction_enum option"
  | SpendsPayment spend_payment_args "transaction_enum option"
  | RefundsPayment refund_payment_args "transaction_enum option"
  | NotesRefundStart bytes
  | NotesRefundSuccess bytes

fun inr_option :: "'e + 'a \<Rightarrow> 'a option" where
  "inr_option (Inl e) = None"
| "inr_option (Inr a) = Some a"

definition broadcast_tx :: "string \<Rightarrow> transaction_enum \<Rightarrow> swap_act list" where
  "broadcast_tx ticker tx = (if te_supports_tx_helper tx then [BroadcastsTx ticker (te_tx_hex tx)] else [])"

definition broadcast_err_tx :: "string \<Rightarrow> transaction_err \<Rightarrow> swap_act list" where
  "broadcast_err_tx ticker err = (case te_get_tx err of Some tx \<Rightarrow> broadcast_tx ticker tx | None \<Rightarrow> [])"

text \<open>The outcome of a step: the swap is a panicked task, is still waiting in a loop, or is done with
  the step, with the next command and the events to be saved.\<close>

datatype ('s, 'c, 'e) step_result =
    StepPanics
  | StepWaits
  | StepDone "swap_act list" 's "'c option" "'e list"

text \<open>The loop over \<open>can_refund_htlc\<close>: whether one of the answers up to now lets it end.\<close>

fun can_refund_loop :: "(string + can_refund_htlc) list \<Rightarrow> bool" where
  "can_refund_loop [] = False"
| "can_refund_loop (Inr CanRefundNow # answers) = True"
| "can_refund_loop (Inr (HaveToWait _) # answers) = can_refund_loop answers"
| "can_refund_loop (Inl _ # answers) = can_refund_loop answers"

text \<open>The loop over \<open>validate_fee\<close>: an error is retried up to \<open>TAKER_FEE_VALIDATION_ATTEMPTS\<close> times.\<close>

function validate_fee_loop :: "(nat \<Rightarrow> string + unit) \<Rightarrow> nat \<Rightarrow> string + unit" where
  "validate_fee_loop answer attempts = (case answer attempts of
      Inr u \<Rightarrow> Inr u
    | Inl err \<Rightarrow> if TAKER_FEE_VALIDATION_ATTEMPTS \<le> attempts then Inl err
        else validate_fee_loop answer (attempts + 1))"
  by pat_completeness auto
termination
  by (relation "measure (\<lambda>(_, attempts). TAKER_FEE_VALIDATION_ATTEMPTS - attempts)") auto

declare validate_fee_loop.simps [simp del]

end
