(* ===== verification/Maker_Swap.thy ===== *)
theory Maker_Swap
  imports Swap_Common
begin

text \<open>
  The maker's side of a legacy swap (\<open>mm2_main/src/lp_swap/maker_swap.rs\<close>): the state of the swap, its
  twelve commands, the events they produce, how the events build the state up, and which command
  follows an event that was read back from the saved swap.

  A command is a function of the swap and of what its surroundings answer, and gives what it did, the
  next command and the events. The only thing a command itself changes is \<open>watcher_reward\<close>, in
  \<open>start\<close>; everything else is changed by the events, so that the saved events rebuild the swap.
\<close>

section \<open>State, commands and events\<close>

record taker_negotiation_data =
  tnd_taker_payment_locktime :: u64
  tnd_taker_pubkey :: h264
  tnd_maker_coin_swap_contract_addr :: "bytes option"
  tnd_taker_coin_swap_contract_addr :: "bytes option"
  tnd_maker_coin_htlc_pubkey :: "h264 option"
  tnd_taker_coin_htlc_pubkey :: "h264 option"

definition tnd_other_maker_coin_htlc_pub :: "taker_negotiation_data \<Rightarrow> h264" where
  "tnd_other_maker_coin_htlc_pub d = unwrap_or (tnd_taker_pubkey d) (tnd_maker_coin_htlc_pubkey d)"

definition tnd_other_taker_coin_htlc_pub :: "taker_negotiation_data \<Rightarrow> h264" where
  "tnd_other_taker_coin_htlc_pub d = unwrap_or (tnd_taker_pubkey d) (tnd_taker_coin_htlc_pubkey d)"

record maker_swap_data =
  msd_taker_coin :: string
  msd_maker_coin :: string
  msd_taker_pubkey :: h256
  msd_secret :: h256
  msd_secret_hash :: "bytes option"
  msd_my_persistent_pub :: h264
  msd_lock_duration :: u64
  msd_maker_amount :: mm_number
  msd_taker_amount :: mm_number
  msd_maker_payment_confirmations :: u64
  msd_maker_payment_requires_nota :: "bool option"
  msd_taker_payment_confirmations :: u64
  msd_taker_payment_requires_nota :: "bool option"
  msd_maker_payment_lock :: u64
  msd_uuid :: uuid
  msd_started_at :: u64
  msd_maker_coin_start_block :: u64
  msd_taker_coin_start_block :: u64
  msd_maker_payment_trade_fee :: "saved_trade_fee option"
  msd_taker_payment_spend_trade_fee :: "saved_trade_fee option"
  msd_maker_coin_swap_contract_address :: "bytes option"
  msd_taker_coin_swap_contract_address :: "bytes option"
  msd_maker_coin_htlc_pubkey :: "h264 option"
  msd_taker_coin_htlc_pubkey :: "h264 option"
  msd_p2p_privkey :: "keypair option"

text \<open>The derived \<open>Default\<close>; the default of a key is 33 zero bytes.\<close>

definition h264_default :: h264 where
  "h264_default = replicate 33 0"

definition maker_swap_data_default :: maker_swap_data where
  "maker_swap_data_default = \<lparr>msd_taker_coin = [], msd_maker_coin = [], msd_taker_pubkey = 0, msd_secret = 0,
     msd_secret_hash = None, msd_my_persistent_pub = h264_default, msd_lock_duration = 0,
     msd_maker_amount = 0, msd_taker_amount = 0, msd_maker_payment_confirmations = 0,
     msd_maker_payment_requires_nota = None, msd_taker_payment_confirmations = 0,
     msd_taker_payment_requires_nota = None, msd_maker_payment_lock = 0, msd_uuid = 0,
     msd_started_at = 0, msd_maker_coin_start_block = 0, msd_taker_coin_start_block = 0,
     msd_maker_payment_trade_fee = None, msd_taker_payment_spend_trade_fee = None,
     msd_maker_coin_swap_contract_address = None, msd_taker_coin_swap_contract_address = None,
     msd_maker_coin_htlc_pubkey = None, msd_taker_coin_htlc_pubkey = None, msd_p2p_privkey = None\<rparr>"

record maker_swap_mut =
  msm_data :: maker_swap_data
  msm_other_maker_coin_htlc_pub :: h264
  msm_other_taker_coin_htlc_pub :: h264
  msm_taker_fee :: "transaction_identifier option"
  msm_maker_payment :: "transaction_identifier option"
  msm_taker_payment :: "transaction_identifier option"
  msm_taker_payment_spend :: "transaction_identifier option"
  msm_taker_payment_spend_confirmed :: bool
  msm_maker_payment_refund :: "transaction_identifier option"
  msm_payment_instructions :: "payment_instructions option"
  msm_watcher_reward :: bool

record maker_swap =
  ms_maker_coin :: swap_coin
  ms_taker_coin :: swap_coin
  ms_maker_amount :: mm_number
  ms_taker_amount :: mm_number
  ms_my_persistent_pub :: h264
  ms_taker_pubkey :: h256
  ms_uuid :: uuid
  ms_my_order_uuid :: "uuid option"
  ms_taker_payment_lock :: u64
  ms_taker_payment_confirmed :: bool
  ms_errors :: "swap_error list"
  ms_finished_at :: u64
  ms_mut :: maker_swap_mut
  ms_conf_settings :: swap_confirmations_settings
  ms_payment_locktime :: u64
  ms_p2p_privkey :: "keypair option"
  ms_secret :: h256
  ms_secret_hash_algo :: secret_hash_algo

datatype maker_swap_command =
    MStart
  | MNegotiate
  | MWaitForTakerFee
  | MSendPayment
  | MWaitForTakerPayment
  | MValidateTakerPayment
  | MSpendTakerPayment
  | MConfirmTakerPaymentSpend
  | MPrepareForMakerPaymentRefund
  | MRefundMakerPayment
  | MFinalizeMakerPaymentRefund
  | MFinish

datatype maker_swap_event =
    MStarted maker_swap_data
  | MStartFailed swap_error
  | MNegotiated taker_negotiation_data
  | MNegotiateFailed swap_error
  | MMakerPaymentInstructionsReceived "payment_instructions option"
  | MTakerFeeValidated transaction_identifier
  | MTakerFeeValidateFailed swap_error
  | MMakerPaymentSent transaction_identifier
  | MMakerPaymentTransactionFailed swap_error
  | MMakerPaymentDataSendFailed swap_error
  | MMakerPaymentWaitConfirmFailed swap_error
  | MTakerPaymentReceived transaction_identifier
  | MTakerPaymentWaitConfirmStarted
  | MTakerPaymentValidatedAndConfirmed
  | MTakerPaymentValidateFailed swap_error
  | MTakerPaymentWaitConfirmFailed swap_error
  | MTakerPaymentSpent transaction_identifier
  | MTakerPaymentSpendFailed swap_error
  | MTakerPaymentSpendConfirmStarted
  | MTakerPaymentSpendConfirmed
  | MTakerPaymentSpendConfirmFailed swap_error
  | MMakerPaymentWaitRefundStarted u64
  | MMakerPaymentRefundStarted
  | MMakerPaymentRefunded "transaction_identifier option"
  | MMakerPaymentRefundFailed swap_error
  | MMakerPaymentRefundFinished
  | MFinished

fun maker_event_status_str :: "maker_swap_event \<Rightarrow> string" where
  "maker_event_status_str (MStarted _) = ''Started...''"
| "maker_event_status_str (MStartFailed _) = ''Start failed...''"
| "maker_event_status_str (MNegotiated _) = ''Negotiated...''"
| "maker_event_status_str (MNegotiateFailed _) = ''Negotiate failed...''"
| "maker_event_status_str (MMakerPaymentInstructionsReceived _) = ''Maker payment instructions received...''"
| "maker_event_status_str (MTakerFeeValidated _) = ''Taker fee validated...''"
| "maker_event_status_str (MTakerFeeValidateFailed _) = ''Taker fee validate failed...''"
| "maker_event_status_str (MMakerPaymentSent _) = ''Maker payment sent...''"
| "maker_event_status_str (MMakerPaymentTransactionFailed _) = ''Maker payment failed...''"
| "maker_event_status_str (MMakerPaymentDataSendFailed _) = ''Maker payment failed...''"
| "maker_event_status_str (MMakerPaymentWaitConfirmFailed _) = ''Maker payment wait for confirmation failed...''"
| "maker_event_status_str (MTakerPaymentReceived _) = ''Taker payment received...''"
| "maker_event_status_str MTakerPaymentWaitConfirmStarted = ''Taker payment wait confirm started...''"
| "maker_event_status_str MTakerPaymentValidatedAndConfirmed = ''Taker payment validated and confirmed...''"
| "maker_event_status_str (MTakerPaymentValidateFailed _) = ''Taker payment validate failed...''"
| "maker_event_status_str (MTakerPaymentWaitConfirmFailed _) = ''Taker payment wait for confirmation failed...''"
| "maker_event_status_str (MTakerPaymentSpent _) = ''Taker payment spent...''"
| "maker_event_status_str (MTakerPaymentSpendFailed _) = ''Taker payment spend failed...''"
| "maker_event_status_str MTakerPaymentSpendConfirmStarted = ''Taker payment spend confirm started...''"
| "maker_event_status_str MTakerPaymentSpendConfirmed = ''Taker payment spend confirmed...''"
| "maker_event_status_str (MTakerPaymentSpendConfirmFailed _) = ''Taker payment spend confirm failed...''"
| "maker_event_status_str (MMakerPaymentWaitRefundStarted wait_until)
    = ''Maker payment wait refund till '' @ show_u64 wait_until @ '' started...''"
| "maker_event_status_str MMakerPaymentRefundStarted = ''Maker payment refund started...''"
| "maker_event_status_str (MMakerPaymentRefunded _) = ''Maker payment refunded...''"
| "maker_event_status_str (MMakerPaymentRefundFailed _) = ''Maker payment refund failed...''"
| "maker_event_status_str MMakerPaymentRefundFinished = ''Maker payment refund finished...''"
| "maker_event_status_str MFinished = ''Finished''"

fun should_ban_taker :: "maker_swap_event \<Rightarrow> bool" where
  "should_ban_taker (MTakerFeeValidateFailed _) = True"
| "should_ban_taker (MTakerPaymentValidateFailed _) = True"
| "should_ban_taker _ = False"

fun maker_event_is_success :: "maker_swap_event \<Rightarrow> bool" where
  "maker_event_is_success (MStarted _) = True"
| "maker_event_is_success (MNegotiated _) = True"
| "maker_event_is_success (MMakerPaymentInstructionsReceived _) = True"
| "maker_event_is_success (MTakerFeeValidated _) = True"
| "maker_event_is_success (MMakerPaymentSent _) = True"
| "maker_event_is_success (MTakerPaymentReceived _) = True"
| "maker_event_is_success MTakerPaymentWaitConfirmStarted = True"
| "maker_event_is_success MTakerPaymentValidatedAndConfirmed = True"
| "maker_event_is_success (MTakerPaymentSpent _) = True"
| "maker_event_is_success MTakerPaymentSpendConfirmStarted = True"
| "maker_event_is_success MTakerPaymentSpendConfirmed = True"
| "maker_event_is_success MFinished = True"
| "maker_event_is_success _ = False"

definition maker_event_is_error :: "maker_swap_event \<Rightarrow> bool" where
  "maker_event_is_error e = (\<not> maker_event_is_success e)"

text \<open>The next command after a swap is restored whose last saved event is this one.\<close>

fun maker_get_command :: "maker_swap_event \<Rightarrow> maker_swap_command option" where
  "maker_get_command (MStarted _) = Some MNegotiate"
| "maker_get_command (MStartFailed _) = Some MFinish"
| "maker_get_command (MNegotiated _) = Some MWaitForTakerFee"
| "maker_get_command (MMakerPaymentInstructionsReceived _) = Some MWaitForTakerFee"
| "maker_get_command (MNegotiateFailed _) = Some MFinish"
| "maker_get_command (MTakerFeeValidated _) = Some MSendPayment"
| "maker_get_command (MTakerFeeValidateFailed _) = Some MFinish"
| "maker_get_command (MMakerPaymentSent _) = Some MWaitForTakerPayment"
| "maker_get_command (MMakerPaymentTransactionFailed _) = Some MFinish"
| "maker_get_command (MMakerPaymentDataSendFailed _) = Some MPrepareForMakerPaymentRefund"
| "maker_get_command (MMakerPaymentWaitConfirmFailed _) = Some MPrepareForMakerPaymentRefund"
| "maker_get_command (MTakerPaymentReceived _) = Some MValidateTakerPayment"
| "maker_get_command MTakerPaymentWaitConfirmStarted = Some MValidateTakerPayment"
| "maker_get_command MTakerPaymentValidatedAndConfirmed = Some MSpendTakerPayment"
| "maker_get_command (MTakerPaymentValidateFailed _) = Some MPrepareForMakerPaymentRefund"
| "maker_get_command (MTakerPaymentWaitConfirmFailed _) = Some MPrepareForMakerPaymentRefund"
| "maker_get_command (MTakerPaymentSpent _) = Some MConfirmTakerPaymentSpend"
| "maker_get_command (MTakerPaymentSpendFailed _) = Some MPrepareForMakerPaymentRefund"
| "maker_get_command MTakerPaymentSpendConfirmStarted = Some MConfirmTakerPaymentSpend"
| "maker_get_command MTakerPaymentSpendConfirmed = Some MFinish"
| "maker_get_command (MTakerPaymentSpendConfirmFailed _) = Some MPrepareForMakerPaymentRefund"
| "maker_get_command (MMakerPaymentWaitRefundStarted _) = Some MPrepareForMakerPaymentRefund"
| "maker_get_command MMakerPaymentRefundStarted = Some MRefundMakerPayment"
| "maker_get_command (MMakerPaymentRefunded _) = Some MFinalizeMakerPaymentRefund"
| "maker_get_command (MMakerPaymentRefundFailed _) = Some MFinish"
| "maker_get_command MMakerPaymentRefundFinished = Some MFinish"
| "maker_get_command MFinished = None"

section \<open>The swap and its events\<close>

definition ms_upd_mut :: "(maker_swap_mut \<Rightarrow> maker_swap_mut) \<Rightarrow> maker_swap \<Rightarrow> maker_swap" where
  "ms_upd_mut f s = s\<lparr>ms_mut := f (ms_mut s)\<rparr>"

abbreviation msd :: "maker_swap \<Rightarrow> maker_swap_data" where
  "msd s \<equiv> msm_data (ms_mut s)"

definition ms_push_error :: "swap_error \<Rightarrow> maker_swap \<Rightarrow> maker_swap" where
  "ms_push_error err s = s\<lparr>ms_errors := ms_errors s @ [err]\<rparr>"

text \<open>\<open>MakerSwap::new\<close>; the context the swap keeps is passed to the steps instead.\<close>

definition maker_swap_new ::
    "h256 \<Rightarrow> mm_number \<Rightarrow> mm_number \<Rightarrow> h264 \<Rightarrow> uuid \<Rightarrow> uuid option \<Rightarrow> swap_confirmations_settings
       \<Rightarrow> swap_coin \<Rightarrow> swap_coin \<Rightarrow> u64 \<Rightarrow> keypair option \<Rightarrow> h256 \<Rightarrow> maker_swap" where
  "maker_swap_new taker_pubkey maker_amount taker_amount my_persistent_pub u my_order_uuid conf_settings
      maker_coin taker_coin payment_locktime p2p_privkey secret =
    \<lparr>ms_maker_coin = maker_coin, ms_taker_coin = taker_coin, ms_maker_amount = maker_amount,
     ms_taker_amount = taker_amount, ms_my_persistent_pub = my_persistent_pub,
     ms_taker_pubkey = taker_pubkey, ms_uuid = u, ms_my_order_uuid = my_order_uuid,
     ms_taker_payment_lock = 0, ms_taker_payment_confirmed = False, ms_errors = [], ms_finished_at = 0,
     ms_mut = \<lparr>msm_data = maker_swap_data_default, msm_other_maker_coin_htlc_pub = h264_default,
       msm_other_taker_coin_htlc_pub = h264_default, msm_taker_fee = None, msm_maker_payment = None,
       msm_taker_payment = None, msm_taker_payment_spend = None,
       msm_taker_payment_spend_confirmed = False, msm_maker_payment_refund = None,
       msm_payment_instructions = None, msm_watcher_reward = False\<rparr>,
     ms_conf_settings = conf_settings, ms_payment_locktime = payment_locktime,
     ms_p2p_privkey = p2p_privkey, ms_secret = secret,
     ms_secret_hash_algo = detect_secret_hash_algo maker_coin taker_coin\<rparr>"

definition ms_secret_hash :: "swap_ctx \<Rightarrow> maker_swap \<Rightarrow> bytes" where
  "ms_secret_hash cx s = (case msd_secret_hash (msd s) of
      Some b \<Rightarrow> b | None \<Rightarrow> hash_secret cx (ms_secret_hash_algo s) (ms_secret s))"

definition ms_unique_swap_data :: "swap_ctx \<Rightarrow> maker_swap \<Rightarrow> bytes" where
  "ms_unique_swap_data cx s = ms_secret_hash cx s"

definition ms_my_maker_coin_htlc_pub :: "maker_swap \<Rightarrow> h264" where
  "ms_my_maker_coin_htlc_pub s = unwrap_or (ms_my_persistent_pub s) (msd_maker_coin_htlc_pubkey (msd s))"

definition ms_my_taker_coin_htlc_pub :: "maker_swap \<Rightarrow> h264" where
  "ms_my_taker_coin_htlc_pub s = unwrap_or (ms_my_persistent_pub s) (msd_taker_coin_htlc_pubkey (msd s))"

definition ms_wait_refund_until :: "maker_swap \<Rightarrow> u64" where
  "ms_wait_refund_until s = msd_maker_payment_lock (msd s) + 3700"

definition ms_watcher_reward_amount :: "maker_swap \<Rightarrow> mm_number option" where
  "ms_watcher_reward_amount s = (case msm_payment_instructions (ms_mut s) of
      Some (WatcherRewardInstructions reward) \<Rightarrow> Some reward
    | _ \<Rightarrow> None)"

text \<open>\<open>apply_event\<close>; the first argument is the clock, which only \<open>Finished\<close> reads.\<close>

fun maker_apply_event :: "u64 \<Rightarrow> maker_swap_event \<Rightarrow> maker_swap \<Rightarrow> maker_swap" where
  "maker_apply_event now (MStarted data) s = ms_upd_mut (\<lambda>m. m\<lparr>msm_data := data\<rparr>) s"
| "maker_apply_event now (MStartFailed err) s = ms_push_error err s"
| "maker_apply_event now (MNegotiated data) s =
     ms_upd_mut (\<lambda>m. m\<lparr>
        msm_other_maker_coin_htlc_pub := tnd_other_maker_coin_htlc_pub data,
        msm_other_taker_coin_htlc_pub := tnd_other_taker_coin_htlc_pub data,
        msm_data := (let d = msm_data m;
            d1 = (if tnd_maker_coin_swap_contract_addr data \<noteq> None
              then d\<lparr>msd_maker_coin_swap_contract_address := tnd_maker_coin_swap_contract_addr data\<rparr> else d)
          in if tnd_taker_coin_swap_contract_addr data \<noteq> None
              then d1\<lparr>msd_taker_coin_swap_contract_address := tnd_taker_coin_swap_contract_addr data\<rparr> else d1)\<rparr>)
       (s\<lparr>ms_taker_payment_lock := tnd_taker_payment_locktime data\<rparr>)"
| "maker_apply_event now (MNegotiateFailed err) s = ms_push_error err s"
| "maker_apply_event now (MMakerPaymentInstructionsReceived instructions) s =
     ms_upd_mut (\<lambda>m. m\<lparr>msm_payment_instructions := instructions\<rparr>) s"
| "maker_apply_event now (MTakerFeeValidated tx) s = ms_upd_mut (\<lambda>m. m\<lparr>msm_taker_fee := Some tx\<rparr>) s"
| "maker_apply_event now (MTakerFeeValidateFailed err) s = ms_push_error err s"
| "maker_apply_event now (MMakerPaymentSent tx) s = ms_upd_mut (\<lambda>m. m\<lparr>msm_maker_payment := Some tx\<rparr>) s"
| "maker_apply_event now (MMakerPaymentTransactionFailed err) s = ms_push_error err s"
| "maker_apply_event now (MMakerPaymentDataSendFailed err) s = ms_push_error err s"
| "maker_apply_event now (MMakerPaymentWaitConfirmFailed err) s = ms_push_error err s"
| "maker_apply_event now (MTakerPaymentReceived tx) s = ms_upd_mut (\<lambda>m. m\<lparr>msm_taker_payment := Some tx\<rparr>) s"
| "maker_apply_event now MTakerPaymentWaitConfirmStarted s = s"
| "maker_apply_event now MTakerPaymentValidatedAndConfirmed s = s\<lparr>ms_taker_payment_confirmed := True\<rparr>"
| "maker_apply_event now (MTakerPaymentValidateFailed err) s = ms_push_error err s"
| "maker_apply_event now (MTakerPaymentWaitConfirmFailed err) s = ms_push_error err s"
| "maker_apply_event now (MTakerPaymentSpent tx) s = ms_upd_mut (\<lambda>m. m\<lparr>msm_taker_payment_spend := Some tx\<rparr>) s"
| "maker_apply_event now (MTakerPaymentSpendFailed err) s = ms_push_error err s"
| "maker_apply_event now MTakerPaymentSpendConfirmStarted s = s"
| "maker_apply_event now MTakerPaymentSpendConfirmed s =
     ms_upd_mut (\<lambda>m. m\<lparr>msm_taker_payment_spend_confirmed := True\<rparr>) s"
| "maker_apply_event now (MTakerPaymentSpendConfirmFailed err) s = ms_push_error err s"
| "maker_apply_event now (MMakerPaymentWaitRefundStarted _) s = s"
| "maker_apply_event now MMakerPaymentRefundStarted s = s"
| "maker_apply_event now (MMakerPaymentRefunded tx) s = ms_upd_mut (\<lambda>m. m\<lparr>msm_maker_payment_refund := tx\<rparr>) s"
| "maker_apply_event now (MMakerPaymentRefundFailed err) s = ms_push_error err s"
| "maker_apply_event now MMakerPaymentRefundFinished s = s"
| "maker_apply_event now MFinished s = s\<lparr>ms_finished_at := now\<rparr>"

section \<open>The commands\<close>

type_synonym maker_step = "(maker_swap, maker_swap_command, maker_swap_event) step_result"

text \<open>The \<open>return Ok((Some(Finish), vec![event]))\<close> of the many failures, and the failures that lead to
  the refund of the payment.\<close>

definition maker_fails :: "swap_act list \<Rightarrow> maker_swap \<Rightarrow> maker_swap_event \<Rightarrow> maker_step" where
  "maker_fails acts s e = StepDone acts s (Some MFinish) [e]"

definition maker_to_refund :: "swap_act list \<Rightarrow> maker_swap \<Rightarrow> maker_swap_event \<Rightarrow> maker_step" where
  "maker_to_refund acts s e = StepDone acts s (Some MPrepareForMakerPaymentRefund)
     [e, MMakerPaymentWaitRefundStarted (ms_wait_refund_until s)]"

definition ms_get_my_negotiation_data :: "swap_ctx \<Rightarrow> maker_swap \<Rightarrow> negotiation_data_msg" where
  "ms_get_my_negotiation_data cx s =
    (let d = msd s;
         maker_coin_swap_contract = unwrap_or [] (sc_swap_contract_address (ms_maker_coin s));
         taker_coin_swap_contract = unwrap_or [] (sc_swap_contract_address (ms_taker_coin s));
         equal = (msd_maker_coin_htlc_pubkey d = msd_taker_coin_htlc_pubkey d);
         same_as_persistent = (msd_maker_coin_htlc_pubkey d = Some (msd_my_persistent_pub d))
     in if equal \<and> same_as_persistent
        then NegotiationV2 \<lparr>nd2_started_at = msd_started_at d, nd2_payment_locktime = msd_maker_payment_lock d,
               nd2_secret_hash = ms_secret_hash cx s, nd2_persistent_pubkey = msd_my_persistent_pub d,
               nd2_maker_coin_swap_contract = maker_coin_swap_contract,
               nd2_taker_coin_swap_contract = taker_coin_swap_contract\<rparr>
        else NegotiationV3 \<lparr>nd3_started_at = msd_started_at d, nd3_payment_locktime = msd_maker_payment_lock d,
               nd3_secret_hash = ms_secret_hash cx s,
               nd3_maker_coin_swap_contract = maker_coin_swap_contract,
               nd3_taker_coin_swap_contract = taker_coin_swap_contract,
               nd3_maker_coin_htlc_pub = ms_my_maker_coin_htlc_pub s,
               nd3_taker_coin_htlc_pub = ms_my_taker_coin_htlc_pub s\<rparr>)"

text \<open>\<open>get_my_payment_data\<close>: it unwraps the maker payment.\<close>

definition ms_get_my_payment_data ::
    "swap_ctx \<Rightarrow> step_answers \<Rightarrow> maker_swap \<Rightarrow> (string, swap_tx_data_msg) rust_result" where
  "ms_get_my_payment_data cx a s = (case msm_maker_payment (ms_mut s) of
      None \<Rightarrow> Panic
    | Some payment \<Rightarrow>
        (case ca_payment_instructions (an_taker_coin a)
            \<lparr>pia_secret_hash = sx_sha256 cx (ms_secret s), pia_amount = ms_taker_amount s,
             pia_maker_lock_duration = 0,
             pia_expires_in = taker_payment_spend_duration (msd_lock_duration (msd s)),
             pia_watcher_reward = False, pia_wait_until = 0\<rparr> of
           Inl e \<Rightarrow> Err e
         | Inr instructions \<Rightarrow> Ok (swap_tx_data_new (ti_tx_hex payment) instructions)))"

definition maker_start :: "swap_ctx \<Rightarrow> step_answers \<Rightarrow> maker_swap \<Rightarrow> maker_step" where
  "maker_start cx a s =
    (case ca_sender_trade_fee (an_maker_coin a) (ms_maker_amount s) of
       Inl e \<Rightarrow> maker_fails [] s (MStartFailed (''!maker_coin.get_sender_trade_fee '' @ e))
     | Inr maker_payment_trade_fee \<Rightarrow>
    (case ca_receiver_trade_fee (an_taker_coin a) of
       Inl e \<Rightarrow> maker_fails [] s (MStartFailed (''!taker_coin.get_receiver_trade_fee '' @ e))
     | Inr taker_payment_spend_trade_fee \<Rightarrow>
    (case an_check_balance a of
       Inl e \<Rightarrow> maker_fails [] s (MStartFailed (''!check_balance_for_maker_swap '' @ e))
     | Inr _ \<Rightarrow>
    (let started_at = an_now_sec a in
     case ca_current_block (an_maker_coin a) of
       Inl e \<Rightarrow> maker_fails [] s (MStartFailed (''!maker_coin.current_block '' @ e))
     | Inr maker_coin_start_block \<Rightarrow>
    (case ca_current_block (an_taker_coin a) of
       Inl e \<Rightarrow> maker_fails [] s (MStartFailed (''!taker_coin.current_block '' @ e))
     | Inr taker_coin_start_block \<Rightarrow>
       let unique_data = ms_unique_swap_data cx s;
           conf = ms_conf_settings s;
           data = \<lparr>msd_taker_coin = coin_ticker (ms_taker_coin s),
             msd_maker_coin = coin_ticker (ms_maker_coin s),
             msd_taker_pubkey = ms_taker_pubkey s, msd_secret = ms_secret s,
             msd_secret_hash = Some (ms_secret_hash cx s),
             msd_my_persistent_pub = ms_my_persistent_pub s,
             msd_lock_duration = ms_payment_locktime s,
             msd_maker_amount = ms_maker_amount s, msd_taker_amount = ms_taker_amount s,
             msd_maker_payment_confirmations = swap_confirmations_settings.maker_coin_confs conf,
             msd_maker_payment_requires_nota = Some (swap_confirmations_settings.maker_coin_nota conf),
             msd_taker_payment_confirmations = swap_confirmations_settings.taker_coin_confs conf,
             msd_taker_payment_requires_nota = Some (swap_confirmations_settings.taker_coin_nota conf),
             msd_maker_payment_lock = started_at
               + multiplied_lock_duration (ms_payment_locktime s) (maker_locktime_multiplier (ms_taker_coin s)),
             msd_uuid = ms_uuid s, msd_started_at = started_at,
             msd_maker_coin_start_block = maker_coin_start_block,
             msd_taker_coin_start_block = taker_coin_start_block,
             msd_maker_payment_trade_fee = Some (saved_trade_fee_of maker_payment_trade_fee),
             msd_taker_payment_spend_trade_fee = Some (saved_trade_fee_of taker_payment_spend_trade_fee),
             msd_maker_coin_swap_contract_address = sc_swap_contract_address (ms_maker_coin s),
             msd_taker_coin_swap_contract_address = sc_swap_contract_address (ms_taker_coin s),
             msd_maker_coin_htlc_pubkey = Some (sc_derive_htlc_pubkey (ms_maker_coin s) unique_data),
             msd_taker_coin_htlc_pubkey = Some (sc_derive_htlc_pubkey (ms_taker_coin s) unique_data),
             msd_p2p_privkey = ms_p2p_privkey s\<rparr>
       in StepDone [] (ms_upd_mut (\<lambda>m. m\<lparr>msm_watcher_reward := sx_use_watcher_reward cx\<rparr>) s)
            (Some MNegotiate) [MStarted data])))))"

text \<open>The reasons for which the maker turns down what the taker replied, in the order of the code.\<close>

definition maker_negotiation_fault ::
    "maker_swap \<Rightarrow> negotiation_data_msg \<Rightarrow> swap_error + (bytes option \<times> bytes option)" where
  "maker_negotiation_fault s taker_data =
    (let time_dif = u64_abs_diff (msd_started_at (msd s)) (nd_started_at taker_data);
         expected_lock_time = u64_checked_add (nd_started_at taker_data) (msd_lock_duration (msd s))
     in if MAX_STARTED_AT_DIFF < time_dif
        then Inl (''The time difference between you and the taker cannot be longer than 60 seconds. Current difference: '' @ show_u64 time_dif)
        else if Some (nd_payment_locktime taker_data) \<noteq> expected_lock_time
        then Inl (''taker_data.payment_locktime '' @ show_u64 (nd_payment_locktime taker_data) @ '' not equal to expected'')
        else case sc_negotiate_swap_contract_addr (ms_maker_coin s) (nd_maker_coin_swap_contract taker_data) of
          Inl e \<Rightarrow> Inl (''!maker_coin.negotiate_swap_contract_addr '' @ e)
        | Inr maker_addr \<Rightarrow>
          (case sc_negotiate_swap_contract_addr (ms_taker_coin s) (nd_taker_coin_swap_contract taker_data) of
             Inl e \<Rightarrow> Inl (''!taker_coin.negotiate_swap_contract_addr '' @ e)
           | Inr taker_addr \<Rightarrow>
             (case sc_validate_other_pubkey (ms_maker_coin s) (nd_maker_coin_htlc_pub taker_data) of
                Inl e \<Rightarrow> Inl (''!taker_data.maker_coin_htlc_pub '' @ e)
              | Inr _ \<Rightarrow>
                (case sc_validate_other_pubkey (ms_taker_coin s) (nd_taker_coin_htlc_pub taker_data) of
                   Inl e \<Rightarrow> Inl (''!taker_data.taker_coin_htlc_pub '' @ e)
                 | Inr _ \<Rightarrow> Inr (maker_addr, taker_addr)))))"

definition maker_negotiate :: "swap_ctx \<Rightarrow> step_answers \<Rightarrow> maker_swap \<Rightarrow> maker_step" where
  "maker_negotiate cx a s =
    (let sends = [Broadcasts (Negotiation (ms_get_my_negotiation_data cx s))] in
     case an_negotiation a of
       Inl e \<Rightarrow> maker_fails (sends @ [Broadcasts (Negotiated False)]) s (MNegotiateFailed e)
     | Inr taker_data \<Rightarrow>
       (case maker_negotiation_fault s taker_data of
          Inl e \<Rightarrow> maker_fails (sends @ [Broadcasts (Negotiated False)]) s (MNegotiateFailed e)
        | Inr (maker_addr, taker_addr) \<Rightarrow>
          StepDone sends s (Some MWaitForTakerFee)
            [MNegotiated \<lparr>tnd_taker_payment_locktime = nd_payment_locktime taker_data,
               tnd_taker_pubkey = h264_default,
               tnd_maker_coin_swap_contract_addr = maker_addr,
               tnd_taker_coin_swap_contract_addr = taker_addr,
               tnd_maker_coin_htlc_pubkey = Some (nd_maker_coin_htlc_pub taker_data),
               tnd_taker_coin_htlc_pubkey = Some (nd_taker_coin_htlc_pub taker_data)\<rparr>]))"

definition maker_wait_taker_fee :: "swap_ctx \<Rightarrow> step_answers \<Rightarrow> maker_swap \<Rightarrow> maker_step" where
  "maker_wait_taker_fee cx a s =
    (let sends = [Broadcasts (Negotiated True)] in
     case an_tx_data a of
       Inl e \<Rightarrow> maker_fails sends s (MTakerFeeValidateFailed e)
     | Inr payload \<Rightarrow>
    (let instructions = (case std_instructions payload of
           None \<Rightarrow> Inr None
         | Some ins \<Rightarrow>
           (case sc_validate_maker_payment_instructions (ms_maker_coin s) ins
               \<lparr>pia_secret_hash = ms_secret_hash cx s, pia_amount = ms_maker_amount s,
                pia_maker_lock_duration = multiplied_lock_duration (msd_lock_duration (msd s))
                  (maker_locktime_multiplier (ms_taker_coin s)),
                pia_expires_in = 0, pia_watcher_reward = False, pia_wait_until = 0\<rparr> of
              Inl e \<Rightarrow> Inl e
            | Inr i \<Rightarrow> Inr (Some i)))
     in case instructions of
       Inl e \<Rightarrow> maker_fails sends s (MTakerFeeValidateFailed e)
     | Inr ins \<Rightarrow>
    (let received = MMakerPaymentInstructionsReceived ins;
         fee = dex_fee_new_with_taker_pubkey (ms_taker_coin s) (msd_maker_coin (msd s)) (ms_taker_amount s)
           (msm_other_taker_coin_htlc_pub (ms_mut s))
     in if fee = NoFee
        then StepDone sends s (Some MSendPayment) [received, MTakerFeeValidated empty_tx_ident]
        else case sc_tx_enum_from_bytes (ms_taker_coin s) (std_data payload) of
          Inl e \<Rightarrow> maker_fails sends s (MTakerFeeValidateFailed e)
        | Inr taker_fee \<Rightarrow>
          (case validate_fee_loop (\<lambda>attempts. ca_validate_fee (an_taker_coin a) attempts taker_fee
               (msm_other_taker_coin_htlc_pub (ms_mut s)) fee (msd_taker_coin_start_block (msd s)) (ms_uuid s)) 0 of
             Inl e \<Rightarrow> maker_fails sends s (MTakerFeeValidateFailed e)
           | Inr _ \<Rightarrow> StepDone sends s (Some MSendPayment)
               [received, MTakerFeeValidated (tx_ident_of taker_fee)]))))"

definition ms_setup_watcher_reward ::
    "step_answers \<Rightarrow> maker_swap \<Rightarrow> u64 \<Rightarrow> string + watcher_reward option" where
  "ms_setup_watcher_reward a s wait_maker_payment_until =
    (if \<not> msm_watcher_reward (ms_mut s) then Inr None
     else ca_maker_watcher_reward (an_maker_coin a) (ms_watcher_reward_amount s) wait_maker_payment_until)"

definition ms_payment_search :: "swap_ctx \<Rightarrow> maker_swap \<Rightarrow> check_if_my_payment_sent_args" where
  "ms_payment_search cx s =
    \<lparr>cps_time_lock = msd_maker_payment_lock (msd s),
     cps_other_pub = msm_other_maker_coin_htlc_pub (ms_mut s),
     cps_secret_hash = ms_secret_hash cx s,
     cps_search_from_block = msd_maker_coin_start_block (msd s),
     cps_swap_contract_address = msd_maker_coin_swap_contract_address (msd s),
     cps_swap_unique_data = ms_unique_swap_data cx s,
     cps_amount = ms_maker_amount s,
     cps_payment_instructions = msm_payment_instructions (ms_mut s)\<rparr>"

text \<open>\<open>maker_payment\<close>: a payment found on the chain is not sent again, and the deadline is for a
  payment that is not there yet.\<close>

definition maker_payment :: "swap_ctx \<Rightarrow> step_answers \<Rightarrow> maker_swap \<Rightarrow> maker_step" where
  "maker_payment cx a s =
    (let d = msd s;
         wait_until = wait_for_maker_payment_conf_until (msd_started_at d) (msd_lock_duration d)
     in case ca_check_if_my_payment_sent (an_maker_coin a) (ms_payment_search cx s) of
       Inl e \<Rightarrow> maker_fails [] s (MMakerPaymentTransactionFailed e)
     | Inr existing \<Rightarrow>
    (let timeout = msd_started_at d + msd_lock_duration d div 3; now = an_now_sec a
     in if existing = None \<and> timeout < now
        then maker_fails [] s (MMakerPaymentTransactionFailed
          (''Timeout '' @ show_u64 now @ '' > '' @ show_u64 timeout))
        else case ms_setup_watcher_reward a s wait_until of
          Inl e \<Rightarrow> maker_fails [] s (MMakerPaymentTransactionFailed e)
        | Inr reward \<Rightarrow>
    (case existing of
       Some tx \<Rightarrow> StepDone [] s (Some MWaitForTakerPayment) [MMakerPaymentSent (tx_ident_of tx)]
     | None \<Rightarrow>
       let args = \<lparr>spa_time_lock_duration = msd_lock_duration d,
             spa_time_lock = msd_maker_payment_lock d,
             spa_other_pubkey = msm_other_maker_coin_htlc_pub (ms_mut s),
             spa_secret_hash = ms_secret_hash cx s, spa_amount = ms_maker_amount s,
             spa_swap_contract_address = msd_maker_coin_swap_contract_address d,
             spa_swap_unique_data = ms_unique_swap_data cx s,
             spa_payment_instructions = msm_payment_instructions (ms_mut s),
             spa_watcher_reward = reward, spa_wait_for_confirmation_until = wait_until\<rparr>;
           sent = ca_send_payment (an_maker_coin a) args
       in case sent of
         Inl err \<Rightarrow> maker_fails [SendsPayment args None] s
           (MMakerPaymentTransactionFailed (te_get_plain_text_format err))
       | Inr tx \<Rightarrow> StepDone [SendsPayment args (Some tx)] s (Some MWaitForTakerPayment)
           [MMakerPaymentSent (tx_ident_of tx)])))"

definition maker_wait_for_taker_payment :: "swap_ctx \<Rightarrow> step_answers \<Rightarrow> maker_swap \<Rightarrow> maker_step" where
  "maker_wait_for_taker_payment cx a s =
    (case ms_get_my_payment_data cx a s of
       Panic \<Rightarrow> StepPanics
     | Err e \<Rightarrow> maker_to_refund [] s (MMakerPaymentDataSendFailed e)
     | Ok payment_data_msg \<Rightarrow>
    (let sends = [Broadcasts (MakerPayment payment_data_msg)]; d = msd s in
     case msm_maker_payment (ms_mut s) of
       None \<Rightarrow> StepPanics
     | Some payment \<Rightarrow>
    (case ca_wait_for_confirmations (an_maker_coin a)
        \<lparr>cpi_payment_tx = ti_tx_hex payment, cpi_confirmations = msd_maker_payment_confirmations d,
         cpi_requires_nota = unwrap_or False (msd_maker_payment_requires_nota d),
         cpi_wait_until = wait_for_maker_payment_conf_until (msd_started_at d) (msd_lock_duration d),
         cpi_check_every = WAIT_CONFIRM_INTERVAL_SEC\<rparr> of
       Inl e \<Rightarrow> maker_to_refund sends s
         (MMakerPaymentWaitConfirmFailed (''!wait for maker payment confirmations: '' @ e))
     | Inr _ \<Rightarrow>
    (case an_taker_payment a of
       Inl e \<Rightarrow> maker_to_refund sends s (MTakerPaymentValidateFailed e)
     | Inr payload \<Rightarrow>
    (case sc_tx_enum_from_bytes (ms_taker_coin s) payload of
       Inl e \<Rightarrow> maker_to_refund sends s
         (MTakerPaymentValidateFailed (''!taker_coin.tx_enum_from_bytes: '' @ e))
     | Inr taker_payment \<Rightarrow> StepDone sends s (Some MValidateTakerPayment)
         [MTakerPaymentReceived (tx_ident_of taker_payment), MTakerPaymentWaitConfirmStarted])))))"

definition maker_validate_taker_payment :: "swap_ctx \<Rightarrow> step_answers \<Rightarrow> maker_swap \<Rightarrow> maker_step" where
  "maker_validate_taker_payment cx a s =
    (let d = msd s;
         wait_taker_payment = taker_payment_spend_deadline (msd_started_at d) (msd_lock_duration d);
         confirmations = msd_taker_payment_confirmations d
     in case msm_taker_payment (ms_mut s) of
       None \<Rightarrow> StepPanics
     | Some payment \<Rightarrow>
    (case ca_wait_for_confirmations (an_taker_coin a)
        \<lparr>cpi_payment_tx = ti_tx_hex payment, cpi_confirmations = confirmations,
         cpi_requires_nota = unwrap_or False (msd_taker_payment_requires_nota d),
         cpi_wait_until = wait_taker_payment, cpi_check_every = WAIT_CONFIRM_INTERVAL_SEC\<rparr> of
       Inl e \<Rightarrow> maker_to_refund [] s
         (MTakerPaymentWaitConfirmFailed (''!taker_coin.wait_for_confirmations: '' @ e))
     | Inr _ \<Rightarrow>
    (case (if msm_watcher_reward (ms_mut s)
           then map_sum id Some (ca_taker_watcher_reward (an_taker_coin a) (ms_taker_amount s)
             (ms_maker_amount s) (ms_watcher_reward_amount s) wait_taker_payment)
           else Inr None) of
       Inl e \<Rightarrow> maker_fails [] s (MMakerPaymentTransactionFailed e)
     | Inr reward \<Rightarrow>
    (case ca_validate_payment (an_taker_coin a)
        \<lparr>vpi_payment_tx = ti_tx_hex payment, vpi_time_lock_duration = msd_lock_duration d,
         vpi_time_lock = ms_taker_payment_lock s,
         vpi_other_pub = msm_other_taker_coin_htlc_pub (ms_mut s),
         vpi_secret_hash = ms_secret_hash cx s, vpi_amount = ms_taker_amount s,
         vpi_swap_contract_address = msd_taker_coin_swap_contract_address d,
         vpi_try_spv_proof_until = wait_taker_payment, vpi_confirmations = confirmations,
         vpi_unique_swap_data = ms_unique_swap_data cx s, vpi_watcher_reward = reward\<rparr> of
       Inl e \<Rightarrow> maker_to_refund [] s
         (MTakerPaymentValidateFailed (''!taker_coin.validate_taker_payment: '' @ e))
     | Inr _ \<Rightarrow> StepDone [] s (Some MSpendTakerPayment) [MTakerPaymentValidatedAndConfirmed]))))"

text \<open>The secret as the 32 bytes of its big-endian form.\<close>

definition h256_bytes :: "h256 \<Rightarrow> bytes" where
  "h256_bytes h = map (\<lambda>i. ucast (drop_bit (8 * i) h)) (rev [0..<32])"

definition maker_spend_taker_payment :: "swap_ctx \<Rightarrow> step_answers \<Rightarrow> maker_swap \<Rightarrow> maker_step" where
  "maker_spend_taker_payment cx a s =
    (let d = msd s;
         timeout = taker_payment_spend_deadline (msd_started_at d) (msd_lock_duration d);
         now = an_now_sec a
     in if timeout < now
        then maker_to_refund [] s (MTakerPaymentSpendFailed
          (''Timeout '' @ show_u64 now @ '' > '' @ show_u64 timeout))
        else case msm_taker_payment (ms_mut s) of
          None \<Rightarrow> StepPanics
        | Some payment \<Rightarrow>
          (let args = \<lparr>spe_other_payment_tx = ti_tx_hex payment, spe_time_lock = ms_taker_payment_lock s,
                 spe_other_pubkey = msm_other_taker_coin_htlc_pub (ms_mut s),
                 spe_secret = h256_bytes (msd_secret d), spe_secret_hash = ms_secret_hash cx s,
                 spe_swap_contract_address = msd_taker_coin_swap_contract_address d,
                 spe_swap_unique_data = ms_unique_swap_data cx s,
                 spe_watcher_reward = msm_watcher_reward (ms_mut s)\<rparr>
           in case ca_spend_payment (an_taker_coin a) args of
             Inl err \<Rightarrow> maker_to_refund
               (SpendsPayment args None # broadcast_err_tx (coin_ticker (ms_taker_coin s)) err) s
               (MTakerPaymentSpendFailed
                 (''!taker_coin.send_maker_spends_taker_payment: '' @ te_get_plain_text_format err))
           | Inr tx \<Rightarrow> StepDone
               (SpendsPayment args (Some tx) # broadcast_tx (coin_ticker (ms_taker_coin s)) tx) s
               (Some MConfirmTakerPaymentSpend)
               [MTakerPaymentSpent (tx_ident_of tx), MTakerPaymentSpendConfirmStarted]))"

definition maker_confirm_taker_payment_spend :: "swap_ctx \<Rightarrow> step_answers \<Rightarrow> maker_swap \<Rightarrow> maker_step" where
  "maker_confirm_taker_payment_spend cx a s =
    (case msm_taker_payment_spend (ms_mut s) of
       None \<Rightarrow> StepPanics
     | Some spend \<Rightarrow>
    (case ca_wait_for_confirmations (an_taker_coin a)
        \<lparr>cpi_payment_tx = ti_tx_hex spend, cpi_confirmations = msd_taker_payment_confirmations (msd s),
         cpi_requires_nota = False, cpi_wait_until = ms_wait_refund_until s,
         cpi_check_every = WAIT_CONFIRM_INTERVAL_SEC\<rparr> of
       Inl e \<Rightarrow> maker_to_refund [] s
         (MTakerPaymentSpendConfirmFailed (''!wait for taker payment spend confirmations: '' @ e))
     | Inr _ \<Rightarrow> StepDone [] s (Some MFinish) [MTakerPaymentSpendConfirmed]))"

definition maker_prepare_for_refund :: "swap_ctx \<Rightarrow> step_answers \<Rightarrow> maker_swap \<Rightarrow> maker_step" where
  "maker_prepare_for_refund cx a s =
    StepDone (case msm_taker_payment (ms_mut s) of Some payment \<Rightarrow> [NotesRefundStart (ti_tx_hex payment)] | None \<Rightarrow> [])
      s (Some MRefundMakerPayment) [MMakerPaymentRefundStarted]"

definition maker_refund :: "swap_ctx \<Rightarrow> step_answers \<Rightarrow> maker_swap \<Rightarrow> maker_step" where
  "maker_refund cx a s =
    (case msm_maker_payment (ms_mut s) of
       None \<Rightarrow> StepPanics
     | Some payment \<Rightarrow>
    (let locktime = msd_maker_payment_lock (msd s) in
     if sc_is_auto_refundable (ms_maker_coin s)
     then case ca_wait_for_htlc_refund (an_maker_coin a) (ti_tx_hex payment) locktime of
         Inr _ \<Rightarrow> StepDone [] s (Some MFinalizeMakerPaymentRefund) [MMakerPaymentRefunded None]
       | Inl e \<Rightarrow> maker_fails [] s (MMakerPaymentRefundFailed (''!maker_coin.wait_for_htlc_refund: '' @ e))
     else if \<not> can_refund_loop (ca_can_refund_htlc (an_maker_coin a)) then StepWaits
     else let args = \<lparr>rpa_payment_tx = ti_tx_hex payment, rpa_time_lock = locktime,
            rpa_other_pubkey = msm_other_maker_coin_htlc_pub (ms_mut s),
            rpa_maker_secret_hash = ms_secret_hash cx s,
            rpa_swap_contract_address = msd_maker_coin_swap_contract_address (msd s),
            rpa_swap_unique_data = ms_unique_swap_data cx s,
            rpa_watcher_reward = msm_watcher_reward (ms_mut s)\<rparr>
       in case ca_refund_payment (an_maker_coin a) args of
         Inl err \<Rightarrow> maker_fails
           (RefundsPayment args None # broadcast_err_tx (coin_ticker (ms_maker_coin s)) err) s
           (MMakerPaymentRefundFailed
             (''!maker_coin.send_maker_refunds_payment: '' @ te_get_plain_text_format err))
       | Inr tx \<Rightarrow> StepDone
           (RefundsPayment args (Some tx) # broadcast_tx (coin_ticker (ms_maker_coin s)) tx) s
           (Some MFinalizeMakerPaymentRefund) [MMakerPaymentRefunded (Some (tx_ident_of tx))]))"

definition maker_finalize_refund :: "swap_ctx \<Rightarrow> step_answers \<Rightarrow> maker_swap \<Rightarrow> maker_step" where
  "maker_finalize_refund cx a s =
    StepDone (case msm_taker_payment (ms_mut s) of Some payment \<Rightarrow> [NotesRefundSuccess (ti_tx_hex payment)] | None \<Rightarrow> [])
      s (Some MFinish) [MMakerPaymentRefundFinished]"

fun maker_handle_command :: "swap_ctx \<Rightarrow> step_answers \<Rightarrow> maker_swap_command \<Rightarrow> maker_swap \<Rightarrow> maker_step" where
  "maker_handle_command cx a MStart s = maker_start cx a s"
| "maker_handle_command cx a MNegotiate s = maker_negotiate cx a s"
| "maker_handle_command cx a MWaitForTakerFee s = maker_wait_taker_fee cx a s"
| "maker_handle_command cx a MSendPayment s = maker_payment cx a s"
| "maker_handle_command cx a MWaitForTakerPayment s = maker_wait_for_taker_payment cx a s"
| "maker_handle_command cx a MValidateTakerPayment s = maker_validate_taker_payment cx a s"
| "maker_handle_command cx a MSpendTakerPayment s = maker_spend_taker_payment cx a s"
| "maker_handle_command cx a MConfirmTakerPaymentSpend s = maker_confirm_taker_payment_spend cx a s"
| "maker_handle_command cx a MPrepareForMakerPaymentRefund s = maker_prepare_for_refund cx a s"
| "maker_handle_command cx a MRefundMakerPayment s = maker_refund cx a s"
| "maker_handle_command cx a MFinalizeMakerPaymentRefund s = maker_finalize_refund cx a s"
| "maker_handle_command cx a MFinish s = StepDone [] s None [MFinished]"

end
