(* ===== verification/Taker_Swap.thy ===== *)
theory Taker_Swap
  imports Maker_Swap
begin

text \<open>
  The taker's side of a legacy swap (\<open>mm2_main/src/lp_swap/taker_swap.rs\<close>), laid out as the maker's
  side is: the state, the thirteen commands, the events they produce and how the events build the
  state up. \<open>start\<close> is again the only command that changes something itself, the flag
  \<open>watcher_reward\<close>. The amounts are \<open>MmNumber\<close>s here, where the maker keeps decimals.
\<close>

section \<open>State, commands and events\<close>

record maker_negotiation_data =
  mnd_maker_payment_locktime :: u64
  mnd_maker_pubkey :: h264
  mnd_secret_hash :: bytes
  mnd_maker_coin_swap_contract_addr :: "bytes option"
  mnd_taker_coin_swap_contract_addr :: "bytes option"
  mnd_maker_coin_htlc_pubkey :: "h264 option"
  mnd_taker_coin_htlc_pubkey :: "h264 option"

definition mnd_other_maker_coin_htlc_pub :: "maker_negotiation_data \<Rightarrow> h264" where
  "mnd_other_maker_coin_htlc_pub d = unwrap_or (mnd_maker_pubkey d) (mnd_maker_coin_htlc_pubkey d)"

definition mnd_other_taker_coin_htlc_pub :: "maker_negotiation_data \<Rightarrow> h264" where
  "mnd_other_taker_coin_htlc_pub d = unwrap_or (mnd_maker_pubkey d) (mnd_taker_coin_htlc_pubkey d)"

record taker_payment_spent_data =
  tps_transaction :: transaction_identifier
  tps_secret :: h256

record taker_swap_data =
  tsd_taker_coin :: string
  tsd_maker_coin :: string
  tsd_maker_pubkey :: h256
  tsd_my_persistent_pub :: h264
  tsd_lock_duration :: u64
  tsd_maker_amount :: mm_number
  tsd_taker_amount :: mm_number
  tsd_maker_payment_confirmations :: u64
  tsd_maker_payment_requires_nota :: "bool option"
  tsd_taker_payment_confirmations :: u64
  tsd_taker_payment_requires_nota :: "bool option"
  tsd_taker_payment_lock :: u64
  tsd_uuid :: uuid
  tsd_started_at :: u64
  tsd_maker_payment_wait :: u64
  tsd_maker_coin_start_block :: u64
  tsd_taker_coin_start_block :: u64
  tsd_fee_to_send_taker_fee :: "saved_trade_fee option"
  tsd_taker_payment_trade_fee :: "saved_trade_fee option"
  tsd_maker_payment_spend_trade_fee :: "saved_trade_fee option"
  tsd_maker_coin_swap_contract_address :: "bytes option"
  tsd_taker_coin_swap_contract_address :: "bytes option"
  tsd_maker_coin_htlc_pubkey :: "h264 option"
  tsd_taker_coin_htlc_pubkey :: "h264 option"
  tsd_p2p_privkey :: "keypair option"

definition taker_swap_data_default :: taker_swap_data where
  "taker_swap_data_default = \<lparr>tsd_taker_coin = [], tsd_maker_coin = [], tsd_maker_pubkey = 0,
     tsd_my_persistent_pub = h264_default, tsd_lock_duration = 0, tsd_maker_amount = 0,
     tsd_taker_amount = 0, tsd_maker_payment_confirmations = 0,
     tsd_maker_payment_requires_nota = None, tsd_taker_payment_confirmations = 0,
     tsd_taker_payment_requires_nota = None, tsd_taker_payment_lock = 0, tsd_uuid = 0,
     tsd_started_at = 0, tsd_maker_payment_wait = 0, tsd_maker_coin_start_block = 0,
     tsd_taker_coin_start_block = 0, tsd_fee_to_send_taker_fee = None,
     tsd_taker_payment_trade_fee = None, tsd_maker_payment_spend_trade_fee = None,
     tsd_maker_coin_swap_contract_address = None, tsd_taker_coin_swap_contract_address = None,
     tsd_maker_coin_htlc_pubkey = None, tsd_taker_coin_htlc_pubkey = None, tsd_p2p_privkey = None\<rparr>"

record taker_swap_mut =
  tsm_data :: taker_swap_data
  tsm_other_maker_coin_htlc_pub :: h264
  tsm_other_taker_coin_htlc_pub :: h264
  tsm_taker_fee :: "transaction_identifier option"
  tsm_maker_payment :: "transaction_identifier option"
  tsm_taker_payment :: "transaction_identifier option"
  tsm_maker_payment_spend :: "transaction_identifier option"
  tsm_maker_payment_spend_confirmed :: bool
  tsm_taker_payment_spend :: "transaction_identifier option"
  tsm_maker_payment_spend_preimage :: "bytes option"
  tsm_taker_payment_refund_preimage :: "bytes option"
  tsm_taker_payment_refund :: "transaction_identifier option"
  tsm_secret_hash :: bytes
  tsm_secret :: h256
  tsm_watcher_reward :: bool
  tsm_payment_instructions :: "payment_instructions option"

record taker_swap =
  ts_maker_coin :: swap_coin
  ts_taker_coin :: swap_coin
  ts_maker_amount :: mm_number
  ts_taker_amount :: mm_number
  ts_my_persistent_pub :: h264
  ts_maker_pubkey :: h256
  ts_uuid :: uuid
  ts_my_order_uuid :: "uuid option"
  ts_maker_payment_lock :: u64
  ts_maker_payment_confirmed :: bool
  ts_errors :: "swap_error list"
  ts_finished_at :: u64
  ts_mut :: taker_swap_mut
  ts_conf_settings :: swap_confirmations_settings
  ts_payment_locktime :: u64
  ts_p2p_privkey :: "keypair option"

datatype taker_swap_command =
    TStart
  | TNegotiate
  | TSendTakerFee
  | TWaitForMakerPayment
  | TValidateMakerPayment
  | TSendTakerPayment
  | TWaitForTakerPaymentSpend
  | TSpendMakerPayment
  | TConfirmMakerPaymentSpend
  | TPrepareForTakerPaymentRefund
  | TRefundTakerPayment
  | TFinalizeTakerPaymentRefund
  | TFinish

datatype taker_swap_event =
    TStarted taker_swap_data
  | TStartFailed swap_error
  | TNegotiated maker_negotiation_data
  | TNegotiateFailed swap_error
  | TTakerFeeSent transaction_identifier
  | TTakerFeeSendFailed swap_error
  | TTakerPaymentInstructionsReceived "payment_instructions option"
  | TMakerPaymentReceived transaction_identifier
  | TMakerPaymentWaitConfirmStarted
  | TMakerPaymentValidatedAndConfirmed
  | TMakerPaymentValidateFailed swap_error
  | TMakerPaymentWaitConfirmFailed swap_error
  | TTakerPaymentSent transaction_identifier
  | TWatcherMessageSent "bytes option" "bytes option"
  | TTakerPaymentTransactionFailed swap_error
  | TTakerPaymentDataSendFailed swap_error
  | TTakerPaymentWaitConfirmFailed swap_error
  | TTakerPaymentSpent taker_payment_spent_data
  | TTakerPaymentWaitForSpendFailed swap_error
  | TMakerPaymentSpent transaction_identifier
  | TMakerPaymentSpendConfirmed
  | TMakerPaymentSpendConfirmFailed swap_error
  | TMakerPaymentSpentByWatcher transaction_identifier
  | TMakerPaymentSpendFailed swap_error
  | TTakerPaymentWaitRefundStarted u64
  | TTakerPaymentRefundStarted
  | TTakerPaymentRefunded "transaction_identifier option"
  | TTakerPaymentRefundFailed swap_error
  | TTakerPaymentRefundFinished
  | TTakerPaymentRefundedByWatcher "transaction_identifier option"
  | TFinished

fun taker_event_status_str :: "taker_swap_event \<Rightarrow> string" where
  "taker_event_status_str (TStarted _) = ''Started...''"
| "taker_event_status_str (TStartFailed _) = ''Start failed...''"
| "taker_event_status_str (TNegotiated _) = ''Negotiated...''"
| "taker_event_status_str (TNegotiateFailed _) = ''Negotiate failed...''"
| "taker_event_status_str (TTakerFeeSent _) = ''Taker fee sent...''"
| "taker_event_status_str (TTakerFeeSendFailed _) = ''Taker fee send failed...''"
| "taker_event_status_str (TTakerPaymentInstructionsReceived _) = ''Taker payment instructions received...''"
| "taker_event_status_str (TMakerPaymentReceived _) = ''Maker payment received...''"
| "taker_event_status_str TMakerPaymentWaitConfirmStarted = ''Maker payment wait confirm started...''"
| "taker_event_status_str TMakerPaymentValidatedAndConfirmed = ''Maker payment validated and confirmed...''"
| "taker_event_status_str (TMakerPaymentValidateFailed _) = ''Maker payment validate failed...''"
| "taker_event_status_str (TMakerPaymentWaitConfirmFailed _) = ''Maker payment wait for confirmation failed...''"
| "taker_event_status_str (TTakerPaymentSent _) = ''Taker payment sent...''"
| "taker_event_status_str (TWatcherMessageSent _ _) = ''Watcher message sent...''"
| "taker_event_status_str (TTakerPaymentTransactionFailed _) = ''Taker payment transaction failed...''"
| "taker_event_status_str (TTakerPaymentDataSendFailed _) = ''Taker payment data send failed...''"
| "taker_event_status_str (TTakerPaymentWaitConfirmFailed _) = ''Taker payment wait for confirmation failed...''"
| "taker_event_status_str (TTakerPaymentSpent _) = ''Taker payment spent...''"
| "taker_event_status_str (TTakerPaymentWaitForSpendFailed _) = ''Taker payment wait for spend failed...''"
| "taker_event_status_str (TMakerPaymentSpent _) = ''Maker payment spent...''"
| "taker_event_status_str TMakerPaymentSpendConfirmed = ''Maker payment spent confirmed...''"
| "taker_event_status_str (TMakerPaymentSpendConfirmFailed _) = ''Maker payment spend confirm failed...''"
| "taker_event_status_str (TMakerPaymentSpentByWatcher _) = ''Maker payment spent by watcher...''"
| "taker_event_status_str (TMakerPaymentSpendFailed _) = ''Maker payment spend failed...''"
| "taker_event_status_str (TTakerPaymentWaitRefundStarted wait_until)
    = ''Taker payment wait refund till '' @ show_u64 wait_until @ '' started...''"
| "taker_event_status_str TTakerPaymentRefundStarted = ''Taker payment refund started...''"
| "taker_event_status_str (TTakerPaymentRefunded _) = ''Taker payment refunded...''"
| "taker_event_status_str (TTakerPaymentRefundFailed _) = ''Taker payment refund failed...''"
| "taker_event_status_str TTakerPaymentRefundFinished = ''Taker payment refund finished...''"
| "taker_event_status_str (TTakerPaymentRefundedByWatcher _) = ''Taker payment refunded by watcher...''"
| "taker_event_status_str TFinished = ''Finished''"

fun should_ban_maker :: "taker_swap_event \<Rightarrow> bool" where
  "should_ban_maker (TNegotiateFailed _) = True"
| "should_ban_maker (TMakerPaymentValidateFailed _) = True"
| "should_ban_maker (TTakerPaymentWaitForSpendFailed _) = True"
| "should_ban_maker _ = False"

fun taker_event_is_success :: "taker_swap_event \<Rightarrow> bool" where
  "taker_event_is_success (TStarted _) = True"
| "taker_event_is_success (TNegotiated _) = True"
| "taker_event_is_success (TTakerFeeSent _) = True"
| "taker_event_is_success (TTakerPaymentInstructionsReceived _) = True"
| "taker_event_is_success (TMakerPaymentReceived _) = True"
| "taker_event_is_success TMakerPaymentWaitConfirmStarted = True"
| "taker_event_is_success (TWatcherMessageSent _ _) = True"
| "taker_event_is_success TMakerPaymentValidatedAndConfirmed = True"
| "taker_event_is_success (TTakerPaymentSent _) = True"
| "taker_event_is_success (TTakerPaymentSpent _) = True"
| "taker_event_is_success (TMakerPaymentSpent _) = True"
| "taker_event_is_success TMakerPaymentSpendConfirmed = True"
| "taker_event_is_success (TMakerPaymentSpentByWatcher _) = True"
| "taker_event_is_success TFinished = True"
| "taker_event_is_success _ = False"

definition taker_event_is_error :: "taker_swap_event \<Rightarrow> bool" where
  "taker_event_is_error e = (\<not> taker_event_is_success e)"

fun taker_get_command :: "taker_swap_event \<Rightarrow> taker_swap_command option" where
  "taker_get_command (TStarted _) = Some TNegotiate"
| "taker_get_command (TStartFailed _) = Some TFinish"
| "taker_get_command (TNegotiated _) = Some TSendTakerFee"
| "taker_get_command (TNegotiateFailed _) = Some TFinish"
| "taker_get_command (TTakerFeeSent _) = Some TWaitForMakerPayment"
| "taker_get_command (TTakerFeeSendFailed _) = Some TFinish"
| "taker_get_command (TTakerPaymentInstructionsReceived _) = Some TValidateMakerPayment"
| "taker_get_command (TMakerPaymentReceived _) = Some TValidateMakerPayment"
| "taker_get_command TMakerPaymentWaitConfirmStarted = Some TValidateMakerPayment"
| "taker_get_command TMakerPaymentValidatedAndConfirmed = Some TSendTakerPayment"
| "taker_get_command (TMakerPaymentValidateFailed _) = Some TFinish"
| "taker_get_command (TMakerPaymentWaitConfirmFailed _) = Some TFinish"
| "taker_get_command (TTakerPaymentSent _) = Some TWaitForTakerPaymentSpend"
| "taker_get_command (TWatcherMessageSent _ _) = Some TWaitForTakerPaymentSpend"
| "taker_get_command (TTakerPaymentTransactionFailed _) = Some TFinish"
| "taker_get_command (TTakerPaymentDataSendFailed _) = Some TPrepareForTakerPaymentRefund"
| "taker_get_command (TTakerPaymentSpent _) = Some TSpendMakerPayment"
| "taker_get_command (TTakerPaymentWaitForSpendFailed _) = Some TPrepareForTakerPaymentRefund"
| "taker_get_command (TTakerPaymentWaitConfirmFailed _) = Some TPrepareForTakerPaymentRefund"
| "taker_get_command (TMakerPaymentSpent _) = Some TConfirmMakerPaymentSpend"
| "taker_get_command TMakerPaymentSpendConfirmed = Some TFinish"
| "taker_get_command (TMakerPaymentSpendConfirmFailed _) = Some TPrepareForTakerPaymentRefund"
| "taker_get_command (TMakerPaymentSpentByWatcher _) = Some TConfirmMakerPaymentSpend"
| "taker_get_command (TMakerPaymentSpendFailed _) = Some TPrepareForTakerPaymentRefund"
| "taker_get_command (TTakerPaymentWaitRefundStarted _) = Some TPrepareForTakerPaymentRefund"
| "taker_get_command TTakerPaymentRefundStarted = Some TRefundTakerPayment"
| "taker_get_command (TTakerPaymentRefunded _) = Some TFinalizeTakerPaymentRefund"
| "taker_get_command (TTakerPaymentRefundFailed _) = Some TFinish"
| "taker_get_command TTakerPaymentRefundFinished = Some TFinish"
| "taker_get_command (TTakerPaymentRefundedByWatcher _) = Some TFinish"
| "taker_get_command TFinished = None"

section \<open>The swap and its events\<close>

definition ts_upd_mut :: "(taker_swap_mut \<Rightarrow> taker_swap_mut) \<Rightarrow> taker_swap \<Rightarrow> taker_swap" where
  "ts_upd_mut f s = s\<lparr>ts_mut := f (ts_mut s)\<rparr>"

abbreviation tsd :: "taker_swap \<Rightarrow> taker_swap_data" where
  "tsd s \<equiv> tsm_data (ts_mut s)"

definition ts_push_error :: "swap_error \<Rightarrow> taker_swap \<Rightarrow> taker_swap" where
  "ts_push_error err s = s\<lparr>ts_errors := ts_errors s @ [err]\<rparr>"

definition taker_swap_new ::
    "h256 \<Rightarrow> mm_number \<Rightarrow> mm_number \<Rightarrow> h264 \<Rightarrow> uuid \<Rightarrow> uuid option \<Rightarrow> swap_confirmations_settings
       \<Rightarrow> swap_coin \<Rightarrow> swap_coin \<Rightarrow> u64 \<Rightarrow> keypair option \<Rightarrow> taker_swap" where
  "taker_swap_new maker_pubkey maker_amount taker_amount my_persistent_pub u my_order_uuid conf_settings
      maker_coin taker_coin payment_locktime p2p_privkey =
    \<lparr>ts_maker_coin = maker_coin, ts_taker_coin = taker_coin, ts_maker_amount = maker_amount,
     ts_taker_amount = taker_amount, ts_my_persistent_pub = my_persistent_pub,
     ts_maker_pubkey = maker_pubkey, ts_uuid = u, ts_my_order_uuid = my_order_uuid,
     ts_maker_payment_lock = 0, ts_maker_payment_confirmed = False, ts_errors = [], ts_finished_at = 0,
     ts_mut = \<lparr>tsm_data = taker_swap_data_default, tsm_other_maker_coin_htlc_pub = h264_default,
       tsm_other_taker_coin_htlc_pub = h264_default, tsm_taker_fee = None, tsm_maker_payment = None,
       tsm_taker_payment = None, tsm_maker_payment_spend = None,
       tsm_maker_payment_spend_confirmed = False, tsm_taker_payment_spend = None,
       tsm_maker_payment_spend_preimage = None, tsm_taker_payment_refund_preimage = None,
       tsm_taker_payment_refund = None, tsm_secret_hash = [], tsm_secret = 0,
       tsm_watcher_reward = False, tsm_payment_instructions = None\<rparr>,
     ts_conf_settings = conf_settings, ts_payment_locktime = payment_locktime,
     ts_p2p_privkey = p2p_privkey\<rparr>"

text \<open>The bytes of the uuid, first byte first.\<close>

definition uuid_bytes :: "uuid \<Rightarrow> bytes" where
  "uuid_bytes u = map (\<lambda>i. ucast (drop_bit (8 * i) u)) (rev [0..<16])"

definition ts_unique_swap_data :: "taker_swap \<Rightarrow> bytes" where
  "ts_unique_swap_data s = uuid_bytes (ts_uuid s)"

definition ts_my_maker_coin_htlc_pub :: "taker_swap \<Rightarrow> h264" where
  "ts_my_maker_coin_htlc_pub s = unwrap_or (ts_my_persistent_pub s) (tsd_maker_coin_htlc_pubkey (tsd s))"

definition ts_my_taker_coin_htlc_pub :: "taker_swap \<Rightarrow> h264" where
  "ts_my_taker_coin_htlc_pub s = unwrap_or (ts_my_persistent_pub s) (tsd_taker_coin_htlc_pubkey (tsd s))"

definition ts_wait_refund_until :: "taker_swap \<Rightarrow> u64" where
  "ts_wait_refund_until s = tsd_taker_payment_lock (tsd s) + 3700"

definition ts_watcher_reward_amount :: "taker_swap \<Rightarrow> mm_number option" where
  "ts_watcher_reward_amount s = (case tsm_payment_instructions (ts_mut s) of
      Some (WatcherRewardInstructions reward) \<Rightarrow> Some reward
    | _ \<Rightarrow> None)"

fun taker_apply_event :: "u64 \<Rightarrow> taker_swap_event \<Rightarrow> taker_swap \<Rightarrow> taker_swap" where
  "taker_apply_event now (TStarted data) s = ts_upd_mut (\<lambda>m. m\<lparr>tsm_data := data\<rparr>) s"
| "taker_apply_event now (TStartFailed err) s = ts_push_error err s"
| "taker_apply_event now (TNegotiated data) s =
     ts_upd_mut (\<lambda>m. m\<lparr>
        tsm_other_maker_coin_htlc_pub := mnd_other_maker_coin_htlc_pub data,
        tsm_other_taker_coin_htlc_pub := mnd_other_taker_coin_htlc_pub data,
        tsm_secret_hash := mnd_secret_hash data,
        tsm_data := (let d = tsm_data m;
            d1 = (if mnd_maker_coin_swap_contract_addr data \<noteq> None
              then d\<lparr>tsd_maker_coin_swap_contract_address := mnd_maker_coin_swap_contract_addr data\<rparr> else d)
          in if mnd_taker_coin_swap_contract_addr data \<noteq> None
              then d1\<lparr>tsd_taker_coin_swap_contract_address := mnd_taker_coin_swap_contract_addr data\<rparr> else d1)\<rparr>)
       (s\<lparr>ts_maker_payment_lock := mnd_maker_payment_locktime data\<rparr>)"
| "taker_apply_event now (TNegotiateFailed err) s = ts_push_error err s"
| "taker_apply_event now (TTakerFeeSent tx) s = ts_upd_mut (\<lambda>m. m\<lparr>tsm_taker_fee := Some tx\<rparr>) s"
| "taker_apply_event now (TTakerFeeSendFailed err) s = ts_push_error err s"
| "taker_apply_event now (TTakerPaymentInstructionsReceived instructions) s =
     ts_upd_mut (\<lambda>m. m\<lparr>tsm_payment_instructions := instructions\<rparr>) s"
| "taker_apply_event now (TMakerPaymentReceived tx) s = ts_upd_mut (\<lambda>m. m\<lparr>tsm_maker_payment := Some tx\<rparr>) s"
| "taker_apply_event now TMakerPaymentWaitConfirmStarted s = s"
| "taker_apply_event now TMakerPaymentValidatedAndConfirmed s = s\<lparr>ts_maker_payment_confirmed := True\<rparr>"
| "taker_apply_event now (TMakerPaymentValidateFailed err) s = ts_push_error err s"
| "taker_apply_event now (TMakerPaymentWaitConfirmFailed err) s = ts_push_error err s"
| "taker_apply_event now (TTakerPaymentSent tx) s = ts_upd_mut (\<lambda>m. m\<lparr>tsm_taker_payment := Some tx\<rparr>) s"
| "taker_apply_event now (TWatcherMessageSent spend_preimage refund_preimage) s =
     ts_upd_mut (\<lambda>m. m\<lparr>tsm_maker_payment_spend_preimage := spend_preimage,
       tsm_taker_payment_refund_preimage := refund_preimage\<rparr>) s"
| "taker_apply_event now (TTakerPaymentTransactionFailed err) s = ts_push_error err s"
| "taker_apply_event now (TTakerPaymentDataSendFailed err) s = ts_push_error err s"
| "taker_apply_event now (TTakerPaymentWaitConfirmFailed err) s = ts_push_error err s"
| "taker_apply_event now (TTakerPaymentSpent data) s =
     ts_upd_mut (\<lambda>m. m\<lparr>tsm_taker_payment_spend := Some (tps_transaction data), tsm_secret := tps_secret data\<rparr>) s"
| "taker_apply_event now (TTakerPaymentWaitForSpendFailed err) s = ts_push_error err s"
| "taker_apply_event now (TMakerPaymentSpent tx) s = ts_upd_mut (\<lambda>m. m\<lparr>tsm_maker_payment_spend := Some tx\<rparr>) s"
| "taker_apply_event now TMakerPaymentSpendConfirmed s =
     ts_upd_mut (\<lambda>m. m\<lparr>tsm_maker_payment_spend_confirmed := True\<rparr>) s"
| "taker_apply_event now (TMakerPaymentSpendConfirmFailed err) s = ts_push_error err s"
| "taker_apply_event now (TMakerPaymentSpentByWatcher tx) s =
     ts_upd_mut (\<lambda>m. m\<lparr>tsm_maker_payment_spend := Some tx\<rparr>) s"
| "taker_apply_event now (TMakerPaymentSpendFailed err) s = ts_push_error err s"
| "taker_apply_event now (TTakerPaymentWaitRefundStarted _) s = s"
| "taker_apply_event now TTakerPaymentRefundStarted s = s"
| "taker_apply_event now (TTakerPaymentRefunded tx) s = ts_upd_mut (\<lambda>m. m\<lparr>tsm_taker_payment_refund := tx\<rparr>) s"
| "taker_apply_event now (TTakerPaymentRefundFailed err) s = ts_push_error err s"
| "taker_apply_event now TTakerPaymentRefundFinished s = s"
| "taker_apply_event now (TTakerPaymentRefundedByWatcher tx) s =
     ts_upd_mut (\<lambda>m. m\<lparr>tsm_taker_payment_refund := tx\<rparr>) s"
| "taker_apply_event now TFinished s = s\<lparr>ts_finished_at := now\<rparr>"

section \<open>The commands\<close>

type_synonym taker_step = "(taker_swap, taker_swap_command, taker_swap_event) step_result"

definition taker_fails :: "swap_act list \<Rightarrow> taker_swap \<Rightarrow> taker_swap_event \<Rightarrow> taker_step" where
  "taker_fails acts s e = StepDone acts s (Some TFinish) [e]"

definition taker_to_refund :: "swap_act list \<Rightarrow> taker_swap \<Rightarrow> taker_swap_event \<Rightarrow> taker_step" where
  "taker_to_refund acts s e = StepDone acts s (Some TPrepareForTakerPaymentRefund)
     [e, TTakerPaymentWaitRefundStarted (ts_wait_refund_until s)]"

definition ts_get_my_negotiation_data ::
    "taker_swap \<Rightarrow> bytes \<Rightarrow> bytes \<Rightarrow> bytes \<Rightarrow> negotiation_data_msg" where
  "ts_get_my_negotiation_data s secret_hash maker_coin_swap_contract taker_coin_swap_contract =
    (let d = tsd s;
         equal = (tsd_maker_coin_htlc_pubkey d = tsd_taker_coin_htlc_pubkey d);
         same_as_persistent = (tsd_maker_coin_htlc_pubkey d = Some (tsd_my_persistent_pub d))
     in if equal \<and> same_as_persistent
        then NegotiationV2 \<lparr>nd2_started_at = tsd_started_at d, nd2_payment_locktime = tsd_taker_payment_lock d,
               nd2_secret_hash = secret_hash, nd2_persistent_pubkey = ts_my_persistent_pub s,
               nd2_maker_coin_swap_contract = maker_coin_swap_contract,
               nd2_taker_coin_swap_contract = taker_coin_swap_contract\<rparr>
        else NegotiationV3 \<lparr>nd3_started_at = tsd_started_at d, nd3_payment_locktime = tsd_taker_payment_lock d,
               nd3_secret_hash = secret_hash,
               nd3_maker_coin_swap_contract = maker_coin_swap_contract,
               nd3_taker_coin_swap_contract = taker_coin_swap_contract,
               nd3_maker_coin_htlc_pub = ts_my_maker_coin_htlc_pub s,
               nd3_taker_coin_htlc_pub = ts_my_taker_coin_htlc_pub s\<rparr>)"

text \<open>\<open>get_taker_fee_data\<close>: it panics without the fee.\<close>

definition ts_get_taker_fee_data :: "step_answers \<Rightarrow> taker_swap \<Rightarrow> (string, swap_tx_data_msg) rust_result" where
  "ts_get_taker_fee_data a s = (case tsm_taker_fee (ts_mut s) of
      None \<Rightarrow> Panic
    | Some fee \<Rightarrow>
        (let d = tsd s in
         case ca_payment_instructions (an_maker_coin a)
            \<lparr>pia_secret_hash = tsm_secret_hash (ts_mut s), pia_amount = ts_maker_amount s,
             pia_maker_lock_duration = multiplied_lock_duration (tsd_lock_duration d)
               (maker_locktime_multiplier (ts_taker_coin s)),
             pia_expires_in = wait_for_maker_payment_conf_duration (tsd_lock_duration d),
             pia_watcher_reward = tsm_watcher_reward (ts_mut s) \<and> sc_is_eth (ts_taker_coin s),
             pia_wait_until = wait_for_maker_payment_conf_until (tsd_started_at d) (tsd_lock_duration d)\<rparr> of
           Inl e \<Rightarrow> Err e
         | Inr instructions \<Rightarrow> Ok (swap_tx_data_new (ti_tx_hex fee) instructions)))"

definition taker_start :: "swap_ctx \<Rightarrow> step_answers \<Rightarrow> taker_swap \<Rightarrow> taker_step" where
  "taker_start cx a s =
    (let fee = dex_fee_new_with_taker_pubkey (ts_taker_coin s) (coin_ticker (ts_maker_coin s))
           (ts_taker_amount s) (ts_my_taker_coin_htlc_pub s) in
     case (if fee = NoFee
           then Inr \<lparr>tf_coin = coin_ticker (ts_taker_coin s), tf_amount = 0, tf_paid_from_trading_vol = False\<rparr>
           else ca_fee_to_send_taker_fee (an_taker_coin a) fee) of
       Inl e \<Rightarrow> taker_fails [] s (TStartFailed (''!taker_coin.get_fee_to_send_taker_fee '' @ e))
     | Inr fee_to_send_dex_fee \<Rightarrow>
    (case ca_sender_trade_fee (an_taker_coin a) (ts_taker_amount s) of
       Inl e \<Rightarrow> taker_fails [] s (TStartFailed (''!taker_coin.get_sender_trade_fee '' @ e))
     | Inr taker_payment_trade_fee \<Rightarrow>
    (case ca_receiver_trade_fee (an_maker_coin a) of
       Inl e \<Rightarrow> taker_fails [] s (TStartFailed (''!maker_coin.get_receiver_trade_fee '' @ e))
     | Inr maker_payment_spend_trade_fee \<Rightarrow>
    (case an_check_balance a of
       Inl e \<Rightarrow> taker_fails [] s (TStartFailed (''!check_balance_for_taker_swap '' @ e))
     | Inr _ \<Rightarrow>
    (let started_at = an_now_sec a in
     case ca_current_block (an_maker_coin a) of
       Inl e \<Rightarrow> taker_fails [] s (TStartFailed (''!maker_coin.current_block '' @ e))
     | Inr maker_coin_start_block \<Rightarrow>
    (case ca_current_block (an_taker_coin a) of
       Inl e \<Rightarrow> taker_fails [] s (TStartFailed (''!taker_coin.current_block '' @ e))
     | Inr taker_coin_start_block \<Rightarrow>
       let unique_data = ts_unique_swap_data s;
           conf = ts_conf_settings s;
           data = \<lparr>tsd_taker_coin = coin_ticker (ts_taker_coin s),
             tsd_maker_coin = coin_ticker (ts_maker_coin s),
             tsd_maker_pubkey = ts_maker_pubkey s,
             tsd_my_persistent_pub = ts_my_persistent_pub s,
             tsd_lock_duration = ts_payment_locktime s,
             tsd_maker_amount = ts_maker_amount s, tsd_taker_amount = ts_taker_amount s,
             tsd_maker_payment_confirmations = swap_confirmations_settings.maker_coin_confs conf,
             tsd_maker_payment_requires_nota = Some (swap_confirmations_settings.maker_coin_nota conf),
             tsd_taker_payment_confirmations = swap_confirmations_settings.taker_coin_confs conf,
             tsd_taker_payment_requires_nota = Some (swap_confirmations_settings.taker_coin_nota conf),
             tsd_taker_payment_lock = started_at + ts_payment_locktime s,
             tsd_uuid = ts_uuid s, tsd_started_at = started_at,
             tsd_maker_payment_wait = wait_for_maker_payment_conf_until started_at (ts_payment_locktime s),
             tsd_maker_coin_start_block = maker_coin_start_block,
             tsd_taker_coin_start_block = taker_coin_start_block,
             tsd_fee_to_send_taker_fee = Some (saved_trade_fee_of fee_to_send_dex_fee),
             tsd_taker_payment_trade_fee = Some (saved_trade_fee_of taker_payment_trade_fee),
             tsd_maker_payment_spend_trade_fee = Some (saved_trade_fee_of maker_payment_spend_trade_fee),
             tsd_maker_coin_swap_contract_address = sc_swap_contract_address (ts_maker_coin s),
             tsd_taker_coin_swap_contract_address = sc_swap_contract_address (ts_taker_coin s),
             tsd_maker_coin_htlc_pubkey = Some (sc_derive_htlc_pubkey (ts_maker_coin s) unique_data),
             tsd_taker_coin_htlc_pubkey = Some (sc_derive_htlc_pubkey (ts_taker_coin s) unique_data),
             tsd_p2p_privkey = ts_p2p_privkey s\<rparr>
       in StepDone [] (ts_upd_mut (\<lambda>m. m\<lparr>tsm_watcher_reward := sx_use_watcher_reward cx\<rparr>) s)
            (Some TNegotiate) [TStarted data]))))))"

text \<open>The address of a swap contract, with the coin's fallback when the other side's does not do.\<close>

definition negotiate_or_fallback :: "swap_coin \<Rightarrow> bytes option \<Rightarrow> string + bytes option" where
  "negotiate_or_fallback coin other_side = (case sc_negotiate_swap_contract_addr coin other_side of
      Inr addr \<Rightarrow> Inr addr
    | Inl e \<Rightarrow> (case sc_fallback_swap_contract coin of Some addr \<Rightarrow> Inr (Some addr) | None \<Rightarrow> Inl e))"

definition taker_negotiation_fault ::
    "taker_swap \<Rightarrow> negotiation_data_msg \<Rightarrow> swap_error + (bytes option \<times> bytes option)" where
  "taker_negotiation_fault s maker_data =
    (let time_dif = u64_abs_diff (tsd_started_at (tsd s)) (nd_started_at maker_data);
         customized_lock_duration = multiplied_lock_duration (tsd_lock_duration (tsd s))
           (maker_locktime_multiplier (ts_taker_coin s));
         expected_lock_time = u64_checked_add (nd_started_at maker_data) customized_lock_duration
     in if MAX_STARTED_AT_DIFF < time_dif
        then Inl (''The time difference between you and the maker cannot be longer than 60 seconds. Current difference: '' @ show_u64 time_dif)
        else if Some (nd_payment_locktime maker_data) \<noteq> expected_lock_time
        then Inl (''maker_data.payment_locktime '' @ show_u64 (nd_payment_locktime maker_data) @ '' not equal to expected'')
        else case negotiate_or_fallback (ts_maker_coin s) (nd_maker_coin_swap_contract maker_data) of
          Inl e \<Rightarrow> Inl (''!maker_coin.negotiate_swap_contract_addr '' @ e)
        | Inr maker_addr \<Rightarrow>
          (case negotiate_or_fallback (ts_taker_coin s) (nd_taker_coin_swap_contract maker_data) of
             Inl e \<Rightarrow> Inl (''!taker_coin.negotiate_swap_contract_addr '' @ e)
           | Inr taker_addr \<Rightarrow>
             (case sc_validate_other_pubkey (ts_maker_coin s) (nd_maker_coin_htlc_pub maker_data) of
                Inl e \<Rightarrow> Inl (''!maker_data.maker_coin_htlc_pub '' @ e)
              | Inr _ \<Rightarrow>
                (case sc_validate_other_pubkey (ts_taker_coin s) (nd_taker_coin_htlc_pub maker_data) of
                   Inl e \<Rightarrow> Inl (''!maker_data.taker_coin_htlc_pub '' @ e)
                 | Inr _ \<Rightarrow>
                   if \<not> (length (nd_secret_hash maker_data) = 20 \<or> length (nd_secret_hash maker_data) = 32)
                   then Inl ''!maker_data.secret_hash: secret_hash validation failed''
                   else Inr (maker_addr, taker_addr)))))"

definition taker_negotiate :: "swap_ctx \<Rightarrow> step_answers \<Rightarrow> taker_swap \<Rightarrow> taker_step" where
  "taker_negotiate cx a s =
    (case an_negotiation a of
       Inl e \<Rightarrow> taker_fails [] s (TNegotiateFailed e)
     | Inr maker_data \<Rightarrow>
       (case taker_negotiation_fault s maker_data of
          Inl e \<Rightarrow> taker_fails [] s (TNegotiateFailed e)
        | Inr (maker_addr, taker_addr) \<Rightarrow>
          (let sends = [Broadcasts (NegotiationReply (ts_get_my_negotiation_data s (nd_secret_hash maker_data)
                 (unwrap_or [] maker_addr) (unwrap_or [] taker_addr)))] in
           case an_negotiated a of
             Inl e \<Rightarrow> taker_fails sends s (TNegotiateFailed e)
           | Inr negotiated \<Rightarrow>
             if \<not> negotiated then taker_fails sends s (TNegotiateFailed ''Maker sent negotiated = false'')
             else StepDone sends s (Some TSendTakerFee)
               [TNegotiated \<lparr>mnd_maker_payment_locktime = nd_payment_locktime maker_data,
                  mnd_maker_pubkey = h264_default, mnd_secret_hash = nd_secret_hash maker_data,
                  mnd_maker_coin_swap_contract_addr = maker_addr,
                  mnd_taker_coin_swap_contract_addr = taker_addr,
                  mnd_maker_coin_htlc_pubkey = Some (nd_maker_coin_htlc_pub maker_data),
                  mnd_taker_coin_htlc_pubkey = Some (nd_taker_coin_htlc_pub maker_data)\<rparr>])))"

definition taker_send_taker_fee :: "swap_ctx \<Rightarrow> step_answers \<Rightarrow> taker_swap \<Rightarrow> taker_step" where
  "taker_send_taker_fee cx a s =
    (let expire_at = tsd_started_at (tsd s) + tsd_lock_duration (tsd s) div 3; now = an_now_sec a
     in if expire_at < now
        then taker_fails [] s (TTakerFeeSendFailed (''Timeout '' @ show_u64 now @ '' > '' @ show_u64 expire_at))
        else let fee = dex_fee_new_with_taker_pubkey (ts_taker_coin s) (tsd_maker_coin (tsd s))
               (ts_taker_amount s) (ts_my_taker_coin_htlc_pub s)
          in if fee = NoFee
             then StepDone [] s (Some TWaitForMakerPayment) [TTakerFeeSent empty_tx_ident]
             else case ca_send_taker_fee (an_taker_coin a) fee (ts_uuid s) expire_at of
               Inl err \<Rightarrow> taker_fails [SendsTakerFee fee None] s (TTakerFeeSendFailed (te_get_plain_text_format err))
             | Inr tx \<Rightarrow> StepDone [SendsTakerFee fee (Some tx)] s (Some TWaitForMakerPayment)
                 [TTakerFeeSent (tx_ident_of tx)])"

definition taker_wait_for_maker_payment :: "swap_ctx \<Rightarrow> step_answers \<Rightarrow> taker_swap \<Rightarrow> taker_step" where
  "taker_wait_for_maker_payment cx a s =
    (case ts_get_taker_fee_data a s of
       Panic \<Rightarrow> StepPanics
     | Err e \<Rightarrow> taker_fails [] s (TMakerPaymentValidateFailed e)
     | Ok payment_data_msg \<Rightarrow>
    (let sends = [Broadcasts (TakerFee payment_data_msg)] in
     case an_tx_data a of
       Inl e \<Rightarrow> taker_fails sends s
         (TMakerPaymentValidateFailed (''Error waiting for 'maker-payment' data: '' @ e))
     | Inr payload \<Rightarrow>
    (case (case std_instructions payload of
             None \<Rightarrow> Inr None
           | Some ins \<Rightarrow>
             map_sum id Some (sc_validate_taker_payment_instructions (ts_taker_coin s) ins
               \<lparr>pia_secret_hash = tsm_secret_hash (ts_mut s), pia_amount = ts_taker_amount s,
                pia_maker_lock_duration = 0, pia_expires_in = 0, pia_watcher_reward = False,
                pia_wait_until = 0\<rparr>)) of
       Inl e \<Rightarrow> taker_fails sends s (TMakerPaymentValidateFailed e)
     | Inr instructions \<Rightarrow>
    (case sc_tx_enum_from_bytes (ts_maker_coin s) (std_data payload) of
       Inl e \<Rightarrow> taker_fails sends s
         (TMakerPaymentValidateFailed (''Error parsing the 'maker-payment': '' @ e))
     | Inr payment_tx \<Rightarrow> StepDone sends s (Some TValidateMakerPayment)
         [TTakerPaymentInstructionsReceived instructions,
          TMakerPaymentReceived (tx_ident_of payment_tx), TMakerPaymentWaitConfirmStarted]))))"

definition taker_validate_maker_payment :: "swap_ctx \<Rightarrow> step_answers \<Rightarrow> taker_swap \<Rightarrow> taker_step" where
  "taker_validate_maker_payment cx a s =
    (let d = tsd s; confirmations = tsd_maker_payment_confirmations d in
     case tsm_maker_payment (ts_mut s) of
       None \<Rightarrow> StepPanics
     | Some payment \<Rightarrow>
    (case ca_wait_for_confirmations (an_maker_coin a)
        \<lparr>cpi_payment_tx = ti_tx_hex payment, cpi_confirmations = confirmations,
         cpi_requires_nota = unwrap_or False (tsd_maker_payment_requires_nota d),
         cpi_wait_until = tsd_maker_payment_wait d, cpi_check_every = WAIT_CONFIRM_INTERVAL_SEC\<rparr> of
       Inl e \<Rightarrow> taker_fails [] s
         (TMakerPaymentWaitConfirmFailed (''!wait for maker payment confirmations: '' @ e))
     | Inr _ \<Rightarrow>
    (case (if tsm_watcher_reward (ts_mut s)
           then ca_maker_watcher_reward (an_maker_coin a) (ts_watcher_reward_amount s) (tsd_maker_payment_wait d)
           else Inr None) of
       Inl e \<Rightarrow> taker_fails [] s (TTakerPaymentTransactionFailed e)
     | Inr reward \<Rightarrow>
    (case ca_validate_payment (an_maker_coin a)
        \<lparr>vpi_payment_tx = ti_tx_hex payment, vpi_time_lock_duration = tsd_lock_duration d,
         vpi_time_lock = ts_maker_payment_lock s,
         vpi_other_pub = tsm_other_maker_coin_htlc_pub (ts_mut s),
         vpi_secret_hash = tsm_secret_hash (ts_mut s), vpi_amount = ts_maker_amount s,
         vpi_swap_contract_address = tsd_maker_coin_swap_contract_address d,
         vpi_try_spv_proof_until = tsd_maker_payment_wait d, vpi_confirmations = confirmations,
         vpi_unique_swap_data = ts_unique_swap_data s, vpi_watcher_reward = reward\<rparr> of
       Inl e \<Rightarrow> taker_fails [] s (TMakerPaymentValidateFailed (''!validate maker payment: '' @ e))
     | Inr _ \<Rightarrow> StepDone [] s (Some TSendTakerPayment) [TMakerPaymentValidatedAndConfirmed]))))"

text \<open>\<open>create_watcher_data\<close>: it unwraps the taker fee and the maker payment.\<close>

definition ts_create_watcher_data ::
    "taker_swap \<Rightarrow> bytes \<Rightarrow> bytes \<Rightarrow> bytes \<Rightarrow> taker_swap_watcher_data option" where
  "ts_create_watcher_data s taker_payment_hash spend_preimage refund_preimage =
    (let m = ts_mut s; d = tsd s in
     case (tsm_taker_fee m, tsm_maker_payment m) of
       (Some fee, Some payment) \<Rightarrow>
         Some \<lparr>wd_uuid = ts_uuid s, wd_secret_hash = tsm_secret_hash m,
           wd_taker_payment_hash = taker_payment_hash, wd_maker_payment_spend_preimage = spend_preimage,
           wd_taker_payment_refund_preimage = refund_preimage, wd_swap_started_at = tsd_started_at d,
           wd_lock_duration = tsd_lock_duration d, wd_taker_coin = tsd_taker_coin d,
           wd_taker_fee_hash = ti_tx_hash fee, wd_taker_coin_start_block = tsd_taker_coin_start_block d,
           wd_taker_payment_confirmations = tsd_taker_payment_confirmations d,
           wd_taker_payment_requires_nota = tsd_taker_payment_requires_nota d,
           wd_maker_coin = tsd_maker_coin d, wd_maker_pub = tsm_other_maker_coin_htlc_pub m,
           wd_maker_payment_hash = ti_tx_hash payment,
           wd_maker_coin_start_block = tsd_maker_coin_start_block d\<rparr>
     | _ \<Rightarrow> None)"

definition ts_setup_watcher_reward ::
    "step_answers \<Rightarrow> taker_swap \<Rightarrow> u64 \<Rightarrow> string + watcher_reward option" where
  "ts_setup_watcher_reward a s taker_payment_lock =
    (if \<not> tsm_watcher_reward (ts_mut s) then Inr None
     else map_sum (\<lambda>err. ''Watcher reward error: '' @ err) Some
       (ca_taker_watcher_reward (an_taker_coin a) (ts_taker_amount s) (ts_maker_amount s)
         (ts_watcher_reward_amount s) taker_payment_lock))"

definition watchers_usable :: "swap_ctx \<Rightarrow> taker_swap \<Rightarrow> bool" where
  "watchers_usable cx s = (\<not> sx_disable_watchers_globally cx
     \<and> sc_is_supported_by_watchers (ts_taker_coin s) \<and> sc_is_supported_by_watchers (ts_maker_coin s))"

text \<open>
  \<open>process_watcher_logic\<close>: both preimages are made and the watchers are told, or neither. The maker
  payment is unwrapped before the preimages are asked for: \<open>None\<close> is that panic.
\<close>

definition ts_process_watcher_logic ::
    "swap_ctx \<Rightarrow> step_answers \<Rightarrow> taker_swap \<Rightarrow> transaction_enum \<Rightarrow> (swap_act list \<times> taker_swap_event list) option" where
  "ts_process_watcher_logic cx a s tx =
    (if \<not> watchers_usable cx s then Some ([], [])
     else case tsm_maker_payment (ts_mut s) of
       None \<Rightarrow> None
     | Some payment \<Rightarrow>
       (case (ca_create_spend_preimage (an_maker_coin a) (ti_tx_hex payment) (ts_maker_payment_lock s)
                (tsm_other_maker_coin_htlc_pub (ts_mut s)) (tsm_secret_hash (ts_mut s)) (ts_unique_swap_data s),
              ca_create_refund_preimage (an_taker_coin a) (te_tx_hex tx) (tsd_taker_payment_lock (tsd s))
                (tsm_other_taker_coin_htlc_pub (ts_mut s)) (tsm_secret_hash (ts_mut s))
                (tsd_taker_coin_swap_contract_address (tsd s)) (ts_unique_swap_data s)) of
          (Inr spend, Inr refund) \<Rightarrow>
            (case ts_create_watcher_data s (te_tx_hash tx) (te_tx_hex spend) (te_tx_hex refund) of
               None \<Rightarrow> None
             | Some data \<Rightarrow> Some ([BroadcastsWatcherData data],
                 [TWatcherMessageSent (Some (te_tx_hex spend)) (Some (te_tx_hex refund))]))
        | _ \<Rightarrow> Some ([], [])))"

definition ts_payment_search :: "taker_swap \<Rightarrow> check_if_my_payment_sent_args" where
  "ts_payment_search s =
    \<lparr>cps_time_lock = tsd_taker_payment_lock (tsd s),
     cps_other_pub = tsm_other_taker_coin_htlc_pub (ts_mut s),
     cps_secret_hash = tsm_secret_hash (ts_mut s),
     cps_search_from_block = tsd_taker_coin_start_block (tsd s),
     cps_swap_contract_address = tsd_taker_coin_swap_contract_address (tsd s),
     cps_swap_unique_data = ts_unique_swap_data s,
     cps_amount = ts_taker_amount s,
     cps_payment_instructions = tsm_payment_instructions (ts_mut s)\<rparr>"

text \<open>The end of \<open>send_taker_payment\<close>, for a payment found or sent.\<close>

definition ts_payment_is_sent ::
    "swap_ctx \<Rightarrow> step_answers \<Rightarrow> swap_act list \<Rightarrow> taker_swap \<Rightarrow> transaction_enum \<Rightarrow> taker_step" where
  "ts_payment_is_sent cx a acts s tx = (case ts_process_watcher_logic cx a s tx of
      None \<Rightarrow> StepPanics
    | Some (watcher_acts, watcher_events) \<Rightarrow>
        StepDone (acts @ watcher_acts) s (Some TWaitForTakerPaymentSpend)
          (TTakerPaymentSent (tx_ident_of tx) # watcher_events))"

definition taker_send_payment :: "swap_ctx \<Rightarrow> step_answers \<Rightarrow> taker_swap \<Rightarrow> taker_step" where
  "taker_send_payment cx a s =
    (let d = tsd s in
     case ca_check_if_my_payment_sent (an_taker_coin a) (ts_payment_search s) of
       Inl e \<Rightarrow> taker_fails [] s (TTakerPaymentTransactionFailed e)
     | Inr existing \<Rightarrow>
    (let timeout = tsd_maker_payment_wait d; now = an_now_sec a
     in if existing = None \<and> timeout < now
        then taker_fails [] s (TTakerPaymentTransactionFailed
          (''Timeout '' @ show_u64 now @ '' > '' @ show_u64 timeout))
        else case ts_setup_watcher_reward a s (tsd_taker_payment_lock d) of
          Inl e \<Rightarrow> taker_fails [] s (TTakerPaymentTransactionFailed e)
        | Inr reward \<Rightarrow>
    (case existing of
       Some tx \<Rightarrow> ts_payment_is_sent cx a [] s tx
     | None \<Rightarrow>
       let args = \<lparr>spa_time_lock_duration = tsd_lock_duration d,
             spa_time_lock = tsd_taker_payment_lock d,
             spa_other_pubkey = tsm_other_taker_coin_htlc_pub (ts_mut s),
             spa_secret_hash = tsm_secret_hash (ts_mut s), spa_amount = ts_taker_amount s,
             spa_swap_contract_address = tsd_taker_coin_swap_contract_address d,
             spa_swap_unique_data = ts_unique_swap_data s,
             spa_payment_instructions = tsm_payment_instructions (ts_mut s),
             spa_watcher_reward = reward, spa_wait_for_confirmation_until = tsd_taker_payment_lock d\<rparr>;
           sent = ca_send_payment (an_taker_coin a) args
       in case sent of
         Inl err \<Rightarrow> taker_fails [SendsPayment args None] s
           (TTakerPaymentTransactionFailed (te_get_plain_text_format err))
       | Inr tx \<Rightarrow> ts_payment_is_sent cx a [SendsPayment args (Some tx)] s tx)))"

definition taker_wait_for_taker_payment_spend :: "swap_ctx \<Rightarrow> step_answers \<Rightarrow> taker_swap \<Rightarrow> taker_step" where
  "taker_wait_for_taker_payment_spend cx a s =
    (let d = tsd s; m = ts_mut s in
     case tsm_taker_payment m of
       None \<Rightarrow> StepPanics
     | Some payment \<Rightarrow>
    (case (if watchers_usable cx s
           then case (tsm_maker_payment_spend_preimage m, tsm_taker_payment_refund_preimage m) of
               (Some spend, Some refund) \<Rightarrow>
                 map_option (\<lambda>data. [BroadcastsWatcherData data])
                   (ts_create_watcher_data s (ti_tx_hash payment) spend refund)
             | _ \<Rightarrow> Some []
           else Some []) of
       None \<Rightarrow> StepPanics
     | Some watcher_acts \<Rightarrow>
    (let sends = watcher_acts @ [Broadcasts (TakerPayment (ti_tx_hex payment))] in
     case ca_wait_for_htlc_tx_spend (an_taker_coin a)
        \<lparr>wht_tx_bytes = ti_tx_hex payment, wht_secret_hash = tsm_secret_hash m,
         wht_wait_until = tsd_taker_payment_lock d, wht_from_block = tsd_taker_coin_start_block d,
         wht_swap_contract_address = tsd_taker_coin_swap_contract_address d,
         wht_watcher_reward = tsm_watcher_reward m\<rparr> of
       Inl err \<Rightarrow> taker_to_refund sends s (TTakerPaymentWaitForSpendFailed (te_get_plain_text_format err))
     | Inr tx \<Rightarrow>
    (case ca_extract_secret (an_taker_coin a) (tsm_secret_hash m) (te_tx_hex tx) of
       Inl e \<Rightarrow> taker_fails sends s (TTakerPaymentWaitForSpendFailed e)
     | Inr secret \<Rightarrow> StepDone sends s (Some TSpendMakerPayment)
         [TTakerPaymentSpent \<lparr>tps_transaction = tx_ident_of tx, tps_secret = secret\<rparr>]))))"

definition taker_spend_maker_payment :: "swap_ctx \<Rightarrow> step_answers \<Rightarrow> taker_swap \<Rightarrow> taker_step" where
  "taker_spend_maker_payment cx a s =
    (case tsm_maker_payment (ts_mut s) of
       None \<Rightarrow> StepPanics
     | Some payment \<Rightarrow>
    (let m = ts_mut s;
         args = \<lparr>spe_other_payment_tx = ti_tx_hex payment, spe_time_lock = ts_maker_payment_lock s,
           spe_other_pubkey = tsm_other_maker_coin_htlc_pub m, spe_secret = h256_bytes (tsm_secret m),
           spe_secret_hash = tsm_secret_hash m,
           spe_swap_contract_address = tsd_maker_coin_swap_contract_address (tsd s),
           spe_swap_unique_data = ts_unique_swap_data s, spe_watcher_reward = tsm_watcher_reward m\<rparr>
     in case ca_spend_payment (an_maker_coin a) args of
       Inl err \<Rightarrow> taker_fails
         (SpendsPayment args None # broadcast_err_tx (coin_ticker (ts_maker_coin s)) err) s
         (TMakerPaymentSpendFailed (te_get_plain_text_format err))
     | Inr tx \<Rightarrow> StepDone
         (SpendsPayment args (Some tx) # broadcast_tx (coin_ticker (ts_maker_coin s)) tx) s
         (Some TConfirmMakerPaymentSpend) [TMakerPaymentSpent (tx_ident_of tx)]))"

definition taker_confirm_maker_payment_spend :: "swap_ctx \<Rightarrow> step_answers \<Rightarrow> taker_swap \<Rightarrow> taker_step" where
  "taker_confirm_maker_payment_spend cx a s =
    (case tsm_maker_payment_spend (ts_mut s) of
       None \<Rightarrow> StepPanics
     | Some spend \<Rightarrow>
    (case ca_wait_for_confirmations (an_maker_coin a)
        \<lparr>cpi_payment_tx = ti_tx_hex spend, cpi_confirmations = tsd_maker_payment_confirmations (tsd s),
         cpi_requires_nota = False, cpi_wait_until = ts_wait_refund_until s,
         cpi_check_every = WAIT_CONFIRM_INTERVAL_SEC\<rparr> of
       Inl e \<Rightarrow> taker_to_refund [] s
         (TMakerPaymentSpendConfirmFailed (''!wait for maker payment spend confirmations: '' @ e))
     | Inr _ \<Rightarrow> StepDone [] s (Some TFinish) [TMakerPaymentSpendConfirmed]))"

definition taker_prepare_for_refund :: "swap_ctx \<Rightarrow> step_answers \<Rightarrow> taker_swap \<Rightarrow> taker_step" where
  "taker_prepare_for_refund cx a s = (case tsm_maker_payment (ts_mut s) of
      None \<Rightarrow> StepPanics
    | Some payment \<Rightarrow> StepDone [NotesRefundStart (ti_tx_hex payment)] s (Some TRefundTakerPayment)
        [TTakerPaymentRefundStarted])"

definition taker_refund :: "swap_ctx \<Rightarrow> step_answers \<Rightarrow> taker_swap \<Rightarrow> taker_step" where
  "taker_refund cx a s =
    (case tsm_taker_payment (ts_mut s) of
       None \<Rightarrow> StepPanics
     | Some payment \<Rightarrow>
    (let locktime = tsd_taker_payment_lock (tsd s) in
     if sc_is_auto_refundable (ts_taker_coin s)
     then case ca_wait_for_htlc_refund (an_taker_coin a) (ti_tx_hex payment) locktime of
         Inr _ \<Rightarrow> StepDone [] s (Some TFinalizeTakerPaymentRefund) [TTakerPaymentRefunded None]
       | Inl e \<Rightarrow> taker_fails [] s (TTakerPaymentRefundFailed (''!taker_coin.wait_for_htlc_refund: '' @ e))
     else if \<not> can_refund_loop (ca_can_refund_htlc (an_taker_coin a)) then StepWaits
     else let args = \<lparr>rpa_payment_tx = ti_tx_hex payment, rpa_time_lock = locktime,
            rpa_other_pubkey = tsm_other_taker_coin_htlc_pub (ts_mut s),
            rpa_maker_secret_hash = tsm_secret_hash (ts_mut s),
            rpa_swap_contract_address = tsd_taker_coin_swap_contract_address (tsd s),
            rpa_swap_unique_data = ts_unique_swap_data s,
            rpa_watcher_reward = tsm_watcher_reward (ts_mut s)\<rparr>
       in case ca_refund_payment (an_taker_coin a) args of
         Inl err \<Rightarrow> taker_fails
           (RefundsPayment args None # broadcast_err_tx (coin_ticker (ts_taker_coin s)) err) s
           (TTakerPaymentRefundFailed (te_get_plain_text_format err))
       | Inr tx \<Rightarrow> StepDone
           (RefundsPayment args (Some tx) # broadcast_tx (coin_ticker (ts_taker_coin s)) tx) s
           (Some TFinalizeTakerPaymentRefund) [TTakerPaymentRefunded (Some (tx_ident_of tx))]))"

definition taker_finalize_refund :: "swap_ctx \<Rightarrow> step_answers \<Rightarrow> taker_swap \<Rightarrow> taker_step" where
  "taker_finalize_refund cx a s = (case tsm_maker_payment (ts_mut s) of
      None \<Rightarrow> StepPanics
    | Some payment \<Rightarrow> StepDone [NotesRefundSuccess (ti_tx_hex payment)] s (Some TFinish)
        [TTakerPaymentRefundFinished])"

fun taker_handle_command :: "swap_ctx \<Rightarrow> step_answers \<Rightarrow> taker_swap_command \<Rightarrow> taker_swap \<Rightarrow> taker_step" where
  "taker_handle_command cx a TStart s = taker_start cx a s"
| "taker_handle_command cx a TNegotiate s = taker_negotiate cx a s"
| "taker_handle_command cx a TSendTakerFee s = taker_send_taker_fee cx a s"
| "taker_handle_command cx a TWaitForMakerPayment s = taker_wait_for_maker_payment cx a s"
| "taker_handle_command cx a TValidateMakerPayment s = taker_validate_maker_payment cx a s"
| "taker_handle_command cx a TSendTakerPayment s = taker_send_payment cx a s"
| "taker_handle_command cx a TWaitForTakerPaymentSpend s = taker_wait_for_taker_payment_spend cx a s"
| "taker_handle_command cx a TSpendMakerPayment s = taker_spend_maker_payment cx a s"
| "taker_handle_command cx a TConfirmMakerPaymentSpend s = taker_confirm_maker_payment_spend cx a s"
| "taker_handle_command cx a TPrepareForTakerPaymentRefund s = taker_prepare_for_refund cx a s"
| "taker_handle_command cx a TRefundTakerPayment s = taker_refund cx a s"
| "taker_handle_command cx a TFinalizeTakerPaymentRefund s = taker_finalize_refund cx a s"
| "taker_handle_command cx a TFinish s = StepDone [] s None [TFinished]"

end
