(* ===== verification/Saved_Swap.thy ===== *)
theory Saved_Swap
  imports Taker_Swap
begin

text \<open>
  The saved form of the legacy swaps: the list of their events with a header (\<open>MakerSavedSwap\<close> of
  \<open>maker_swap.rs\<close>, \<open>TakerSavedSwap\<close> of \<open>taker_swap.rs\<close>, \<open>SavedSwap\<close> of \<open>saved_swap.rs\<close>), what is read
  off the events, how an event is saved, how a swap is rebuilt from them, and how a taker that comes
  back finds out what the maker and the watchers did meanwhile (\<open>taker_restart.rs\<close>).

  The files are a map from the uuid of the swap; reading and writing one can fail (\<open>saved_io\<close>).
\<close>

section \<open>The saved swaps\<close>

record maker_saved_event =
  mse_timestamp :: u64
  mse_event :: maker_swap_event

record maker_saved_swap =
  mss_uuid :: uuid
  mss_my_order_uuid :: "uuid option"
  mss_events :: "maker_saved_event list"
  mss_maker_amount :: "mm_number option"
  mss_maker_coin :: "string option"
  mss_maker_coin_usd_price :: "mm_number option"
  mss_taker_amount :: "mm_number option"
  mss_taker_coin :: "string option"
  mss_taker_coin_usd_price :: "mm_number option"
  mss_gui :: "string option"
  mss_mm_version :: "string option"
  mss_success_events :: "string list"
  mss_error_events :: "string list"

record taker_saved_event =
  tse_timestamp :: u64
  tse_event :: taker_swap_event

record taker_saved_swap =
  tss_uuid :: uuid
  tss_my_order_uuid :: "uuid option"
  tss_events :: "taker_saved_event list"
  tss_maker_amount :: "mm_number option"
  tss_maker_coin :: "string option"
  tss_maker_coin_usd_price :: "mm_number option"
  tss_taker_amount :: "mm_number option"
  tss_taker_coin :: "string option"
  tss_taker_coin_usd_price :: "mm_number option"
  tss_gui :: "string option"
  tss_mm_version :: "string option"
  tss_success_events :: "string list"
  tss_error_events :: "string list"

datatype saved_swap = SavedMaker maker_saved_swap | SavedTaker taker_saved_swap

type_synonym swap_files = "uuid \<rightharpoonup> saved_swap"

text \<open>What reading, writing and asking for the prices of a finished swap gave.\<close>

record saved_io =
  io_read_error :: "string option"
  io_write_error :: "string option"
  io_usd_prices :: "(mm_number \<times> mm_number) option"

definition MAKER_SUCCESS_EVENTS :: "string list" where
  "MAKER_SUCCESS_EVENTS = [''Started'', ''Negotiated'', ''MakerPaymentInstructionsReceived'',
     ''TakerFeeValidated'', ''MakerPaymentSent'', ''TakerPaymentReceived'',
     ''TakerPaymentWaitConfirmStarted'', ''TakerPaymentValidatedAndConfirmed'', ''TakerPaymentSpent'',
     ''TakerPaymentSpendConfirmStarted'', ''TakerPaymentSpendConfirmed'', ''Finished'']"

definition MAKER_ERROR_EVENTS :: "string list" where
  "MAKER_ERROR_EVENTS = [''StartFailed'', ''NegotiateFailed'', ''TakerFeeValidateFailed'',
     ''MakerPaymentTransactionFailed'', ''MakerPaymentDataSendFailed'', ''MakerPaymentWaitConfirmFailed'',
     ''TakerPaymentValidateFailed'', ''TakerPaymentWaitConfirmFailed'', ''TakerPaymentSpendFailed'',
     ''TakerPaymentSpendConfirmFailed'', ''MakerPaymentWaitRefundStarted'', ''MakerPaymentRefundStarted'',
     ''MakerPaymentRefunded'', ''MakerPaymentRefundFailed'', ''MakerPaymentRefundFinished'']"

definition TAKER_SUCCESS_EVENTS :: "string list" where
  "TAKER_SUCCESS_EVENTS = [''Started'', ''Negotiated'', ''TakerFeeSent'',
     ''TakerPaymentInstructionsReceived'', ''MakerPaymentReceived'', ''MakerPaymentWaitConfirmStarted'',
     ''MakerPaymentValidatedAndConfirmed'', ''TakerPaymentSent'', ''TakerPaymentSpent'',
     ''MakerPaymentSpent'', ''MakerPaymentSpendConfirmed'', ''Finished'']"

definition TAKER_USING_WATCHERS_SUCCESS_EVENTS :: "string list" where
  "TAKER_USING_WATCHERS_SUCCESS_EVENTS = [''Started'', ''Negotiated'', ''TakerFeeSent'',
     ''TakerPaymentInstructionsReceived'', ''MakerPaymentReceived'', ''MakerPaymentWaitConfirmStarted'',
     ''MakerPaymentValidatedAndConfirmed'', ''TakerPaymentSent'', ''WatcherMessageSent'',
     ''TakerPaymentSpent'', ''MakerPaymentSpent'', ''MakerPaymentSpentByWatcher'',
     ''MakerPaymentSpendConfirmed'', ''Finished'']"

definition TAKER_ERROR_EVENTS :: "string list" where
  "TAKER_ERROR_EVENTS = [''StartFailed'', ''NegotiateFailed'', ''TakerFeeSendFailed'',
     ''MakerPaymentValidateFailed'', ''MakerPaymentWaitConfirmFailed'', ''TakerPaymentTransactionFailed'',
     ''TakerPaymentWaitConfirmFailed'', ''TakerPaymentDataSendFailed'', ''TakerPaymentWaitForSpendFailed'',
     ''MakerPaymentSpendFailed'', ''MakerPaymentSpendConfirmFailed'', ''TakerPaymentWaitRefundStarted'',
     ''TakerPaymentRefundStarted'', ''TakerPaymentRefunded'', ''TakerPaymentRefundedByWatcher'',
     ''TakerPaymentRefundFailed'', ''TakerPaymentRefundFinished'']"

section \<open>What the events tell\<close>

abbreviation maker_log :: "maker_saved_swap \<Rightarrow> maker_swap_event list" where
  "maker_log sw \<equiv> map mse_event (mss_events sw)"

abbreviation taker_log :: "taker_saved_swap \<Rightarrow> taker_swap_event list" where
  "taker_log sw \<equiv> map tse_event (tss_events sw)"

definition last_event :: "'e list \<Rightarrow> 'e option" where
  "last_event es = (if es = [] then None else Some (last es))"

definition mss_is_finished :: "maker_saved_swap \<Rightarrow> bool" where
  "mss_is_finished sw = (case last_event (maker_log sw) of Some e \<Rightarrow> e = MFinished | None \<Rightarrow> False)"

definition tss_is_finished :: "taker_saved_swap \<Rightarrow> bool" where
  "tss_is_finished sw = (case last_event (taker_log sw) of Some e \<Rightarrow> e = TFinished | None \<Rightarrow> False)"

fun maker_not_recoverable_event :: "maker_swap_event \<Rightarrow> bool" where
  "maker_not_recoverable_event (MStartFailed _) = True"
| "maker_not_recoverable_event (MNegotiateFailed _) = True"
| "maker_not_recoverable_event (MTakerFeeValidateFailed _) = True"
| "maker_not_recoverable_event MTakerPaymentSpendConfirmed = True"
| "maker_not_recoverable_event (MMakerPaymentRefunded _) = True"
| "maker_not_recoverable_event _ = False"

definition mss_is_recoverable :: "maker_saved_swap \<Rightarrow> bool" where
  "mss_is_recoverable sw = (mss_is_finished sw \<and> \<not> list_ex maker_not_recoverable_event (maker_log sw))"

fun taker_not_recoverable_event :: "taker_swap_event \<Rightarrow> bool" where
  "taker_not_recoverable_event (TStartFailed _) = True"
| "taker_not_recoverable_event (TNegotiateFailed _) = True"
| "taker_not_recoverable_event (TTakerFeeSendFailed _) = True"
| "taker_not_recoverable_event (TMakerPaymentValidateFailed _) = True"
| "taker_not_recoverable_event (TTakerPaymentRefunded _) = True"
| "taker_not_recoverable_event (TTakerPaymentRefundedByWatcher _) = True"
| "taker_not_recoverable_event TMakerPaymentSpendConfirmed = True"
| "taker_not_recoverable_event (TMakerPaymentWaitConfirmFailed _) = True"
| "taker_not_recoverable_event _ = False"

fun is_maker_payment_spent :: "taker_swap_event \<Rightarrow> bool" where
  "is_maker_payment_spent (TMakerPaymentSpent _) = True"
| "is_maker_payment_spent (TMakerPaymentSpentByWatcher _) = True"
| "is_maker_payment_spent _ = False"

fun is_maker_payment_spend_confirm_failed :: "taker_swap_event \<Rightarrow> bool" where
  "is_maker_payment_spend_confirm_failed (TMakerPaymentSpendConfirmFailed _) = True"
| "is_maker_payment_spend_confirm_failed _ = False"

text \<open>The loop over the events returns early on an event that rules recovery out, and otherwise
  collects three flags, of which two are only used together.\<close>

definition tss_is_recoverable :: "taker_saved_swap \<Rightarrow> bool" where
  "tss_is_recoverable sw = (tss_is_finished sw
     \<and> \<not> list_ex taker_not_recoverable_event (taker_log sw)
     \<and> (list_ex is_maker_payment_spend_confirm_failed (taker_log sw)
        \<or> \<not> list_ex is_maker_payment_spent (taker_log sw)))"

definition mss_is_success :: "maker_saved_swap \<Rightarrow> string + bool" where
  "mss_is_success sw =
    (if \<not> mss_is_finished sw then Inl ''Can not determine is_success state for not finished swap''
     else Inr (\<not> list_ex maker_event_is_error (maker_log sw)))"

definition tss_is_success :: "taker_saved_swap \<Rightarrow> string + bool" where
  "tss_is_success sw =
    (if \<not> tss_is_finished sw then Inl ''Can not determine is_success state for not finished swap''
     else Inr (\<not> list_ex taker_event_is_error (taker_log sw)))"

fun is_watcher_message_sent :: "taker_swap_event \<Rightarrow> bool" where
  "is_watcher_message_sent (TWatcherMessageSent _ _) = True"
| "is_watcher_message_sent _ = False"

definition tss_watcher_message_sent :: "taker_saved_swap \<Rightarrow> bool" where
  "tss_watcher_message_sent sw = list_ex is_watcher_message_sent (taker_log sw)"

text \<open>The data of the first event, which \<open>swap_data\<close>, \<open>maker_coin\<close>, \<open>taker_coin\<close> and the public key are read
  from; the errors differ in their texts only.\<close>

definition mss_swap_data :: "maker_saved_swap \<Rightarrow> string + maker_swap_data" where
  "mss_swap_data sw = (case mss_events sw of
      [] \<Rightarrow> Inl ''Can't get swap_data, events are empty''
    | e # _ \<Rightarrow> (case mse_event e of
         MStarted data \<Rightarrow> Inr data
       | _ \<Rightarrow> Inl ''First swap event must be Started''))"

definition tss_swap_data :: "taker_saved_swap \<Rightarrow> string + taker_swap_data" where
  "tss_swap_data sw = (case tss_events sw of
      [] \<Rightarrow> Inl ''Can't get swap_data, events are empty''
    | e # _ \<Rightarrow> (case tse_event e of
         TStarted data \<Rightarrow> Inr data
       | _ \<Rightarrow> Inl ''First swap event must be Started''))"

definition coin_ticker_error :: "string \<Rightarrow> string" where
  "coin_ticker_error e = (if e = ''First swap event must be Started'' then e
     else ''Can't get maker coin, events are empty'')"

definition mss_maker_ticker :: "maker_saved_swap \<Rightarrow> string + string" where
  "mss_maker_ticker sw = map_sum coin_ticker_error msd_maker_coin (mss_swap_data sw)"

definition mss_taker_ticker :: "maker_saved_swap \<Rightarrow> string + string" where
  "mss_taker_ticker sw = map_sum coin_ticker_error msd_taker_coin (mss_swap_data sw)"

definition tss_maker_ticker :: "taker_saved_swap \<Rightarrow> string + string" where
  "tss_maker_ticker sw = map_sum coin_ticker_error tsd_maker_coin (tss_swap_data sw)"

definition tss_taker_ticker :: "taker_saved_swap \<Rightarrow> string + string" where
  "tss_taker_ticker sw = map_sum coin_ticker_error tsd_taker_coin (tss_swap_data sw)"

definition mss_finished_at :: "maker_saved_swap \<Rightarrow> string + u64" where
  "mss_finished_at sw = (case last_event (mss_events sw) of
      None \<Rightarrow> Inl ''Can't get finished_at, events are empty''
    | Some e \<Rightarrow> if mse_event e = MFinished then Inr (mse_timestamp e div 1000)
        else Inl ''Last swap event must be Finished'')"

definition tss_finished_at :: "taker_saved_swap \<Rightarrow> string + u64" where
  "tss_finished_at sw = (case last_event (tss_events sw) of
      None \<Rightarrow> Inl ''Can't get finished_at, events are empty''
    | Some e \<Rightarrow> if tse_event e = TFinished then Inr (tse_timestamp e div 1000)
        else Inl ''Last swap event must be Finished'')"

record my_swap_info =
  msi_my_coin :: string
  msi_other_coin :: string
  msi_my_amount :: mm_number
  msi_other_amount :: mm_number
  msi_started_at :: u64

definition mss_get_my_info :: "maker_saved_swap \<Rightarrow> my_swap_info option" where
  "mss_get_my_info sw = (case mss_swap_data sw of
      Inr data \<Rightarrow> Some \<lparr>msi_my_coin = msd_maker_coin data, msi_other_coin = msd_taker_coin data,
         msi_my_amount = msd_maker_amount data, msi_other_amount = msd_taker_amount data,
         msi_started_at = msd_started_at data\<rparr>
    | Inl _ \<Rightarrow> None)"

definition tss_get_my_info :: "taker_saved_swap \<Rightarrow> my_swap_info option" where
  "tss_get_my_info sw = (case tss_swap_data sw of
      Inr data \<Rightarrow> Some \<lparr>msi_my_coin = tsd_taker_coin data, msi_other_coin = tsd_maker_coin data,
         msi_my_amount = tsd_taker_amount data, msi_other_amount = tsd_maker_amount data,
         msi_started_at = tsd_started_at data\<rparr>
    | Inl _ \<Rightarrow> None)"

fun ss_is_finished :: "saved_swap \<Rightarrow> bool" where
  "ss_is_finished (SavedMaker sw) = mss_is_finished sw"
| "ss_is_finished (SavedTaker sw) = tss_is_finished sw"

fun ss_is_success :: "saved_swap \<Rightarrow> string + bool" where
  "ss_is_success (SavedMaker sw) = mss_is_success sw"
| "ss_is_success (SavedTaker sw) = tss_is_success sw"

fun ss_is_recoverable :: "saved_swap \<Rightarrow> bool" where
  "ss_is_recoverable (SavedMaker sw) = mss_is_recoverable sw"
| "ss_is_recoverable (SavedTaker sw) = tss_is_recoverable sw"

fun ss_uuid :: "saved_swap \<Rightarrow> uuid" where
  "ss_uuid (SavedMaker sw) = mss_uuid sw"
| "ss_uuid (SavedTaker sw) = tss_uuid sw"

fun ss_maker_coin_ticker :: "saved_swap \<Rightarrow> string + string" where
  "ss_maker_coin_ticker (SavedMaker sw) = mss_maker_ticker sw"
| "ss_maker_coin_ticker (SavedTaker sw) = tss_maker_ticker sw"

fun ss_taker_coin_ticker :: "saved_swap \<Rightarrow> string + string" where
  "ss_taker_coin_ticker (SavedMaker sw) = mss_taker_ticker sw"
| "ss_taker_coin_ticker (SavedTaker sw) = tss_taker_ticker sw"

fun ss_get_my_info :: "saved_swap \<Rightarrow> my_swap_info option" where
  "ss_get_my_info (SavedMaker sw) = mss_get_my_info sw"
| "ss_get_my_info (SavedTaker sw) = tss_get_my_info sw"

text \<open>What is taken out of a swap before its status is published.\<close>

definition maker_hide_data :: "maker_swap_data \<Rightarrow> maker_swap_data" where
  "maker_hide_data d =
    (let d1 = d\<lparr>msd_secret := 0, msd_taker_pubkey := 0\<rparr>;
         d2 = (if msd_p2p_privkey d1 \<noteq> None then d1\<lparr>msd_my_persistent_pub := h264_default\<rparr> else d1)
     in d2\<lparr>msd_p2p_privkey := None\<rparr>)"

definition taker_hide_data :: "taker_swap_data \<Rightarrow> taker_swap_data" where
  "taker_hide_data d =
    (let d1 = d\<lparr>tsd_maker_pubkey := 0\<rparr>;
         d2 = (if tsd_p2p_privkey d1 \<noteq> None then d1\<lparr>tsd_my_persistent_pub := h264_default\<rparr> else d1)
     in d2\<lparr>tsd_p2p_privkey := None\<rparr>)"

fun upd_hd :: "('a \<Rightarrow> 'a) \<Rightarrow> 'a list \<Rightarrow> 'a list" where
  "upd_hd f [] = []"
| "upd_hd f (x # xs) = f x # xs"

fun maker_hide_event :: "maker_swap_event \<Rightarrow> maker_swap_event" where
  "maker_hide_event (MStarted d) = MStarted (maker_hide_data d)"
| "maker_hide_event e = e"

fun taker_hide_event :: "taker_swap_event \<Rightarrow> taker_swap_event" where
  "taker_hide_event (TStarted d) = TStarted (taker_hide_data d)"
| "taker_hide_event e = e"

fun ss_hide_secrets :: "saved_swap \<Rightarrow> saved_swap" where
  "ss_hide_secrets (SavedMaker sw) =
     SavedMaker (sw\<lparr>mss_events := upd_hd (\<lambda>e. e\<lparr>mse_event := maker_hide_event (mse_event e)\<rparr>) (mss_events sw)\<rparr>)"
| "ss_hide_secrets (SavedTaker sw) =
     SavedTaker (sw\<lparr>tss_events := upd_hd (\<lambda>e. e\<lparr>tse_event := taker_hide_event (tse_event e)\<rparr>) (tss_events sw)\<rparr>)"

section \<open>Saving an event\<close>

definition load_my_swap :: "saved_io \<Rightarrow> swap_files \<Rightarrow> uuid \<Rightarrow> string + saved_swap option" where
  "load_my_swap io files u = (case io_read_error io of Some e \<Rightarrow> Inl e | None \<Rightarrow> Inr (files u))"

definition save_my_swap :: "saved_io \<Rightarrow> saved_swap \<Rightarrow> swap_files \<Rightarrow> string + swap_files" where
  "save_my_swap io sw files = (case io_write_error io of
      Some e \<Rightarrow> Inl e | None \<Rightarrow> Inr (files(ss_uuid sw \<mapsto> sw)))"

definition maker_saved_new :: "swap_ctx \<Rightarrow> maker_swap \<Rightarrow> maker_saved_swap" where
  "maker_saved_new cx s = \<lparr>mss_uuid = ms_uuid s, mss_my_order_uuid = ms_my_order_uuid s, mss_events = [],
     mss_maker_amount = Some (ms_maker_amount s), mss_maker_coin = Some (coin_ticker (ms_maker_coin s)),
     mss_maker_coin_usd_price = None, mss_taker_amount = Some (ms_taker_amount s),
     mss_taker_coin = Some (coin_ticker (ms_taker_coin s)), mss_taker_coin_usd_price = None,
     mss_gui = sx_gui cx, mss_mm_version = Some (sx_mm_version cx),
     mss_success_events = MAKER_SUCCESS_EVENTS, mss_error_events = MAKER_ERROR_EVENTS\<rparr>"

definition taker_saved_new :: "swap_ctx \<Rightarrow> taker_swap \<Rightarrow> taker_saved_swap" where
  "taker_saved_new cx s = \<lparr>tss_uuid = ts_uuid s, tss_my_order_uuid = ts_my_order_uuid s, tss_events = [],
     tss_maker_amount = Some (ts_maker_amount s), tss_maker_coin = Some (coin_ticker (ts_maker_coin s)),
     tss_maker_coin_usd_price = None, tss_taker_amount = Some (ts_taker_amount s),
     tss_taker_coin = Some (coin_ticker (ts_taker_coin s)), tss_taker_coin_usd_price = None,
     tss_gui = sx_gui cx, tss_mm_version = Some (sx_mm_version cx),
     tss_success_events = (if watchers_usable cx s then TAKER_USING_WATCHERS_SUCCESS_EVENTS
       else TAKER_SUCCESS_EVENTS),
     tss_error_events = TAKER_ERROR_EVENTS\<rparr>"

definition mss_set_usd_prices :: "saved_io \<Rightarrow> maker_saved_swap \<Rightarrow> maker_saved_swap" where
  "mss_set_usd_prices io sw = (case io_usd_prices io of
      Some (base, rel) \<Rightarrow> sw\<lparr>mss_maker_coin_usd_price := Some base, mss_taker_coin_usd_price := Some rel\<rparr>
    | None \<Rightarrow> sw)"

definition tss_set_usd_prices :: "saved_io \<Rightarrow> taker_saved_swap \<Rightarrow> taker_saved_swap" where
  "tss_set_usd_prices io sw = (case io_usd_prices io of
      Some (base, rel) \<Rightarrow> sw\<lparr>tss_maker_coin_usd_price := Some base, tss_taker_coin_usd_price := Some rel\<rparr>
    | None \<Rightarrow> sw)"

definition save_my_maker_swap_event ::
    "swap_ctx \<Rightarrow> saved_io \<Rightarrow> maker_swap \<Rightarrow> maker_saved_event \<Rightarrow> swap_files \<Rightarrow> string + swap_files" where
  "save_my_maker_swap_event cx io s e files =
    (case sc_address_from_pubkey (ms_maker_coin s) (ms_my_maker_coin_htlc_pub s) of
       Inl err \<Rightarrow> Inl err
     | Inr _ \<Rightarrow>
    (case load_my_swap io files (ms_uuid s) of
       Inl err \<Rightarrow> Inl err
     | Inr found \<Rightarrow>
    (case unwrap_or (SavedMaker (maker_saved_new cx s)) found of
       SavedTaker _ \<Rightarrow> Inl ''Expected SavedSwap::Maker''
     | SavedMaker sw \<Rightarrow>
       let sw1 = sw\<lparr>mss_events := mss_events sw @ [e]\<rparr>;
           sw2 = (if mss_is_success sw1 = Inr True then mss_set_usd_prices io sw1 else sw1)
       in save_my_swap io (SavedMaker sw2) files)))"

definition save_my_taker_swap_event ::
    "swap_ctx \<Rightarrow> saved_io \<Rightarrow> taker_swap \<Rightarrow> taker_saved_event \<Rightarrow> swap_files \<Rightarrow> string + swap_files" where
  "save_my_taker_swap_event cx io s e files =
    (case sc_address_from_pubkey (ts_maker_coin s) (ts_my_maker_coin_htlc_pub s) of
       Inl err \<Rightarrow> Inl err
     | Inr _ \<Rightarrow>
    (case load_my_swap io files (ts_uuid s) of
       Inl err \<Rightarrow> Inl err
     | Inr found \<Rightarrow>
    (case unwrap_or (SavedTaker (taker_saved_new cx s)) found of
       SavedMaker _ \<Rightarrow> Inl ''Expected SavedSwap::Taker''
     | SavedTaker sw \<Rightarrow>
       let sw1 = sw\<lparr>tss_events := tss_events sw @ [e]\<rparr>;
           sw2 = (if tss_is_success sw1 = Inr True then tss_set_usd_prices io sw1 else sw1)
       in save_my_swap io (SavedTaker sw2) files)))"

section \<open>Rebuilding the maker's swap\<close>

text \<open>The addresses of the swap contracts are filled in when the file is older than the fields.\<close>

definition maker_refresh_data :: "swap_coin \<Rightarrow> swap_coin \<Rightarrow> maker_swap_data \<Rightarrow> maker_swap_data" where
  "maker_refresh_data maker_coin taker_coin d =
    (let d1 = (if msd_maker_coin_swap_contract_address d = None
           then d\<lparr>msd_maker_coin_swap_contract_address := sc_swap_contract_address maker_coin\<rparr> else d)
     in if msd_taker_coin_swap_contract_address d1 = None
        then d1\<lparr>msd_taker_coin_swap_contract_address := sc_swap_contract_address taker_coin\<rparr> else d1)"

definition maker_load_from_saved ::
    "swap_ctx \<Rightarrow> u64 \<Rightarrow> swap_coin \<Rightarrow> swap_coin \<Rightarrow> maker_saved_swap
       \<Rightarrow> string + (maker_swap \<times> maker_swap_command option)" where
  "maker_load_from_saved cx now maker_coin taker_coin saved =
    (case maker_log saved of
       [] \<Rightarrow> Inl ''Can't restore swap from empty events set''
     | MStarted data0 # es \<Rightarrow>
       (case sx_mm2_internal_pubkey cx of
          Inl e \<Rightarrow> Inl e
        | Inr my_persistent_pub \<Rightarrow>
          let data = maker_refresh_data maker_coin taker_coin data0;
              conf_settings = \<lparr>
                swap_confirmations_settings.maker_coin_confs = msd_maker_payment_confirmations data,
                maker_coin_nota = unwrap_or (requires_notarization maker_coin) (msd_maker_payment_requires_nota data),
                taker_coin_confs = msd_taker_payment_confirmations data,
                taker_coin_nota = unwrap_or (requires_notarization taker_coin) (msd_taker_payment_requires_nota data)\<rparr>;
              swap = maker_swap_new (msd_taker_pubkey data) (msd_maker_amount data) (msd_taker_amount data)
                my_persistent_pub (mss_uuid saved) (mss_my_order_uuid saved) conf_settings maker_coin taker_coin
                (msd_lock_duration data) (msd_p2p_privkey data) (msd_secret data)
          in Inr (fold (maker_apply_event now) (MStarted data # es) swap,
               maker_get_command (last (MStarted data # es))))
     | _ \<Rightarrow> Inl ''First swap event must be Started'')"

definition maker_load_by_uuid ::
    "swap_ctx \<Rightarrow> saved_io \<Rightarrow> u64 \<Rightarrow> swap_coin \<Rightarrow> swap_coin \<Rightarrow> uuid \<Rightarrow> swap_files
       \<Rightarrow> string + (maker_swap \<times> maker_swap_command option)" where
  "maker_load_by_uuid cx io now maker_coin taker_coin u files =
    (case load_my_swap io files u of
       Inl e \<Rightarrow> Inl e
     | Inr None \<Rightarrow> Inl ''Couldn't find a swap with the uuid''
     | Inr (Some (SavedTaker _)) \<Rightarrow> Inl ''Can not load MakerSwap from SavedSwap::Taker''
     | Inr (Some (SavedMaker sw)) \<Rightarrow> maker_load_from_saved cx now maker_coin taker_coin sw)"

section \<open>Rebuilding the taker's swap\<close>

definition taker_refresh_data :: "swap_coin \<Rightarrow> swap_coin \<Rightarrow> taker_swap_data \<Rightarrow> taker_swap_data" where
  "taker_refresh_data maker_coin taker_coin d =
    (let d1 = (if tsd_maker_coin_swap_contract_address d = None
           then d\<lparr>tsd_maker_coin_swap_contract_address := sc_swap_contract_address maker_coin\<rparr> else d)
     in if tsd_taker_coin_swap_contract_address d1 = None
        then d1\<lparr>tsd_taker_coin_swap_contract_address := sc_swap_contract_address taker_coin\<rparr> else d1)"

text \<open>
  What happened while the taker was away. The swap, what is saved of it in memory and the files go
  through; \<open>add_taker_payment_spent_event\<close> only changes the first two.
\<close>

record taker_comeback =
  cb_swap :: taker_swap
  cb_saved :: taker_saved_swap
  cb_files :: swap_files

definition cb_add_event :: "u64 \<Rightarrow> u64 \<Rightarrow> taker_swap_event \<Rightarrow> taker_comeback \<Rightarrow> taker_comeback" where
  "cb_add_event now now_ms e cb = cb\<lparr>cb_swap := taker_apply_event now e (cb_swap cb),
     cb_saved := (cb_saved cb)\<lparr>tss_events := tss_events (cb_saved cb) @ [\<lparr>tse_timestamp = now_ms, tse_event = e\<rparr>]\<rparr>\<rparr>"

definition cb_save :: "saved_io \<Rightarrow> taker_comeback \<Rightarrow> string + taker_comeback" where
  "cb_save io cb = (case save_my_swap io (SavedTaker (cb_saved cb)) (cb_files cb) of
      Inl e \<Rightarrow> Inl e | Inr files \<Rightarrow> Inr (cb\<lparr>cb_files := files\<rparr>))"

definition check_taker_payment_spend :: "step_answers \<Rightarrow> taker_swap \<Rightarrow> string + found_swap_tx_spend option" where
  "check_taker_payment_spend a s = (case tsm_taker_payment (ts_mut s) of
      None \<Rightarrow> Inl ''No info about taker payment, swap is not recoverable''
    | Some payment \<Rightarrow> ca_search_for_swap_tx_spend_my (an_taker_coin a)
        \<lparr>sst_time_lock = tsd_taker_payment_lock (tsd s),
         sst_other_pub = tsm_other_taker_coin_htlc_pub (ts_mut s),
         sst_secret_hash = tsm_secret_hash (ts_mut s), sst_tx = ti_tx_hex payment,
         sst_search_from_block = tsd_taker_coin_start_block (tsd s),
         sst_swap_contract_address = tsd_taker_coin_swap_contract_address (tsd s),
         sst_swap_unique_data = ts_unique_swap_data s\<rparr>)"

definition add_taker_payment_spent_event ::
    "step_answers \<Rightarrow> u64 \<Rightarrow> transaction_enum \<Rightarrow> taker_comeback \<Rightarrow> string + taker_comeback" where
  "add_taker_payment_spent_event a now_ms tx cb =
    (case ca_extract_secret (an_taker_coin a) (tsm_secret_hash (ts_mut (cb_swap cb))) (te_tx_hex tx) of
       Inl _ \<Rightarrow> Inl ''Could not extract secret from taker payment spend transaction''
     | Inr secret \<Rightarrow> Inr (cb_add_event (an_now_sec a) now_ms
         (TTakerPaymentSpent \<lparr>tps_transaction = tx_ident_of tx, tps_secret = secret\<rparr>) cb))"

definition ts_maker_payment_search :: "taker_swap \<Rightarrow> bytes \<Rightarrow> search_for_swap_tx_spend_input" where
  "ts_maker_payment_search s payment = \<lparr>sst_time_lock = ts_maker_payment_lock s,
     sst_other_pub = tsm_other_maker_coin_htlc_pub (ts_mut s),
     sst_secret_hash = tsm_secret_hash (ts_mut s), sst_tx = payment,
     sst_search_from_block = tsd_maker_coin_start_block (tsd s),
     sst_swap_contract_address = tsd_maker_coin_swap_contract_address (tsd s),
     sst_swap_unique_data = ts_unique_swap_data s\<rparr>"

definition check_maker_payment_spend_and_add_event ::
    "step_answers \<Rightarrow> u64 \<Rightarrow> saved_io \<Rightarrow> taker_comeback \<Rightarrow> string + (taker_swap_command \<times> taker_comeback)" where
  "check_maker_payment_spend_and_add_event a now_ms io cb =
    (let s = cb_swap cb; m = ts_mut s in
     case tsm_maker_payment m of
       None \<Rightarrow> Inl ''No info about maker payment, swap is not recoverable''
     | Some payment \<Rightarrow>
    (case ca_search_for_swap_tx_spend_other (an_maker_coin a) (ts_maker_payment_search s (ti_tx_hex payment)) of
       Inl e \<Rightarrow> Inl (''Error '' @ e @ '' when trying to find maker payment spend'')
     | Inr None \<Rightarrow> Inr (TSpendMakerPayment, cb)
     | Inr (Some (TxRefunded _)) \<Rightarrow> Inl ''Maker has cheated by both spending the taker payment, and refunding the maker payment''
     | Inr (Some (TxSpent tx)) \<Rightarrow>
    (case ca_taker_validates_spend_or_refund (an_maker_coin a) (te_tx_hex tx) (tsm_other_maker_coin_htlc_pub m)
        (tsd_maker_coin_swap_contract_address (tsd s)) (ts_maker_payment_lock s) (tsm_secret_hash m) (ts_maker_amount s) of
       Inl e \<Rightarrow> Inl e
     | Inr _ \<Rightarrow>
       map_sum id (\<lambda>cb'. (TConfirmMakerPaymentSpend, cb'))
         (cb_save io (cb_add_event (an_now_sec a) now_ms (TMakerPaymentSpentByWatcher (tx_ident_of tx)) cb)))))"

definition add_taker_payment_refunded_by_watcher_event ::
    "step_answers \<Rightarrow> u64 \<Rightarrow> saved_io \<Rightarrow> transaction_enum \<Rightarrow> taker_comeback
       \<Rightarrow> string + (taker_swap_command \<times> taker_comeback)" where
  "add_taker_payment_refunded_by_watcher_event a now_ms io tx cb =
    (let s = cb_swap cb; m = ts_mut s in
     case ca_taker_validates_spend_or_refund (an_taker_coin a) (te_tx_hex tx) (tsm_other_maker_coin_htlc_pub m)
        (tsd_taker_coin_swap_contract_address (tsd s)) (tsd_taker_payment_lock (tsd s)) (tsm_secret_hash m) (ts_taker_amount s) of
       Inl e \<Rightarrow> Inl e
     | Inr _ \<Rightarrow>
       map_sum id (\<lambda>cb'. (TFinish, cb'))
         (cb_save io (cb_add_event (an_now_sec a) now_ms
            (TTakerPaymentRefundedByWatcher (Some (tx_ident_of tx))) cb)))"

text \<open>The factors are \<open>1.0\<close> and \<open>1.5\<close>; the cast to \<open>u64\<close> truncates.\<close>

definition f64_as_u64 :: "rat \<Rightarrow> u64" where
  "f64_as_u64 x = (if \<lfloor>x\<rfloor> \<le> 0 then 0 else if 2 ^ 64 \<le> \<lfloor>x\<rfloor> then - 1 else word_of_int \<lfloor>x\<rfloor>)"

definition default_watcher_maker_payment_spend_factor :: rat where
  "default_watcher_maker_payment_spend_factor = 1"

definition default_watcher_refund_factor :: rat where
  "default_watcher_refund_factor = 3 / 2"

definition watcher_time :: "rat \<Rightarrow> taker_swap \<Rightarrow> u64" where
  "watcher_time factor s = tsd_started_at (tsd s)
     + f64_as_u64 (factor * rat_of_nat (unat (tsd_lock_duration (tsd s))))"

definition get_command_based_on_activity ::
    "step_answers \<Rightarrow> u64 \<Rightarrow> saved_io \<Rightarrow> taker_comeback \<Rightarrow> taker_swap_command
       \<Rightarrow> string + (taker_swap_command \<times> taker_comeback)" where
  "get_command_based_on_activity a now_ms io cb command =
    (let s = cb_swap cb; now = an_now_sec a in
     if now < watcher_time default_watcher_maker_payment_spend_factor s then Inr (command, cb)
     else case command of
       TWaitForTakerPaymentSpend \<Rightarrow>
        (case check_taker_payment_spend a s of
           Inl e \<Rightarrow> Inl (''Error '' @ e @ '' when trying to find taker payment spend'')
         | Inr None \<Rightarrow> Inr (command, cb)
         | Inr (Some (TxSpent tx)) \<Rightarrow>
            (case add_taker_payment_spent_event a now_ms tx cb of
               Inl e \<Rightarrow> Inl e
             | Inr cb' \<Rightarrow> check_maker_payment_spend_and_add_event a now_ms io cb')
         | Inr (Some (TxRefunded tx)) \<Rightarrow> add_taker_payment_refunded_by_watcher_event a now_ms io tx cb)
     | TSpendMakerPayment \<Rightarrow> check_maker_payment_spend_and_add_event a now_ms io cb
     | _ \<Rightarrow>
       if command = TPrepareForTakerPaymentRefund \<or> command = TRefundTakerPayment
       then if now < watcher_time default_watcher_refund_factor s then Inr (command, cb)
         else case check_taker_payment_spend a s of
           Inl e \<Rightarrow> Inl (''Error '' @ e @ '' when trying to find taker payment spend'')
         | Inr None \<Rightarrow> Inr (command, cb)
         | Inr (Some (TxSpent _)) \<Rightarrow> Inl ''Taker payment is not expected to be spent at this point''
         | Inr (Some (TxRefunded tx)) \<Rightarrow> add_taker_payment_refunded_by_watcher_event a now_ms io tx cb
       else Inr (command, cb))"

text \<open>The swap the saved events build, without the look at what happened meanwhile.\<close>

definition taker_restored ::
    "swap_ctx \<Rightarrow> u64 \<Rightarrow> swap_coin \<Rightarrow> swap_coin \<Rightarrow> taker_saved_swap \<Rightarrow> string + taker_swap" where
  "taker_restored cx now maker_coin taker_coin saved =
    (case taker_log saved of
       [] \<Rightarrow> Inl ''Can't restore swap from empty events set''
     | TStarted data0 # es \<Rightarrow>
       (case sx_mm2_internal_pubkey cx of
          Inl e \<Rightarrow> Inl e
        | Inr my_persistent_pub \<Rightarrow>
          let data = taker_refresh_data maker_coin taker_coin data0;
              conf_settings = \<lparr>
                swap_confirmations_settings.maker_coin_confs = tsd_maker_payment_confirmations data,
                maker_coin_nota = unwrap_or (requires_notarization maker_coin) (tsd_maker_payment_requires_nota data),
                taker_coin_confs = tsd_taker_payment_confirmations data,
                taker_coin_nota = unwrap_or (requires_notarization taker_coin) (tsd_taker_payment_requires_nota data)\<rparr>;
              swap = taker_swap_new (tsd_maker_pubkey data) (tsd_maker_amount data) (tsd_taker_amount data)
                my_persistent_pub (tss_uuid saved) (Some (tss_uuid saved)) conf_settings maker_coin taker_coin
                (tsd_lock_duration data) (tsd_p2p_privkey data)
          in Inr (fold (taker_apply_event now) (TStarted data # es) swap))
     | _ \<Rightarrow> Inl ''First swap event must be Started'')"

text \<open>What is kept in memory of the saved swap has the refreshed data in its first event.\<close>

definition taker_refresh_saved :: "swap_coin \<Rightarrow> swap_coin \<Rightarrow> taker_saved_swap \<Rightarrow> taker_saved_swap" where
  "taker_refresh_saved maker_coin taker_coin saved = saved\<lparr>tss_events := upd_hd (\<lambda>e. e\<lparr>tse_event :=
     (case tse_event e of TStarted d \<Rightarrow> TStarted (taker_refresh_data maker_coin taker_coin d) | e' \<Rightarrow> e')\<rparr>)
     (tss_events saved)\<rparr>"

definition taker_load_from_saved ::
    "swap_ctx \<Rightarrow> step_answers \<Rightarrow> u64 \<Rightarrow> saved_io \<Rightarrow> swap_coin \<Rightarrow> swap_coin \<Rightarrow> taker_saved_swap \<Rightarrow> swap_files
       \<Rightarrow> string + (taker_swap \<times> taker_swap_command option \<times> swap_files)" where
  "taker_load_from_saved cx a now_ms io maker_coin taker_coin saved files =
    (case taker_restored cx (an_now_sec a) maker_coin taker_coin saved of
       Inl e \<Rightarrow> Inl e
     | Inr swap \<Rightarrow>
    (case taker_get_command (last (taker_log saved)) of
       None \<Rightarrow> Inr (swap, None, files)
     | Some command \<Rightarrow>
       if sc_is_supported_by_watchers taker_coin \<and> sc_is_supported_by_watchers maker_coin
         \<and> tss_watcher_message_sent saved
       then map_sum id (\<lambda>(c, cb). (cb_swap cb, Some c, cb_files cb))
         (get_command_based_on_activity a now_ms io
           \<lparr>cb_swap = swap, cb_saved = taker_refresh_saved maker_coin taker_coin saved, cb_files = files\<rparr> command)
       else Inr (swap, Some command, files)))"

definition taker_load_by_uuid ::
    "swap_ctx \<Rightarrow> step_answers \<Rightarrow> u64 \<Rightarrow> saved_io \<Rightarrow> swap_coin \<Rightarrow> swap_coin \<Rightarrow> uuid \<Rightarrow> swap_files
       \<Rightarrow> string + (taker_swap \<times> taker_swap_command option \<times> swap_files)" where
  "taker_load_by_uuid cx a now_ms io maker_coin taker_coin u files =
    (case load_my_swap io files u of
       Inl e \<Rightarrow> Inl e
     | Inr None \<Rightarrow> Inl ''Couldn't find a swap with the uuid''
     | Inr (Some (SavedMaker _)) \<Rightarrow> Inl ''Can not load TakerSwap from SavedSwap::Maker''
     | Inr (Some (SavedTaker sw)) \<Rightarrow> taker_load_from_saved cx a now_ms io maker_coin taker_coin sw files)"

end
