(* ===== verification/Swap_Runs.thy ===== *)
theory Swap_Runs
  imports Saved_Swap
begin

text \<open>
  The runs of a legacy swap, for both sides: the loop of \<open>run_maker_swap\<close> and \<open>run_taker_swap\<close>, crashes
  and restarts. Every event is applied and saved before the next; a failure to save it panics the
  task, which is one of the ways a run is cut off. What a run did, whom it banned and what it
  published are kept in the world next to the files, so that the properties can speak about all runs
  of a swap together.

  The two sides differ in their commands and events and share the loop; the functions are generic in
  the handler of the commands, in how an event is applied and saved and in how a swap is restored.
  The locale \<open>swap_machine\<close> is the contract between such a side and its runs: what an invariant of the
  saved events has to satisfy to hold in every run, whatever the interruptions.
\<close>

section \<open>The loop\<close>

record event_env =
  ee_now_sec :: u64
  ee_now_ms :: u64
  ee_io :: saved_io

record ('s, 'c) swap_world =
  sw_running :: "('s \<times> 'c) option"
  sw_files :: swap_files
  sw_acts :: "swap_act list"
  sw_bans :: "h256 list"
  sw_marked_finished :: bool
  sw_published :: "saved_swap list"

text \<open>The inner loop over the events of a command. \<open>None\<close> is the panic of a failed save.\<close>

fun apply_and_save ::
    "(event_env \<Rightarrow> 's \<Rightarrow> 'e \<Rightarrow> swap_files \<Rightarrow> string + swap_files) \<Rightarrow> (u64 \<Rightarrow> 'e \<Rightarrow> 's \<Rightarrow> 's)
       \<Rightarrow> (nat \<Rightarrow> event_env) \<Rightarrow> nat \<Rightarrow> 'e list \<Rightarrow> 's \<Rightarrow> swap_files \<Rightarrow> 's option \<times> swap_files" where
  "apply_and_save save app env k [] s files = (Some s, files)"
| "apply_and_save save app env k (e # es) s files =
    (let s' = app (ee_now_sec (env k)) e s
     in case save (env k) s' e files of
       Inl _ \<Rightarrow> (None, files)
     | Inr files' \<Rightarrow> apply_and_save save app env (Suc k) es s' files')"

text \<open>\<open>broadcast_my_swap_status\<close>, which saves the swap again, into the statistics; a failure is only logged.\<close>

definition broadcast_my_swap_status :: "saved_io \<Rightarrow> swap_files \<Rightarrow> uuid \<Rightarrow> saved_swap list" where
  "broadcast_my_swap_status io files u = (case load_my_swap io files u of
      Inr (Some sw) \<Rightarrow> if io_write_error io = None then [ss_hide_secrets sw] else []
    | _ \<Rightarrow> [])"

text \<open>One turn of the loop. A step that waits has not answered yet.\<close>

definition swap_turn ::
    "('c \<Rightarrow> 's \<Rightarrow> ('s, 'c, 'e) step_result) \<Rightarrow> (event_env \<Rightarrow> 's \<Rightarrow> 'e \<Rightarrow> swap_files \<Rightarrow> string + swap_files)
       \<Rightarrow> (u64 \<Rightarrow> 'e \<Rightarrow> 's \<Rightarrow> 's) \<Rightarrow> ('s \<Rightarrow> 'e list \<Rightarrow> h256 list) \<Rightarrow> ('s \<Rightarrow> uuid) \<Rightarrow> (nat \<Rightarrow> event_env)
       \<Rightarrow> ('s, 'c) swap_world \<Rightarrow> ('s, 'c) swap_world" where
  "swap_turn handle save app bans uuid_of env w = (case sw_running w of
      None \<Rightarrow> w
    | Some (s, c) \<Rightarrow>
      (case handle c s of
         StepPanics \<Rightarrow> w\<lparr>sw_running := None\<rparr>
       | StepWaits \<Rightarrow> w
       | StepDone acts s' next es \<Rightarrow>
         (let (r, files) = apply_and_save save app env 0 es s' (sw_files w);
              w' = w\<lparr>sw_files := files, sw_acts := sw_acts w @ acts, sw_bans := sw_bans w @ bans s es\<rparr>
          in case r of
            None \<Rightarrow> w'\<lparr>sw_running := None\<rparr>
          | Some s'' \<Rightarrow>
            (case next of
               Some c' \<Rightarrow> w'\<lparr>sw_running := Some (s'', c')\<rparr>
             | None \<Rightarrow> w'\<lparr>sw_running := None, sw_marked_finished := True,
                 sw_published := sw_published w @
                   broadcast_my_swap_status (ee_io (env (length es))) files (uuid_of s)\<rparr>))))"

definition swap_world_new :: "'s \<Rightarrow> 'c \<Rightarrow> swap_files \<Rightarrow> ('s, 'c) swap_world" where
  "swap_world_new s c files = \<lparr>sw_running = Some (s, c), sw_files = files, sw_acts = [], sw_bans = [],
     sw_marked_finished = False, sw_published = []\<rparr>"

text \<open>The task is gone, with the process or alone.\<close>

definition swap_stopped :: "('s, 'c) swap_world \<Rightarrow> ('s, 'c) swap_world" where
  "swap_stopped w = w\<lparr>sw_running := None\<rparr>"

section \<open>All runs of a swap\<close>

text \<open>
  The worlds a swap can get into: it starts, makes turns with any answers that \<open>honest\<close> admits after what was done so far and any clock
  and disk, is stopped between two turns or while it is handling a command (after some of what the
  command does, and before its events are saved), and is restored from its file. That the process
  dies between two events of a command is the turn in which the next save fails.
\<close>

inductive swap_reach ::
    "('a \<Rightarrow> 'c \<Rightarrow> 's \<Rightarrow> ('s, 'c, 'e) step_result) \<Rightarrow> (event_env \<Rightarrow> 's \<Rightarrow> 'e \<Rightarrow> swap_files \<Rightarrow> string + swap_files)
       \<Rightarrow> (u64 \<Rightarrow> 'e \<Rightarrow> 's \<Rightarrow> 's) \<Rightarrow> ('s \<Rightarrow> 'e list \<Rightarrow> h256 list) \<Rightarrow> ('s \<Rightarrow> uuid)
       \<Rightarrow> ('r \<Rightarrow> swap_files \<Rightarrow> ('s \<times> 'c \<times> swap_files) option)
       \<Rightarrow> (swap_act list \<Rightarrow> 'a \<Rightarrow> bool) \<Rightarrow> ('s, 'c) swap_world \<Rightarrow> ('s, 'c) swap_world \<Rightarrow> bool"
  for handle save app bans uuid_of restore honest w0 where
  start: "swap_reach handle save app bans uuid_of restore honest w0 w0"
| turn: "swap_reach handle save app bans uuid_of restore honest w0 w \<Longrightarrow> honest (sw_acts w) a \<Longrightarrow>
    swap_reach handle save app bans uuid_of restore honest w0
      (swap_turn (handle a) save app bans uuid_of env w)"
| cut: "swap_reach handle save app bans uuid_of restore honest w0 w \<Longrightarrow> honest (sw_acts w) a \<Longrightarrow>
    sw_running w = Some (s, c) \<Longrightarrow> handle a c s = StepDone acts s' next es \<Longrightarrow>
    swap_reach handle save app bans uuid_of restore honest w0
      (swap_stopped (w\<lparr>sw_acts := sw_acts w @ take j acts\<rparr>))"
| stop: "swap_reach handle save app bans uuid_of restore honest w0 w \<Longrightarrow>
    swap_reach handle save app bans uuid_of restore honest w0 (swap_stopped w)"
| restart: "swap_reach handle save app bans uuid_of restore honest w0 w \<Longrightarrow>
    restore r (sw_files w) = Some (s, c, files) \<Longrightarrow>
    swap_reach handle save app bans uuid_of restore honest w0
      (w\<lparr>sw_running := Some (s, c), sw_files := files\<rparr>)"

lemma swap_stopped_simps [simp]:
  "sw_running (swap_stopped w) = None" "sw_files (swap_stopped w) = sw_files w"
  "sw_acts (swap_stopped w) = sw_acts w" "sw_published (swap_stopped w) = sw_published w"
  by (simp_all add: swap_stopped_def)

lemma swap_world_new_simps [simp]:
  "sw_running (swap_world_new s c files) = Some (s, c)" "sw_files (swap_world_new s c files) = files"
  "sw_acts (swap_world_new s c files) = []" "sw_published (swap_world_new s c files) = []"
  by (simp_all add: swap_world_new_def)


section \<open>What holds in every run\<close>

text \<open>
  What the files and the running swap have to do with each other: \<open>good c es s\<close> relates the saved
  events, the swap they build (as far as the events determine it, which is its \<open>core\<close>) and the command
  to be executed next.
\<close>

definition swap_sound ::
    "(swap_files \<Rightarrow> bool) \<Rightarrow> (u64 \<Rightarrow> 'e \<Rightarrow> 's \<Rightarrow> 's) \<Rightarrow> ('e \<Rightarrow> 'c option) \<Rightarrow> ('s \<Rightarrow> 's) \<Rightarrow> (swap_files \<Rightarrow> 'e list) \<Rightarrow> 's
       \<Rightarrow> ('c option \<Rightarrow> 'e list \<Rightarrow> 's \<Rightarrow> bool) \<Rightarrow> ('s, 'c) swap_world \<Rightarrow> bool" where
  "swap_sound valid app get_command core log_of s0 good w =
    (let es = log_of (sw_files w); built = fold (app 0) es s0
     in valid (sw_files w) \<and> (es \<noteq> [] \<longrightarrow> good (get_command (last es)) es built)
      \<and> (\<forall>s c. sw_running w = Some (s, c) \<longrightarrow> core s = core built \<and> good (Some c) es built))"

locale swap_machine =
  fixes handle :: "'a \<Rightarrow> 'c \<Rightarrow> 's \<Rightarrow> ('s, 'c, 'e) step_result"
    and save :: "event_env \<Rightarrow> 's \<Rightarrow> 'e \<Rightarrow> swap_files \<Rightarrow> string + swap_files"
    and app :: "u64 \<Rightarrow> 'e \<Rightarrow> 's \<Rightarrow> 's"
    and ident :: "'s \<Rightarrow> 'i"
    and restore :: "'r \<Rightarrow> swap_files \<Rightarrow> ('s \<times> 'c \<times> swap_files) option"
    and get_command :: "'e \<Rightarrow> 'c option"
    and core :: "'s \<Rightarrow> 's"
    and valid :: "'i \<Rightarrow> swap_files \<Rightarrow> bool"
    and log_of :: "'i \<Rightarrow> swap_files \<Rightarrow> 'e list"
    and s0 :: 's
    and good :: "'c option \<Rightarrow> 'e list \<Rightarrow> 's \<Rightarrow> bool"
  assumes handle_core: "handle a c s = StepDone acts s' next es \<Longrightarrow> core s' = core s"
    and app_core: "core s = core s' \<Longrightarrow> core (app t e s) = core (app t' e s')"
    and ident_core: "core s = core s' \<Longrightarrow> ident s = ident s'"
    and app_ident: "ident (app t e s) = ident s"
    and save_log: "save env s e files = Inr files' \<Longrightarrow> valid (ident s) files \<Longrightarrow>
      valid (ident s) files' \<and> log_of (ident s) files' = log_of (ident s) files @ [e]"
    and good_core: "core s = core s' \<Longrightarrow> good next es s \<Longrightarrow> good next es s'"
    and good_step: "good (Some c) old s \<Longrightarrow> handle a c s = StepDone acts s' next es \<Longrightarrow> good next (old @ es) (fold (app 0) es s)"
    and good_cut: "good (Some c) old s \<Longrightarrow> handle a c s = StepDone acts s' next es \<Longrightarrow> 0 < k \<Longrightarrow> k \<le> length es \<Longrightarrow>
      good (get_command (last (take k es))) (old @ take k es) (fold (app 0) (take k es) s)"
    and restore_good: "restore r files = Some (s, c, files') \<Longrightarrow> valid (ident s0) files \<Longrightarrow>
      es = log_of (ident s0) files \<Longrightarrow> es' = log_of (ident s0) files' \<Longrightarrow>
      (es \<noteq> [] \<Longrightarrow> good (get_command (last es)) es (fold (app 0) es s0)) \<Longrightarrow>
      valid (ident s0) files' \<and> core s = core (fold (app 0) es' s0) \<and> good (Some c) es' (fold (app 0) es' s0)
        \<and> good (get_command (last es')) es' (fold (app 0) es' s0)"
begin

lemma fold_core: "core s = core s' \<Longrightarrow> core (fold (app t) es s) = core (fold (app t') es s')"
proof (induction es arbitrary: s s')
  case (Cons e es)
  then show ?case by (simp add: Cons.IH[OF app_core[OF Cons.prems, of t e t']])
qed simp

lemma fold_ident: "ident (fold (app t) es s) = ident s"
  by (induction es arbitrary: s) (simp_all add: app_ident)

text \<open>The events are saved one after the other: the file has a prefix of them, and all when the loop goes on.\<close>

lemma apply_and_save_prefix:
  assumes "apply_and_save save app env k es s files = (r, files')" "valid (ident s) files"
  obtains j where "j \<le> length es" "valid (ident s) files'"
    "log_of (ident s) files' = log_of (ident s) files @ take j es"
    "\<And>s'. r = Some s' \<Longrightarrow> j = length es \<and> core s' = core (fold (app 0) es s)"
proof -
  have "\<exists>j\<le>length es. valid (ident s) files' \<and> log_of (ident s) files' = log_of (ident s) files @ take j es
      \<and> (\<forall>s'. r = Some s' \<longrightarrow> j = length es \<and> core s' = core (fold (app 0) es s))"
    using assms
  proof (induction es arbitrary: k s files)
    case Nil
    then show ?case by auto
  next
    case (Cons e es)
    let ?s = "app (ee_now_sec (env k)) e s"
    show ?case
    proof (cases "save (env k) ?s e files")
      case (Inl err)
      then show ?thesis using Cons.prems by (auto simp: Let_def)
    next
      case (Inr files1)
      have files1: "valid (ident s) files1" "log_of (ident s) files1 = log_of (ident s) files @ [e]"
        using save_log[OF Inr] Cons.prems(2) by (simp_all add: app_ident)
      have "apply_and_save save app env (Suc k) es ?s files1 = (r, files')"
        using Cons.prems(1) Inr by (simp add: Let_def)
      from Cons.IH[OF this] files1(1) obtain j where j: "j \<le> length es" "valid (ident s) files'"
          "log_of (ident s) files' = log_of (ident s) files1 @ take j es"
          "\<forall>s'. r = Some s' \<longrightarrow> j = length es \<and> core s' = core (fold (app 0) es ?s)"
        by (auto simp: app_ident)
      have "core (fold (app 0) es ?s) = core (fold (app 0) es (app 0 e s))"
        by (rule fold_core, rule app_core) simp
      then show ?thesis using j files1(2) by (intro exI[of _ "Suc j"]) auto
    qed
  qed
  then show ?thesis using that by blast
qed

abbreviation sound :: "('s, 'c) swap_world \<Rightarrow> bool" where
  "sound \<equiv> swap_sound (valid (ident s0)) app get_command core (log_of (ident s0)) s0 good"

lemma sound_file:
  assumes "sound w" "log_of (ident s0) (sw_files w) \<noteq> []"
  shows "good (get_command (last (log_of (ident s0) (sw_files w)))) (log_of (ident s0) (sw_files w))
    (fold (app 0) (log_of (ident s0) (sw_files w)) s0)"
  using assms unfolding swap_sound_def Let_def by blast

lemma sound_valid: "sound w \<Longrightarrow> valid (ident s0) (sw_files w)"
  unfolding swap_sound_def Let_def by blast

lemma soundD:
  assumes "sound w" "sw_running w = Some (s, c)"
  shows "core s = core (fold (app 0) (log_of (ident s0) (sw_files w)) s0)"
    "good (Some c) (log_of (ident s0) (sw_files w)) s" "ident s = ident s0"
proof -
  show c: "core s = core (fold (app 0) (log_of (ident s0) (sw_files w)) s0)"
    using assms by (simp add: swap_sound_def Let_def)
  show "good (Some c) (log_of (ident s0) (sw_files w)) s"
    using assms good_core[OF c[symmetric]] by (simp add: swap_sound_def Let_def)
  show "ident s = ident s0" using ident_core[OF c] by (simp add: fold_ident)
qed

lemma sound_stop:
  assumes "sound w" "sw_running w' = None" "sw_files w' = sw_files w"
  shows "sound w'"
  unfolding swap_sound_def Let_def using assms(2,3) sound_file[OF assms(1)] sound_valid[OF assms(1)] by auto

lemma soundI:
  assumes "valid (ident s0) (sw_files w)" "log_of (ident s0) (sw_files w) = es"
    "es \<noteq> [] \<Longrightarrow> good (get_command (last es)) es (fold (app 0) es s0)"
    "\<And>s c. sw_running w = Some (s, c) \<Longrightarrow> core s = core (fold (app 0) es s0) \<and> good (Some c) es (fold (app 0) es s0)"
  shows "sound w"
  unfolding swap_sound_def Let_def assms(2) using assms(1,3,4) by blast

lemma sound_turn:
  assumes "sound w"
  shows "sound (swap_turn (handle a) save app bans uuid_of env w)"
proof (cases "sw_running w")
  case None
  then show ?thesis using assms by (simp add: swap_turn_def)
next
  case (Some sc)
  obtain s c where sc: "sc = (s, c)" by (cases sc)
  note now = soundD[OF assms Some[unfolded sc]]
  let ?log = "log_of (ident s0)" and ?built = "\<lambda>es. fold (app 0) es s0"
  show ?thesis
  proof (cases "handle a c s")
    case StepPanics
    then show ?thesis using sound_stop[OF assms] Some sc by (simp add: swap_turn_def)
  next
    case StepWaits
    then show ?thesis using assms Some sc by (simp add: swap_turn_def)
  next
    case (StepDone acts s1 nxt es)
    note steps = good_step[OF now(2) StepDone] and cuts = good_cut[OF now(2) StepDone]
    have s1: "core s1 = core s" and u1: "ident s1 = ident s0"
      using handle_core[OF StepDone] ident_core[of s1 s] now(3) by auto
    obtain r files where r: "apply_and_save save app env 0 es s1 (sw_files w) = (r, files)"
      by (cases "apply_and_save save app env 0 es s1 (sw_files w)")
    from apply_and_save_prefix[OF r] sound_valid[OF assms] obtain j where j: "j \<le> length es"
        "valid (ident s0) files" "?log files = ?log (sw_files w) @ take j es"
        "\<And>s'. r = Some s' \<Longrightarrow> j = length es \<and> core s' = core (fold (app 0) es s1)"
      unfolding u1 by metis
    have built: "core (?built (?log (sw_files w) @ es')) = core (fold (app 0) es' s)" for es'
      unfolding fold_append comp_def by (rule fold_core) (simp add: now(1))
    have saved: "good (get_command (last (?log files))) (?log files) (?built (?log files))"
      if "?log files \<noteq> []"
    proof (cases "j = 0 \<or> es = []")
      case True
      then show ?thesis using sound_file[OF assms] that j(3) by auto
    next
      case False
      then have "good (get_command (last (take j es))) (?log files) (fold (app 0) (take j es) s)"
        using cuts[of j] j by simp
      with built[of "take j es"] have "good (get_command (last (take j es))) (?log files) (?built (?log files))"
        unfolding j(3) by (metis good_core)
      with False j(1,3) show ?thesis by (simp add: last_append)
    qed
    let ?w = "swap_turn (handle a) save app bans uuid_of env w"
    have files: "sw_files ?w = files"
      using Some sc StepDone r by (simp add: swap_turn_def Let_def split: option.splits)
    have running: "r = Some s2 \<and> nxt = Some c'" if "sw_running ?w = Some (s2, c')" for s2 c'
      using that Some sc StepDone r by (simp add: swap_turn_def Let_def split: option.splits)
    have "core s2 = core (?built (?log files)) \<and> good (Some c') (?log files) (?built (?log files))"
      if "sw_running ?w = Some (s2, c')" for s2 c'
    proof -
      from j(4) running[OF that] have all: "?log files = ?log (sw_files w) @ es"
        and s2: "core s2 = core (fold (app 0) es s1)" using j(3) by auto
      have "good nxt (?log files) (?built (?log files))"
        unfolding all by (rule good_core[OF _ steps]) (simp only: built)
      then show ?thesis
        using running[OF that] s2 built[of es] fold_core[OF s1, of 0 es 0] unfolding all by simp
    qed
    with saved show ?thesis by (intro soundI[OF _ refl]) (simp_all add: files j(2))
  qed
qed

theorem always_sound:
  assumes "swap_reach handle save app bans uuid_of restore honest w0 w" "sound w0"
  shows "sound w"
  using assms
proof (induction rule: swap_reach.induct)
  case (turn w a env)
  then show ?case by (simp add: sound_turn)
next
  case (restart w r s c files)
  note before = restart.IH[OF restart.prems]
  note all = restore_good[OF restart.hyps(2) sound_valid[OF before] refl refl sound_file[OF before]]
  show ?case by (intro soundI[OF _ refl]) (use all in \<open>auto\<close>)
next
  case start
  then show ?case .
qed (auto intro: sound_stop)

lemma sound_new:
  assumes "valid (ident s0) files" "log_of (ident s0) files = []" "good (Some c) [] s0"
  shows "sound (swap_world_new s0 c files)"
  using assms by (simp add: swap_sound_def)

text \<open>
  An induction over what was saved and what was done: one command adds a prefix of its events to the
  log and a prefix of its calls to what was done, all of its calls if it got as far as saving an event.
\<close>

lemma history_induct:
  assumes "swap_reach handle save app bans uuid_of restore honest w0 w" "sound w0"
    and start: "P (log_of (ident s0) (sw_files w0)) (sw_acts w0)"
    and step: "\<And>old acts a c s acts1 s1 nxt es j k. P old acts \<Longrightarrow> honest acts a \<Longrightarrow> good (Some c) old s \<Longrightarrow>
      core s = core (fold (app 0) old s0) \<Longrightarrow> handle a c s = StepDone acts1 s1 nxt es \<Longrightarrow> k \<le> length es \<Longrightarrow>
      k = 0 \<or> j = length acts1 \<Longrightarrow> P (old @ take k es) (acts @ take j acts1)"
    and restored: "\<And>r files s c files' acts. restore r files = Some (s, c, files') \<Longrightarrow> valid (ident s0) files \<Longrightarrow>
      (log_of (ident s0) files \<noteq> [] \<Longrightarrow> good (get_command (last (log_of (ident s0) files))) (log_of (ident s0) files)
        (fold (app 0) (log_of (ident s0) files) s0)) \<Longrightarrow>
      P (log_of (ident s0) files) acts \<Longrightarrow> P (log_of (ident s0) files') acts"
  shows "P (log_of (ident s0) (sw_files w)) (sw_acts w)"
  using assms(1)
proof (induction rule: swap_reach.induct)
  case (turn w a env)
  note before = always_sound[OF turn.hyps(1) assms(2)]
  show ?case
  proof (cases "sw_running w")
    case None
    then show ?thesis using turn.IH by (simp add: swap_turn_def)
  next
    case (Some sc)
    obtain s c where sc: "sc = (s, c)" by (cases sc)
    note now = soundD[OF before Some[unfolded sc]]
    show ?thesis
    proof (cases "handle a c s")
      case (StepDone acts1 s1 nxt es)
      obtain r files where r: "apply_and_save save app env 0 es s1 (sw_files w) = (r, files)"
        by (cases "apply_and_save save app env 0 es s1 (sw_files w)")
      have u1: "ident s1 = ident s0"
        using handle_core[OF StepDone] ident_core[of s1 s] now(3) by auto
      from apply_and_save_prefix[OF r] sound_valid[OF before] obtain k where k: "k \<le> length es"
          "log_of (ident s0) files = log_of (ident s0) (sw_files w) @ take k es"
        unfolding u1 by metis
      have "P (log_of (ident s0) (sw_files w) @ take k es) (sw_acts w @ take (length acts1) acts1)"
        by (rule step[OF turn.IH turn.hyps(2) now(2,1) StepDone k(1)]) simp
      then show ?thesis using Some sc StepDone r k(2)
        by (simp add: swap_turn_def Let_def split: option.splits)
    qed (use turn.IH Some sc in \<open>simp_all add: swap_turn_def\<close>)
  qed
next
  case (cut w a s c acts1 s1 nxt es j)
  note now = soundD[OF always_sound[OF cut.hyps(1) assms(2)] cut.hyps(3)]
  show ?case using step[OF cut.IH cut.hyps(2) now(2,1) cut.hyps(4), of 0 j] by simp
next
  case (restart w r s c files)
  note before = always_sound[OF restart.hyps(1) assms(2)]
  show ?case using restored[OF restart.hyps(2) sound_valid[OF before] sound_file[OF before] restart.IH] by simp
qed (simp_all add: start)

end


section \<open>What the chains are trusted for\<close>

text \<open>
  The payments sent so far; whether a payment is the one \<open>check_if_my_payment_sent\<close> is asked for; and
  what is documented of that call: it finds a payment sent before (or fails), also after a restart.
\<close>

fun sent_payment :: "swap_act \<Rightarrow> send_payment_args option" where
  "sent_payment (SendsPayment args (Some _)) = Some args"
| "sent_payment _ = None"

definition sent_payments :: "swap_act list \<Rightarrow> send_payment_args list" where
  "sent_payments acts = List.map_filter sent_payment acts"

definition pays_for :: "send_payment_args \<Rightarrow> check_if_my_payment_sent_args \<Rightarrow> bool" where
  "pays_for args q = (spa_time_lock args = cps_time_lock q \<and> spa_other_pubkey args = cps_other_pub q
     \<and> spa_secret_hash args = cps_secret_hash q \<and> spa_amount args = cps_amount q
     \<and> spa_swap_contract_address args = cps_swap_contract_address q
     \<and> spa_swap_unique_data args = cps_swap_unique_data q)"

definition finds_sent_payments :: "(step_answers \<Rightarrow> coin_answers) \<Rightarrow> swap_act list \<Rightarrow> step_answers \<Rightarrow> bool" where
  "finds_sent_payments coin acts a =
    (\<forall>args q. args \<in> set (sent_payments acts) \<longrightarrow> pays_for args q
      \<longrightarrow> ca_check_if_my_payment_sent (coin a) q \<noteq> Inr None)"

lemma sent_payments_simps [simp]:
  "sent_payments [] = []" "sent_payments (acts @ acts') = sent_payments acts @ sent_payments acts'"
  "sent_payments (act # acts) = (case sent_payment act of Some args \<Rightarrow> [args] | None \<Rightarrow> []) @ sent_payments acts"
  by (simp_all add: sent_payments_def List.map_filter_def split: option.splits)

lemma sent_payments_take:
  "set (sent_payments (take j acts)) \<subseteq> set (sent_payments acts)"
  "length (sent_payments (take j acts)) \<le> length (sent_payments acts)"
proof -
  have "sent_payments acts = sent_payments (take j acts) @ sent_payments (drop j acts)"
    by (metis append_take_drop_id sent_payments_simps(2))
  then show "set (sent_payments (take j acts)) \<subseteq> set (sent_payments acts)"
    "length (sent_payments (take j acts)) \<le> length (sent_payments acts)" by simp_all
qed

text \<open>
  That a payment which is spent was validated and confirmed before: \<open>valid\<close> and \<open>confirmed\<close> stand for
  what \<open>validate_payment\<close> and \<open>wait_for_confirmations\<close> establish when they succeed.
\<close>

definition trusts :: "(step_answers \<Rightarrow> coin_answers) \<Rightarrow> (validate_payment_input \<Rightarrow> bool) \<Rightarrow> (bytes \<Rightarrow> u64 \<Rightarrow> bool)
    \<Rightarrow> swap_act list \<Rightarrow> step_answers \<Rightarrow> bool" where
  "trusts coin valid confirmed acts a =
    ((\<forall>v. ca_validate_payment (coin a) v = Inr () \<longrightarrow> valid v)
     \<and> (\<forall>i. ca_wait_for_confirmations (coin a) i = Inr () \<longrightarrow> confirmed (cpi_payment_tx i) (cpi_confirmations i)))"

definition checked_payment ::
    "(validate_payment_input \<Rightarrow> bool) \<Rightarrow> (bytes \<Rightarrow> u64 \<Rightarrow> bool) \<Rightarrow> mm_number \<Rightarrow> u64 \<Rightarrow> spend_payment_args \<Rightarrow> bool" where
  "checked_payment valid confirmed amount confs args =
    (confirmed (spe_other_payment_tx args) confs
     \<and> (\<exists>v. valid v \<and> vpi_payment_tx v = spe_other_payment_tx args \<and> vpi_time_lock v = spe_time_lock args
         \<and> vpi_other_pub v = spe_other_pubkey args \<and> vpi_secret_hash v = spe_secret_hash args
         \<and> vpi_amount v = amount \<and> vpi_swap_contract_address v = spe_swap_contract_address args
         \<and> vpi_unique_swap_data v = spe_swap_unique_data args))"


definition saves_work :: "(nat \<Rightarrow> event_env) \<Rightarrow> bool" where
  "saves_work env = (\<forall>k. io_read_error (ee_io (env k)) = None \<and> io_write_error (ee_io (env k)) = None)"


section \<open>Surroundings in which all goes well\<close>

definition demo_swap_ctx :: swap_ctx where
  "demo_swap_ctx = \<lparr>sx_sha256 = (\<lambda>_. [1]), sx_dhash160 = (\<lambda>_. replicate 20 0), sx_mm2_internal_pubkey = Inr [2],
     sx_use_watcher_reward = False, sx_disable_watchers_globally = False, sx_gui = None, sx_mm_version = ''2.1''\<rparr>"

definition demo_tx :: "bytes \<Rightarrow> transaction_enum" where
  "demo_tx b = \<lparr>te_tx_hex = b, te_tx_hash = b, te_supports_tx_helper = False\<rparr>"

definition demo_trade_fee :: trade_fee where
  "demo_trade_fee = \<lparr>tf_coin = ''KMD'', tf_amount = 0, tf_paid_from_trading_vol = False\<rparr>"

definition demo_coin_answers :: coin_answers where
  "demo_coin_answers = \<lparr>ca_current_block = Inr 7, ca_sender_trade_fee = (\<lambda>_. Inr demo_trade_fee),
     ca_receiver_trade_fee = Inr demo_trade_fee, ca_fee_to_send_taker_fee = (\<lambda>_. Inr demo_trade_fee),
     ca_validate_fee = (\<lambda>_ _ _ _ _ _. Inr ()), ca_send_taker_fee = (\<lambda>_ _ _. Inr (demo_tx [3])),
     ca_check_if_my_payment_sent = (\<lambda>_. Inr None), ca_send_payment = (\<lambda>_. Inr (demo_tx [4])),
     ca_spend_payment = (\<lambda>_. Inr (demo_tx [5])), ca_refund_payment = (\<lambda>_. Inr (demo_tx [6])),
     ca_wait_for_confirmations = (\<lambda>_. Inr ()), ca_validate_payment = (\<lambda>_. Inr ()),
     ca_wait_for_htlc_refund = (\<lambda>_ _. Inr ()), ca_can_refund_htlc = [],
     ca_wait_for_htlc_tx_spend = (\<lambda>_. Inr (demo_tx [5])), ca_extract_secret = (\<lambda>_ _. Inr 8),
     ca_search_for_swap_tx_spend_my = (\<lambda>_. Inr None), ca_search_for_swap_tx_spend_other = (\<lambda>_. Inr None),
     ca_payment_instructions = (\<lambda>_. Inr None), ca_maker_watcher_reward = (\<lambda>_ _. Inr None),
     ca_taker_watcher_reward = (\<lambda>_ _ _ _. Inl ''no''),
     ca_create_spend_preimage = (\<lambda>_ _ _ _ _. Inl (TxPlain ''no'')),
     ca_create_refund_preimage = (\<lambda>_ _ _ _ _ _. Inl (TxPlain ''no'')),
     ca_taker_validates_spend_or_refund = (\<lambda>_ _ _ _ _ _. Inr ())\<rparr>"

definition demo_event_env :: event_env where
  "demo_event_env = \<lparr>ee_now_sec = 1000, ee_now_ms = 1000000,
     ee_io = \<lparr>io_read_error = None, io_write_error = None, io_usd_prices = None\<rparr>\<rparr>"

definition demo_step_answers :: "negotiation_data_msg \<Rightarrow> step_answers" where
  "demo_step_answers data = \<lparr>an_now_sec = 1000, an_maker_coin = demo_coin_answers,
     an_taker_coin = demo_coin_answers, an_check_balance = Inr (), an_negotiation = Inr data,
     an_negotiated = Inr True, an_tx_data = Inr (RegularTxData [3]), an_taker_payment = Inr [4]\<rparr>"

end
