(* ===== verification/Maker_Swap_Runs.thy ===== *)
theory Maker_Swap_Runs
  imports Swap_Runs
begin

text \<open>
  The runs of the maker's swap (\<open>run_maker_swap\<close> in \<open>maker_swap.rs\<close>) and what holds in all of them.

  \<open>maker_flow\<close> is the automaton the commands implement: which events a command may produce, and
  in what order. The event last saved determines the next command, whether the batch it belongs to
  was saved as a whole or not, so that one relation on logs (\<open>maker_path\<close>) covers the running swap and
  the restored one.
\<close>

section \<open>The loop\<close>

type_synonym maker_world = "(maker_swap, maker_swap_command) swap_world"

definition maker_save :: "swap_ctx \<Rightarrow> event_env \<Rightarrow> maker_swap \<Rightarrow> maker_swap_event \<Rightarrow> swap_files \<Rightarrow> string + swap_files" where
  "maker_save cx env s e files = save_my_maker_swap_event cx (ee_io env) s
     \<lparr>mse_timestamp = ee_now_ms env, mse_event = e\<rparr> files"

definition maker_bans :: "maker_swap \<Rightarrow> maker_swap_event list \<Rightarrow> h256 list" where
  "maker_bans s es = map (\<lambda>_. ms_taker_pubkey s) (filter should_ban_taker es)"

definition maker_turn :: "swap_ctx \<Rightarrow> step_answers \<Rightarrow> (nat \<Rightarrow> event_env) \<Rightarrow> maker_world \<Rightarrow> maker_world" where
  "maker_turn cx a env w = swap_turn (maker_handle_command cx a) (maker_save cx) maker_apply_event maker_bans
     ms_uuid env w"

text \<open>What a kick start begins with: the swap restored from its file, unless it is finished.\<close>

definition maker_kick_start ::
    "swap_ctx \<Rightarrow> swap_coin \<Rightarrow> swap_coin \<Rightarrow> uuid \<Rightarrow> saved_io \<times> u64 \<Rightarrow> swap_files
       \<Rightarrow> (maker_swap \<times> maker_swap_command \<times> swap_files) option" where
  "maker_kick_start cx maker_coin taker_coin u r files =
    (case maker_load_by_uuid cx (fst r) (snd r) maker_coin taker_coin u files of
       Inr (s, Some c) \<Rightarrow> Some (s, c, files)
     | _ \<Rightarrow> None)"

section \<open>The automaton of the commands\<close>

fun maker_flow :: "maker_swap_command \<Rightarrow> maker_swap_command option \<Rightarrow> maker_swap_event list \<Rightarrow> bool" where
  "maker_flow MStart next es =
    ((\<exists>e. next = Some MFinish \<and> es = [MStartFailed e]) \<or> (\<exists>d. next = Some MNegotiate \<and> es = [MStarted d]))"
| "maker_flow MNegotiate next es =
    ((\<exists>e. next = Some MFinish \<and> es = [MNegotiateFailed e]) \<or>
     (\<exists>d. next = Some MWaitForTakerFee \<and> es = [MNegotiated d]))"
| "maker_flow MWaitForTakerFee next es =
    ((\<exists>e. next = Some MFinish \<and> es = [MTakerFeeValidateFailed e]) \<or>
     (\<exists>ins tx. next = Some MSendPayment \<and> es = [MMakerPaymentInstructionsReceived ins, MTakerFeeValidated tx]))"
| "maker_flow MSendPayment next es =
    ((\<exists>e. next = Some MFinish \<and> es = [MMakerPaymentTransactionFailed e]) \<or>
     (\<exists>tx. next = Some MWaitForTakerPayment \<and> es = [MMakerPaymentSent tx]))"
| "maker_flow MWaitForTakerPayment next es =
    ((\<exists>e t. next = Some MPrepareForMakerPaymentRefund
        \<and> e \<in> {MMakerPaymentDataSendFailed t, MMakerPaymentWaitConfirmFailed t, MTakerPaymentValidateFailed t}
        \<and> (\<exists>u. es = [e, MMakerPaymentWaitRefundStarted u])) \<or>
     (\<exists>tx. next = Some MValidateTakerPayment \<and> es = [MTakerPaymentReceived tx, MTakerPaymentWaitConfirmStarted]))"
| "maker_flow MValidateTakerPayment next es =
    ((\<exists>e t. next = Some MPrepareForMakerPaymentRefund
        \<and> e \<in> {MTakerPaymentWaitConfirmFailed t, MTakerPaymentValidateFailed t}
        \<and> (\<exists>u. es = [e, MMakerPaymentWaitRefundStarted u])) \<or>
     (\<exists>e. next = Some MFinish \<and> es = [MMakerPaymentTransactionFailed e]) \<or>
     next = Some MSpendTakerPayment \<and> es = [MTakerPaymentValidatedAndConfirmed])"
| "maker_flow MSpendTakerPayment next es =
    ((\<exists>t u. next = Some MPrepareForMakerPaymentRefund
        \<and> es = [MTakerPaymentSpendFailed t, MMakerPaymentWaitRefundStarted u]) \<or>
     (\<exists>tx. next = Some MConfirmTakerPaymentSpend \<and> es = [MTakerPaymentSpent tx, MTakerPaymentSpendConfirmStarted]))"
| "maker_flow MConfirmTakerPaymentSpend next es =
    ((\<exists>t u. next = Some MPrepareForMakerPaymentRefund
        \<and> es = [MTakerPaymentSpendConfirmFailed t, MMakerPaymentWaitRefundStarted u]) \<or>
     next = Some MFinish \<and> es = [MTakerPaymentSpendConfirmed])"
| "maker_flow MPrepareForMakerPaymentRefund next es =
    (next = Some MRefundMakerPayment \<and> es = [MMakerPaymentRefundStarted])"
| "maker_flow MRefundMakerPayment next es =
    ((\<exists>e. next = Some MFinish \<and> es = [MMakerPaymentRefundFailed e]) \<or>
     (\<exists>tx. next = Some MFinalizeMakerPaymentRefund \<and> es = [MMakerPaymentRefunded tx]))"
| "maker_flow MFinalizeMakerPaymentRefund next es =
    (next = Some MFinish \<and> es = [MMakerPaymentRefundFinished])"
| "maker_flow MFinish next es = (next = None \<and> es = [MFinished])"

fun maker_rank :: "maker_swap_command \<Rightarrow> nat" where
  "maker_rank MStart = 0"
| "maker_rank MNegotiate = 1"
| "maker_rank MWaitForTakerFee = 2"
| "maker_rank MSendPayment = 3"
| "maker_rank MWaitForTakerPayment = 4"
| "maker_rank MValidateTakerPayment = 5"
| "maker_rank MSpendTakerPayment = 6"
| "maker_rank MConfirmTakerPaymentSpend = 7"
| "maker_rank MPrepareForMakerPaymentRefund = 8"
| "maker_rank MRefundMakerPayment = 9"
| "maker_rank MFinalizeMakerPaymentRefund = 10"
| "maker_rank MFinish = 11"

lemmas maker_command_defs = maker_start_def maker_negotiate_def maker_wait_taker_fee_def maker_payment_def
  maker_wait_for_taker_payment_def maker_validate_taker_payment_def maker_spend_taker_payment_def
  maker_confirm_taker_payment_spend_def maker_prepare_for_refund_def maker_refund_def maker_finalize_refund_def
  maker_fails_def maker_to_refund_def

lemmas maker_case_splits = sum.splits option.splits if_splits prod.splits rust_result.splits

lemma maker_handle_flow:
  "maker_handle_command cx a c s = StepDone acts s' next es \<Longrightarrow> maker_flow c next es"
  by (cases c) (auto simp: maker_command_defs Let_def split: maker_case_splits)


lemma maker_flow_resumes: "maker_flow c nxt es \<Longrightarrow> es \<noteq> [] \<and> nxt = maker_get_command (last es)"
  by (cases c) auto

lemma maker_flow_rank: "maker_flow c (Some c') es \<Longrightarrow> maker_rank c < maker_rank c'"
  by (cases c) auto

lemma maker_flow_finish: "maker_flow c None es \<Longrightarrow> c = MFinish \<and> es = [MFinished]"
  by (cases c) auto

lemma maker_flow_take:
  assumes "maker_flow c nxt es" "0 < k" "k \<le> length es"
  obtains "take k es = es" | e e' where "es = [e, e']" "take k es = [e]"
proof -
  have "length es = 1 \<or> length es = 2" using assms(1) by (cases c) auto
  then consider "length es = 1" | "length es = 2" "k = 1" | "length es = 2" "k = 2" using assms by linarith
  then show ?thesis
    by cases (use assms that in \<open>auto simp: length_Suc_conv numeral_2_eq_2\<close>)
qed

lemma maker_flow_resume_rank:
  assumes "maker_flow c nxt es" "0 < k" "k \<le> length es" "maker_get_command (last (take k es)) = Some c'"
  shows "maker_rank c \<le> maker_rank c'"
  using assms(1,2,3)
proof (cases rule: maker_flow_take)
  case 1
  then show ?thesis using assms by (cases c) auto
next
  case (2 e e')
  then show ?thesis using assms by (cases c) auto
qed

section \<open>The logs of a swap\<close>

definition maker_command_after :: "maker_swap_event list \<Rightarrow> maker_swap_command option" where
  "maker_command_after es = (if es = [] then Some MStart else maker_get_command (last es))"

inductive maker_path :: "maker_swap_event list \<Rightarrow> bool" where
  "maker_path []"
| "maker_path old \<Longrightarrow> maker_command_after old = Some c \<Longrightarrow> maker_flow c nxt es \<Longrightarrow> 0 < k \<Longrightarrow> k \<le> length es \<Longrightarrow>
    maker_path (old @ take k es)"

text \<open>What the swap must have for a command.\<close>

definition maker_has :: "maker_swap_command \<Rightarrow> maker_swap \<Rightarrow> bool" where
  "maker_has c s =
    ((4 \<le> maker_rank c \<and> maker_rank c \<le> 9 \<longrightarrow> msm_maker_payment (ms_mut s) \<noteq> None)
     \<and> (c = MValidateTakerPayment \<or> c = MSpendTakerPayment \<longrightarrow> msm_taker_payment (ms_mut s) \<noteq> None)
     \<and> (c = MConfirmTakerPaymentSpend \<longrightarrow> msm_taker_payment_spend (ms_mut s) \<noteq> None))"

text \<open>The confirmations the maker waits for are those of the swap, once it has started.\<close>

definition maker_agreed :: "maker_swap_command \<Rightarrow> maker_swap \<Rightarrow> bool" where
  "maker_agreed c s = (1 \<le> maker_rank c \<and> maker_rank c \<le> 10 \<longrightarrow>
     msd_taker_payment_confirmations (msd s) = swap_confirmations_settings.taker_coin_confs (ms_conf_settings s))"

lemma maker_has_flow:
  assumes "maker_has c s" "maker_flow c nxt es" "0 < k" "k \<le> length es"
    "maker_get_command (last (take k es)) = Some c'"
  shows "maker_has c' (fold (maker_apply_event 0) (take k es) s)"
  using assms(2,3,4)
proof (cases rule: maker_flow_take)
  case 1
  then show ?thesis using assms(1,2,5)
    by (cases c) (auto simp: maker_has_def ms_upd_mut_def ms_push_error_def)
next
  case (2 e e')
  then show ?thesis using assms(1,2,5)
    by (cases c) (auto simp: maker_has_def ms_upd_mut_def ms_push_error_def)
qed

section \<open>What the events determine of the swap\<close>

text \<open>
  All of it but the flag \<open>watcher_reward\<close>, which is set by \<open>start\<close> and saved nowhere, and the time at
  which the swap was finished, which replaying the events takes anew.
\<close>

definition maker_core :: "maker_swap \<Rightarrow> maker_swap" where
  "maker_core s = s\<lparr>ms_finished_at := 0, ms_mut := (ms_mut s)\<lparr>msm_watcher_reward := False\<rparr>\<rparr>"

lemma maker_apply_core:
  "maker_core (maker_apply_event t e s) = maker_core (maker_apply_event t' e (maker_core s))"
  by (cases e) (simp_all add: maker_core_def ms_upd_mut_def ms_push_error_def)

lemma maker_core_app:
  assumes "maker_core s = maker_core s'"
  shows "maker_core (maker_apply_event t e s) = maker_core (maker_apply_event t' e s')"
  using maker_apply_core[of t e s 0] maker_apply_core[of t' e s' 0] assms by simp

lemma maker_fold_core:
  "maker_core s = maker_core s' \<Longrightarrow> maker_core (fold (maker_apply_event t) es s) = maker_core (fold (maker_apply_event t') es s')"
proof (induction es arbitrary: s s')
  case (Cons e es)
  then show ?case by (simp add: Cons.IH[OF maker_core_app[OF Cons.prems, of t e t']])
qed simp

lemma maker_core_has: "maker_has c (maker_core s) = maker_has c s"
  by (simp add: maker_has_def maker_core_def)

lemma maker_core_agreed: "maker_agreed c (maker_core s) = maker_agreed c s"
  by (simp add: maker_agreed_def maker_core_def)

lemma maker_apply_keeps:
  "ms_uuid (maker_apply_event t e s) = ms_uuid s" "ms_my_order_uuid (maker_apply_event t e s) = ms_my_order_uuid s"
  by (cases e, simp_all add: ms_upd_mut_def ms_push_error_def)+

lemma maker_handle_core:
  assumes "maker_handle_command cx a c s = StepDone acts s' nxt es"
  shows "maker_core s' = maker_core s"
  using assms by (cases c)
    (auto simp: maker_command_defs Let_def maker_core_def ms_upd_mut_def split: maker_case_splits)


section \<open>A new swap and its file\<close>

definition maker_new_swap :: "swap_ctx \<Rightarrow> maker_swap \<Rightarrow> bool" where
  "maker_new_swap cx s =
    (sx_mm2_internal_pubkey cx = Inr (ms_my_persistent_pub s)
     \<and> s = maker_swap_new (ms_taker_pubkey s) (ms_maker_amount s) (ms_taker_amount s) (ms_my_persistent_pub s)
         (ms_uuid s) (ms_my_order_uuid s) (ms_conf_settings s) (ms_maker_coin s) (ms_taker_coin s)
         (ms_payment_locktime s) (ms_p2p_privkey s) (ms_secret s))"

definition maker_started_from :: "maker_swap \<Rightarrow> maker_swap_data \<Rightarrow> bool" where
  "maker_started_from s d =
    (msd_taker_pubkey d = ms_taker_pubkey s \<and> msd_secret d = ms_secret s
     \<and> msd_maker_amount d = ms_maker_amount s \<and> msd_taker_amount d = ms_taker_amount s
     \<and> msd_lock_duration d = ms_payment_locktime s \<and> msd_p2p_privkey d = ms_p2p_privkey s
     \<and> ms_conf_settings s = \<lparr>
         swap_confirmations_settings.maker_coin_confs = msd_maker_payment_confirmations d,
         maker_coin_nota = unwrap_or (requires_notarization (ms_maker_coin s)) (msd_maker_payment_requires_nota d),
         taker_coin_confs = msd_taker_payment_confirmations d,
         taker_coin_nota = unwrap_or (requires_notarization (ms_taker_coin s)) (msd_taker_payment_requires_nota d)\<rparr>
     \<and> maker_refresh_data (ms_maker_coin s) (ms_taker_coin s) d = d)"

definition maker_first :: "maker_swap \<Rightarrow> maker_swap_event \<Rightarrow> bool" where
  "maker_first s e = (case e of MStarted d \<Rightarrow> maker_started_from s d | MStartFailed _ \<Rightarrow> True | _ \<Rightarrow> False)"

lemma maker_first_core: "maker_first (maker_core s) e = maker_first s e"
  by (cases e) (simp_all add: maker_first_def maker_started_from_def maker_core_def)

lemma maker_start_first:
  assumes "maker_handle_command cx a MStart s = StepDone acts s' nxt es"
  shows "\<exists>e. es = [e] \<and> maker_first s e"
  using assms
  by (auto simp: maker_start_def maker_fails_def Let_def maker_first_def maker_started_from_def maker_refresh_data_def
      split: maker_case_splits)

lemma maker_fixed_fields [simp]:
  "ms_taker_amount (maker_apply_event t e s) = ms_taker_amount s"
  "ms_maker_amount (maker_apply_event t e s) = ms_maker_amount s"
  "ms_conf_settings (maker_apply_event t e s) = ms_conf_settings s"
  "ms_maker_coin (maker_apply_event t e s) = ms_maker_coin s"
  "ms_taker_coin (maker_apply_event t e s) = ms_taker_coin s"
  by (cases e, simp_all add: ms_upd_mut_def ms_push_error_def)+

lemma maker_confs_kept_fold:
  assumes "\<forall>d. MStarted d \<notin> set es"
  shows "msd_taker_payment_confirmations (msd (fold (maker_apply_event t) es s)) = msd_taker_payment_confirmations (msd s)"
  using assms
proof (induction es arbitrary: s)
  case (Cons e es)
  have "msd_taker_payment_confirmations (msd (maker_apply_event t e s)) = msd_taker_payment_confirmations (msd s)"
    using Cons.prems by (cases e) (auto simp: ms_upd_mut_def ms_push_error_def Let_def)
  with Cons show ?case by simp
qed simp

lemma maker_flow_started: "maker_flow c nxt es \<Longrightarrow> MStarted d \<in> set es \<Longrightarrow> c = MStart"
  by (cases c) auto


lemma maker_agreed_cut:
  assumes agreed: "maker_agreed c s" and step: "maker_handle_command cx a c s = StepDone acts s' nxt es"
    and k: "0 < k" "k \<le> length es" and c': "maker_get_command (last (take k es)) = Some c'"
  shows "maker_agreed c' (fold (maker_apply_event 0) (take k es) s)"
proof (cases "c = MStart")
  case True
  from maker_start_first[OF step[unfolded True]] obtain e where e: "es = [e]" "maker_first s e" by blast
  then have "take k es = [e]" using k by simp
  with e(2) c' show ?thesis
    by (cases e) (auto simp: maker_agreed_def maker_first_def maker_started_from_def ms_upd_mut_def)
next
  case False
  have flow: "maker_flow c nxt es" by (rule maker_handle_flow[OF step])
  have "\<forall>d. MStarted d \<notin> set (take k es)"
    using maker_flow_started[OF flow] False by (auto dest: in_set_takeD)
  moreover have "1 \<le> maker_rank c" "maker_rank c' \<le> 10 \<Longrightarrow> maker_rank c \<le> 10"
    using False maker_flow_resume_rank[OF flow k c'] by (cases c; simp)+
  moreover have "ms_conf_settings (fold (maker_apply_event 0) es' s) = ms_conf_settings s" for es'
    by (induction es' arbitrary: s) simp_all
  ultimately show ?thesis using agreed by (simp add: maker_agreed_def maker_confs_kept_fold)
qed

definition maker_good :: "swap_ctx \<Rightarrow> maker_swap \<Rightarrow> maker_swap_command option \<Rightarrow> maker_swap_event list \<Rightarrow> maker_swap \<Rightarrow> bool" where
  "maker_good cx s0 nxt es s =
    (maker_new_swap cx s0 \<and> maker_path es \<and> nxt = maker_command_after es \<and> (\<forall>c. nxt = Some c \<longrightarrow> maker_has c s \<and> maker_agreed c s)
     \<and> (if es = [] then maker_core s = maker_core s0 else maker_first s0 (hd es)))"

lemma maker_good_cut:
  assumes good: "maker_good cx s0 (Some c) old s" and step: "maker_handle_command cx a c s = StepDone acts s' nxt es"
    and k: "0 < k" "k \<le> length es"
  shows "maker_good cx s0 (maker_get_command (last (take k es))) (old @ take k es)
    (fold (maker_apply_event 0) (take k es) s)"
proof -
  note flow = maker_handle_flow[OF step]
  have ne: "take k es \<noteq> []" using k by auto
  then have after: "maker_command_after (old @ take k es) = maker_get_command (last (take k es))"
    by (simp add: maker_command_after_def)
  have path: "maker_path (old @ take k es)"
    by (rule maker_path.intros(2)[OF _ _ flow k]) (use good in \<open>simp_all add: maker_good_def\<close>)
  have has: "maker_has c' (fold (maker_apply_event 0) (take k es) s)"
    if "maker_get_command (last (take k es)) = Some c'" for c'
    using maker_has_flow[OF _ flow k that] good by (simp add: maker_good_def)
  have agreed: "maker_agreed c' (fold (maker_apply_event 0) (take k es) s)"
    if "maker_get_command (last (take k es)) = Some c'" for c'
    using maker_agreed_cut[OF _ step k that] good by (simp add: maker_good_def)
  have "maker_first s0 (hd (old @ take k es))"
  proof (cases "old = []")
    case True
    then have "c = MStart" "maker_core s = maker_core s0"
      using good by (simp_all add: maker_good_def maker_command_after_def)
    with step obtain e where "es = [e]" "maker_first s e" using maker_start_first by blast
    then show ?thesis
      using True k \<open>maker_core s = maker_core s0\<close> maker_first_core[of s e] maker_first_core[of s0 e] by (cases k) auto
  next
    case False
    then show ?thesis using good by (simp add: maker_good_def)
  qed
  with path after has agreed ne good show ?thesis by (simp add: maker_good_def)
qed

definition maker_log_of :: "uuid \<times> uuid option \<Rightarrow> swap_files \<Rightarrow> maker_swap_event list" where
  "maker_log_of i files = (case files (fst i) of Some (SavedMaker sw) \<Rightarrow> maker_log sw | _ \<Rightarrow> [])"

definition maker_files_ok :: "uuid \<times> uuid option \<Rightarrow> swap_files \<Rightarrow> bool" where
  "maker_files_ok i files = (case files (fst i) of
      None \<Rightarrow> True
    | Some (SavedMaker sw) \<Rightarrow> mss_uuid sw = fst i \<and> mss_my_order_uuid sw = snd i
    | Some (SavedTaker _) \<Rightarrow> False)"

definition maker_ident :: "maker_swap \<Rightarrow> uuid \<times> uuid option" where
  "maker_ident s = (ms_uuid s, ms_my_order_uuid s)"

lemma mss_set_usd_prices_keeps [simp]:
  "mss_uuid (mss_set_usd_prices io sw) = mss_uuid sw"
  "mss_my_order_uuid (mss_set_usd_prices io sw) = mss_my_order_uuid sw"
  "mss_events (mss_set_usd_prices io sw) = mss_events sw"
  by (simp_all add: mss_set_usd_prices_def split: option.splits)

lemma maker_save_log:
  assumes "maker_save cx env s e files = Inr files'" "maker_files_ok (maker_ident s) files"
  shows "maker_files_ok (maker_ident s) files' \<and> maker_log_of (maker_ident s) files' = maker_log_of (maker_ident s) files @ [e]"
  using assms
  by (auto simp: maker_save_def save_my_maker_swap_event_def load_my_swap_def save_my_swap_def Let_def
      maker_files_ok_def maker_log_of_def maker_ident_def maker_saved_new_def unwrap_or_def
      split: sum.splits option.splits saved_swap.splits if_splits)


lemma maker_load_from_saved_core:
  assumes new: "maker_new_swap cx s0" and ids: "mss_uuid sw = ms_uuid s0" "mss_my_order_uuid sw = ms_my_order_uuid s0"
    and first: "maker_log sw \<noteq> []" "maker_first s0 (hd (maker_log sw))"
    and loaded: "maker_load_from_saved cx now (ms_maker_coin s0) (ms_taker_coin s0) sw = Inr (s, c)"
  shows "maker_core s = maker_core (fold (maker_apply_event 0) (maker_log sw) s0)"
    "c = maker_command_after (maker_log sw)"
proof -
  obtain d es where log: "maker_log sw = MStarted d # es"
    using first loaded
    by (cases "maker_log sw"; cases "hd (maker_log sw)") (auto simp: maker_load_from_saved_def maker_first_def)
  then have started: "maker_started_from s0 d" using first by (simp add: maker_first_def)
  have s0: "s0 = maker_swap_new (ms_taker_pubkey s0) (ms_maker_amount s0) (ms_taker_amount s0) (ms_my_persistent_pub s0)
      (ms_uuid s0) (ms_my_order_uuid s0) (ms_conf_settings s0) (ms_maker_coin s0) (ms_taker_coin s0)
      (ms_payment_locktime s0) (ms_p2p_privkey s0) (ms_secret s0)"
    and pub: "sx_mm2_internal_pubkey cx = Inr (ms_my_persistent_pub s0)"
    using new unfolding maker_new_swap_def by blast+
  note fields = started[unfolded maker_started_from_def]
  note restored = s0[symmetric, unfolded fields[THEN conjunct2, THEN conjunct2, THEN conjunct2, THEN conjunct2,
    THEN conjunct2, THEN conjunct2, THEN conjunct1]]
  have "s = fold (maker_apply_event now) (maker_log sw) s0 \<and> c = maker_command_after (maker_log sw)"
    using loaded fields
    unfolding maker_load_from_saved_def log list.case maker_swap_event.case pub sum.case Let_def
      maker_command_after_def
    by (simp add: ids restored)
  then show "maker_core s = maker_core (fold (maker_apply_event 0) (maker_log sw) s0)"
    "c = maker_command_after (maker_log sw)"
    by (auto intro: maker_fold_core)
qed

lemma maker_restore_good:
  assumes kick: "maker_kick_start cx (ms_maker_coin s0) (ms_taker_coin s0) (ms_uuid s0) r files = Some (s, c, files')"
    and ok: "maker_files_ok (maker_ident s0) files"
    and es: "es = maker_log_of (maker_ident s0) files"
    and good: "es \<noteq> [] \<Longrightarrow> maker_good cx s0 (maker_get_command (last es)) es (fold (maker_apply_event 0) es s0)"
  shows "files' = files" "es \<noteq> []" "maker_core s = maker_core (fold (maker_apply_event 0) es s0)"
    "maker_get_command (last es) = Some c"
proof -
  from kick obtain sw where sw: "files (ms_uuid s0) = Some (SavedMaker sw)" "files' = files"
      "maker_load_from_saved cx (snd r) (ms_maker_coin s0) (ms_taker_coin s0) sw = Inr (s, Some c)"
    by (auto simp: maker_kick_start_def maker_load_by_uuid_def load_my_swap_def
        split: sum.splits option.splits saved_swap.splits)
  have log: "es = maker_log sw" using es sw(1) by (simp add: maker_log_of_def maker_ident_def)
  have ids: "mss_uuid sw = ms_uuid s0" "mss_my_order_uuid sw = ms_my_order_uuid s0"
    using ok sw(1) by (simp_all add: maker_files_ok_def maker_ident_def)
  show ne: "es \<noteq> []"
    using sw(3) log by (cases "mss_events sw") (auto simp: maker_load_from_saved_def)
  then have first: "maker_first s0 (hd (maker_log sw))"
    using good log by (simp add: maker_good_def)
  have new: "maker_new_swap cx s0" using good ne by (simp add: maker_good_def)
  note loaded = maker_load_from_saved_core[OF new ids ne[unfolded log] first sw(3)]
  show "files' = files" "maker_core s = maker_core (fold (maker_apply_event 0) es s0)"
      "maker_get_command (last es) = Some c"
    using sw(2) loaded ne log by (simp_all add: maker_command_after_def)
qed


lemma maker_good_step:
  assumes "maker_good cx s0 (Some c) old s" "maker_handle_command cx a c s = StepDone acts s' nxt es"
  shows "maker_good cx s0 nxt (old @ es) (fold (maker_apply_event 0) es s)"
  using maker_good_cut[OF assms, of "length es"] maker_flow_resumes[OF maker_handle_flow[OF assms(2)]] by simp

lemma maker_good_core:
  assumes "maker_core s = maker_core s'" "maker_good cx s0 nxt es s"
  shows "maker_good cx s0 nxt es s'"
proof -
  have "maker_has c s' = maker_has c s" "maker_agreed c s' = maker_agreed c s" for c
    by (metis assms(1) maker_core_has) (metis assms(1) maker_core_agreed)
  then show ?thesis using assms(2) assms(1)[symmetric] by (simp add: maker_good_def)
qed

lemma maker_ident_core: "maker_core s = maker_core s' \<Longrightarrow> maker_ident s = maker_ident s'"
proof -
  assume "maker_core s = maker_core s'"
  then have "maker_ident (maker_core s) = maker_ident (maker_core s')" by simp
  then show ?thesis by (simp add: maker_ident_def maker_core_def)
qed

lemma maker_ident_keeps: "maker_ident (maker_apply_event t e s) = maker_ident s"
  by (simp add: maker_ident_def maker_apply_keeps)

interpretation maker: swap_machine "maker_handle_command cx" "maker_save cx" maker_apply_event maker_ident
    "maker_kick_start cx (ms_maker_coin s0) (ms_taker_coin s0) (ms_uuid s0)" maker_get_command maker_core
    maker_files_ok maker_log_of s0 "maker_good cx s0"
  for cx s0
proof (rule swap_machine.intro)
  fix r files s c files' es es'
  assume kick: "maker_kick_start cx (ms_maker_coin s0) (ms_taker_coin s0) (ms_uuid s0) r files = Some (s, c, files')"
    and files: "maker_files_ok (maker_ident s0) files" "es = maker_log_of (maker_ident s0) files"
      "es' = maker_log_of (maker_ident s0) files'"
    and good: "es \<noteq> [] \<Longrightarrow> maker_good cx s0 (maker_get_command (last es)) es (fold (maker_apply_event 0) es s0)"
  note all = maker_restore_good[OF kick files(1,2) good]
  show "maker_files_ok (maker_ident s0) files' \<and> maker_core s = maker_core (fold (maker_apply_event 0) es' s0)
      \<and> maker_good cx s0 (Some c) es' (fold (maker_apply_event 0) es' s0)
      \<and> maker_good cx s0 (maker_get_command (last es')) es' (fold (maker_apply_event 0) es' s0)"
    using good[OF all(2)] all(1,3,4) files by simp
qed (fact maker_handle_core maker_core_app maker_ident_core maker_ident_keeps maker_save_log maker_good_core
    maker_good_step maker_good_cut)+


section \<open>All runs of the maker's swap\<close>

definition maker_runs ::
    "swap_ctx \<Rightarrow> (swap_act list \<Rightarrow> step_answers \<Rightarrow> bool) \<Rightarrow> maker_swap \<Rightarrow> swap_files \<Rightarrow> maker_world \<Rightarrow> bool" where
  "maker_runs cx honest s0 files =
    swap_reach (maker_handle_command cx) (maker_save cx) maker_apply_event maker_bans ms_uuid
      (maker_kick_start cx (ms_maker_coin s0) (ms_taker_coin s0) (ms_uuid s0)) honest
      (swap_world_new s0 MStart files)"

lemma maker_new_sound:
  assumes "maker_new_swap cx s0" "files (ms_uuid s0) = None"
  shows "maker.sound s0 cx (swap_world_new s0 MStart files)"
proof (rule maker.sound_new)
  show "maker_files_ok (maker_ident s0) files" "maker_log_of (maker_ident s0) files = []"
    using assms(2) by (simp_all add: maker_files_ok_def maker_log_of_def maker_ident_def)
  show "maker_good cx s0 (Some MStart) [] s0"
    using assms(1) by (simp add: maker_good_def maker_command_after_def maker_has_def maker_agreed_def maker_path.intros)
qed

lemma maker_runs_sound:
  assumes "maker_runs cx honest s0 files w" "maker_new_swap cx s0" "files (ms_uuid s0) = None"
  shows "maker.sound s0 cx w"
  using assms(1)[unfolded maker_runs_def] maker_new_sound[of cx s0 files, OF assms(2,3)] by (rule maker.always_sound)

abbreviation maker_built :: "maker_swap \<Rightarrow> maker_swap_event list \<Rightarrow> maker_swap" where
  "maker_built s0 es \<equiv> fold (maker_apply_event 0) es s0"

text \<open>The induction over what was saved and what was done, for the runs of a new swap.\<close>

lemma maker_history_induct:
  assumes "maker_runs cx honest s0 files w" "maker_new_swap cx s0" "files (ms_uuid s0) = None"
    and start: "P [] []"
    and step: "\<And>old acts a c s acts1 s1 nxt es j k. P old acts \<Longrightarrow> honest acts a \<Longrightarrow>
      maker_good cx s0 (Some c) old s \<Longrightarrow> maker_core s = maker_core (maker_built s0 old) \<Longrightarrow>
      maker_handle_command cx a c s = StepDone acts1 s1 nxt es \<Longrightarrow> k \<le> length es \<Longrightarrow>
      k = 0 \<or> j = length acts1 \<Longrightarrow> P (old @ take k es) (acts @ take j acts1)"
  shows "P (maker_log_of (maker_ident s0) (sw_files w)) (sw_acts w)"
proof (rule maker.history_induct[OF assms(1)[unfolded maker_runs_def] maker_new_sound[of cx s0 files, OF assms(2,3)]])
  show "P (maker_log_of (maker_ident s0) (sw_files (swap_world_new s0 MStart files))) (sw_acts (swap_world_new s0 MStart files))"
    using start assms(3) by (simp add: maker_log_of_def maker_ident_def)
next
  fix r files s c files' acts
  assume "maker_kick_start cx (ms_maker_coin s0) (ms_taker_coin s0) (ms_uuid s0) r files = Some (s, c, files')"
    "P (maker_log_of (maker_ident s0) files) acts"
  then show "P (maker_log_of (maker_ident s0) files') acts"
    by (auto simp: maker_kick_start_def split: sum.splits option.splits)
qed (fact step)

text \<open>So the commands of a swap only go forward, over all its runs.\<close>

lemma maker_rank_after:
  assumes "maker_good cx s0 (Some c) old s" "maker_handle_command cx a c s = StepDone acts s' nxt es" "k \<le> length es"
    "maker_command_after (old @ take k es) = Some c'"
  shows "maker_rank c \<le> maker_rank c'"
proof (cases "k = 0")
  case True
  then show ?thesis using assms(1,4) by (simp add: maker_good_def)
next
  case False
  then have "take k es \<noteq> []" using assms(3) by auto
  then have "maker_get_command (last (take k es)) = Some c'"
    using assms(4) by (simp add: maker_command_after_def)
  with False show ?thesis
    using maker_flow_resume_rank[OF maker_handle_flow[OF assms(2)] _ assms(3)] by simp
qed


section \<open>The payment is sent once\<close>

lemma maker_sends_payment:
  assumes "maker_handle_command cx a c s = StepDone acts s' nxt es" "SendsPayment args r \<in> set acts"
  shows "c = MSendPayment" "acts = [SendsPayment args r]" "pays_for args (ms_payment_search cx s)"
    "ca_check_if_my_payment_sent (an_maker_coin a) (ms_payment_search cx s) = Inr None"
  using assms by (cases c; auto simp: maker_command_defs Let_def pays_for_def ms_payment_search_def
      broadcast_tx_def broadcast_err_tx_def split: maker_case_splits)+

lemma maker_sent_payments:
  assumes "maker_handle_command cx a c s = StepDone acts s' nxt es" "args \<in> set (sent_payments acts)"
  shows "c = MSendPayment \<and> length (sent_payments acts) = 1 \<and> pays_for args (ms_payment_search cx s)
    \<and> ca_check_if_my_payment_sent (an_maker_coin a) (ms_payment_search cx s) = Inr None"
proof -
  obtain act where act: "act \<in> set acts" "sent_payment act = Some args"
    using assms(2) by (auto simp: sent_payments_def List.map_filter_def)
  then obtain tx where "act = SendsPayment args (Some tx)" by (cases act rule: sent_payment.cases) auto
  with act(1) have "SendsPayment args (Some tx) \<in> set acts" by simp
  from maker_sends_payment[OF assms(1) this] show ?thesis by simp
qed

fun maker_sets_terms :: "maker_swap_event \<Rightarrow> bool" where
  "maker_sets_terms (MStarted _) = True"
| "maker_sets_terms (MNegotiated _) = True"
| "maker_sets_terms (MMakerPaymentInstructionsReceived _) = True"
| "maker_sets_terms _ = False"

lemma maker_terms_kept:
  assumes "\<not> maker_sets_terms e"
  shows "ms_payment_search cx (maker_apply_event t e s) = ms_payment_search cx s"
  using assms by (cases e) (simp_all add: ms_payment_search_def ms_upd_mut_def ms_push_error_def ms_secret_hash_def
      ms_unique_swap_data_def split: option.splits)

lemma maker_search_core: "ms_payment_search cx (maker_core s) = ms_payment_search cx s"
  by (simp add: ms_payment_search_def maker_core_def ms_secret_hash_def ms_unique_swap_data_def split: option.splits)

lemma maker_terms_kept_fold:
  assumes "\<forall>e\<in>set es. \<not> maker_sets_terms e"
  shows "ms_payment_search cx (fold (maker_apply_event t) es s) = ms_payment_search cx s"
  using assms by (induction es arbitrary: s) (simp_all add: maker_terms_kept)

lemma maker_flow_terms: "maker_flow c nxt es \<Longrightarrow> 3 \<le> maker_rank c \<Longrightarrow> \<forall>e\<in>set es. \<not> maker_sets_terms e"
  by (cases c) auto

text \<open>
  C22: However often the maker's node is stopped and restarted, in the middle of a command or between
  two of them, it sends at most one payment for the swap, provided the coin finds a payment it sent
  before: what \<open>maker_payment\<close> looks for after a restart is exactly what it sent before.
\<close>

theorem maker_pays_at_most_once:
  assumes "maker_runs cx (finds_sent_payments an_maker_coin) s0 files w"
    "maker_new_swap cx s0" "files (ms_uuid s0) = None"
  shows "length (sent_payments (sw_acts w)) \<le> 1"
proof -
  let ?P = "\<lambda>es acts. length (sent_payments acts) \<le> 1 \<and> (\<forall>args\<in>set (sent_payments acts).
    pays_for args (ms_payment_search cx (maker_built s0 es))
    \<and> (\<forall>c. maker_command_after es = Some c \<longrightarrow> 3 \<le> maker_rank c))"
  have "?P (maker_log_of (maker_ident s0) (sw_files w)) (sw_acts w)"
  proof (rule maker_history_induct[OF assms])
    fix old acts a c s acts1 s1 nxt es j k
    assume old: "?P old acts" and honest: "finds_sent_payments an_maker_coin acts a"
      and good: "maker_good cx s0 (Some c) old s" and core: "maker_core s = maker_core (maker_built s0 old)"
      and step: "maker_handle_command cx a c s = StepDone acts1 s1 nxt es" and k: "k \<le> length es"
    have search: "ms_payment_search cx (maker_built s0 old) = ms_payment_search cx s"
      by (metis core maker_search_core)
    have now: "maker_command_after old = Some c" using good by (simp add: maker_good_def)
    have kept: "ms_payment_search cx (maker_built s0 (old @ take k es)) = ms_payment_search cx s" if "3 \<le> maker_rank c"
    proof -
      have "\<forall>e\<in>set (take k es). \<not> maker_sets_terms e"
        using maker_flow_terms[OF maker_handle_flow[OF step] that] in_set_takeD by fast
      then show ?thesis by (simp only: fold_append comp_apply maker_terms_kept_fold search)
    qed
    note rank = maker_rank_after[OF good step k]
    show "?P (old @ take k es) (acts @ take j acts1)"
    proof (cases "sent_payments (take j acts1) = []")
      case True
      then show ?thesis using old now kept rank search by (auto intro: order_trans)
    next
      case False
      with sent_payments_take[of j acts1]
      have sub: "set (sent_payments (take j acts1)) \<subseteq> set (sent_payments acts1)" "sent_payments acts1 \<noteq> []"
        "length (sent_payments (take j acts1)) \<le> length (sent_payments acts1)" by auto
      then obtain args where args: "args \<in> set (sent_payments acts1)" by (cases "sent_payments acts1") auto
      note sends = maker_sent_payments[OF step args]
      have "sent_payments acts = []"
      proof (rule ccontr)
        assume "sent_payments acts \<noteq> []"
        then obtain args' where "args' \<in> set (sent_payments acts)" by (cases "sent_payments acts") auto
        with old search have "pays_for args' (ms_payment_search cx s)" by simp
        with honest sends \<open>args' \<in> _\<close> show False by (auto simp: finds_sent_payments_def)
      qed
      moreover have "pays_for args' (ms_payment_search cx s)" if "args' \<in> set (sent_payments acts1)" for args'
        using maker_sent_payments[OF step that] by simp
      ultimately show ?thesis using sends sub rank kept by auto
    qed
  qed simp
  then show ?thesis by simp
qed


section \<open>The secret is revealed for a checked payment only\<close>

definition ms_spend_args :: "swap_ctx \<Rightarrow> maker_swap \<Rightarrow> transaction_identifier \<Rightarrow> spend_payment_args" where
  "ms_spend_args cx s payment = \<lparr>spe_other_payment_tx = ti_tx_hex payment, spe_time_lock = ms_taker_payment_lock s,
     spe_other_pubkey = msm_other_taker_coin_htlc_pub (ms_mut s),
     spe_secret = h256_bytes (msd_secret (msd s)), spe_secret_hash = ms_secret_hash cx s,
     spe_swap_contract_address = msd_taker_coin_swap_contract_address (msd s),
     spe_swap_unique_data = ms_unique_swap_data cx s,
     spe_watcher_reward = msm_watcher_reward (ms_mut s)\<rparr>"

lemma maker_spends_payment:
  assumes "maker_handle_command cx a c s = StepDone acts s' nxt es" "SpendsPayment args r \<in> set acts"
  shows "c = MSpendTakerPayment" "\<exists>payment. msm_taker_payment (ms_mut s) = Some payment \<and> args = ms_spend_args cx s payment"
  using assms by (cases c; auto simp: maker_command_defs Let_def ms_spend_args_def
      broadcast_tx_def broadcast_err_tx_def split: maker_case_splits)+

lemma maker_validates_payment:
  assumes "maker_handle_command cx a MValidateTakerPayment s = StepDone acts s' (Some MSpendTakerPayment) es"
    "trusts an_taker_coin valid confirmed old_acts a"
  shows "\<exists>payment. msm_taker_payment (ms_mut s) = Some payment
    \<and> checked_payment valid confirmed (ms_taker_amount s) (msd_taker_payment_confirmations (msd s)) (ms_spend_args cx s payment)"
  using assms
  by (auto simp: maker_validate_taker_payment_def maker_to_refund_def maker_fails_def Let_def ms_spend_args_def
      checked_payment_def trusts_def split: maker_case_splits)

lemma maker_flow_to_spend:
  assumes "maker_flow c nxt es" "0 < k" "k \<le> length es" "maker_get_command (last (take k es)) = Some MSpendTakerPayment"
  shows "c = MValidateTakerPayment \<and> nxt = Some MSpendTakerPayment \<and> take k es = [MTakerPaymentValidatedAndConfirmed]"
  using assms(1,2,3)
proof (cases rule: maker_flow_take)
  case 1
  then show ?thesis using assms by (cases c) auto
next
  case (2 e e')
  then show ?thesis using assms by (cases c) auto
qed

lemma maker_fixed_fields_fold [simp]:
  "ms_taker_amount (fold (maker_apply_event t) es s) = ms_taker_amount s"
  "ms_maker_amount (fold (maker_apply_event t) es s) = ms_maker_amount s"
  "ms_conf_settings (fold (maker_apply_event t) es s) = ms_conf_settings s"
  "ms_maker_coin (fold (maker_apply_event t) es s) = ms_maker_coin s"
  "ms_taker_coin (fold (maker_apply_event t) es s) = ms_taker_coin s"
  by (induction es arbitrary: s) simp_all

lemma maker_core_fields [simp]:
  "ms_taker_amount (maker_core s) = ms_taker_amount s" "ms_conf_settings (maker_core s) = ms_conf_settings s"
  "ms_maker_coin (maker_core s) = ms_maker_coin s" "ms_taker_coin (maker_core s) = ms_taker_coin s"
  "msd (maker_core s) = msd s" "msm_taker_payment (ms_mut (maker_core s)) = msm_taker_payment (ms_mut s)"
  by (simp_all add: maker_core_def)

lemma maker_spend_args_core:
  "checked_payment valid confirmed v n (ms_spend_args cx (maker_core s) p) = checked_payment valid confirmed v n (ms_spend_args cx s p)"
  by (simp add: checked_payment_def ms_spend_args_def maker_core_def ms_secret_hash_def ms_unique_swap_data_def
      split: option.splits)

lemma maker_checked_core:
  assumes "maker_core s = maker_core s'"
  shows "msm_taker_payment (ms_mut s) = msm_taker_payment (ms_mut s')"
    "checked_payment valid confirmed v n (ms_spend_args cx s p) = checked_payment valid confirmed v n (ms_spend_args cx s' p)"
  using assms maker_core_fields[of s] maker_core_fields[of s'] maker_spend_args_core[of _ _ _ _ cx s]
    maker_spend_args_core[of _ _ _ _ cx s'] by simp_all

text \<open>
  C23: The maker spends a taker payment, which reveals the secret of the swap, only after exactly this
  payment was validated by the coin for the terms it is spent with and the taker's amount of the
  swap, and had the confirmations the swap was agreed with: in every run, also after restarts.
\<close>

theorem maker_reveals_secret_for_checked_payment_only:
  assumes "maker_runs cx (trusts an_taker_coin valid confirmed) s0 files w"
    "maker_new_swap cx s0" "files (ms_uuid s0) = None"
    and spent: "SpendsPayment args r \<in> set (sw_acts w)"
  shows "checked_payment valid confirmed (ms_taker_amount s0)
    (swap_confirmations_settings.taker_coin_confs (ms_conf_settings s0)) args"
proof -
  let ?confs = "swap_confirmations_settings.taker_coin_confs (ms_conf_settings s0)"
  let ?checked = "checked_payment valid confirmed (ms_taker_amount s0) ?confs"
  let ?P = "\<lambda>es acts. (\<forall>args r. SpendsPayment args r \<in> set acts \<longrightarrow> ?checked args)
    \<and> (maker_command_after es = Some MSpendTakerPayment \<longrightarrow> (\<exists>payment.
        msm_taker_payment (ms_mut (maker_built s0 es)) = Some payment \<and> ?checked (ms_spend_args cx (maker_built s0 es) payment)))"
  have "?P (maker_log_of (maker_ident s0) (sw_files w)) (sw_acts w)"
  proof (rule maker_history_induct[OF assms(1-3)])
    fix old acts a c s acts1 s1 nxt es j k
    assume old: "?P old acts" and trusts: "trusts an_taker_coin valid confirmed acts a"
      and good: "maker_good cx s0 (Some c) old s" and core: "maker_core s = maker_core (maker_built s0 old)"
      and step: "maker_handle_command cx a c s = StepDone acts1 s1 nxt es" and k: "k \<le> length es"
    have now: "maker_command_after old = Some c" and agreed: "maker_agreed c s" using good by (simp_all add: maker_good_def)
    have "?checked args" if "SpendsPayment args r \<in> set acts1" for args r
      using maker_spends_payment[OF step that] old now by (auto simp: maker_checked_core[OF core])
    moreover have "\<exists>payment. msm_taker_payment (ms_mut (maker_built s0 (old @ take k es))) = Some payment
        \<and> ?checked (ms_spend_args cx (maker_built s0 (old @ take k es)) payment)"
      if after: "maker_command_after (old @ take k es) = Some MSpendTakerPayment" and "k \<noteq> 0"
    proof -
      have "take k es \<noteq> []" using \<open>k \<noteq> 0\<close> maker_flow_resumes[OF maker_handle_flow[OF step]] by simp
      with maker_flow_to_spend[OF maker_handle_flow[OF step] _ k] after \<open>k \<noteq> 0\<close>
      have c: "c = MValidateTakerPayment" "nxt = Some MSpendTakerPayment" "take k es = [MTakerPaymentValidatedAndConfirmed]"
        by (auto simp: maker_command_after_def)
      have "ms_taker_amount s = ms_taker_amount s0" "ms_conf_settings s = ms_conf_settings s0"
        using core maker_core_fields[of s] maker_core_fields[of "maker_built s0 old"] by simp_all
      then obtain payment where payment: "msm_taker_payment (ms_mut s) = Some payment" "?checked (ms_spend_args cx s payment)"
        using maker_validates_payment[OF step[unfolded c(1,2)] trusts] agreed c(1) by (auto simp: maker_agreed_def)
      have new: "maker_core (maker_built s0 (old @ take k es)) = maker_core (maker_apply_event 0 MTakerPaymentValidatedAndConfirmed s)"
        unfolding c(3) fold_append comp_apply fold_simps by (rule maker_core_app[OF core[symmetric]])
      have "ms_spend_args cx (maker_apply_event 0 MTakerPaymentValidatedAndConfirmed s) payment = ms_spend_args cx s payment"
        by (simp add: ms_spend_args_def ms_secret_hash_def ms_unique_swap_data_def split: option.splits)
      with payment show ?thesis unfolding maker_checked_core[OF new] by (intro exI[of _ payment]) simp
    qed
    ultimately show "?P (old @ take k es) (acts @ take j acts1)"
      using old by (cases "k = 0") (auto dest: in_set_takeD)
  qed (simp add: maker_command_after_def)
  then show ?thesis using spent by blast
qed


section \<open>A restart resumes the swap\<close>


section \<open>A run comes to its end\<close>

lemma maker_does_not_panic: "maker_has c s \<Longrightarrow> maker_handle_command cx a c s \<noteq> StepPanics"
  by (cases c) (auto simp: maker_command_defs maker_has_def ms_get_my_payment_data_def Let_def split: maker_case_splits)

lemma maker_waits_for_refund:
  assumes "maker_handle_command cx a c s = StepWaits"
  shows "c = MRefundMakerPayment \<and> \<not> can_refund_loop (ca_can_refund_htlc (an_maker_coin a))"
  using assms by (cases c) (auto simp: maker_command_defs Let_def split: maker_case_splits)

lemma maker_turn_running:
  assumes "sw_running w = Some (s, c)" "sw_running (maker_turn cx a env w) = Some (s', c')"
    "maker_handle_command cx a c s \<noteq> StepWaits"
  shows "maker_rank c < maker_rank c'"
  using assms maker_flow_rank maker_handle_flow
  by (cases "maker_handle_command cx a c s")
    (fastforce simp: maker_turn_def swap_turn_def Let_def split: option.splits prod.splits)+

text \<open>
  The loop of \<open>run_maker_swap\<close>. No command is executed twice in a run, so that the answers and the
  surroundings of the events are given by command; the run is left when the task ends or waits.
\<close>

function maker_run ::
    "swap_ctx \<Rightarrow> (maker_swap_command \<Rightarrow> step_answers) \<Rightarrow> (maker_swap_command \<Rightarrow> nat \<Rightarrow> event_env)
       \<Rightarrow> maker_world \<Rightarrow> maker_world" where
  "maker_run cx ans env w = (case sw_running w of
      None \<Rightarrow> w
    | Some (s, c) \<Rightarrow> if maker_handle_command cx (ans c) c s = StepWaits then w
        else maker_run cx ans env (maker_turn cx (ans c) (env c) w))"
  by pat_completeness auto
termination
proof (relation "measure (\<lambda>(cx, ans, env, w). case sw_running w of None \<Rightarrow> 0 | Some (s, c) \<Rightarrow> 13 - maker_rank c)")
  fix cx ans env and w :: maker_world and s c sc
  assume running: "sw_running w = Some sc" "(s, c) = sc" and step: "maker_handle_command cx (ans c) c s \<noteq> StepWaits"
  have bound: "maker_rank c' \<le> 11" for c' by (cases c') auto
  show "((cx, ans, env, maker_turn cx (ans c) (env c) w), (cx, ans, env, w))
      \<in> measure (\<lambda>(cx, ans, env, w). case sw_running w of None \<Rightarrow> 0 | Some (s, c) \<Rightarrow> 13 - maker_rank c)"
  proof (cases "sw_running (maker_turn cx (ans c) (env c) w)")
    case (Some sc')
    then obtain s' c' where "sw_running (maker_turn cx (ans c) (env c) w) = Some (s', c')" by (cases sc') auto
    with maker_turn_running[of w s c cx "ans c" "env c" s' c'] running step bound[of c]
    show ?thesis by auto
  qed (use running bound[of c] in auto)
qed simp

declare maker_run.simps [simp del]


lemma maker_save_succeeds:
  assumes "maker_files_ok (maker_ident s) files" "io_read_error (ee_io env) = None" "io_write_error (ee_io env) = None"
    "\<forall>p. \<exists>addr. sc_address_from_pubkey (ms_maker_coin s) p = Inr addr"
  shows "\<exists>files'. maker_save cx env s e files = Inr files'"
proof -
  obtain addr where "sc_address_from_pubkey (ms_maker_coin s) (ms_my_maker_coin_htlc_pub s) = Inr addr"
    using assms(4) by blast
  with assms(1-3) show ?thesis
    by (auto simp: maker_save_def save_my_maker_swap_event_def load_my_swap_def save_my_swap_def Let_def
        maker_files_ok_def maker_ident_def unwrap_or_def split: option.splits saved_swap.splits)
qed

lemma maker_saves_all:
  assumes "maker_files_ok (maker_ident s) files" "saves_work env"
    "\<forall>p. \<exists>addr. sc_address_from_pubkey (ms_maker_coin s) p = Inr addr"
  shows "\<exists>s' files'. apply_and_save (maker_save cx) maker_apply_event env k es s files = (Some s', files')"
  using assms
proof (induction es arbitrary: k s files)
  case (Cons e es)
  let ?s = "maker_apply_event (ee_now_sec (env k)) e s"
  obtain files' where files': "maker_save cx (env k) ?s e files = Inr files'"
    using maker_save_succeeds[of ?s files "env k" cx e] Cons.prems
    by (auto simp: maker_ident_keeps saves_work_def)
  have ok: "maker_files_ok (maker_ident ?s) files'"
    using maker_save_log[OF files'] Cons.prems(1) by (simp add: maker_ident_keeps)
  have "\<forall>p. \<exists>addr. sc_address_from_pubkey (ms_maker_coin ?s) p = Inr addr" using Cons.prems(3) by simp
  from Cons.IH[OF ok Cons.prems(2) this] files' show ?case by (simp add: Let_def)
qed simp

lemma maker_log_finished:
  assumes "maker_log_of i files = es @ [MFinished]"
  shows "\<exists>sw. files (fst i) = Some (SavedMaker sw) \<and> mss_is_finished sw"
proof -
  obtain sw where sw: "files (fst i) = Some (SavedMaker sw)" "maker_log sw = es @ [MFinished]"
    using assms by (auto simp: maker_log_of_def split: option.splits saved_swap.splits)
  have "mss_is_finished sw" unfolding mss_is_finished_def last_event_def sw(2) by simp
  with sw(1) show ?thesis by blast
qed

text \<open>
  C25: A run of the maker's swap comes to its end, whatever the peer and the chains answer: provided the
  disk works, the loop of \<open>run_maker_swap\<close> neither panics nor goes on for ever, and it ends with the swap
  finished, or waits for the lock time of its payment to pass while it refunds it.
\<close>

theorem maker_run_ends:
  assumes "maker_runs cx (\<lambda>_ _. True) s0 files w" "maker_new_swap cx s0" "files (ms_uuid s0) = None"
    and running: "sw_running w \<noteq> None" and disk: "\<forall>c. saves_work (env c)"
    and addresses: "\<forall>p. \<exists>addr. sc_address_from_pubkey (ms_maker_coin s0) p = Inr addr"
  shows "(sw_running (maker_run cx ans env w) = None \<and> sw_marked_finished (maker_run cx ans env w)
      \<and> (\<exists>sw. sw_files (maker_run cx ans env w) (ms_uuid s0) = Some (SavedMaker sw) \<and> mss_is_finished sw))
    \<or> (\<exists>s. sw_running (maker_run cx ans env w) = Some (s, MRefundMakerPayment)
        \<and> \<not> can_refund_loop (ca_can_refund_htlc (an_maker_coin (ans MRefundMakerPayment))))"
  using assms(1,2) running disk
proof (induction cx ans env w rule: maker_run.induct)
  case (1 cx ans env w)
  obtain s c where sc: "sw_running w = Some (s, c)" using "1.prems"(3) by auto
  note sound = maker_runs_sound[OF "1.prems"(1,2) assms(3)]
  note now = maker.soundD[OF sound sc]
  let ?w = "maker_turn cx (ans c) (env c) w"
  have reached: "maker_runs cx (\<lambda>_ _. True) s0 files ?w"
    using "1.prems"(1) unfolding maker_runs_def maker_turn_def by (rule swap_reach.turn) simp
  show ?case
  proof (cases "maker_handle_command cx (ans c) c s")
    case StepPanics
    then show ?thesis using maker_does_not_panic[of c s] now(2) by (simp add: maker_good_def)
  next
    case StepWaits
    have "maker_run cx ans env w = w" using StepWaits sc by (subst maker_run.simps) simp
    then show ?thesis using maker_waits_for_refund[OF StepWaits] sc by auto
  next
    case (StepDone acts s1 nxt es)
    have run: "maker_run cx ans env w = maker_run cx ans env ?w"
      using sc StepDone by (subst maker_run.simps) simp
    have s1: "maker_ident s1 = maker_ident s0" "ms_maker_coin s1 = ms_maker_coin s0"
      using maker_ident_core[OF maker_handle_core[OF StepDone]] now(3)
        arg_cong[OF maker_handle_core[OF StepDone], of ms_maker_coin] arg_cong[OF now(1), of ms_maker_coin] by simp_all
    obtain s2 files' where saved:
        "apply_and_save (maker_save cx) maker_apply_event (env c) 0 es s1 (sw_files w) = (Some s2, files')"
      using maker_saves_all[of s1 "sw_files w" "env c" cx 0 es] maker.sound_valid[OF sound] "1.prems"(4) addresses s1 by auto
    show ?thesis
    proof (cases nxt)
      case None
      then have c: "c = MFinish" "es = [MFinished]"
        using maker_flow_finish maker_handle_flow[OF StepDone] by auto
      have w': "sw_running ?w = None" "sw_marked_finished ?w" "sw_files ?w = files'"
        using sc StepDone saved None by (simp_all add: maker_turn_def swap_turn_def)
      have "maker_log_of (maker_ident s0) files' = maker_log_of (maker_ident s0) (sw_files w) @ es"
        using maker.apply_and_save_prefix[OF saved] maker.sound_valid[OF sound] s1 by (metis take_all_iff order_refl)
      moreover have "maker_run cx ans env ?w = ?w" using w'(1) by (subst maker_run.simps) simp
      ultimately show ?thesis unfolding run using w' c maker_log_finished[of "maker_ident s0" files']
        by (simp add: maker_ident_def)
    next
      case (Some c')
      then have "sw_running ?w \<noteq> None" using sc StepDone saved by (simp add: maker_turn_def swap_turn_def)
      from "1.IH"[OF sc refl _ reached "1.prems"(2) this "1.prems"(4)] StepDone show ?thesis unfolding run by simp
    qed
  qed
qed


section \<open>What becomes of a payment\<close>

fun maker_early_failure :: "maker_swap_event \<Rightarrow> bool" where
  "maker_early_failure (MStartFailed _) = True"
| "maker_early_failure (MNegotiateFailed _) = True"
| "maker_early_failure (MTakerFeeValidateFailed _) = True"
| "maker_early_failure _ = False"

lemma maker_flow_early:
  assumes "maker_flow c nxt es" "e \<in> set (take k es)" "maker_early_failure e"
  shows "maker_rank c < 3 \<and> maker_get_command (last (take k es)) = Some MFinish"
proof -
  have "maker_rank c < 3 \<and> es = [e]"
    using assms(1) in_set_takeD[OF assms(2)] assms(3) by (cases c) auto
  moreover have "maker_get_command e = Some MFinish" using assms(3) by (cases e) auto
  ultimately show ?thesis using assms(2) by (cases k) auto
qed

lemma maker_recoverable_iff:
  "mss_is_recoverable sw \<longleftrightarrow> mss_is_finished sw \<and> (\<forall>e\<in>set (maker_log sw). \<not> maker_early_failure e)
    \<and> MTakerPaymentSpendConfirmed \<notin> set (maker_log sw) \<and> (\<forall>tx. MMakerPaymentRefunded tx \<notin> set (maker_log sw))"
proof -
  have "maker_not_recoverable_event e \<longleftrightarrow> maker_early_failure e \<or> e = MTakerPaymentSpendConfirmed
      \<or> (\<exists>tx. e = MMakerPaymentRefunded tx)" for e
    by (cases e) auto
  then show ?thesis unfolding mss_is_recoverable_def list_ex_iff by blast
qed

text \<open>
  C26: A maker that has sent its payment never takes the swap for one that had no payment: when the swap
  is finished, the taker payment was spent and the spending confirmed, or the maker payment was
  refunded, or the swap is marked as one whose funds can be recovered.
\<close>

theorem maker_payment_is_not_forgotten:
  assumes "maker_runs cx honest s0 files w" "maker_new_swap cx s0" "files (ms_uuid s0) = None"
    and sent: "sent_payments (sw_acts w) \<noteq> []"
    and sw: "sw_files w (ms_uuid s0) = Some (SavedMaker sw)" "mss_is_finished sw"
  shows "MTakerPaymentSpendConfirmed \<in> set (maker_log sw) \<or> (\<exists>tx. MMakerPaymentRefunded tx \<in> set (maker_log sw))
    \<or> mss_is_recoverable sw"
proof -
  let ?early = "\<lambda>es. \<exists>e\<in>set es. maker_early_failure e"
  let ?P = "\<lambda>es acts. (\<forall>c. maker_command_after es = Some c \<longrightarrow> maker_rank c < 11 \<longrightarrow> \<not> ?early es)
    \<and> (sent_payments acts \<noteq> [] \<longrightarrow> \<not> ?early es \<and> (\<forall>c. maker_command_after es = Some c \<longrightarrow> 3 \<le> maker_rank c))"
  have "?P (maker_log_of (maker_ident s0) (sw_files w)) (sw_acts w)"
  proof (rule maker_history_induct[OF assms(1-3)])
    fix old acts a c s acts1 s1 nxt es j k
    assume old: "?P old acts" and good: "maker_good cx s0 (Some c) old s"
      and step: "maker_handle_command cx a c s = StepDone acts1 s1 nxt es" and k: "k \<le> length es"
    have now: "maker_command_after old = Some c" using good by (simp add: maker_good_def)
    note rank = maker_rank_after[OF good step k]
    have early: "maker_rank c < 3 \<and> maker_command_after (old @ take k es) = Some MFinish" if "?early (take k es)"
    proof -
      from that obtain e where "e \<in> set (take k es)" "maker_early_failure e" by blast
      moreover from this have "0 < k" "es \<noteq> []" by (cases k; auto)+
      ultimately show ?thesis
        using maker_flow_early[OF maker_handle_flow[OF step], of e k] by (simp add: maker_command_after_def)
    qed
    have sends: "c = MSendPayment" if "sent_payments (take j acts1) \<noteq> []"
    proof -
      from that obtain args where "args \<in> set (sent_payments (take j acts1))" by (meson last_in_set)
      then have "args \<in> set (sent_payments acts1)" using sent_payments_take(1) by blast
      then show ?thesis using maker_sent_payments[OF step] by blast
    qed
    have "\<not> ?early (old @ take k es)"
      if "maker_command_after (old @ take k es) = Some c'" "maker_rank c' < 11" for c'
      using that early rank[OF that(1)] old now by (force dest: leD)
    moreover have "\<not> ?early (old @ take k es) \<and> 3 \<le> maker_rank c" if "sent_payments (acts @ take j acts1) \<noteq> []"
      using that sends old now early by (cases "sent_payments acts = []") auto
    ultimately show "?P (old @ take k es) (acts @ take j acts1)" using rank order_trans by blast
  qed (simp add: maker_command_after_def)
  moreover have "maker_log_of (maker_ident s0) (sw_files w) = maker_log sw"
    using sw(1) by (simp add: maker_log_of_def maker_ident_def)
  ultimately show ?thesis using sent sw(2) maker_recoverable_iff by auto
qed


section \<open>A run in which all goes well\<close>

definition demo_maker_swap :: maker_swap where
  "demo_maker_swap = maker_swap_new 5 1 2 [2] 11 (Some 11) \<lparr>maker_coin_confs = 1, maker_coin_nota = False,
     taker_coin_confs = 3, taker_coin_nota = False\<rparr> (demo_swap_coin ''KMD'') (demo_swap_coin ''BTC'') 7800 None 42"

definition demo_maker_answers :: step_answers where
  "demo_maker_answers = demo_step_answers (NegotiationV1 \<lparr>nd1_started_at = 1000, nd1_payment_locktime = 8800,
     nd1_secret_hash = replicate 20 0, nd1_persistent_pubkey = [7]\<rparr>)"

fun demo_maker_world :: "nat \<Rightarrow> maker_world" where
  "demo_maker_world 0 = swap_world_new demo_maker_swap MStart Map.empty"
| "demo_maker_world (Suc n) = maker_turn demo_swap_ctx demo_maker_answers (\<lambda>_. demo_event_env) (demo_maker_world n)"

lemma demo_maker_runs:
  assumes "\<And>m. m < n \<Longrightarrow> honest (sw_acts (demo_maker_world m)) demo_maker_answers"
  shows "maker_runs demo_swap_ctx honest demo_maker_swap Map.empty (demo_maker_world n)"
  using assms
proof (induction n)
  case 0
  then show ?case by (simp add: maker_runs_def swap_reach.start)
next
  case (Suc n)
  then have "maker_runs demo_swap_ctx honest demo_maker_swap Map.empty (demo_maker_world n)" by simp
  then show ?case using Suc.prems[of n]
    by (simp add: maker_runs_def maker_turn_def swap_reach.turn)
qed

lemma demo_maker_new: "maker_new_swap demo_swap_ctx demo_maker_swap"
  by (simp add: maker_new_swap_def demo_swap_ctx_def demo_maker_swap_def maker_swap_new_def)

lemma demo_saves_work: "saves_work (\<lambda>_. demo_event_env)"
  by (simp add: saves_work_def demo_event_env_def)

lemma demo_maker_turn:
  assumes running: "sw_running (demo_maker_world n) = Some (s, c)"
    and step: "maker_handle_command demo_swap_ctx demo_maker_answers c s = StepDone acts s' nxt es"
    and coin: "ms_maker_coin s = demo_swap_coin ''KMD''"
  shows "sw_running (demo_maker_world (Suc n)) = map_option (\<lambda>c'. (fold (maker_apply_event 1000) es s', c')) nxt
    \<and> sw_acts (demo_maker_world (Suc n)) = sw_acts (demo_maker_world n) @ acts
    \<and> maker_log_of (maker_ident demo_maker_swap) (sw_files (demo_maker_world (Suc n)))
        = maker_log_of (maker_ident demo_maker_swap) (sw_files (demo_maker_world n)) @ es"
proof -
  have "maker_runs demo_swap_ctx (\<lambda>_ _. True) demo_maker_swap Map.empty (demo_maker_world n)"
    by (rule demo_maker_runs) simp
  note sound = maker_runs_sound[OF this demo_maker_new refl]
  have s': "maker_ident s' = maker_ident demo_maker_swap" "ms_maker_coin s' = ms_maker_coin s"
    using maker_ident_core[OF maker_handle_core[OF step]] maker.soundD(3)[OF sound running]
      arg_cong[OF maker_handle_core[OF step], of ms_maker_coin] by simp_all
  have "\<forall>p. \<exists>addr. sc_address_from_pubkey (ms_maker_coin s') p = Inr addr"
    using s'(2) coin by (simp add: demo_swap_coin_def demo_coin_def mm_coin.defs)
  then obtain s2 files' where saved: "apply_and_save (maker_save demo_swap_ctx) maker_apply_event (\<lambda>_. demo_event_env) 0 es s'
      (sw_files (demo_maker_world n)) = (Some s2, files')"
    using maker_saves_all[OF _ demo_saves_work, of s'] maker.sound_valid[OF sound] s'(1) by metis
  have "apply_and_save save maker_apply_event (\<lambda>_. demo_event_env) k es s files = (Some s2, files') \<Longrightarrow>
      s2 = fold (maker_apply_event 1000) es s" for save k es s files
    by (induction es arbitrary: k s files) (auto simp: Let_def demo_event_env_def split: sum.splits)
  from this[OF saved] have s2: "s2 = fold (maker_apply_event 1000) es s'" .
  have "maker_log_of (maker_ident demo_maker_swap) files' = maker_log_of (maker_ident demo_maker_swap) (sw_files (demo_maker_world n)) @ es"
    using maker.apply_and_save_prefix[OF saved] maker.sound_valid[OF sound] s'(1) by (metis take_all_iff order_refl)
  then show ?thesis using running step saved s2
    by (cases nxt) (simp_all add: maker_turn_def swap_turn_def)
qed

text \<open>What the surroundings make of each command, for a swap that is as it is after the start.\<close>

definition demo_maker_at :: "maker_swap \<Rightarrow> bool" where
  "demo_maker_at s = (ms_maker_coin s = demo_swap_coin ''KMD'' \<and> ms_taker_coin s = demo_swap_coin ''BTC''
     \<and> msd_started_at (msd s) = 1000 \<and> msd_lock_duration (msd s) = 7800 \<and> \<not> msm_watcher_reward (ms_mut s))"

lemmas demo_maker_simps = maker_command_defs demo_maker_answers_def demo_step_answers_def demo_coin_answers_def Let_def
  ms_upd_mut_def demo_swap_ctx_def demo_swap_coin_def demo_coin_def mm_coin.defs demo_maker_at_def

lemma demo_maker_start:
  "\<exists>s d. maker_handle_command demo_swap_ctx demo_maker_answers MStart demo_maker_swap
     = StepDone [] s (Some MNegotiate) [MStarted d] \<and> demo_maker_at (maker_apply_event 1000 (MStarted d) s)"
  by (simp add: demo_maker_simps demo_maker_swap_def maker_swap_new_def)

lemma demo_maker_negotiate:
  "demo_maker_at s \<Longrightarrow> \<exists>acts d. maker_handle_command demo_swap_ctx demo_maker_answers MNegotiate s
     = StepDone acts s (Some MWaitForTakerFee) [MNegotiated d] \<and> demo_maker_at (maker_apply_event 1000 (MNegotiated d) s)
       \<and> sent_payments acts = []"
  by (simp add: demo_maker_simps maker_negotiation_fault_def u64_abs_diff_def u64_checked_add_def MAX_STARTED_AT_DIFF_def
      MAX_TIME_GAP_FOR_CONNECTED_PEER_def)


lemma demo_maker_fee:
  "demo_maker_at s \<Longrightarrow> \<exists>acts ins tx. maker_handle_command demo_swap_ctx demo_maker_answers MWaitForTakerFee s
     = StepDone acts s (Some MSendPayment) [MMakerPaymentInstructionsReceived ins, MTakerFeeValidated tx]
       \<and> demo_maker_at (fold (maker_apply_event 1000) [MMakerPaymentInstructionsReceived ins, MTakerFeeValidated tx] s)
       \<and> sent_payments acts = []"
  by (simp add: demo_maker_simps validate_fee_loop.simps)

lemma demo_maker_pays:
  "demo_maker_at s \<Longrightarrow> \<exists>args. maker_handle_command demo_swap_ctx demo_maker_answers MSendPayment s
     = StepDone [SendsPayment args (Some (demo_tx [4]))] s (Some MWaitForTakerPayment) [MMakerPaymentSent (tx_ident_of (demo_tx [4]))]
       \<and> demo_maker_at (maker_apply_event 1000 (MMakerPaymentSent (tx_ident_of (demo_tx [4]))) s)"
  by (simp add: demo_maker_simps ms_setup_watcher_reward_def)

lemma demo_maker_receives:
  "demo_maker_at s \<Longrightarrow> msm_maker_payment (ms_mut s) \<noteq> None \<Longrightarrow>
    \<exists>acts tx. maker_handle_command demo_swap_ctx demo_maker_answers MWaitForTakerPayment s
     = StepDone acts s (Some MValidateTakerPayment) [MTakerPaymentReceived tx, MTakerPaymentWaitConfirmStarted]
       \<and> demo_maker_at (maker_apply_event 1000 (MTakerPaymentReceived tx) s) \<and> sent_payments acts = []"
  by (auto simp add: demo_maker_simps ms_get_my_payment_data_def)

lemma demo_maker_validates:
  "demo_maker_at s \<Longrightarrow> msm_taker_payment (ms_mut s) \<noteq> None \<Longrightarrow>
    maker_handle_command demo_swap_ctx demo_maker_answers MValidateTakerPayment s
     = StepDone [] s (Some MSpendTakerPayment) [MTakerPaymentValidatedAndConfirmed]"
  by (auto simp add: demo_maker_simps)

lemma demo_maker_spends:
  "demo_maker_at s \<Longrightarrow> msm_taker_payment (ms_mut s) \<noteq> None \<Longrightarrow>
    \<exists>args. maker_handle_command demo_swap_ctx demo_maker_answers MSpendTakerPayment s
     = StepDone [SpendsPayment args (Some (demo_tx [5]))] s (Some MConfirmTakerPaymentSpend)
         [MTakerPaymentSpent (tx_ident_of (demo_tx [5])), MTakerPaymentSpendConfirmStarted]"
  by (auto simp add: demo_maker_simps broadcast_tx_def demo_tx_def taker_payment_spend_deadline_def
      taker_payment_spend_duration_def)

lemma demo_maker_confirms:
  "demo_maker_at s \<Longrightarrow> msm_taker_payment_spend (ms_mut s) \<noteq> None \<Longrightarrow>
    maker_handle_command demo_swap_ctx demo_maker_answers MConfirmTakerPaymentSpend s
     = StepDone [] s (Some MFinish) [MTakerPaymentSpendConfirmed]"
  by (auto simp add: demo_maker_simps)


definition demo_maker_log :: "nat \<Rightarrow> maker_swap_event list" where
  "demo_maker_log n = maker_log_of (maker_ident demo_maker_swap) (sw_files (demo_maker_world n))"

lemma demo_maker_step:
  assumes "sw_running (demo_maker_world n) = Some (s, c)" "demo_maker_at s"
    "maker_handle_command demo_swap_ctx demo_maker_answers c s = StepDone acts s (Some c') es"
  shows "sw_running (demo_maker_world (Suc n)) = Some (fold (maker_apply_event 1000) es s, c')"
    "sw_acts (demo_maker_world (Suc n)) = sw_acts (demo_maker_world n) @ acts"
    "demo_maker_log (Suc n) = demo_maker_log n @ es"
  using demo_maker_turn[OF assms(1,3)] assms(2) by (simp_all add: demo_maker_at_def demo_maker_log_def)

lemma demo_maker_1:
  "\<exists>s d. sw_running (demo_maker_world 1) = Some (s, MNegotiate) \<and> demo_maker_at s
    \<and> sent_payments (sw_acts (demo_maker_world 1)) = [] \<and> demo_maker_log 1 = [MStarted d]"
proof -
  obtain s d where step: "maker_handle_command demo_swap_ctx demo_maker_answers MStart demo_maker_swap
      = StepDone [] s (Some MNegotiate) [MStarted d]" "demo_maker_at (maker_apply_event 1000 (MStarted d) s)"
    using demo_maker_start by blast
  from demo_maker_turn[of 0, OF _ step(1)] step(2) show ?thesis
    by (auto simp: demo_maker_log_def maker_log_of_def maker_ident_def demo_maker_swap_def maker_swap_new_def)
qed

lemma demo_maker_3:
  "\<exists>s. sw_running (demo_maker_world 3) = Some (s, MSendPayment) \<and> demo_maker_at s
    \<and> (\<forall>m<4. sent_payments (sw_acts (demo_maker_world m)) = [])"
proof -
  obtain s1 where s1: "sw_running (demo_maker_world 1) = Some (s1, MNegotiate)" "demo_maker_at s1"
      "sent_payments (sw_acts (demo_maker_world 1)) = []" using demo_maker_1 by blast
  obtain acts1 d where 1: "maker_handle_command demo_swap_ctx demo_maker_answers MNegotiate s1
      = StepDone acts1 s1 (Some MWaitForTakerFee) [MNegotiated d]"
      "demo_maker_at (maker_apply_event 1000 (MNegotiated d) s1)" "sent_payments acts1 = []"
    using demo_maker_negotiate[OF s1(2)] by blast
  note s2 = demo_maker_step[OF s1(1,2) 1(1)]
  define t where "t = maker_apply_event 1000 (MNegotiated d) s1"
  have t: "sw_running (demo_maker_world 2) = Some (t, MWaitForTakerFee)" "demo_maker_at t"
      "sent_payments (sw_acts (demo_maker_world 2)) = []"
    using s2 1 s1(3) by (simp_all add: t_def numeral_2_eq_2)
  obtain acts2 ins tx where 2: "maker_handle_command demo_swap_ctx demo_maker_answers MWaitForTakerFee t
      = StepDone acts2 t (Some MSendPayment) [MMakerPaymentInstructionsReceived ins, MTakerFeeValidated tx]"
      "demo_maker_at (fold (maker_apply_event 1000) [MMakerPaymentInstructionsReceived ins, MTakerFeeValidated tx] t)"
      "sent_payments acts2 = []"
    using demo_maker_fee[OF t(2)] by blast
  note s3 = demo_maker_step[OF t(1,2) 2(1)]
  have "sent_payments (sw_acts (demo_maker_world 3)) = []" using s3(2) 2(3) t(3) by (simp add: eval_nat_numeral)
  moreover have "sent_payments (sw_acts (demo_maker_world 0)) = []" by simp
  ultimately have "sent_payments (sw_acts (demo_maker_world m)) = []" if "m < 4" for m
    using that s1(3) t(3) by (auto simp: less_Suc_eq eval_nat_numeral simp del: demo_maker_world.simps)
  with s3(1) 2(2) show ?thesis by (auto simp: eval_nat_numeral simp del: demo_maker_world.simps)
qed

lemma demo_maker_4:
  "\<exists>s args. sw_running (demo_maker_world 4) = Some (s, MWaitForTakerPayment) \<and> demo_maker_at s
    \<and> msm_maker_payment (ms_mut s) \<noteq> None \<and> sent_payments (sw_acts (demo_maker_world 4)) = [args]"
proof -
  obtain s where s: "sw_running (demo_maker_world 3) = Some (s, MSendPayment)" "demo_maker_at s"
      "sent_payments (sw_acts (demo_maker_world 3)) = []"
    using demo_maker_3 by force
  obtain args where step: "maker_handle_command demo_swap_ctx demo_maker_answers MSendPayment s
     = StepDone [SendsPayment args (Some (demo_tx [4]))] s (Some MWaitForTakerPayment) [MMakerPaymentSent (tx_ident_of (demo_tx [4]))]"
     "demo_maker_at (maker_apply_event 1000 (MMakerPaymentSent (tx_ident_of (demo_tx [4]))) s)"
    using demo_maker_pays[OF s(2)] by blast
  from demo_maker_step[OF s(1,2) step(1)] step(2) s(3) show ?thesis
    by (simp add: eval_nat_numeral ms_upd_mut_def del: demo_maker_world.simps)
qed


lemma demo_maker_7:
  "\<exists>s args. sw_running (demo_maker_world 7) = Some (s, MConfirmTakerPaymentSpend) \<and> demo_maker_at s
    \<and> msm_taker_payment_spend (ms_mut s) \<noteq> None \<and> sent_payments (sw_acts (demo_maker_world 7)) \<noteq> []
    \<and> SpendsPayment args (Some (demo_tx [5])) \<in> set (sw_acts (demo_maker_world 7))"
proof -
  obtain s where s: "sw_running (demo_maker_world 4) = Some (s, MWaitForTakerPayment)" "demo_maker_at s"
      "msm_maker_payment (ms_mut s) \<noteq> None" "sent_payments (sw_acts (demo_maker_world 4)) \<noteq> []"
    using demo_maker_4 by force
  obtain acts tx where 1: "maker_handle_command demo_swap_ctx demo_maker_answers MWaitForTakerPayment s
      = StepDone acts s (Some MValidateTakerPayment) [MTakerPaymentReceived tx, MTakerPaymentWaitConfirmStarted]"
      "demo_maker_at (maker_apply_event 1000 (MTakerPaymentReceived tx) s)"
    using demo_maker_receives[OF s(2,3)] by blast
  note step1 = demo_maker_step[OF s(1,2) 1(1)]
  define t where "t = maker_apply_event 1000 (MTakerPaymentReceived tx) s"
  have t: "sw_running (demo_maker_world 5) = Some (t, MValidateTakerPayment)" "demo_maker_at t"
      "msm_taker_payment (ms_mut t) \<noteq> None" "sent_payments (sw_acts (demo_maker_world 5)) \<noteq> []"
    using step1 1(2) s(4) by (simp_all add: eval_nat_numeral ms_upd_mut_def t_def del: demo_maker_world.simps)
  note step2 = demo_maker_step[OF t(1,2) demo_maker_validates[OF t(2,3)]]
  define u where "u = maker_apply_event 1000 MTakerPaymentValidatedAndConfirmed t"
  have u: "sw_running (demo_maker_world 6) = Some (u, MSpendTakerPayment)" "demo_maker_at u"
      "msm_taker_payment (ms_mut u) \<noteq> None" "sent_payments (sw_acts (demo_maker_world 6)) \<noteq> []"
    using step2 t by (simp_all add: eval_nat_numeral u_def demo_maker_at_def del: demo_maker_world.simps)
  obtain args where 3: "maker_handle_command demo_swap_ctx demo_maker_answers MSpendTakerPayment u
     = StepDone [SpendsPayment args (Some (demo_tx [5]))] u (Some MConfirmTakerPaymentSpend)
         [MTakerPaymentSpent (tx_ident_of (demo_tx [5])), MTakerPaymentSpendConfirmStarted]"
    using demo_maker_spends[OF u(2,3)] by blast
  from demo_maker_step[OF u(1,2) 3] u show ?thesis
    by (simp add: eval_nat_numeral ms_upd_mut_def demo_maker_at_def del: demo_maker_world.simps) blast
qed

lemma demo_maker_9:
  "sent_payments (sw_acts (demo_maker_world 9)) \<noteq> [] \<and> (\<exists>es. demo_maker_log 9 = es @ [MFinished])"
proof -
  obtain s where s: "sw_running (demo_maker_world 7) = Some (s, MConfirmTakerPaymentSpend)" "demo_maker_at s"
      "msm_taker_payment_spend (ms_mut s) \<noteq> None" "sent_payments (sw_acts (demo_maker_world 7)) \<noteq> []"
    using demo_maker_7 by force
  note step1 = demo_maker_step[OF s(1,2) demo_maker_confirms[OF s(2,3)]]
  define t where "t = maker_apply_event 1000 MTakerPaymentSpendConfirmed s"
  have t: "sw_running (demo_maker_world 8) = Some (t, MFinish)" "ms_maker_coin t = demo_swap_coin ''KMD''"
      "sent_payments (sw_acts (demo_maker_world 8)) \<noteq> []"
    using step1 s by (simp_all add: eval_nat_numeral t_def demo_maker_at_def ms_upd_mut_def del: demo_maker_world.simps)
  have "maker_handle_command demo_swap_ctx demo_maker_answers MFinish t = StepDone [] t None [MFinished]" by simp
  from demo_maker_turn[OF t(1) this t(2)] t(3) show ?thesis
    by (simp add: eval_nat_numeral demo_maker_log_def del: demo_maker_world.simps)
qed

lemma maker_pays_at_most_once_witness:
  "length (sent_payments (sw_acts (demo_maker_world 4))) = 1"
proof -
  have "maker_runs demo_swap_ctx (finds_sent_payments an_maker_coin) demo_maker_swap Map.empty (demo_maker_world 4)"
    by (rule demo_maker_runs) (use demo_maker_3 in \<open>auto simp: finds_sent_payments_def\<close>)
  from maker_pays_at_most_once[OF this demo_maker_new refl] demo_maker_4 show ?thesis by auto
qed

lemma demo_maker_runs_any: "maker_runs demo_swap_ctx (\<lambda>_ _. True) demo_maker_swap Map.empty (demo_maker_world n)"
  by (rule demo_maker_runs) simp

lemma maker_reveals_secret_for_checked_payment_only_witness:
  "\<exists>args r. SpendsPayment args r \<in> set (sw_acts (demo_maker_world 7))
    \<and> checked_payment (\<lambda>_. True) (\<lambda>_ _. True) 2 3 args"
proof -
  obtain args where args: "SpendsPayment args (Some (demo_tx [5])) \<in> set (sw_acts (demo_maker_world 7))"
    using demo_maker_7 by blast
  have "maker_runs demo_swap_ctx (trusts an_taker_coin (\<lambda>_. True) (\<lambda>_ _. True)) demo_maker_swap Map.empty (demo_maker_world 7)"
    by (rule demo_maker_runs) (simp add: trusts_def)
  from maker_reveals_secret_for_checked_payment_only[OF this demo_maker_new refl args] args
  show ?thesis by (auto simp: demo_maker_swap_def maker_swap_new_def)
qed


lemma maker_run_ends_witness:
  "sw_running (maker_run demo_swap_ctx (\<lambda>_. demo_maker_answers) (\<lambda>_ _. demo_event_env) (demo_maker_world 0)) = None
   \<or> (\<exists>s. sw_running (maker_run demo_swap_ctx (\<lambda>_. demo_maker_answers) (\<lambda>_ _. demo_event_env) (demo_maker_world 0))
        = Some (s, MRefundMakerPayment))"
proof -
  have "sw_running (demo_maker_world 0) \<noteq> None" by simp
  moreover have "\<forall>p. \<exists>addr. sc_address_from_pubkey (ms_maker_coin demo_maker_swap) p = Inr addr"
    by (simp add: demo_maker_swap_def maker_swap_new_def demo_swap_coin_def demo_coin_def mm_coin.defs)
  ultimately show ?thesis
    using maker_run_ends[OF demo_maker_runs_any demo_maker_new refl, of 0 "\<lambda>_ _. demo_event_env" "\<lambda>_. demo_maker_answers"]
      demo_saves_work by blast
qed

lemma maker_payment_is_not_forgotten_witness:
  "\<exists>sw. sw_files (demo_maker_world 9) 11 = Some (SavedMaker sw) \<and> mss_is_finished sw
    \<and> (MTakerPaymentSpendConfirmed \<in> set (maker_log sw) \<or> (\<exists>tx. MMakerPaymentRefunded tx \<in> set (maker_log sw))
        \<or> mss_is_recoverable sw)"
proof -
  have u: "ms_uuid demo_maker_swap = 11" by (simp add: demo_maker_swap_def maker_swap_new_def)
  obtain sw where sw: "sw_files (demo_maker_world 9) (ms_uuid demo_maker_swap) = Some (SavedMaker sw)" "mss_is_finished sw"
    using demo_maker_9 maker_log_finished[of "maker_ident demo_maker_swap" "sw_files (demo_maker_world 9)"]
    by (auto simp: demo_maker_log_def maker_ident_def)
  from maker_payment_is_not_forgotten[OF demo_maker_runs_any demo_maker_new refl _ sw] demo_maker_9 sw u
  show ?thesis by auto
qed

end
