(* ===== verification/Taker_Swap_Runs.thy ===== *)
theory Taker_Swap_Runs
  imports Maker_Swap_Runs
begin

text \<open>
  The runs of the taker's swap (\<open>run_taker_swap\<close> in \<open>taker_swap.rs\<close>) and what holds in all of them. They
  differ from the maker's in two ways. The command after a failure is not always the one a restart
  derives from the saved event, and a restart of a swap the watchers were told about looks at the chains
  first and can find that the swap went on without it (\<open>taker_restart.rs\<close>).
\<close>

section \<open>The loop\<close>

type_synonym taker_world = "(taker_swap, taker_swap_command) swap_world"

definition taker_save :: "swap_ctx \<Rightarrow> event_env \<Rightarrow> taker_swap \<Rightarrow> taker_swap_event \<Rightarrow> swap_files \<Rightarrow> string + swap_files" where
  "taker_save cx env s e files = save_my_taker_swap_event cx (ee_io env) s
     \<lparr>tse_timestamp = ee_now_ms env, tse_event = e\<rparr> files"

definition taker_bans :: "taker_swap \<Rightarrow> taker_swap_event list \<Rightarrow> h256 list" where
  "taker_bans s es = map (\<lambda>_. ts_maker_pubkey s) (filter should_ban_maker es)"

definition taker_turn :: "swap_ctx \<Rightarrow> step_answers \<Rightarrow> (nat \<Rightarrow> event_env) \<Rightarrow> taker_world \<Rightarrow> taker_world" where
  "taker_turn cx a env w = swap_turn (taker_handle_command cx a) (taker_save cx) taker_apply_event taker_bans
     ts_uuid env w"

definition taker_kick_start ::
    "swap_ctx \<Rightarrow> swap_coin \<Rightarrow> swap_coin \<Rightarrow> uuid \<Rightarrow> step_answers \<times> u64 \<times> saved_io \<Rightarrow> swap_files
       \<Rightarrow> (taker_swap \<times> taker_swap_command \<times> swap_files) option" where
  "taker_kick_start cx maker_coin taker_coin u r files =
    (case taker_load_by_uuid cx (fst r) (fst (snd r)) (snd (snd r)) maker_coin taker_coin u files of
       Inr (s, Some c, files') \<Rightarrow> Some (s, c, files')
     | _ \<Rightarrow> None)"

section \<open>The automaton of the commands\<close>

fun taker_flow :: "taker_swap_command \<Rightarrow> taker_swap_command option \<Rightarrow> taker_swap_event list \<Rightarrow> bool" where
  "taker_flow TStart nxt es =
    ((\<exists>e. nxt = Some TFinish \<and> es = [TStartFailed e]) \<or> (\<exists>d. nxt = Some TNegotiate \<and> es = [TStarted d]))"
| "taker_flow TNegotiate nxt es =
    ((\<exists>e. nxt = Some TFinish \<and> es = [TNegotiateFailed e]) \<or>
     (\<exists>d. nxt = Some TSendTakerFee \<and> es = [TNegotiated d]))"
| "taker_flow TSendTakerFee nxt es =
    ((\<exists>e. nxt = Some TFinish \<and> es = [TTakerFeeSendFailed e]) \<or>
     (\<exists>tx. nxt = Some TWaitForMakerPayment \<and> es = [TTakerFeeSent tx]))"
| "taker_flow TWaitForMakerPayment nxt es =
    ((\<exists>e. nxt = Some TFinish \<and> es = [TMakerPaymentValidateFailed e]) \<or>
     (\<exists>ins tx. nxt = Some TValidateMakerPayment
        \<and> es = [TTakerPaymentInstructionsReceived ins, TMakerPaymentReceived tx, TMakerPaymentWaitConfirmStarted]))"
| "taker_flow TValidateMakerPayment nxt es =
    ((\<exists>e t. nxt = Some TFinish \<and> es = [e]
        \<and> e \<in> {TMakerPaymentWaitConfirmFailed t, TTakerPaymentTransactionFailed t, TMakerPaymentValidateFailed t}) \<or>
     nxt = Some TSendTakerPayment \<and> es = [TMakerPaymentValidatedAndConfirmed])"
| "taker_flow TSendTakerPayment nxt es =
    ((\<exists>e. nxt = Some TFinish \<and> es = [TTakerPaymentTransactionFailed e]) \<or>
     (\<exists>tx. nxt = Some TWaitForTakerPaymentSpend
        \<and> (es = [TTakerPaymentSent tx] \<or> (\<exists>spend refund. es = [TTakerPaymentSent tx, TWatcherMessageSent spend refund]))))"
| "taker_flow TWaitForTakerPaymentSpend nxt es =
    ((\<exists>t u. nxt = Some TPrepareForTakerPaymentRefund
        \<and> es = [TTakerPaymentWaitForSpendFailed t, TTakerPaymentWaitRefundStarted u]) \<or>
     (\<exists>t. nxt = Some TFinish \<and> es = [TTakerPaymentWaitForSpendFailed t]) \<or>
     (\<exists>d. nxt = Some TSpendMakerPayment \<and> es = [TTakerPaymentSpent d]))"
| "taker_flow TSpendMakerPayment nxt es =
    ((\<exists>t. nxt = Some TFinish \<and> es = [TMakerPaymentSpendFailed t]) \<or>
     (\<exists>tx. nxt = Some TConfirmMakerPaymentSpend \<and> es = [TMakerPaymentSpent tx]))"
| "taker_flow TConfirmMakerPaymentSpend nxt es =
    ((\<exists>t u. nxt = Some TPrepareForTakerPaymentRefund
        \<and> es = [TMakerPaymentSpendConfirmFailed t, TTakerPaymentWaitRefundStarted u]) \<or>
     nxt = Some TFinish \<and> es = [TMakerPaymentSpendConfirmed])"
| "taker_flow TPrepareForTakerPaymentRefund nxt es =
    (nxt = Some TRefundTakerPayment \<and> es = [TTakerPaymentRefundStarted])"
| "taker_flow TRefundTakerPayment nxt es =
    ((\<exists>e. nxt = Some TFinish \<and> es = [TTakerPaymentRefundFailed e]) \<or>
     (\<exists>tx. nxt = Some TFinalizeTakerPaymentRefund \<and> es = [TTakerPaymentRefunded tx]))"
| "taker_flow TFinalizeTakerPaymentRefund nxt es =
    (nxt = Some TFinish \<and> es = [TTakerPaymentRefundFinished])"
| "taker_flow TFinish nxt es = (nxt = None \<and> es = [TFinished])"

fun taker_rank :: "taker_swap_command \<Rightarrow> nat" where
  "taker_rank TStart = 0"
| "taker_rank TNegotiate = 1"
| "taker_rank TSendTakerFee = 2"
| "taker_rank TWaitForMakerPayment = 3"
| "taker_rank TValidateMakerPayment = 4"
| "taker_rank TSendTakerPayment = 5"
| "taker_rank TWaitForTakerPaymentSpend = 6"
| "taker_rank TSpendMakerPayment = 7"
| "taker_rank TConfirmMakerPaymentSpend = 8"
| "taker_rank TPrepareForTakerPaymentRefund = 9"
| "taker_rank TRefundTakerPayment = 10"
| "taker_rank TFinalizeTakerPaymentRefund = 11"
| "taker_rank TFinish = 12"

lemmas taker_command_defs = taker_start_def taker_negotiate_def taker_send_taker_fee_def taker_wait_for_maker_payment_def
  taker_validate_maker_payment_def taker_send_payment_def taker_wait_for_taker_payment_spend_def
  taker_spend_maker_payment_def taker_confirm_maker_payment_spend_def taker_prepare_for_refund_def taker_refund_def
  taker_finalize_refund_def taker_fails_def taker_to_refund_def ts_payment_is_sent_def ts_process_watcher_logic_def

lemma taker_handle_flow:
  "taker_handle_command cx a c s = StepDone acts s' nxt es \<Longrightarrow> taker_flow c nxt es"
  by (cases c) (auto simp: taker_command_defs Let_def split: maker_case_splits)

lemma taker_flow_rank: "taker_flow c (Some c') es \<Longrightarrow> taker_rank c < taker_rank c'"
  by (cases c) auto

lemma taker_flow_finish: "taker_flow c None es \<Longrightarrow> c = TFinish \<and> es = [TFinished]"
  by (cases c) auto

text \<open>A prefix of the events of a command: all of them, the first one or the first two.\<close>

lemma taker_flow_take:
  assumes "taker_flow c nxt es" "0 < k" "k \<le> length es"
  obtains "take k es = es" | e e' rest where "es = e # e' # rest" "take k es = [e]"
    | e e' e'' where "es = [e, e', e'']" "take k es = [e, e']"
proof -
  have "length es = 1 \<or> length es = 2 \<or> length es = 3" using assms(1) by (cases c) auto
  then have "k = length es \<or> (k = 1 \<and> 2 \<le> length es) \<or> (k = 2 \<and> length es = 3)" using assms by linarith
  then show ?thesis
    using that by (auto simp: length_Suc_conv numeral_2_eq_2 numeral_3_eq_3 Suc_le_length_iff)
qed

section \<open>The logs of a swap\<close>

definition taker_command_after :: "taker_swap_event list \<Rightarrow> taker_swap_command option" where
  "taker_command_after es = (if es = [] then Some TStart else taker_get_command (last es))"

lemma taker_flow_resume_rank:
  assumes "taker_flow c nxt es" "0 < k" "k \<le> length es" "taker_get_command (last (take k es)) = Some c'"
  shows "taker_rank c \<le> taker_rank c'"
  using assms(1,2,3)
proof (cases rule: taker_flow_take)
  case 1
  then show ?thesis using assms by (cases c) auto
next
  case (2 e e' rest)
  then show ?thesis using assms by (cases c) auto
next
  case (3 e e' e'')
  then show ?thesis using assms by (cases c) auto
qed

text \<open>
  What the swap must have for a command. The command derived from \<open>TakerPaymentInstructionsReceived\<close>
  comes too early: the maker's payment is only in the next event.
\<close>

definition taker_has :: "taker_swap_command \<Rightarrow> taker_swap \<Rightarrow> bool" where
  "taker_has c s =
    ((3 \<le> taker_rank c \<and> taker_rank c \<le> 11 \<longrightarrow> tsm_taker_fee (ts_mut s) \<noteq> None)
     \<and> (4 \<le> taker_rank c \<and> taker_rank c \<le> 11 \<longrightarrow> tsm_maker_payment (ts_mut s) \<noteq> None)
     \<and> (6 \<le> taker_rank c \<and> taker_rank c \<le> 11 \<longrightarrow> tsm_taker_payment (ts_mut s) \<noteq> None)
     \<and> (c = TConfirmMakerPaymentSpend \<longrightarrow> tsm_maker_payment_spend (ts_mut s) \<noteq> None)
     \<and> (taker_rank c \<le> 3 \<longrightarrow> tsm_maker_payment (ts_mut s) = None))"

fun taker_too_early :: "taker_swap_event \<Rightarrow> bool" where
  "taker_too_early (TTakerPaymentInstructionsReceived _) = True"
| "taker_too_early _ = False"

lemma taker_has_flow:
  assumes "taker_has c s" "taker_flow c nxt es" "0 < k" "k \<le> length es"
    "taker_get_command (last (take k es)) = Some c'" "\<not> taker_too_early (last (take k es))"
  shows "taker_has c' (fold (taker_apply_event 0) (take k es) s)"
  using assms(2,3,4)
proof (cases rule: taker_flow_take)
  case 1
  then show ?thesis using assms(1,2,5,6)
    by (cases c) (auto simp: taker_has_def ts_upd_mut_def ts_push_error_def)
next
  case (2 e e' rest)
  then show ?thesis using assms(1,2,5,6)
    by (cases c) (auto simp: taker_has_def ts_upd_mut_def ts_push_error_def)
next
  case (3 e e' e'')
  then show ?thesis using assms(1,2,5,6)
    by (cases c) (auto simp: taker_has_def ts_upd_mut_def ts_push_error_def)
qed

lemma taker_has_next:
  assumes "taker_has c s" "taker_flow c (Some c') es"
  shows "taker_has c' (fold (taker_apply_event 0) es s)"
  using assms by (cases c) (auto simp: taker_has_def ts_upd_mut_def ts_push_error_def)

section \<open>What the events determine of the swap\<close>

text \<open>
  A swap whose coins both support watchers is looked after by \<open>taker_restart.rs\<close> when it is restarted,
  which can leave \<open>TakerPaymentSpent\<close> unsaved: for such a swap what that event carries is not
  determined by the saved events, in addition to the watcher reward flag and the time of finishing.
\<close>

definition taker_watched :: "taker_swap \<Rightarrow> bool" where
  "taker_watched s = (sc_is_supported_by_watchers (ts_taker_coin s) \<and> sc_is_supported_by_watchers (ts_maker_coin s))"

definition taker_core :: "bool \<Rightarrow> taker_swap \<Rightarrow> taker_swap" where
  "taker_core watched s = s\<lparr>ts_finished_at := 0, ts_mut := (ts_mut s)\<lparr>tsm_watcher_reward := False,
     tsm_taker_payment_spend := (if watched then None else tsm_taker_payment_spend (ts_mut s)),
     tsm_secret := (if watched then 0 else tsm_secret (ts_mut s))\<rparr>\<rparr>"

lemma taker_apply_core:
  "taker_core b (taker_apply_event t e s) = taker_core b (taker_apply_event t' e (taker_core b s))"
  by (cases e; cases b) (simp_all add: taker_core_def ts_upd_mut_def ts_push_error_def)

lemma taker_core_app:
  assumes "taker_core b s = taker_core b s'"
  shows "taker_core b (taker_apply_event t e s) = taker_core b (taker_apply_event t' e s')"
  using taker_apply_core[of b t e s 0] taker_apply_core[of b t' e s' 0] assms by simp

lemma taker_fold_core:
  "taker_core b s = taker_core b s' \<Longrightarrow>
    taker_core b (fold (taker_apply_event t) es s) = taker_core b (fold (taker_apply_event t') es s')"
proof (induction es arbitrary: s s')
  case (Cons e es)
  then show ?case by (simp add: Cons.IH[OF taker_core_app[OF Cons.prems, of t e t']])
qed simp

lemma taker_core_has: "taker_has c (taker_core b s) = taker_has c s"
  by (simp add: taker_has_def taker_core_def)

lemma taker_fixed_fields [simp]:
  "ts_uuid (taker_apply_event t e s) = ts_uuid s"
  "ts_my_order_uuid (taker_apply_event t e s) = ts_my_order_uuid s"
  "ts_taker_amount (taker_apply_event t e s) = ts_taker_amount s"
  "ts_maker_amount (taker_apply_event t e s) = ts_maker_amount s"
  "ts_conf_settings (taker_apply_event t e s) = ts_conf_settings s"
  "ts_maker_coin (taker_apply_event t e s) = ts_maker_coin s"
  "ts_taker_coin (taker_apply_event t e s) = ts_taker_coin s"
  "ts_payment_locktime (taker_apply_event t e s) = ts_payment_locktime s"
  by (cases e, simp_all add: ts_upd_mut_def ts_push_error_def)+

lemma taker_handle_core:
  assumes "taker_handle_command cx a c s = StepDone acts s' nxt es"
  shows "taker_core b s' = taker_core b s"
  using assms by (cases c)
    (auto simp: taker_command_defs Let_def taker_core_def ts_upd_mut_def split: maker_case_splits)

section \<open>A new swap and its file\<close>

definition taker_new_swap :: "swap_ctx \<Rightarrow> taker_swap \<Rightarrow> bool" where
  "taker_new_swap cx s =
    (sx_mm2_internal_pubkey cx = Inr (ts_my_persistent_pub s)
     \<and> s = taker_swap_new (ts_maker_pubkey s) (ts_maker_amount s) (ts_taker_amount s) (ts_my_persistent_pub s)
         (ts_uuid s) (Some (ts_uuid s)) (ts_conf_settings s) (ts_maker_coin s) (ts_taker_coin s)
         (ts_payment_locktime s) (ts_p2p_privkey s))"

definition taker_started_from :: "taker_swap \<Rightarrow> taker_swap_data \<Rightarrow> bool" where
  "taker_started_from s d =
    (tsd_maker_pubkey d = ts_maker_pubkey s
     \<and> tsd_maker_amount d = ts_maker_amount s \<and> tsd_taker_amount d = ts_taker_amount s
     \<and> tsd_lock_duration d = ts_payment_locktime s \<and> tsd_p2p_privkey d = ts_p2p_privkey s
     \<and> ts_conf_settings s = \<lparr>
         swap_confirmations_settings.maker_coin_confs = tsd_maker_payment_confirmations d,
         maker_coin_nota = unwrap_or (requires_notarization (ts_maker_coin s)) (tsd_maker_payment_requires_nota d),
         taker_coin_confs = tsd_taker_payment_confirmations d,
         taker_coin_nota = unwrap_or (requires_notarization (ts_taker_coin s)) (tsd_taker_payment_requires_nota d)\<rparr>
     \<and> taker_refresh_data (ts_maker_coin s) (ts_taker_coin s) d = d
     \<and> tsd_taker_payment_lock d = tsd_started_at d + tsd_lock_duration d)"

definition taker_first :: "taker_swap \<Rightarrow> taker_swap_event \<Rightarrow> bool" where
  "taker_first s e = (case e of TStarted d \<Rightarrow> taker_started_from s d | TStartFailed _ \<Rightarrow> True | _ \<Rightarrow> False)"

lemma taker_first_core: "taker_first (taker_core b s) e = taker_first s e"
  by (cases e) (simp_all add: taker_first_def taker_started_from_def taker_core_def)

lemma taker_start_first:
  assumes "taker_handle_command cx a TStart s = StepDone acts s' nxt es"
  shows "\<exists>e. es = [e] \<and> taker_first s e"
  using assms
  by (auto simp: taker_start_def taker_fails_def Let_def taker_first_def taker_started_from_def taker_refresh_data_def
      split: maker_case_splits)

text \<open>
  What the swap was agreed with, once it has started: the confirmations the taker waits for and its own
  lock time; and once it is negotiated, the lock time of the maker's payment.
\<close>

definition taker_start_agreed :: "taker_swap \<Rightarrow> bool" where
  "taker_start_agreed s =
    (tsd_maker_payment_confirmations (tsd s) = swap_confirmations_settings.maker_coin_confs (ts_conf_settings s)
     \<and> tsd_lock_duration (tsd s) = ts_payment_locktime s
     \<and> tsd_taker_payment_lock (tsd s) = tsd_started_at (tsd s) + tsd_lock_duration (tsd s))"

definition taker_locks_agreed :: "taker_swap \<Rightarrow> bool" where
  "taker_locks_agreed s = (\<exists>maker_started_at.
     u64_abs_diff (tsd_started_at (tsd s)) maker_started_at \<le> MAX_STARTED_AT_DIFF
     \<and> Some (ts_maker_payment_lock s) = u64_checked_add maker_started_at
         (multiplied_lock_duration (tsd_lock_duration (tsd s)) (maker_locktime_multiplier (ts_taker_coin s))))"

definition taker_agreed :: "taker_swap_command \<Rightarrow> taker_swap \<Rightarrow> bool" where
  "taker_agreed c s = ((1 \<le> taker_rank c \<and> taker_rank c \<le> 11 \<longrightarrow> taker_start_agreed s)
     \<and> (2 \<le> taker_rank c \<and> taker_rank c \<le> 11 \<longrightarrow> taker_locks_agreed s))"

lemmas taker_agreed_defs = taker_agreed_def taker_start_agreed_def taker_locks_agreed_def

lemma taker_core_agreed: "taker_agreed c (taker_core b s) = taker_agreed c s"
  by (simp add: taker_agreed_defs taker_core_def)

fun taker_agrees :: "taker_swap_event \<Rightarrow> bool" where
  "taker_agrees (TStarted _) = True"
| "taker_agrees (TNegotiated _) = True"
| "taker_agrees _ = False"

lemma taker_agreement_kept:
  assumes "\<forall>e\<in>set es. \<not> taker_agrees e"
  shows "taker_start_agreed (fold (taker_apply_event t) es s) = taker_start_agreed s"
    "taker_locks_agreed (fold (taker_apply_event t) es s) = taker_locks_agreed s"
proof -
  have "taker_start_agreed (taker_apply_event t e s) = taker_start_agreed s
      \<and> taker_locks_agreed (taker_apply_event t e s) = taker_locks_agreed s" if "\<not> taker_agrees e" for e s
    using that by (cases e) (simp_all add: taker_agreed_defs ts_upd_mut_def ts_push_error_def)
  then show "taker_start_agreed (fold (taker_apply_event t) es s) = taker_start_agreed s"
    "taker_locks_agreed (fold (taker_apply_event t) es s) = taker_locks_agreed s"
    using assms by (induction es arbitrary: s) simp_all
qed

lemma taker_flow_agrees: "taker_flow c nxt es \<Longrightarrow> 2 \<le> taker_rank c \<Longrightarrow> \<forall>e\<in>set es. \<not> taker_agrees e"
  by (cases c) auto

lemma taker_negotiation_accepted:
  assumes "taker_negotiation_fault s data = Inr addrs"
  shows "u64_abs_diff (tsd_started_at (tsd s)) (nd_started_at data) \<le> MAX_STARTED_AT_DIFF
    \<and> Some (nd_payment_locktime data) = u64_checked_add (nd_started_at data)
        (multiplied_lock_duration (tsd_lock_duration (tsd s)) (maker_locktime_multiplier (ts_taker_coin s)))"
  using assms by (auto simp: taker_negotiation_fault_def Let_def not_less split: if_splits)

lemma taker_negotiates:
  assumes "taker_handle_command cx a TNegotiate s = StepDone acts s' nxt [TNegotiated d]"
  shows "\<exists>data addrs. taker_negotiation_fault s data = Inr addrs \<and> mnd_maker_payment_locktime d = nd_payment_locktime data"
  using assms by (fastforce simp: taker_negotiate_def taker_fails_def Let_def split: sum.splits if_splits prod.splits)

lemma taker_negotiate_agrees:
  assumes step: "taker_handle_command cx a TNegotiate s = StepDone acts s' nxt es" and started: "taker_start_agreed s"
  shows "\<exists>e. es = [e] \<and> nxt = taker_get_command e \<and> (\<forall>c. nxt = Some c \<longrightarrow> taker_agreed c (taker_apply_event 0 e s))"
proof -
  have "taker_flow TNegotiate nxt es" using taker_handle_flow[OF step] .
  then consider e where "nxt = Some TFinish" "es = [TNegotiateFailed e]"
    | d where "nxt = Some TSendTakerFee" "es = [TNegotiated d]" by auto
  then show ?thesis
  proof cases
    case 2
    then obtain data addrs where "taker_negotiation_fault s data = Inr addrs"
        "mnd_maker_payment_locktime d = nd_payment_locktime data"
      using taker_negotiates[of cx a s acts s' nxt d] step by blast
    with taker_negotiation_accepted[of s data addrs]
    have "taker_locks_agreed (taker_apply_event 0 (TNegotiated d) s)"
      by (auto simp: taker_locks_agreed_def ts_upd_mut_def Let_def)
    moreover have "taker_start_agreed (taker_apply_event 0 (TNegotiated d) s)"
      using started by (simp add: taker_start_agreed_def ts_upd_mut_def Let_def)
    ultimately show ?thesis using 2 by (simp add: taker_agreed_def)
  qed (simp add: taker_agreed_def)
qed

lemma taker_agreed_step:
  assumes agreed: "taker_agreed c s" and step: "taker_handle_command cx a c s = StepDone acts s' nxt es"
    and k: "0 < k" "k \<le> length es"
    and c': "taker_get_command (last (take k es)) = Some c' \<or> (k = length es \<and> nxt = Some c')"
  shows "taker_agreed c' (fold (taker_apply_event 0) (take k es) s)"
proof -
  have flow: "taker_flow c nxt es" by (rule taker_handle_flow[OF step])
  consider "c = TStart" | "c = TNegotiate" | "2 \<le> taker_rank c" by (cases c) auto
  then show ?thesis
  proof cases
    case 1
    from taker_start_first[OF step[unfolded 1]] obtain e where e: "es = [e]" "taker_first s e" by blast
    have nxt: "nxt = taker_get_command e" using flow 1 e(1) by auto
    have "take k es = [e]" using e k by simp
    with e(2) c' nxt show ?thesis
      by (cases e) (auto simp: taker_agreed_defs taker_first_def taker_started_from_def ts_upd_mut_def)
  next
    case 2
    then have "taker_start_agreed s" using agreed by (simp add: taker_agreed_def)
    from taker_negotiate_agrees[OF step[unfolded 2] this] obtain e where
      e: "es = [e]" "nxt = taker_get_command e" "\<forall>c. nxt = Some c \<longrightarrow> taker_agreed c (taker_apply_event 0 e s)" by blast
    with k c' show ?thesis by auto
  next
    case 3
    have "\<forall>e\<in>set (take k es). \<not> taker_agrees e"
      using taker_flow_agrees[OF flow 3] by (auto dest: in_set_takeD)
    moreover have "taker_rank c \<le> taker_rank c'"
      using c' taker_flow_resume_rank[OF flow k] taker_flow_rank[of c c' es] flow by auto
    ultimately show ?thesis using agreed 3 by (simp add: taker_agreed_def taker_agreement_kept)
  qed
qed

text \<open>
  Which command can follow a log: the one a restart derives from its last event; \<open>Finish\<close> in two
  failures for which a restart would take up the refund; and the spending of the maker's payment when
  a restart found the taker's payment spent and did not save that.
\<close>

fun taker_diverges :: "taker_swap_event \<Rightarrow> bool" where
  "taker_diverges (TMakerPaymentSpendFailed _) = True"
| "taker_diverges (TTakerPaymentWaitForSpendFailed _) = True"
| "taker_diverges _ = False"

definition taker_follows :: "taker_swap \<Rightarrow> taker_swap_event list \<Rightarrow> taker_swap_command \<Rightarrow> bool" where
  "taker_follows s0 es c = (\<exists>c0. taker_command_after es = Some c0 \<and>
    (c = c0 \<or> (c = TFinish \<and> es \<noteq> [] \<and> taker_diverges (last es))
     \<or> (taker_watched s0 \<and> c0 = TWaitForTakerPaymentSpend \<and> c = TSpendMakerPayment)))"

lemma taker_flow_follows:
  assumes "taker_flow c (Some c') es"
  shows "taker_follows s0 (old @ es) c'"
  using assms by (cases c) (auto simp: taker_follows_def taker_command_after_def)

lemma taker_follows_rank:
  assumes "taker_follows s0 es c" "taker_command_after es = Some c0"
  shows "taker_rank c0 \<le> taker_rank c"
proof -
  have "taker_rank c' \<le> taker_rank TFinish" for c' by (cases c') auto
  with assms show ?thesis by (auto simp: taker_follows_def)
qed

definition taker_good :: "swap_ctx \<Rightarrow> taker_swap \<Rightarrow> taker_swap_command option \<Rightarrow> taker_swap_event list \<Rightarrow> taker_swap \<Rightarrow> bool" where
  "taker_good cx s0 nxt es s =
    (taker_new_swap cx s0
     \<and> (if es = [] then taker_core (taker_watched s0) s = taker_core (taker_watched s0) s0 else taker_first s0 (hd es))
     \<and> (\<forall>c. nxt = Some c \<longrightarrow> taker_agreed c s \<and> taker_follows s0 es c
         \<and> (if es \<noteq> [] \<and> taker_too_early (last es)
             then c = TValidateMakerPayment \<and> tsm_maker_payment (ts_mut s) = None else taker_has c s)))"

lemma taker_good_has:
  assumes "taker_good cx s0 (Some c) es s" "taker_handle_command cx a c s = StepDone acts s' nxt es'"
  shows "taker_has c s"
  using assms by (auto simp: taker_good_def taker_validate_maker_payment_def split: if_splits)

lemma taker_good_first:
  assumes good: "taker_good cx s0 (Some c) old s" and step: "taker_handle_command cx a c s = StepDone acts s' nxt es"
    and k: "0 < k" "k \<le> length es"
  shows "taker_first s0 (hd (old @ take k es))"
proof (cases "old = []")
  case True
  then have "c = TStart" "taker_core (taker_watched s0) s = taker_core (taker_watched s0) s0"
    using good by (auto simp: taker_good_def taker_follows_def taker_command_after_def)
  with step obtain e where "es = [e]" "taker_first s e" using taker_start_first by blast
  moreover have "taker_first s0 e"
    by (metis \<open>taker_first s e\<close> \<open>taker_core _ s = _\<close> taker_first_core)
  ultimately show ?thesis using True k by (cases k) auto
next
  case False
  then show ?thesis using good by (simp add: taker_good_def)
qed

lemma taker_good_cut:
  assumes good: "taker_good cx s0 (Some c) old s" and step: "taker_handle_command cx a c s = StepDone acts s' nxt es"
    and k: "0 < k" "k \<le> length es"
  shows "taker_good cx s0 (taker_get_command (last (take k es))) (old @ take k es)
    (fold (taker_apply_event 0) (take k es) s)"
proof -
  note flow = taker_handle_flow[OF step] and has = taker_good_has[OF good step]
  have ne: "take k es \<noteq> []" using k by auto
  let ?s = "fold (taker_apply_event 0) (take k es) s"
  have "if taker_too_early (last (take k es)) then c' = TValidateMakerPayment \<and> tsm_maker_payment (ts_mut ?s) = None
      else taker_has c' ?s"
    if c': "taker_get_command (last (take k es)) = Some c'" for c'
  proof (cases "taker_too_early (last (take k es))")
    case True
    have "c = TWaitForMakerPayment" using flow in_set_takeD[OF last_in_set[OF ne]] True by (cases c) auto
    with True flow k c' has show ?thesis
      by (auto simp: taker_has_def ts_upd_mut_def take_Cons' split: if_splits)
  qed (use taker_has_flow[OF has flow k c'] in simp)
  moreover have "taker_agreed c' ?s" if "taker_get_command (last (take k es)) = Some c'" for c'
    using taker_agreed_step[OF _ step k] good that by (simp add: taker_good_def)
  moreover have "taker_follows s0 (old @ take k es) c'" if "taker_get_command (last (take k es)) = Some c'" for c'
    using that ne by (simp add: taker_follows_def taker_command_after_def)
  ultimately show ?thesis using taker_good_first[OF good step k] good ne by (simp add: taker_good_def)
qed

lemma taker_good_step:
  assumes good: "taker_good cx s0 (Some c) old s" and step: "taker_handle_command cx a c s = StepDone acts s' nxt es"
  shows "taker_good cx s0 nxt (old @ es) (fold (taker_apply_event 0) es s)"
proof -
  note flow = taker_handle_flow[OF step] and has = taker_good_has[OF good step]
  have k: "0 < length es" "\<not> taker_too_early (last es)" using flow by (cases c; auto)+
  have "taker_has c' (fold (taker_apply_event 0) es s)" "taker_follows s0 (old @ es) c'" if "nxt = Some c'" for c'
    using taker_has_next[OF has] taker_flow_follows flow that by blast+
  moreover have "taker_agreed c' (fold (taker_apply_event 0) es s)" if "nxt = Some c'" for c'
    using taker_agreed_step[OF _ step k(1)] good that by (simp add: taker_good_def)
  ultimately show ?thesis using taker_good_first[OF good step k(1)] good k by (auto simp: taker_good_def)
qed

lemma taker_good_core:
  assumes "taker_core (taker_watched s0) s = taker_core (taker_watched s0) s'" "taker_good cx s0 nxt es s"
  shows "taker_good cx s0 nxt es s'"
proof -
  have "tsm_maker_payment (ts_mut (taker_core b s)) = tsm_maker_payment (ts_mut s)" for b s
    by (simp add: taker_core_def)
  then have "tsm_maker_payment (ts_mut s') = tsm_maker_payment (ts_mut s)" by (metis assms(1))
  moreover have "taker_has c s' = taker_has c s" for c by (metis assms(1) taker_core_has)
  moreover have "taker_agreed c s' = taker_agreed c s" for c by (metis assms(1) taker_core_agreed)
  ultimately show ?thesis using assms(2) assms(1)[symmetric] by (simp add: taker_good_def)
qed

definition taker_log_of :: "uuid \<Rightarrow> swap_files \<Rightarrow> taker_swap_event list" where
  "taker_log_of u files = (case files u of Some (SavedTaker sw) \<Rightarrow> taker_log sw | _ \<Rightarrow> [])"

definition taker_files_ok :: "uuid \<Rightarrow> swap_files \<Rightarrow> bool" where
  "taker_files_ok u files = (case files u of
      None \<Rightarrow> True
    | Some (SavedTaker sw) \<Rightarrow> tss_uuid sw = u
    | Some (SavedMaker _) \<Rightarrow> False)"

lemma tss_set_usd_prices_keeps [simp]:
  "tss_uuid (tss_set_usd_prices io sw) = tss_uuid sw" "tss_events (tss_set_usd_prices io sw) = tss_events sw"
  by (simp_all add: tss_set_usd_prices_def split: option.splits)

lemma taker_save_log:
  assumes "taker_save cx env s e files = Inr files'" "taker_files_ok (ts_uuid s) files"
  shows "taker_files_ok (ts_uuid s) files' \<and> taker_log_of (ts_uuid s) files' = taker_log_of (ts_uuid s) files @ [e]"
  using assms
  by (auto simp: taker_save_def save_my_taker_swap_event_def load_my_swap_def save_my_swap_def Let_def
      taker_files_ok_def taker_log_of_def taker_saved_new_def unwrap_or_def
      split: sum.splits option.splits saved_swap.splits if_splits)

lemma taker_restored_core:
  assumes new: "taker_new_swap cx s0" and id: "tss_uuid sw = ts_uuid s0"
    and first: "taker_log sw \<noteq> []" "taker_first s0 (hd (taker_log sw))"
    and restored: "taker_restored cx now (ts_maker_coin s0) (ts_taker_coin s0) sw = Inr s"
  shows "s = fold (taker_apply_event now) (taker_log sw) s0"
    "taker_refresh_saved (ts_maker_coin s0) (ts_taker_coin s0) sw = sw"
proof -
  obtain d es where log: "taker_log sw = TStarted d # es"
    using first restored
    by (cases "taker_log sw"; cases "hd (taker_log sw)") (auto simp: taker_restored_def taker_first_def)
  then have started: "taker_started_from s0 d" using first by (simp add: taker_first_def)
  have s0: "s0 = taker_swap_new (ts_maker_pubkey s0) (ts_maker_amount s0) (ts_taker_amount s0) (ts_my_persistent_pub s0)
      (ts_uuid s0) (Some (ts_uuid s0)) (ts_conf_settings s0) (ts_maker_coin s0) (ts_taker_coin s0)
      (ts_payment_locktime s0) (ts_p2p_privkey s0)"
    and pub: "sx_mm2_internal_pubkey cx = Inr (ts_my_persistent_pub s0)"
    using new unfolding taker_new_swap_def by blast+
  note fields = started[unfolded taker_started_from_def]
  note rebuilt = s0[symmetric, unfolded fields[THEN conjunct2, THEN conjunct2, THEN conjunct2, THEN conjunct2,
    THEN conjunct2, THEN conjunct1]]
  show "s = fold (taker_apply_event now) (taker_log sw) s0"
    using restored fields
    unfolding taker_restored_def log list.case taker_swap_event.case pub sum.case Let_def
    by (simp add: id rebuilt)
  show "taker_refresh_saved (ts_maker_coin s0) (ts_taker_coin s0) sw = sw"
    using log fields by (cases "tss_events sw") (auto simp: taker_refresh_saved_def)
qed

section \<open>Coming back\<close>

text \<open>What a restart finds: the command it would have taken up, the events it adds and saves, the command it takes up.\<close>

definition taker_caught_up ::
    "taker_swap_command \<Rightarrow> taker_swap_event list \<Rightarrow> taker_swap_command \<Rightarrow> bool" where
  "taker_caught_up c0 new c =
    ((new = [] \<and> (c = c0 \<or> (c0 = TWaitForTakerPaymentSpend \<and> c = TSpendMakerPayment)))
     \<or> (\<exists>d tx. c0 = TWaitForTakerPaymentSpend \<and> new = [TTakerPaymentSpent d, TMakerPaymentSpentByWatcher tx]
         \<and> c = TConfirmMakerPaymentSpend)
     \<or> (\<exists>tx. c0 = TSpendMakerPayment \<and> new = [TMakerPaymentSpentByWatcher tx] \<and> c = TConfirmMakerPaymentSpend)
     \<or> (\<exists>tx. c0 \<in> {TWaitForTakerPaymentSpend, TPrepareForTakerPaymentRefund, TRefundTakerPayment}
         \<and> new = [TTakerPaymentRefundedByWatcher tx] \<and> c = TFinish))"

definition cb_with :: "u64 \<Rightarrow> u64 \<Rightarrow> taker_swap_event \<Rightarrow> taker_comeback \<Rightarrow> taker_comeback" where
  "cb_with now now_ms e cb = (let cb1 = cb_add_event now now_ms e cb
     in cb1\<lparr>cb_files := (cb_files cb)(tss_uuid (cb_saved cb) \<mapsto> SavedTaker (cb_saved cb1))\<rparr>)"

lemma cb_save_added:
  assumes "cb_save io (cb_add_event now now_ms e cb) = Inr cb'"
  shows "cb' = cb_with now now_ms e cb"
  using assms by (auto simp: cb_save_def cb_with_def cb_add_event_def save_my_swap_def Let_def split: option.splits sum.splits)

lemma map_sum_Inr_iff: "map_sum f g x = Inr y \<longleftrightarrow> (\<exists>z. x = Inr z \<and> y = g z)"
  by (cases x) auto

lemma check_maker_payment_cases:
  assumes "check_maker_payment_spend_and_add_event a now_ms io cb = Inr (c, cb')"
  shows "(c = TSpendMakerPayment \<and> cb' = cb) \<or> (c = TConfirmMakerPaymentSpend
    \<and> (\<exists>tx. cb' = cb_with (an_now_sec a) now_ms (TMakerPaymentSpentByWatcher tx) cb))"
  using assms
  by (auto simp: check_maker_payment_spend_and_add_event_def Let_def map_sum_Inr_iff
      split: option.splits sum.splits found_swap_tx_spend.splits dest!: cb_save_added)

lemma refunded_by_watcher_cases:
  assumes "add_taker_payment_refunded_by_watcher_event a now_ms io tx cb = Inr (c, cb')"
  shows "c = TFinish \<and> (\<exists>tx. cb' = cb_with (an_now_sec a) now_ms (TTakerPaymentRefundedByWatcher tx) cb)"
  using assms
  by (auto simp: add_taker_payment_refunded_by_watcher_event_def Let_def map_sum_Inr_iff
      split: sum.splits dest!: cb_save_added)

lemma taker_payment_spent_cases:
  assumes "add_taker_payment_spent_event a now_ms tx cb = Inr cb'"
  shows "\<exists>d. cb' = cb_add_event (an_now_sec a) now_ms (TTakerPaymentSpent d) cb"
  using assms by (auto simp: add_taker_payment_spent_event_def split: sum.splits)

definition cb_result :: "u64 \<Rightarrow> taker_comeback \<Rightarrow> taker_swap_event list \<Rightarrow> taker_comeback \<Rightarrow> bool" where
  "cb_result now cb new cb' =
    (taker_core True (cb_swap cb') = taker_core True (fold (taker_apply_event now) new (cb_swap cb))
     \<and> (if new = [] then cb_files cb' = cb_files cb
        else cb_files cb' = (cb_files cb)(tss_uuid (cb_saved cb) \<mapsto> SavedTaker (cb_saved cb'))
          \<and> taker_log (cb_saved cb') = taker_log (cb_saved cb) @ new
          \<and> tss_uuid (cb_saved cb') = tss_uuid (cb_saved cb)))"

lemma cb_result_simps:
  "cb_result now cb [] cb"
  "cb_result now cb [e] (cb_with now now_ms e cb)"
  "cb_result now cb [] (cb_add_event now now_ms (TTakerPaymentSpent d) cb)"
  "cb_result now cb [TTakerPaymentSpent d, e] (cb_with now now_ms e (cb_add_event now now_ms (TTakerPaymentSpent d) cb))"
  by (simp_all add: cb_result_def cb_with_def cb_add_event_def Let_def taker_core_def ts_upd_mut_def)

lemma taker_activity_cases:
  assumes "get_command_based_on_activity a now_ms io cb c0 = Inr (c, cb')"
  shows "\<exists>new. taker_caught_up c0 new c \<and> cb_result (an_now_sec a) cb new cb'"
proof -
  have refunded: ?thesis if "add_taker_payment_refunded_by_watcher_event a now_ms io tx cb = Inr (c, cb')"
    "c0 \<in> {TWaitForTakerPaymentSpend, TPrepareForTakerPaymentRefund, TRefundTakerPayment}" for tx
    using refunded_by_watcher_cases[OF that(1)] that(2) cb_result_simps(2) by (fastforce simp: taker_caught_up_def)
  have spending: ?thesis if "check_maker_payment_spend_and_add_event a now_ms io cb = Inr (c, cb')" "c0 = TSpendMakerPayment"
    using check_maker_payment_cases[OF that(1)] that(2) cb_result_simps(1,2) by (fastforce simp: taker_caught_up_def)
  have spent: ?thesis if "add_taker_payment_spent_event a now_ms tx cb = Inr cb1" "c0 = TWaitForTakerPaymentSpend"
    "check_maker_payment_spend_and_add_event a now_ms io cb1 = Inr (c, cb')" for tx cb1
    using taker_payment_spent_cases[OF that(1)] check_maker_payment_cases[OF that(3)] that(2) cb_result_simps(3,4)
    by (fastforce simp: taker_caught_up_def)
  have same: ?thesis if "(c, cb') = (c0, cb)"
    using that cb_result_simps(1) by (auto simp: taker_caught_up_def)
  show ?thesis
    using assms same refunded spending spent
    by (cases c0) (auto simp: get_command_based_on_activity_def Let_def
      split: if_splits sum.splits option.splits found_swap_tx_spend.splits)
qed

lemma taker_restore_cases:
  assumes kick: "taker_kick_start cx (ms_coin) (ts_coin) (ts_uuid s0) r files = Some (s, c, files')"
    and coins: "ms_coin = ts_maker_coin s0" "ts_coin = ts_taker_coin s0"
    and ok: "taker_files_ok (ts_uuid s0) files"
    and es: "es = taker_log_of (ts_uuid s0) files"
    and good: "es \<noteq> [] \<Longrightarrow> taker_good cx s0 (taker_get_command (last es)) es (fold (taker_apply_event 0) es s0)"
  obtains new c0 where "es \<noteq> []" "taker_get_command (last es) = Some c0" "taker_caught_up c0 new c"
    "taker_log_of (ts_uuid s0) files' = es @ new" "taker_files_ok (ts_uuid s0) files'"
    "c = c0 \<and> new = [] \<or> taker_watched s0"
    "taker_core (taker_watched s0) s = taker_core (taker_watched s0) (fold (taker_apply_event 0) (es @ new) s0)"
proof -
  let ?now = "an_now_sec (fst r)"
  from kick coins obtain sw where sw: "files (ts_uuid s0) = Some (SavedTaker sw)"
      "taker_load_from_saved cx (fst r) (fst (snd r)) (snd (snd r)) (ts_maker_coin s0) (ts_taker_coin s0) sw files = Inr (s, Some c, files')"
    by (auto simp: taker_kick_start_def taker_load_by_uuid_def load_my_swap_def
        split: sum.splits option.splits saved_swap.splits)
  have log: "es = taker_log sw" using es sw(1) by (simp add: taker_log_of_def)
  have id: "tss_uuid sw = ts_uuid s0" using ok sw(1) by (simp add: taker_files_ok_def)
  obtain s1 c0 where s1: "taker_restored cx ?now (ts_maker_coin s0) (ts_taker_coin s0) sw = Inr s1"
      "taker_get_command (last (taker_log sw)) = Some c0"
    using sw(2) by (auto simp: taker_load_from_saved_def split: sum.splits option.splits)
  have ne: "es \<noteq> []" using s1(1) log by (cases "tss_events sw") (auto simp: taker_restored_def)
  then have "taker_new_swap cx s0" "taker_first s0 (hd (taker_log sw))"
    using good log by (simp_all add: taker_good_def)
  note restored = taker_restored_core[OF this(1) id ne[unfolded log] this(2) s1(1)]
  let ?cb = "\<lparr>cb_swap = s1, cb_saved = sw, cb_files = files\<rparr>"
  have core: "taker_core b (fold (taker_apply_event t) new s1) = taker_core b (fold (taker_apply_event 0) (es @ new) s0)" for b t new
    unfolding log fold_append comp_apply restored(1) by (rule taker_fold_core, rule taker_fold_core) simp
  show ?thesis
  proof (cases "taker_watched s0 \<and> tss_watcher_message_sent sw")
    case False
    then have "s = s1" "c = c0" "files' = files"
      using sw(2) s1 by (auto simp: taker_load_from_saved_def taker_watched_def split: if_splits)
    with that[of c0 "[]"] show ?thesis
      using ne s1(2) es ok core[of _ _ "[]"] log by (simp add: taker_caught_up_def)
  next
    case True
    then obtain cb' where cb': "get_command_based_on_activity (fst r) (fst (snd r)) (snd (snd r)) ?cb c0 = Inr (c, cb')"
        "s = cb_swap cb'" "files' = cb_files cb'"
      using sw(2) s1 restored(2) by (auto simp: taker_load_from_saved_def taker_watched_def map_sum_Inr_iff)
    from taker_activity_cases[OF cb'(1)] obtain new where new: "taker_caught_up c0 new c" "cb_result ?now ?cb new cb'" by blast
    have "taker_log_of (ts_uuid s0) files' = es @ new \<and> taker_files_ok (ts_uuid s0) files'"
      using new(2) cb'(3) es ok log id by (auto simp: cb_result_def taker_log_of_def taker_files_ok_def split: if_splits)
    moreover have "taker_core True s = taker_core True (fold (taker_apply_event 0) (es @ new) s0)"
      using new(2) cb'(2) core[of True ?now new] by (simp add: cb_result_def)
    ultimately show ?thesis using that[of c0 new] ne s1(2) new(1) True log by simp
  qed
qed

lemma taker_caught_up_has:
  assumes "taker_caught_up c0 new c" "new \<noteq> []" "taker_has c0 s" "taker_agreed c0 s"
  shows "taker_has c (fold (taker_apply_event 0) new s) \<and> taker_agreed c (fold (taker_apply_event 0) new s)"
proof -
  from assms(1,2) consider d tx where "c0 = TWaitForTakerPaymentSpend" "c = TConfirmMakerPaymentSpend"
      "new = [TTakerPaymentSpent d, TMakerPaymentSpentByWatcher tx]"
    | tx where "c0 = TSpendMakerPayment" "c = TConfirmMakerPaymentSpend" "new = [TMakerPaymentSpentByWatcher tx]"
    | "c = TFinish"
    unfolding taker_caught_up_def by blast
  then show ?thesis
    using assms(3,4) by cases (auto simp: taker_has_def taker_agreed_defs ts_upd_mut_def)
qed

lemma taker_restore_good:
  assumes kick: "taker_kick_start cx (ts_maker_coin s0) (ts_taker_coin s0) (ts_uuid s0) r files = Some (s, c, files')"
    and ok: "taker_files_ok (ts_uuid s0) files"
    and es: "es = taker_log_of (ts_uuid s0) files" "es' = taker_log_of (ts_uuid s0) files'"
    and good: "es \<noteq> [] \<Longrightarrow> taker_good cx s0 (taker_get_command (last es)) es (fold (taker_apply_event 0) es s0)"
  shows "taker_files_ok (ts_uuid s0) files'
    \<and> taker_core (taker_watched s0) s = taker_core (taker_watched s0) (fold (taker_apply_event 0) es' s0)
    \<and> taker_good cx s0 (Some c) es' (fold (taker_apply_event 0) es' s0)
    \<and> taker_good cx s0 (taker_get_command (last es')) es' (fold (taker_apply_event 0) es' s0)"
proof -
  from taker_restore_cases[OF kick refl refl ok es(1) good] obtain new c0 where
    new: "es \<noteq> []" "taker_get_command (last es) = Some c0" "taker_caught_up c0 new c"
      "es' = es @ new" "taker_files_ok (ts_uuid s0) files'" "c = c0 \<and> new = [] \<or> taker_watched s0"
      "taker_core (taker_watched s0) s = taker_core (taker_watched s0) (fold (taker_apply_event 0) es' s0)"
    unfolding es(2) by metis
  let ?built = "\<lambda>es. fold (taker_apply_event 0) es s0"
  have g: "taker_good cx s0 (Some c0) es (?built es)" using good new(1,2) by simp
  have has: "taker_has c0 (?built es) \<or> c0 = TValidateMakerPayment" and agreed: "taker_agreed c0 (?built es)"
    using g by (auto simp: taker_good_def split: if_splits)
  show ?thesis
  proof (cases "new = []")
    case True
    have "taker_good cx s0 (Some c) es (?built es)"
    proof (cases "c = c0")
      case False
      then have "c0 = TWaitForTakerPaymentSpend" "c = TSpendMakerPayment" "taker_watched s0"
        using new(3,6) True by (auto simp: taker_caught_up_def)
      moreover from this have "\<not> taker_too_early (last es)" using new(2) by (cases "last es") auto
      ultimately show ?thesis using g new(1,2) has agreed
        by (auto simp: taker_good_def taker_has_def taker_agreed_def taker_follows_def taker_command_after_def)
    qed (use g in simp)
    with True new g show ?thesis by simp
  next
    case False
    then have c: "taker_get_command (last new) = Some c" "\<not> taker_too_early (last new)" and c0: "c0 \<noteq> TValidateMakerPayment"
      using new(3) by (auto simp: taker_caught_up_def)
    have "taker_has c (?built es') \<and> taker_agreed c (?built es')"
      using taker_caught_up_has[OF new(3) False, of "?built es"] has agreed c0 new(4) by simp
    moreover have "taker_follows s0 es' c"
      using c False new(4) by (simp add: taker_follows_def taker_command_after_def)
    ultimately have "taker_good cx s0 (Some c) es' (?built es')"
      using g new(1,4) c(2) False by (simp add: taker_good_def)
    with c False new(4,5,7) show ?thesis by simp
  qed
qed

lemma taker_ident_core: "taker_core b s = taker_core b s' \<Longrightarrow> ts_uuid s = ts_uuid s'"
proof -
  assume "taker_core b s = taker_core b s'"
  then have "ts_uuid (taker_core b s) = ts_uuid (taker_core b s')" by simp
  then show ?thesis by (simp add: taker_core_def)
qed

interpretation taker: swap_machine "taker_handle_command cx" "taker_save cx" taker_apply_event ts_uuid
    "taker_kick_start cx (ts_maker_coin s0) (ts_taker_coin s0) (ts_uuid s0)" taker_get_command
    "taker_core (taker_watched s0)" taker_files_ok taker_log_of s0 "taker_good cx s0"
  for cx s0
  by (rule swap_machine.intro) (fact taker_handle_core taker_core_app taker_ident_core taker_fixed_fields(1)
      taker_save_log taker_good_core taker_good_step taker_good_cut taker_restore_good)+

section \<open>All runs of the taker's swap\<close>

definition taker_runs ::
    "swap_ctx \<Rightarrow> (swap_act list \<Rightarrow> step_answers \<Rightarrow> bool) \<Rightarrow> taker_swap \<Rightarrow> swap_files \<Rightarrow> taker_world \<Rightarrow> bool" where
  "taker_runs cx honest s0 files =
    swap_reach (taker_handle_command cx) (taker_save cx) taker_apply_event taker_bans ts_uuid
      (taker_kick_start cx (ts_maker_coin s0) (ts_taker_coin s0) (ts_uuid s0)) honest
      (swap_world_new s0 TStart files)"

abbreviation taker_built :: "taker_swap \<Rightarrow> taker_swap_event list \<Rightarrow> taker_swap" where
  "taker_built s0 es \<equiv> fold (taker_apply_event 0) es s0"

lemma taker_new_sound:
  assumes "taker_new_swap cx s0" "files (ts_uuid s0) = None"
  shows "taker.sound s0 cx (swap_world_new s0 TStart files)"
proof (rule taker.sound_new)
  show "taker_files_ok (ts_uuid s0) files" "taker_log_of (ts_uuid s0) files = []"
    using assms(2) by (simp_all add: taker_files_ok_def taker_log_of_def)
  have s0: "s0 = taker_swap_new (ts_maker_pubkey s0) (ts_maker_amount s0) (ts_taker_amount s0) (ts_my_persistent_pub s0)
         (ts_uuid s0) (Some (ts_uuid s0)) (ts_conf_settings s0) (ts_maker_coin s0) (ts_taker_coin s0)
         (ts_payment_locktime s0) (ts_p2p_privkey s0)"
    using assms(1) unfolding taker_new_swap_def by blast
  have "tsm_maker_payment (ts_mut s0) = None" by (subst s0) (simp add: taker_swap_new_def)
  then show "taker_good cx s0 (Some TStart) [] s0"
    using assms(1) by (simp add: taker_good_def taker_command_after_def taker_has_def taker_agreed_def taker_follows_def)
qed

lemma taker_runs_sound:
  assumes "taker_runs cx honest s0 files w" "taker_new_swap cx s0" "files (ts_uuid s0) = None"
  shows "taker.sound s0 cx w"
  using assms(1)[unfolded taker_runs_def] taker_new_sound[of cx s0 files, OF assms(2,3)] by (rule taker.always_sound)

lemma taker_history_induct:
  assumes "taker_runs cx honest s0 files w" "taker_new_swap cx s0" "files (ts_uuid s0) = None"
    and start: "P [] []"
    and step: "\<And>old acts a c s acts1 s1 nxt es j k. P old acts \<Longrightarrow> honest acts a \<Longrightarrow>
      taker_good cx s0 (Some c) old s \<Longrightarrow> taker_core (taker_watched s0) s = taker_core (taker_watched s0) (taker_built s0 old) \<Longrightarrow>
      taker_handle_command cx a c s = StepDone acts1 s1 nxt es \<Longrightarrow> k \<le> length es \<Longrightarrow>
      k = 0 \<or> j = length acts1 \<Longrightarrow> P (old @ take k es) (acts @ take j acts1)"
    and returned: "\<And>es acts c0 new c. P es acts \<Longrightarrow> es \<noteq> [] \<Longrightarrow> taker_get_command (last es) = Some c0 \<Longrightarrow>
      taker_caught_up c0 new c \<Longrightarrow> P (es @ new) acts"
  shows "P (taker_log_of (ts_uuid s0) (sw_files w)) (sw_acts w)"
proof (rule taker.history_induct[OF assms(1)[unfolded taker_runs_def] taker_new_sound[of cx s0 files, OF assms(2,3)]])
  show "P (taker_log_of (ts_uuid s0) (sw_files (swap_world_new s0 TStart files))) (sw_acts (swap_world_new s0 TStart files))"
    using start assms(3) by (simp add: taker_log_of_def)
next
  fix r files s c files' acts
  let ?es = "taker_log_of (ts_uuid s0) files"
  assume kick: "taker_kick_start cx (ts_maker_coin s0) (ts_taker_coin s0) (ts_uuid s0) r files = Some (s, c, files')"
    and ok: "taker_files_ok (ts_uuid s0) files"
    and good: "?es \<noteq> [] \<Longrightarrow> taker_good cx s0 (taker_get_command (last ?es)) ?es (taker_built s0 ?es)"
    and P: "P ?es acts"
  from taker_restore_cases[OF kick refl refl ok refl good] obtain new c0 where "?es \<noteq> []"
    "taker_get_command (last ?es) = Some c0" "taker_caught_up c0 new c" "taker_log_of (ts_uuid s0) files' = ?es @ new"
    by metis
  with returned[OF P, of c0 new c] show "P (taker_log_of (ts_uuid s0) files') acts" by simp
qed (fact step)

lemma taker_rank_after:
  assumes good: "taker_good cx s0 (Some c) old s" and step: "taker_handle_command cx a c s = StepDone acts s' nxt es"
    and k: "k \<le> length es" "0 < k" and after: "taker_command_after (old @ take k es) = Some c'"
  shows "taker_rank c \<le> taker_rank c'"
proof -
  have "take k es \<noteq> []" using k by auto
  then have "taker_get_command (last (take k es)) = Some c'" using after by (simp add: taker_command_after_def)
  then show ?thesis using taker_flow_resume_rank[OF taker_handle_flow[OF step] k(2,1)] by simp
qed

section \<open>Where the taker panics\<close>

lemma taker_does_not_panic: "taker_has c s \<Longrightarrow> taker_handle_command cx a c s \<noteq> StepPanics"
  by (cases c) (auto simp: taker_command_defs taker_has_def ts_get_taker_fee_data_def ts_create_watcher_data_def Let_def
    split: maker_case_splits)

text \<open>
  C30: The commands of the taker's swap unwrap what earlier events must have set. In every run that is
  there, with exactly one exception: a swap that was interrupted right after
  \<open>TakerPaymentInstructionsReceived\<close> was saved, the first of three events saved together, is taken up at
  \<open>ValidateMakerPayment\<close>, which unwraps the maker's payment of the second, and panics on every restart.
\<close>

theorem taker_panics_exactly_without_maker_payment:
  assumes "taker_runs cx honest s0 files w" "taker_new_swap cx s0" "files (ts_uuid s0) = None"
    and "sw_running w = Some (s, c)"
  shows "taker_handle_command cx a c s = StepPanics \<longleftrightarrow>
    (\<exists>es ins. taker_log_of (ts_uuid s0) (sw_files w) = es @ [TTakerPaymentInstructionsReceived ins])"
proof -
  let ?es = "taker_log_of (ts_uuid s0) (sw_files w)"
  note now = taker.soundD(2)[OF taker_runs_sound[OF assms(1-3)] assms(4)]
  have early: "(?es \<noteq> [] \<and> taker_too_early (last ?es)) \<longleftrightarrow> (\<exists>es ins. ?es = es @ [TTakerPaymentInstructionsReceived ins])"
  proof
    assume "?es \<noteq> [] \<and> taker_too_early (last ?es)"
    moreover from this obtain ins where "last ?es = TTakerPaymentInstructionsReceived ins" by (cases "last ?es") auto
    ultimately show "\<exists>es ins. ?es = es @ [TTakerPaymentInstructionsReceived ins]" by (metis append_butlast_last_id)
  qed auto
  show ?thesis
  proof (cases "?es \<noteq> [] \<and> taker_too_early (last ?es)")
    case True
    then have "c = TValidateMakerPayment" "tsm_maker_payment (ts_mut s) = None" using now by (simp_all add: taker_good_def)
    with True early show ?thesis by (simp add: taker_validate_maker_payment_def)
  next
    case False
    then have "taker_has c s" using now by (auto simp: taker_good_def)
    with False early taker_does_not_panic show ?thesis by blast
  qed
qed

section \<open>The payment is sent once and for a checked payment only\<close>

lemma taker_sends_payment:
  assumes "taker_handle_command cx a c s = StepDone acts s' nxt es" "args \<in> set (sent_payments acts)"
  shows "c = TSendTakerPayment \<and> length (sent_payments acts) = 1 \<and> pays_for args (ts_payment_search s)
    \<and> ca_check_if_my_payment_sent (an_taker_coin a) (ts_payment_search s) = Inr None"
  using assms by (cases c; auto simp: taker_command_defs Let_def pays_for_def ts_payment_search_def
      broadcast_tx_def broadcast_err_tx_def split: maker_case_splits)

fun taker_sets_terms :: "taker_swap_event \<Rightarrow> bool" where
  "taker_sets_terms (TStarted _) = True"
| "taker_sets_terms (TNegotiated _) = True"
| "taker_sets_terms (TTakerPaymentInstructionsReceived _) = True"
| "taker_sets_terms _ = False"

lemma taker_terms_kept:
  assumes "\<not> taker_sets_terms e"
  shows "ts_payment_search (taker_apply_event t e s) = ts_payment_search s"
  using assms by (cases e) (simp_all add: ts_payment_search_def ts_upd_mut_def ts_push_error_def ts_unique_swap_data_def)

lemma taker_search_core: "ts_payment_search (taker_core b s) = ts_payment_search s"
  by (simp add: ts_payment_search_def taker_core_def ts_unique_swap_data_def)

lemma taker_terms_kept_fold:
  assumes "\<forall>e\<in>set es. \<not> taker_sets_terms e"
  shows "ts_payment_search (fold (taker_apply_event t) es s) = ts_payment_search s"
  using assms by (induction es arbitrary: s) (simp_all add: taker_terms_kept)

lemma taker_flow_terms: "taker_flow c nxt es \<Longrightarrow> 5 \<le> taker_rank c \<Longrightarrow> \<forall>e\<in>set es. \<not> taker_sets_terms e"
  by (cases c) auto

text \<open>The events a restart adds belong to the end of the swap.\<close>

lemma taker_caught_up_late:
  assumes "taker_caught_up c0 new c" "new \<noteq> []"
  shows "6 \<le> taker_rank c0" "8 \<le> taker_rank c" "taker_command_after (es @ new) = Some c" "\<forall>e\<in>set new. \<not> taker_sets_terms e"
    "taker_rank c0 < 12"
  using assms by (auto simp: taker_caught_up_def taker_command_after_def)

lemma taker_good_after:
  assumes "taker_good cx s0 (Some c) old s"
  obtains c0 where "taker_command_after old = Some c0" "taker_rank c0 \<le> taker_rank c"
    "taker_rank c \<le> 6 \<Longrightarrow> c = c0" "c = TConfirmMakerPaymentSpend \<or> c0 = TConfirmMakerPaymentSpend \<Longrightarrow> c = c0"
proof -
  obtain c0 where c0: "taker_command_after old = Some c0" using assms by (auto simp: taker_good_def taker_follows_def)
  have f: "taker_follows s0 old c" using assms by (simp add: taker_good_def)
  have d: "c0 \<noteq> TConfirmMakerPaymentSpend" if "old \<noteq> []" "taker_diverges (last old)"
    using that c0 by (cases "last old") (auto simp: taker_command_after_def)
  show ?thesis
    by (rule that[OF c0 taker_follows_rank[OF f c0]]) (use f c0 d in \<open>auto simp: taker_follows_def\<close>)
qed



text \<open>
  What the taker relies on when it pays: a payment of the maker over the agreed amount, locked with the
  secret hash that the taker's own payment is locked with, validated and confirmed as agreed.
\<close>

definition maker_paid ::
    "(validate_payment_input \<Rightarrow> bool) \<Rightarrow> (bytes \<Rightarrow> u64 \<Rightarrow> bool) \<Rightarrow> taker_swap \<Rightarrow> bytes \<Rightarrow> u64 \<Rightarrow> bool" where
  "maker_paid valid confirmed s0 secret_hash time_lock =
    (\<exists>v. valid v \<and> vpi_amount v = ts_maker_amount s0 \<and> vpi_secret_hash v = secret_hash \<and> vpi_time_lock v = time_lock
       \<and> vpi_unique_swap_data v = ts_unique_swap_data s0
       \<and> confirmed (vpi_payment_tx v) (swap_confirmations_settings.maker_coin_confs (ts_conf_settings s0)))"

lemma maker_paidI:
  assumes "trusts an_maker_coin valid confirmed acts a" "ca_validate_payment (an_maker_coin a) v = Inr ()"
    "ca_wait_for_confirmations (an_maker_coin a) i = Inr ()" "cpi_payment_tx i = vpi_payment_tx v"
    "cpi_confirmations i = swap_confirmations_settings.maker_coin_confs (ts_conf_settings s)"
    "vpi_amount v = ts_maker_amount s" "vpi_secret_hash v = h" "vpi_time_lock v = t" "vpi_unique_swap_data v = ts_unique_swap_data s"
  shows "maker_paid valid confirmed s h t"
proof -
  have "valid v" "confirmed (cpi_payment_tx i) (cpi_confirmations i)" using assms(1-3) by (simp_all add: trusts_def)
  then show ?thesis unfolding maker_paid_def using assms(4-9) by metis
qed

lemma taker_validates_payment:
  assumes "taker_handle_command cx a TValidateMakerPayment s = StepDone acts s' (Some TSendTakerPayment) es"
    "trusts an_maker_coin valid confirmed old_acts a" "taker_agreed TValidateMakerPayment s"
  shows "maker_paid valid confirmed s (tsm_secret_hash (ts_mut s)) (ts_maker_payment_lock s)"
  using assms(1,3)
  by (auto simp: taker_validate_maker_payment_def taker_fails_def Let_def taker_agreed_def taker_start_agreed_def
      split: maker_case_splits elim!: maker_paidI[OF assms(2)])

lemma taker_core_fields [simp]:
  "ts_taker_amount (taker_core b s) = ts_taker_amount s" "ts_maker_amount (taker_core b s) = ts_maker_amount s"
  "ts_conf_settings (taker_core b s) = ts_conf_settings s" "ts_uuid (taker_core b s) = ts_uuid s"
  "ts_maker_coin (taker_core b s) = ts_maker_coin s" "ts_taker_coin (taker_core b s) = ts_taker_coin s"
  "tsm_secret_hash (ts_mut (taker_core b s)) = tsm_secret_hash (ts_mut s)"
  "ts_maker_payment_lock (taker_core b s) = ts_maker_payment_lock s" "ts_payment_locktime (taker_core b s) = ts_payment_locktime s"
  by (simp_all add: taker_core_def)

lemma taker_fixed_fields_fold [simp]:
  "ts_taker_amount (fold (taker_apply_event t) es s) = ts_taker_amount s"
  "ts_maker_amount (fold (taker_apply_event t) es s) = ts_maker_amount s"
  "ts_conf_settings (fold (taker_apply_event t) es s) = ts_conf_settings s"
  "ts_uuid (fold (taker_apply_event t) es s) = ts_uuid s"
  "ts_maker_coin (fold (taker_apply_event t) es s) = ts_maker_coin s"
  "ts_taker_coin (fold (taker_apply_event t) es s) = ts_taker_coin s"
  "ts_payment_locktime (fold (taker_apply_event t) es s) = ts_payment_locktime s"
  by (induction es arbitrary: s) simp_all

lemma taker_core_same: "taker_core b s = taker_core b s' \<Longrightarrow> (\<And>s. f (taker_core b s) = f s) \<Longrightarrow> f s = f s'"
  by metis

lemma taker_core_eqs:
  assumes "taker_core b s = taker_core b (taker_built s0 es)"
  shows "ts_taker_amount s = ts_taker_amount s0" "ts_maker_amount s = ts_maker_amount s0"
    "ts_conf_settings s = ts_conf_settings s0" "ts_uuid s = ts_uuid s0"
    "ts_maker_coin s = ts_maker_coin s0" "ts_taker_coin s = ts_taker_coin s0"
    "tsm_secret_hash (ts_mut s) = tsm_secret_hash (ts_mut (taker_built s0 es))"
    "ts_maker_payment_lock s = ts_maker_payment_lock (taker_built s0 es)" "ts_payment_locktime s = ts_payment_locktime s0"
  using taker_core_same[OF assms, of ts_taker_amount] taker_core_same[OF assms, of ts_maker_amount]
    taker_core_same[OF assms, of ts_conf_settings] taker_core_same[OF assms, of ts_uuid]
    taker_core_same[OF assms, of ts_maker_coin] taker_core_same[OF assms, of ts_taker_coin]
    taker_core_same[OF assms, of "\<lambda>s. tsm_secret_hash (ts_mut s)"] taker_core_same[OF assms, of ts_maker_payment_lock]
    taker_core_same[OF assms, of ts_payment_locktime]
  by simp_all

lemma taker_flow_to_send:
  assumes "taker_flow c nxt es" "0 < k" "k \<le> length es" "taker_get_command (last (take k es)) = Some TSendTakerPayment"
  shows "c = TValidateMakerPayment \<and> nxt = Some TSendTakerPayment \<and> take k es = [TMakerPaymentValidatedAndConfirmed]"
  using assms(1,2,3)
proof (cases rule: taker_flow_take)
  case 1
  then show ?thesis using assms by (cases c) auto
next
  case (2 e e' rest)
  then show ?thesis using assms by (cases c) auto
next
  case (3 e e' e'')
  then show ?thesis using assms by (cases c) auto
qed

text \<open>
  The lock times that both sides negotiated: the maker's payment stays locked for one lock duration
  longer than the taker's, less the difference allowed between the clocks.
\<close>

definition locks_apart :: "taker_swap \<Rightarrow> u64 \<Rightarrow> u64 \<Rightarrow> bool" where
  "locks_apart s0 taker_lock maker_lock =
    (60 \<le> unat (ts_payment_locktime s0) \<and> unat (ts_payment_locktime s0) < 2 ^ 32
       \<and> 2 \<le> maker_locktime_multiplier (ts_taker_coin s0) \<longrightarrow>
     unat taker_lock + unat (ts_payment_locktime s0) \<le> unat maker_lock + 60)"

lemma multiplied_lock_duration_ge:
  assumes "2 \<le> m" "unat d < 2 ^ 32"
  shows "2 * unat d \<le> unat (multiplied_lock_duration d m)"
proof -
  define x where "x = \<lceil>rat_of_nat (unat d) * m\<rceil>"
  have "rat_of_nat (unat d) * 2 \<le> rat_of_nat (unat d) * m" using assms(1) by (rule mult_left_mono) (rule of_nat_0_le_iff)
  then have "\<lceil>rat_of_nat (unat d) * 2\<rceil> \<le> x" unfolding x_def by (rule ceiling_mono)
  moreover have "rat_of_nat (unat d) * 2 = rat_of_int (int (2 * unat d))" by (simp del: of_nat_unat)
  ultimately have "int (2 * unat d) \<le> x" by (simp only: ceiling_of_int)
  then have c: "2 * unat d \<le> nat x" by linarith
  have "unat (f64_ceil_as_u64 (rat_of_nat (unat d) * m)) = (if 2 ^ 64 \<le> x then 2 ^ 64 - 1 else nat x)"
  proof (cases "0 < x \<and> x < 2 ^ 64")
    case True
    then have "unat (word_of_int x :: u64) = nat x"
      by (simp add: unat_eq_nat_uint uint_word_of_int)
    then show ?thesis using True unfolding f64_ceil_as_u64_def x_def[symmetric] by simp
  next
    case False
    have most: "unat (- 1 :: u64) = 2 ^ 64 - 1" by (simp add: unsigned_minus_1_eq_mask mask_eq_exp_minus_1)
    from False consider "x \<le> 0" | "0 < x" "2 ^ 64 \<le> x" by linarith
    then show ?thesis unfolding f64_ceil_as_u64_def x_def[symmetric] by cases (simp_all add: most)
  qed
  then show ?thesis using c assms(2) unfolding multiplied_lock_duration_def by (cases "2 ^ 64 \<le> x") simp_all
qed

lemma u64_abs_diff_le:
  assumes "u64_abs_diff a b \<le> 60"
  shows "unat a \<le> unat b + 60"
proof (cases "a \<le> b")
  case True
  then show ?thesis by (simp add: word_le_nat_alt)
next
  case False
  then have "unat (a - b) = unat a - unat b" by (simp add: unat_sub)
  moreover have "unat (a - b) \<le> 60" using assms False by (simp add: u64_abs_diff_def word_le_nat_alt)
  ultimately show ?thesis by linarith
qed

lemma taker_locks_apart:
  assumes "taker_start_agreed s" "taker_locks_agreed s" "ts_payment_locktime s = ts_payment_locktime s0"
    "ts_taker_coin s = ts_taker_coin s0"
  shows "locks_apart s0 (tsd_taker_payment_lock (tsd s)) (ts_maker_payment_lock s)"
  unfolding locks_apart_def
proof (intro impI, elim conjE)
  let ?D = "ts_payment_locktime s0" and ?S = "tsd_started_at (tsd s)"
  let ?M = "multiplied_lock_duration ?D (maker_locktime_multiplier (ts_taker_coin s0))"
  assume D: "60 \<le> unat ?D" "unat ?D < 2 ^ 32" "2 \<le> maker_locktime_multiplier (ts_taker_coin s0)"
  obtain T where near: "u64_abs_diff ?S T \<le> 60" and added: "Some (ts_maker_payment_lock s) = u64_checked_add T ?M"
    using assms by (auto simp: taker_agreed_defs MAX_STARTED_AT_DIFF_def MAX_TIME_GAP_FOR_CONNECTED_PEER_def)
  have fit: "unat T + unat ?M < 2 ^ 64" and lock: "ts_maker_payment_lock s = T + ?M"
    using added by (auto simp: u64_checked_add_def split: if_splits)
  note ge = multiplied_lock_duration_ge[OF D(3,2)] and le = u64_abs_diff_le[OF near]
  have "tsd_taker_payment_lock (tsd s) = ?S + ?D" using assms by (simp add: taker_start_agreed_def)
  then have "unat (tsd_taker_payment_lock (tsd s)) \<le> unat ?S + unat ?D" by (simp add: unat_word_ariths)
  moreover have "unat (ts_maker_payment_lock s) = unat T + unat ?M" using fit by (simp add: lock unat_word_ariths)
  ultimately show "unat (tsd_taker_payment_lock (tsd s)) + unat ?D \<le> unat (ts_maker_payment_lock s) + 60"
    using ge le by linarith
qed


section \<open>What becomes of a payment\<close>

fun taker_early_failure :: "taker_swap_event \<Rightarrow> bool" where
  "taker_early_failure (TStartFailed _) = True"
| "taker_early_failure (TNegotiateFailed _) = True"
| "taker_early_failure (TTakerFeeSendFailed _) = True"
| "taker_early_failure (TMakerPaymentValidateFailed _) = True"
| "taker_early_failure (TMakerPaymentWaitConfirmFailed _) = True"
| "taker_early_failure _ = False"

lemma taker_flow_early:
  assumes "taker_flow c nxt es" "e \<in> set (take k es)" "taker_early_failure e"
  shows "taker_rank c < 5 \<and> taker_get_command (last (take k es)) = Some TFinish"
proof -
  have "taker_rank c < 5 \<and> es = [e]"
    using assms(1) in_set_takeD[OF assms(2)] assms(3) by (cases c) auto
  moreover have "taker_get_command e = Some TFinish" using assms(3) by (cases e) auto
  ultimately show ?thesis using assms(2) by (cases k) auto
qed

text \<open>The maker's payment was spent, and what came of that is not known yet.\<close>

definition taker_spend_open :: "taker_swap_event list \<Rightarrow> bool" where
  "taker_spend_open es = (list_ex is_maker_payment_spent es \<and> \<not> list_ex is_maker_payment_spend_confirm_failed es
     \<and> TMakerPaymentSpendConfirmed \<notin> set es)"

lemma taker_recoverable:
  assumes "tss_is_finished sw" "\<forall>e\<in>set (taker_log sw). \<not> taker_early_failure e" "\<not> taker_spend_open (taker_log sw)"
    "TMakerPaymentSpendConfirmed \<notin> set (taker_log sw)" "\<forall>tx. TTakerPaymentRefunded tx \<notin> set (taker_log sw)"
    "\<forall>tx. TTakerPaymentRefundedByWatcher tx \<notin> set (taker_log sw)"
  shows "tss_is_recoverable sw"
proof -
  have "taker_not_recoverable_event e \<longleftrightarrow> taker_early_failure e \<or> e = TMakerPaymentSpendConfirmed
      \<or> (\<exists>tx. e = TTakerPaymentRefunded tx) \<or> (\<exists>tx. e = TTakerPaymentRefundedByWatcher tx)" for e
    by (cases e) auto
  with assms show ?thesis unfolding tss_is_recoverable_def taker_spend_open_def list_ex_iff by blast
qed

lemma taker_flow_spend_open:
  assumes "taker_flow c nxt es" "0 < k" "k \<le> length es" "taker_spend_open (old @ take k es)"
    "taker_spend_open old \<Longrightarrow> c = TConfirmMakerPaymentSpend"
  shows "taker_get_command (last (take k es)) = Some TConfirmMakerPaymentSpend"
  using assms(1,2,3)
proof (cases rule: taker_flow_take)
  case 1
  then show ?thesis using assms by (cases c) (auto simp: taker_spend_open_def)
next
  case (2 e e' rest)
  then show ?thesis using assms by (cases c) (auto simp: taker_spend_open_def)
next
  case (3 e e' e'')
  then show ?thesis using assms by (cases c) (auto simp: taker_spend_open_def)
qed

lemma taker_caught_up_open:
  assumes "taker_caught_up c0 new c" "new \<noteq> []" "taker_spend_open (es @ new)"
    "taker_spend_open es \<Longrightarrow> c0 = TConfirmMakerPaymentSpend"
  shows "taker_command_after (es @ new) = Some TConfirmMakerPaymentSpend \<and> (\<forall>e\<in>set new. \<not> taker_early_failure e)"
  using assms by (auto simp: taker_caught_up_def taker_command_after_def taker_spend_open_def)


lemma taker_caught_up_early: "taker_caught_up c0 new c \<Longrightarrow> \<forall>e\<in>set new. \<not> taker_early_failure e"
  by (auto simp: taker_caught_up_def)

text \<open>
  C29: A taker that has sent its payment never takes the swap for one that had no payment: when the swap
  is finished, the spending of the maker's payment was confirmed, or the taker's payment was refunded
  (by itself or by a watcher), or the swap is marked as one whose funds can be recovered.
\<close>

theorem taker_payment_is_not_forgotten:
  assumes "taker_runs cx honest s0 files w" "taker_new_swap cx s0" "files (ts_uuid s0) = None"
    and sent: "sent_payments (sw_acts w) \<noteq> []"
    and sw: "sw_files w (ts_uuid s0) = Some (SavedTaker sw)" "tss_is_finished sw"
  shows "TMakerPaymentSpendConfirmed \<in> set (taker_log sw) \<or> (\<exists>tx. TTakerPaymentRefunded tx \<in> set (taker_log sw))
    \<or> (\<exists>tx. TTakerPaymentRefundedByWatcher tx \<in> set (taker_log sw)) \<or> tss_is_recoverable sw"
proof -
  let ?early = "\<lambda>es. \<exists>e\<in>set es. taker_early_failure e"
  let ?P = "\<lambda>es acts. (\<forall>c. taker_command_after es = Some c \<longrightarrow> taker_rank c < 12 \<longrightarrow> \<not> ?early es)
    \<and> (sent_payments acts \<noteq> [] \<longrightarrow> \<not> ?early es \<and> (\<forall>c. taker_command_after es = Some c \<longrightarrow> 5 \<le> taker_rank c))
    \<and> (taker_spend_open es \<longrightarrow> taker_command_after es = Some TConfirmMakerPaymentSpend)"
  have "?P (taker_log_of (ts_uuid s0) (sw_files w)) (sw_acts w)"
  proof (rule taker_history_induct[OF assms(1-3)])
    fix old acts a c s acts1 s1 nxt es j k
    assume old: "?P old acts" and good: "taker_good cx s0 (Some c) old s"
      and step: "taker_handle_command cx a c s = StepDone acts1 s1 nxt es" and k: "k \<le> length es"
    obtain c0 where now: "taker_command_after old = Some c0" "taker_rank c0 \<le> taker_rank c" "taker_rank c \<le> 6 \<Longrightarrow> c = c0"
        "c0 = TConfirmMakerPaymentSpend \<Longrightarrow> c = c0"
      using taker_good_after[OF good] by metis
    have sends: "c = TSendTakerPayment" if "sent_payments (take j acts1) \<noteq> []"
    proof -
      from that obtain args where "args \<in> set (sent_payments (take j acts1))" by (meson last_in_set)
      then have "args \<in> set (sent_payments acts1)" using sent_payments_take(1) by blast
      then show ?thesis using taker_sends_payment[OF step] by blast
    qed
    show "?P (old @ take k es) (acts @ take j acts1)"
    proof (cases "k = 0")
      case True
      have "\<not> ?early old \<and> c0 = TSendTakerPayment" if "sent_payments (take j acts1) \<noteq> []"
        using sends[OF that] now(1,3) old by simp
      with True old now(1) show ?thesis by (cases "sent_payments (take j acts1) = []") simp_all
    next
      case False
      then have k0: "0 < k" "take k es \<noteq> []" using k by auto
      note flow = taker_handle_flow[OF step]
      have after: "taker_command_after (old @ take k es) = taker_get_command (last (take k es))"
        using k0 by (simp add: taker_command_after_def)
      note rank = taker_flow_resume_rank[OF flow k0(1) k]
      have early: "taker_rank c < 5 \<and> taker_get_command (last (take k es)) = Some TFinish" if "?early (take k es)"
        using that taker_flow_early[OF flow] by blast
      have "taker_spend_open (old @ take k es) \<longrightarrow> taker_get_command (last (take k es)) = Some TConfirmMakerPaymentSpend"
        using taker_flow_spend_open[OF flow k0(1) k] old now by auto
      moreover have "\<not> ?early (old @ take k es)" if "taker_get_command (last (take k es)) = Some c'" "taker_rank c' < 12" for c'
      proof -
        have "taker_rank c0 < 12" using rank[OF that(1)] now(2) that(2) by simp
        then have "\<not> ?early old" using old now(1) by blast
        moreover have "\<not> ?early (take k es)"
        proof
          assume "?early (take k es)"
          then have "c' = TFinish" using early that(1) by simp
          with that(2) show False by simp
        qed
        ultimately show ?thesis by auto
      qed
      moreover have "\<not> ?early (old @ take k es) \<and> 5 \<le> taker_rank c" if "sent_payments (acts @ take j acts1) \<noteq> []"
        using that sends old now early by (cases "sent_payments acts = []") (auto intro: order_trans)
      ultimately show ?thesis unfolding after using rank order_trans by blast
    qed
  next
    fix es acts c0 new c
    assume old: "?P es acts" and c0: "es \<noteq> []" "taker_get_command (last es) = Some c0" and caught: "taker_caught_up c0 new c"
    show "?P (es @ new) acts"
    proof (cases "new = []")
      case False
      have "taker_command_after es = Some c0" using c0 by (simp add: taker_command_after_def)
      then show ?thesis
        using old taker_caught_up_late[OF caught False] taker_caught_up_open[OF caught False] taker_caught_up_early[OF caught]
        by auto
    qed (use old in simp)
  qed (simp add: taker_command_after_def taker_spend_open_def)
  moreover have log: "taker_log_of (ts_uuid s0) (sw_files w) = taker_log sw"
    using sw(1) by (simp add: taker_log_of_def)
  moreover have "taker_command_after (taker_log sw) = None"
    using sw(2) by (auto simp: tss_is_finished_def last_event_def taker_command_after_def split: option.splits if_splits)
  ultimately have "\<not> ?early (taker_log sw) \<and> \<not> taker_spend_open (taker_log sw)" using sent by simp
  then show ?thesis using taker_recoverable[OF sw(2)] by blast
qed

section \<open>A restart resumes the swap\<close>

lemma taker_restart_unwatched:
  assumes sound: "taker.sound s0 cx w" and new: "taker_new_swap cx s0" and first: "taker_first s0 (TStarted d)"
    and started: "taker_log_of (ts_uuid s0) (sw_files w) = TStarted d # es"
    and c0: "taker_command_after (TStarted d # es) = Some c0"
    and unwatched: "\<not> taker_watched s0" and io: "io_read_error io = None"
  shows "\<exists>s'. taker_kick_start cx (ts_maker_coin s0) (ts_taker_coin s0) (ts_uuid s0) (a, now, io) (sw_files w)
      = Some (s', c0, sw_files w) \<and> taker_core False s' = taker_core False (taker_built s0 (TStarted d # es))"
proof -
  obtain sw where sw: "sw_files w (ts_uuid s0) = Some (SavedTaker sw)" "taker_log sw = TStarted d # es"
    using started by (auto simp: taker_log_of_def split: option.splits saved_swap.splits)
  have id: "tss_uuid sw = ts_uuid s0"
    using taker.sound_valid[OF sound] sw(1) by (simp add: taker_files_ok_def)
  obtain s' where loaded: "taker_restored cx (an_now_sec a) (ts_maker_coin s0) (ts_taker_coin s0) sw = Inr s'"
    using new sw(2) by (simp add: taker_restored_def taker_new_swap_def Let_def)
  from taker_restored_core(1)[OF new id _ _ loaded] sw(2) first
  have s': "s' = fold (taker_apply_event (an_now_sec a)) (TStarted d # es) s0" by simp
  have "taker_core False s' = taker_core False (taker_built s0 (TStarted d # es))"
    unfolding s' by (rule taker_fold_core) simp
  moreover have "taker_get_command (last (TStarted d # es)) = Some c0" using c0 by (simp add: taker_command_after_def)
  moreover have "taker_load_from_saved cx a now io (ts_maker_coin s0) (ts_taker_coin s0) sw (sw_files w)
      = Inr (s', Some c0, sw_files w)"
    using unwatched calculation(2) loaded sw(2) unfolding taker_load_from_saved_def taker_watched_def by auto
  ultimately show ?thesis using sw(1) io
    by (simp add: taker_kick_start_def taker_load_by_uuid_def load_my_swap_def
      del: taker_get_command.simps last.simps taker_apply_event.simps fold_simps)
qed



section \<open>A run in which all goes well\<close>

lemma taker_save_succeeds:
  assumes "taker_files_ok (ts_uuid s) files" "io_read_error (ee_io env) = None" "io_write_error (ee_io env) = None"
    "\<forall>p. \<exists>addr. sc_address_from_pubkey (ts_maker_coin s) p = Inr addr"
  shows "\<exists>files'. taker_save cx env s e files = Inr files'"
proof -
  obtain addr where "sc_address_from_pubkey (ts_maker_coin s) (ts_my_maker_coin_htlc_pub s) = Inr addr"
    using assms(4) by blast
  with assms(1-3) show ?thesis
    by (auto simp: taker_save_def save_my_taker_swap_event_def load_my_swap_def save_my_swap_def Let_def
        taker_files_ok_def unwrap_or_def split: option.splits saved_swap.splits)
qed

lemma taker_saves_all:
  assumes "taker_files_ok (ts_uuid s) files" "saves_work env"
    "\<forall>p. \<exists>addr. sc_address_from_pubkey (ts_maker_coin s) p = Inr addr"
  shows "\<exists>s' files'. apply_and_save (taker_save cx) taker_apply_event env k es s files = (Some s', files')"
  using assms
proof (induction es arbitrary: k s files)
  case (Cons e es)
  let ?s = "taker_apply_event (ee_now_sec (env k)) e s"
  obtain files' where files': "taker_save cx (env k) ?s e files = Inr files'"
    using taker_save_succeeds[of ?s files "env k" cx e] Cons.prems by (auto simp: saves_work_def)
  have ok: "taker_files_ok (ts_uuid ?s) files'" using taker_save_log[OF files'] Cons.prems(1) by simp
  have "\<forall>p. \<exists>addr. sc_address_from_pubkey (ts_maker_coin ?s) p = Inr addr" using Cons.prems(3) by simp
  from Cons.IH[OF ok Cons.prems(2) this] files' show ?case by (simp add: Let_def)
qed simp

definition demo_taker_swap :: taker_swap where
  "demo_taker_swap = taker_swap_new 5 1 2 [2] 11 (Some 11) \<lparr>maker_coin_confs = 1, maker_coin_nota = False,
     taker_coin_confs = 3, taker_coin_nota = False\<rparr> (demo_swap_coin ''KMD'') (demo_swap_coin ''BTC'') 7800 None"

definition demo_taker_answers :: step_answers where
  "demo_taker_answers = demo_step_answers (NegotiationV1 \<lparr>nd1_started_at = 1000, nd1_payment_locktime = 16600,
     nd1_secret_hash = replicate 20 0, nd1_persistent_pubkey = [7]\<rparr>)"

fun demo_taker_world :: "nat \<Rightarrow> taker_world" where
  "demo_taker_world 0 = swap_world_new demo_taker_swap TStart Map.empty"
| "demo_taker_world (Suc n) = taker_turn demo_swap_ctx demo_taker_answers (\<lambda>_. demo_event_env) (demo_taker_world n)"

lemma demo_taker_runs:
  assumes "\<And>m. m < n \<Longrightarrow> honest (sw_acts (demo_taker_world m)) demo_taker_answers"
  shows "taker_runs demo_swap_ctx honest demo_taker_swap Map.empty (demo_taker_world n)"
  using assms
proof (induction n)
  case 0
  then show ?case by (simp add: taker_runs_def swap_reach.start)
next
  case (Suc n)
  then have "taker_runs demo_swap_ctx honest demo_taker_swap Map.empty (demo_taker_world n)" by simp
  then show ?case using Suc.prems[of n]
    by (simp add: taker_runs_def taker_turn_def swap_reach.turn)
qed

lemma demo_taker_runs_any: "taker_runs demo_swap_ctx (\<lambda>_ _. True) demo_taker_swap Map.empty (demo_taker_world n)"
  by (rule demo_taker_runs) simp

lemma demo_taker_new: "taker_new_swap demo_swap_ctx demo_taker_swap"
  by (simp add: taker_new_swap_def demo_swap_ctx_def demo_taker_swap_def taker_swap_new_def)

definition demo_taker_log :: "nat \<Rightarrow> taker_swap_event list" where
  "demo_taker_log n = taker_log_of (ts_uuid demo_taker_swap) (sw_files (demo_taker_world n))"

lemma demo_applied_events:
  "apply_and_save save app (\<lambda>_. demo_event_env) k es s files = (Some s2, files') \<Longrightarrow> s2 = fold (app 1000) es s"
  by (induction es arbitrary: k s files) (auto simp: Let_def demo_event_env_def split: sum.splits)

lemma demo_taker_step:
  assumes running: "sw_running (demo_taker_world n) = Some (s, c)"
    and step: "taker_handle_command demo_swap_ctx demo_taker_answers c s = StepDone acts s' nxt es"
  shows "sw_running (demo_taker_world (Suc n)) = map_option (\<lambda>c'. (fold (taker_apply_event 1000) es s', c')) nxt"
    "sw_acts (demo_taker_world (Suc n)) = sw_acts (demo_taker_world n) @ acts"
    "demo_taker_log (Suc n) = demo_taker_log n @ es"
proof -
  note sound = taker_runs_sound[OF demo_taker_runs_any demo_taker_new refl, of n]
  have s': "ts_uuid s' = ts_uuid demo_taker_swap"
    using taker_ident_core[OF taker_handle_core[OF step]] taker.soundD(3)[OF sound running] by simp
  have "ts_maker_coin s' = ts_maker_coin demo_taker_swap"
    by (rule taker_core_eqs(5)[OF trans[OF taker_handle_core[OF step] taker.soundD(1)[OF sound running]]])
  then have "\<forall>p. \<exists>addr. sc_address_from_pubkey (ts_maker_coin s') p = Inr addr"
    by (simp add: demo_taker_swap_def taker_swap_new_def demo_swap_coin_def demo_coin_def mm_coin.defs)
  then obtain s2 files' where saved: "apply_and_save (taker_save demo_swap_ctx) taker_apply_event (\<lambda>_. demo_event_env) 0 es s'
      (sw_files (demo_taker_world n)) = (Some s2, files')"
    using taker_saves_all[OF _ demo_saves_work, of s'] taker.sound_valid[OF sound] s' by metis
  note s2 = demo_applied_events[OF saved]
  have "taker_log_of (ts_uuid demo_taker_swap) files'
      = taker_log_of (ts_uuid demo_taker_swap) (sw_files (demo_taker_world n)) @ es"
    using taker.apply_and_save_prefix[OF saved] taker.sound_valid[OF sound] s' by (metis take_all_iff order_refl)
  then show "sw_running (demo_taker_world (Suc n)) = map_option (\<lambda>c'. (fold (taker_apply_event 1000) es s', c')) nxt"
    "sw_acts (demo_taker_world (Suc n)) = sw_acts (demo_taker_world n) @ acts"
    "demo_taker_log (Suc n) = demo_taker_log n @ es"
    using running step saved s2 unfolding demo_taker_log_def
    by (cases nxt; simp add: taker_turn_def swap_turn_def)+
qed

text \<open>What the surroundings make of each command, for a swap that is as it is after the start.\<close>

definition demo_taker_at :: "taker_swap \<Rightarrow> bool" where
  "demo_taker_at s = (ts_maker_coin s = demo_swap_coin ''KMD'' \<and> ts_taker_coin s = demo_swap_coin ''BTC''
     \<and> tsd_started_at (tsd s) = 1000 \<and> tsd_lock_duration (tsd s) = 7800 \<and> tsd_maker_coin (tsd s) = ''KMD''
     \<and> 1000 \<le> tsd_maker_payment_wait (tsd s) \<and> \<not> tsm_watcher_reward (ts_mut s))"

lemmas demo_taker_simps = taker_command_defs demo_taker_answers_def demo_step_answers_def demo_coin_answers_def Let_def
  ts_upd_mut_def demo_swap_ctx_def demo_swap_coin_def demo_coin_def mm_coin.defs demo_taker_at_def

lemma demo_taker_start:
  "\<exists>s d. taker_handle_command demo_swap_ctx demo_taker_answers TStart demo_taker_swap
     = StepDone [] s (Some TNegotiate) [TStarted d] \<and> demo_taker_at (taker_apply_event 1000 (TStarted d) s)"
  by (simp add: demo_taker_simps demo_taker_swap_def taker_swap_new_def wait_for_maker_payment_conf_until_def
      wait_for_maker_payment_conf_duration_def)

lemma demo_taker_negotiate:
  "demo_taker_at s \<Longrightarrow> \<exists>acts d. taker_handle_command demo_swap_ctx demo_taker_answers TNegotiate s
     = StepDone acts s (Some TSendTakerFee) [TNegotiated d] \<and> demo_taker_at (taker_apply_event 1000 (TNegotiated d) s)
       \<and> sent_payments acts = []"
  by (simp add: demo_taker_simps taker_negotiation_fault_def u64_abs_diff_def u64_checked_add_def MAX_STARTED_AT_DIFF_def
      MAX_TIME_GAP_FOR_CONNECTED_PEER_def negotiate_or_fallback_def multiplied_lock_duration_def f64_ceil_as_u64_def)

lemma demo_taker_fee:
  "demo_taker_at s \<Longrightarrow> \<exists>acts tx. taker_handle_command demo_swap_ctx demo_taker_answers TSendTakerFee s
     = StepDone acts s (Some TWaitForMakerPayment) [TTakerFeeSent tx]
       \<and> demo_taker_at (taker_apply_event 1000 (TTakerFeeSent tx) s) \<and> sent_payments acts = []"
  by (auto simp add: demo_taker_simps)

lemma demo_taker_waits:
  "demo_taker_at s \<Longrightarrow> tsm_taker_fee (ts_mut s) \<noteq> None \<Longrightarrow>
    \<exists>acts ins tx. taker_handle_command demo_swap_ctx demo_taker_answers TWaitForMakerPayment s
     = StepDone acts s (Some TValidateMakerPayment)
         [TTakerPaymentInstructionsReceived ins, TMakerPaymentReceived tx, TMakerPaymentWaitConfirmStarted]
       \<and> demo_taker_at (fold (taker_apply_event 1000)
           [TTakerPaymentInstructionsReceived ins, TMakerPaymentReceived tx, TMakerPaymentWaitConfirmStarted] s)
       \<and> sent_payments acts = []"
  by (auto simp add: demo_taker_simps ts_get_taker_fee_data_def)

lemma demo_taker_validates:
  "demo_taker_at s \<Longrightarrow> tsm_maker_payment (ts_mut s) \<noteq> None \<Longrightarrow>
    taker_handle_command demo_swap_ctx demo_taker_answers TValidateMakerPayment s
     = StepDone [] s (Some TSendTakerPayment) [TMakerPaymentValidatedAndConfirmed]"
  by (auto simp add: demo_taker_simps)

lemma demo_taker_pays:
  "demo_taker_at s \<Longrightarrow> \<exists>args. taker_handle_command demo_swap_ctx demo_taker_answers TSendTakerPayment s
     = StepDone [SendsPayment args (Some (demo_tx [4]))] s (Some TWaitForTakerPaymentSpend) [TTakerPaymentSent (tx_ident_of (demo_tx [4]))]
       \<and> demo_taker_at (taker_apply_event 1000 (TTakerPaymentSent (tx_ident_of (demo_tx [4]))) s)"
  by (simp add: demo_taker_simps ts_setup_watcher_reward_def watchers_usable_def not_less)

lemma demo_taker_spent:
  "demo_taker_at s \<Longrightarrow> tsm_taker_payment (ts_mut s) \<noteq> None \<Longrightarrow>
    \<exists>acts d. taker_handle_command demo_swap_ctx demo_taker_answers TWaitForTakerPaymentSpend s
     = StepDone acts s (Some TSpendMakerPayment) [TTakerPaymentSpent d]
       \<and> demo_taker_at (taker_apply_event 1000 (TTakerPaymentSpent d) s)"
  by (auto simp add: demo_taker_simps watchers_usable_def)

lemma demo_taker_spends:
  "demo_taker_at s \<Longrightarrow> tsm_maker_payment (ts_mut s) \<noteq> None \<Longrightarrow>
    \<exists>acts tx. taker_handle_command demo_swap_ctx demo_taker_answers TSpendMakerPayment s
     = StepDone acts s (Some TConfirmMakerPaymentSpend) [TMakerPaymentSpent tx]"
  by (auto simp add: demo_taker_simps)

lemma demo_taker_confirms:
  "demo_taker_at s \<Longrightarrow> tsm_maker_payment_spend (ts_mut s) \<noteq> None \<Longrightarrow>
    taker_handle_command demo_swap_ctx demo_taker_answers TConfirmMakerPaymentSpend s
     = StepDone [] s (Some TFinish) [TMakerPaymentSpendConfirmed]"
  by (auto simp add: demo_taker_simps)


lemma demo_taker_1:
  "\<exists>s d. sw_running (demo_taker_world 1) = Some (s, TNegotiate) \<and> demo_taker_at s
    \<and> sent_payments (sw_acts (demo_taker_world 1)) = [] \<and> demo_taker_log 1 = [TStarted d]"
proof -
  obtain s d where step: "taker_handle_command demo_swap_ctx demo_taker_answers TStart demo_taker_swap
      = StepDone [] s (Some TNegotiate) [TStarted d]" "demo_taker_at (taker_apply_event 1000 (TStarted d) s)"
    using demo_taker_start by blast
  from demo_taker_step[of 0, OF _ step(1)] step(2) show ?thesis
    by (auto simp: demo_taker_log_def taker_log_of_def)
qed

lemma demo_taker_3:
  "\<exists>s d es. sw_running (demo_taker_world 3) = Some (s, TWaitForMakerPayment) \<and> demo_taker_at s
    \<and> tsm_taker_fee (ts_mut s) \<noteq> None \<and> (\<forall>m<4. sent_payments (sw_acts (demo_taker_world m)) = [])
    \<and> demo_taker_log 3 = TStarted d # es"
proof -
  obtain s1 d0 where s1: "sw_running (demo_taker_world 1) = Some (s1, TNegotiate)" "demo_taker_at s1"
      "sent_payments (sw_acts (demo_taker_world 1)) = []" "demo_taker_log 1 = [TStarted d0]" using demo_taker_1 by blast
  obtain acts1 d where 1: "taker_handle_command demo_swap_ctx demo_taker_answers TNegotiate s1
      = StepDone acts1 s1 (Some TSendTakerFee) [TNegotiated d]"
      "demo_taker_at (taker_apply_event 1000 (TNegotiated d) s1)" "sent_payments acts1 = []"
    using demo_taker_negotiate[OF s1(2)] by blast
  note s2 = demo_taker_step[OF s1(1) 1(1)]
  define t where "t = taker_apply_event 1000 (TNegotiated d) s1"
  have t: "sw_running (demo_taker_world 2) = Some (t, TSendTakerFee)" "demo_taker_at t"
      "sent_payments (sw_acts (demo_taker_world 2)) = []" "demo_taker_log 2 = [TStarted d0, TNegotiated d]"
    using s2 1 s1(3,4) by (simp_all add: t_def numeral_2_eq_2)
  obtain acts2 tx where 2: "taker_handle_command demo_swap_ctx demo_taker_answers TSendTakerFee t
      = StepDone acts2 t (Some TWaitForMakerPayment) [TTakerFeeSent tx]"
      "demo_taker_at (taker_apply_event 1000 (TTakerFeeSent tx) t)" "sent_payments acts2 = []"
    using demo_taker_fee[OF t(2)] by blast
  note s3 = demo_taker_step[OF t(1) 2(1)]
  have "sent_payments (sw_acts (demo_taker_world 3)) = []" using s3(2) 2(3) t(3) by (simp add: eval_nat_numeral)
  moreover have "sent_payments (sw_acts (demo_taker_world 0)) = []" by simp
  ultimately have "sent_payments (sw_acts (demo_taker_world m)) = []" if "m < 4" for m
    using that s1(3) t(3) by (auto simp: less_Suc_eq eval_nat_numeral simp del: demo_taker_world.simps)
  with s3(1,3) 2(2) t(4) show ?thesis
    by (auto simp: eval_nat_numeral ts_upd_mut_def simp del: demo_taker_world.simps)
qed

lemma demo_taker_5:
  "\<exists>s. sw_running (demo_taker_world 5) = Some (s, TSendTakerPayment) \<and> demo_taker_at s
    \<and> tsm_maker_payment (ts_mut s) \<noteq> None \<and> (\<forall>m<6. sent_payments (sw_acts (demo_taker_world m)) = [])"
proof -
  obtain s where s: "sw_running (demo_taker_world 3) = Some (s, TWaitForMakerPayment)" "demo_taker_at s"
      "tsm_taker_fee (ts_mut s) \<noteq> None" "\<forall>m<4. sent_payments (sw_acts (demo_taker_world m)) = []"
    using demo_taker_3 by blast
  obtain acts ins tx where 1: "taker_handle_command demo_swap_ctx demo_taker_answers TWaitForMakerPayment s
     = StepDone acts s (Some TValidateMakerPayment)
         [TTakerPaymentInstructionsReceived ins, TMakerPaymentReceived tx, TMakerPaymentWaitConfirmStarted]"
     "demo_taker_at (fold (taker_apply_event 1000)
         [TTakerPaymentInstructionsReceived ins, TMakerPaymentReceived tx, TMakerPaymentWaitConfirmStarted] s)"
     "sent_payments acts = []"
    using demo_taker_waits[OF s(2,3)] by blast
  note step1 = demo_taker_step[OF s(1) 1(1)]
  define t where "t = fold (taker_apply_event 1000)
    [TTakerPaymentInstructionsReceived ins, TMakerPaymentReceived tx, TMakerPaymentWaitConfirmStarted] s"
  have t: "sw_running (demo_taker_world 4) = Some (t, TValidateMakerPayment)" "demo_taker_at t"
      "tsm_maker_payment (ts_mut t) \<noteq> None" "sent_payments (sw_acts (demo_taker_world 4)) = []"
    using step1 1(2,3) s(4) by (simp_all add: eval_nat_numeral ts_upd_mut_def t_def del: demo_taker_world.simps)
  note step2 = demo_taker_step[OF t(1) demo_taker_validates[OF t(2,3)]]
  have "sent_payments (sw_acts (demo_taker_world 5)) = []"
    using step2(2) t(4) by (simp add: eval_nat_numeral del: demo_taker_world.simps)
  then have "sent_payments (sw_acts (demo_taker_world m)) = []" if "m < 6" for m
  proof -
    have "m < 4 \<or> m = 4 \<or> m = 5" using that by linarith
    then show ?thesis using s(4) t(4) \<open>sent_payments (sw_acts (demo_taker_world 5)) = []\<close> by blast
  qed
  with step2(1) t(2,3) show ?thesis
    by (simp add: eval_nat_numeral demo_taker_at_def del: demo_taker_world.simps)
qed

lemma demo_taker_6:
  "\<exists>s args. sw_running (demo_taker_world 6) = Some (s, TWaitForTakerPaymentSpend) \<and> demo_taker_at s
    \<and> tsm_maker_payment (ts_mut s) \<noteq> None \<and> tsm_taker_payment (ts_mut s) \<noteq> None
    \<and> sent_payments (sw_acts (demo_taker_world 6)) = [args]"
proof -
  obtain s where s: "sw_running (demo_taker_world 5) = Some (s, TSendTakerPayment)" "demo_taker_at s"
      "tsm_maker_payment (ts_mut s) \<noteq> None" "sent_payments (sw_acts (demo_taker_world 5)) = []"
    using demo_taker_5 by force
  obtain args where step: "taker_handle_command demo_swap_ctx demo_taker_answers TSendTakerPayment s
     = StepDone [SendsPayment args (Some (demo_tx [4]))] s (Some TWaitForTakerPaymentSpend) [TTakerPaymentSent (tx_ident_of (demo_tx [4]))]"
     "demo_taker_at (taker_apply_event 1000 (TTakerPaymentSent (tx_ident_of (demo_tx [4]))) s)"
    using demo_taker_pays[OF s(2)] by blast
  from demo_taker_step[OF s(1) step(1)] step(2) s(3,4) show ?thesis
    by (simp add: eval_nat_numeral ts_upd_mut_def del: demo_taker_world.simps)
qed

lemma demo_taker_10:
  "sent_payments (sw_acts (demo_taker_world 10)) \<noteq> [] \<and> (\<exists>es. demo_taker_log 10 = es @ [TFinished])"
proof -
  obtain s where s: "sw_running (demo_taker_world 6) = Some (s, TWaitForTakerPaymentSpend)" "demo_taker_at s"
      "tsm_maker_payment (ts_mut s) \<noteq> None" "tsm_taker_payment (ts_mut s) \<noteq> None"
      "sent_payments (sw_acts (demo_taker_world 6)) \<noteq> []"
    using demo_taker_6 by force
  obtain acts d where 1: "taker_handle_command demo_swap_ctx demo_taker_answers TWaitForTakerPaymentSpend s
     = StepDone acts s (Some TSpendMakerPayment) [TTakerPaymentSpent d]"
     "demo_taker_at (taker_apply_event 1000 (TTakerPaymentSpent d) s)"
    using demo_taker_spent[OF s(2,4)] by blast
  define t where "t = taker_apply_event 1000 (TTakerPaymentSpent d) s"
  have t: "sw_running (demo_taker_world 7) = Some (t, TSpendMakerPayment)" "demo_taker_at t"
      "tsm_maker_payment (ts_mut t) \<noteq> None" "sent_payments (sw_acts (demo_taker_world 7)) \<noteq> []"
    using demo_taker_step[OF s(1) 1(1)] 1(2) s(3,5)
    by (simp_all add: eval_nat_numeral ts_upd_mut_def t_def del: demo_taker_world.simps)
  obtain acts' tx where 2: "taker_handle_command demo_swap_ctx demo_taker_answers TSpendMakerPayment t
     = StepDone acts' t (Some TConfirmMakerPaymentSpend) [TMakerPaymentSpent tx]"
    using demo_taker_spends[OF t(2,3)] by blast
  define u where "u = taker_apply_event 1000 (TMakerPaymentSpent tx) t"
  have u: "sw_running (demo_taker_world 8) = Some (u, TConfirmMakerPaymentSpend)" "demo_taker_at u"
      "tsm_maker_payment_spend (ts_mut u) \<noteq> None" "sent_payments (sw_acts (demo_taker_world 8)) \<noteq> []"
    using demo_taker_step[OF t(1) 2] t(2,4)
    by (simp_all add: eval_nat_numeral ts_upd_mut_def u_def demo_taker_at_def del: demo_taker_world.simps)
  define v where "v = taker_apply_event 1000 TMakerPaymentSpendConfirmed u"
  have v: "sw_running (demo_taker_world 9) = Some (v, TFinish)" "sent_payments (sw_acts (demo_taker_world 9)) \<noteq> []"
    using demo_taker_step[OF u(1) demo_taker_confirms[OF u(2,3)]] u(4)
    by (simp_all add: eval_nat_numeral v_def del: demo_taker_world.simps)
  have "taker_handle_command demo_swap_ctx demo_taker_answers TFinish v = StepDone [] v None [TFinished]" by simp
  from demo_taker_step[OF v(1) this] v(2) show ?thesis
    by (simp add: eval_nat_numeral del: demo_taker_world.simps)
qed



lemma taker_log_finished:
  assumes "taker_log_of u files = es @ [TFinished]"
  shows "\<exists>sw. files u = Some (SavedTaker sw) \<and> tss_is_finished sw"
proof -
  obtain sw where sw: "files u = Some (SavedTaker sw)" "taker_log sw = es @ [TFinished]"
    using assms by (auto simp: taker_log_of_def split: option.splits saved_swap.splits)
  have "tss_is_finished sw" unfolding tss_is_finished_def last_event_def sw(2) by simp
  with sw(1) show ?thesis by blast
qed

lemma demo_taker_uuid: "ts_uuid demo_taker_swap = 11"
  by (simp add: demo_taker_swap_def taker_swap_new_def)

lemma taker_payment_is_not_forgotten_witness:
  "\<exists>sw. sw_files (demo_taker_world 10) 11 = Some (SavedTaker sw) \<and> tss_is_finished sw
    \<and> (TMakerPaymentSpendConfirmed \<in> set (taker_log sw) \<or> (\<exists>tx. TTakerPaymentRefunded tx \<in> set (taker_log sw))
        \<or> (\<exists>tx. TTakerPaymentRefundedByWatcher tx \<in> set (taker_log sw)) \<or> tss_is_recoverable sw)"
proof -
  obtain sw where sw: "sw_files (demo_taker_world 10) (ts_uuid demo_taker_swap) = Some (SavedTaker sw)" "tss_is_finished sw"
    using demo_taker_10 taker_log_finished[of "ts_uuid demo_taker_swap" "sw_files (demo_taker_world 10)"]
    by (auto simp: demo_taker_log_def)
  from taker_payment_is_not_forgotten[OF demo_taker_runs_any demo_taker_new refl _ sw] demo_taker_10 sw
  show ?thesis by (auto simp: demo_taker_uuid)
qed

lemma demo_taker_unwatched: "\<not> taker_watched demo_taker_swap"
  by (simp add: taker_watched_def demo_taker_swap_def taker_swap_new_def demo_swap_coin_def demo_coin_def mm_coin.defs)



text \<open>
  The run in which the disk fails for the second event of \<open>WaitForMakerPayment\<close>, and the restart after
  it.
\<close>

definition demo_broken_disk :: "nat \<Rightarrow> event_env" where
  "demo_broken_disk k = (if k = 0 then demo_event_env
     else demo_event_env\<lparr>ee_io := (ee_io demo_event_env)\<lparr>io_write_error := Some ''disk full''\<rparr>\<rparr>)"

definition demo_taker_cut :: taker_world where
  "demo_taker_cut = taker_turn demo_swap_ctx demo_taker_answers demo_broken_disk (demo_taker_world 3)"

lemma demo_broken_save: "taker_save cx (demo_broken_disk (Suc 0)) s ev files \<noteq> Inr files'"
  by (auto simp: taker_save_def save_my_taker_swap_event_def load_my_swap_def save_my_swap_def Let_def
      demo_broken_disk_def demo_event_env_def split: sum.splits option.splits saved_swap.splits)

lemma demo_taker_cut:
  "\<exists>d es ins. taker_log_of (ts_uuid demo_taker_swap) (sw_files demo_taker_cut)
    = TStarted d # es @ [TTakerPaymentInstructionsReceived ins]"
proof -
  obtain s d es where s: "sw_running (demo_taker_world 3) = Some (s, TWaitForMakerPayment)" "demo_taker_at s"
      "tsm_taker_fee (ts_mut s) \<noteq> None" "demo_taker_log 3 = TStarted d # es"
    using demo_taker_3 by blast
  obtain acts ins tx where 1: "taker_handle_command demo_swap_ctx demo_taker_answers TWaitForMakerPayment s
     = StepDone acts s (Some TValidateMakerPayment)
         [TTakerPaymentInstructionsReceived ins, TMakerPaymentReceived tx, TMakerPaymentWaitConfirmStarted]"
    using demo_taker_waits[OF s(2,3)] by blast
  note sound = taker_runs_sound[OF demo_taker_runs_any demo_taker_new refl, of 3]
  let ?s = "taker_apply_event 1000 (TTakerPaymentInstructionsReceived ins) s"
  have u: "ts_uuid s = ts_uuid demo_taker_swap" using taker.soundD(3)[OF sound s(1)] .
  have ok: "taker_files_ok (ts_uuid ?s) (sw_files (demo_taker_world 3))"
    unfolding taker_fixed_fields u by (rule taker.sound_valid[OF sound])
  have addr: "\<forall>p. \<exists>addr. sc_address_from_pubkey (ts_maker_coin ?s) p = Inr addr"
    using s(2) unfolding taker_fixed_fields by (simp add: demo_taker_at_def demo_swap_coin_def demo_coin_def mm_coin.defs)
  have "io_read_error (ee_io demo_event_env) = None" "io_write_error (ee_io demo_event_env) = None"
    by (simp_all add: demo_event_env_def)
  then obtain files1 where files1: "taker_save demo_swap_ctx demo_event_env ?s (TTakerPaymentInstructionsReceived ins)
      (sw_files (demo_taker_world 3)) = Inr files1"
    using taker_save_succeeds[OF ok _ _ addr] by blast
  have log: "taker_log_of (ts_uuid demo_taker_swap) files1 = demo_taker_log 3 @ [TTakerPaymentInstructionsReceived ins]"
    using taker_save_log[OF files1 ok] unfolding taker_fixed_fields u demo_taker_log_def by blast
  have env0: "demo_broken_disk 0 = demo_event_env" "ee_now_sec demo_event_env = 1000"
    by (simp_all add: demo_broken_disk_def demo_event_env_def)
  have "sw_files demo_taker_cut = files1"
    using s(1) 1 files1
    by (auto simp: demo_taker_cut_def taker_turn_def swap_turn_def env0 Let_def demo_broken_save split: sum.splits
        simp del: taker_apply_event.simps)
  with log s(4) show ?thesis by simp
qed

lemma taker_panics_exactly_without_maker_payment_witness:
  "\<exists>w s. taker_runs demo_swap_ctx (\<lambda>_ _. True) demo_taker_swap Map.empty w
    \<and> sw_running w = Some (s, TValidateMakerPayment)
    \<and> taker_handle_command demo_swap_ctx demo_taker_answers TValidateMakerPayment s = StepPanics"
proof -
  let ?files = "sw_files demo_taker_cut"
  obtain d es ins where log: "taker_log_of (ts_uuid demo_taker_swap) ?files
      = TStarted d # es @ [TTakerPaymentInstructionsReceived ins]"
    using demo_taker_cut by blast
  have cut: "taker_runs demo_swap_ctx (\<lambda>_ _. True) demo_taker_swap Map.empty demo_taker_cut"
    using demo_taker_runs_any[of 3] unfolding demo_taker_cut_def taker_runs_def taker_turn_def
    by (rule swap_reach.turn) simp
  note sound = taker_runs_sound[OF cut demo_taker_new refl]
  have "taker_first demo_taker_swap (TStarted d)"
    using taker.sound_file[OF sound] log by (simp add: taker_good_def)
  moreover have "taker_command_after (TStarted d # es @ [TTakerPaymentInstructionsReceived ins]) = Some TValidateMakerPayment"
    by (simp add: taker_command_after_def)
  moreover have "io_read_error (ee_io demo_event_env) = None" by (simp add: demo_event_env_def)
  ultimately obtain s where kick: "taker_kick_start demo_swap_ctx (ts_maker_coin demo_taker_swap) (ts_taker_coin demo_taker_swap)
      (ts_uuid demo_taker_swap) (demo_taker_answers, 2000, ee_io demo_event_env) ?files = Some (s, TValidateMakerPayment, ?files)"
    using taker_restart_unwatched[OF sound demo_taker_new _ log _ demo_taker_unwatched] by blast
  let ?w = "demo_taker_cut\<lparr>sw_running := Some (s, TValidateMakerPayment), sw_files := ?files\<rparr>"
  have run: "taker_runs demo_swap_ctx (\<lambda>_ _. True) demo_taker_swap Map.empty ?w"
    using cut kick unfolding taker_runs_def by (rule swap_reach.restart)
  have "taker_handle_command demo_swap_ctx demo_taker_answers TValidateMakerPayment s = StepPanics"
    using taker_panics_exactly_without_maker_payment[OF run demo_taker_new refl, of s TValidateMakerPayment demo_taker_answers] log
    by (simp del: append_Cons add: append_Cons[symmetric])
  with run show ?thesis by (intro exI[of _ ?w] exI[of _ s]) simp
qed

end
