(* ===== verification/Wire_Format.thy ===== *)
theory Wire_Format
  imports Prelude
begin

text \<open>
  The wire format of Bitcoin-like chains (the crate \<open>mm2_bitcoin/serialization\<close>): \<open>Stream\<close>, to which the
  bytes of a value are appended, and \<open>Reader\<close>, which takes values off the front of a buffer.

  A stream is the bytes written so far, so that serialising is a function to bytes; its flags are an
  argument where a value looks at them. A reader is a function from the rest of the buffer (with the byte
  \<open>is_finished\<close> peeked at, if any, at its front) to an error or a value and the new rest. Running out of
  memory is not modelled, but a request for more than \<open>isize::MAX\<close> bytes, which panics, is.

  The locale \<open>codec\<close> is what a pair of a writer and a reader promises: what was written is read back and
  nothing behind it is touched, and a successful read only takes a prefix off the buffer.
\<close>

type_synonym u32 = "32 word"
type_synonym i32 = "32 word"
type_synonym i64 = "64 word"

section \<open>Readers\<close>

datatype ser_error = MalformedData | UnexpectedEnd | UnreadData | CustomError string

type_synonym 'a reader = "bytes \<Rightarrow> (ser_error, 'a \<times> bytes) rust_result"

definition rd_return :: "'a \<Rightarrow> 'a reader" where
  "rd_return a bs = Ok (a, bs)"

definition rd_fail :: "ser_error \<Rightarrow> 'a reader" where
  "rd_fail e bs = Err e"

definition rd_bind :: "'a reader \<Rightarrow> ('a \<Rightarrow> 'b reader) \<Rightarrow> 'b reader" where
  "rd_bind r f bs = rbind (r bs) (\<lambda>(a, rest). f a rest)"

definition rd_map :: "('a \<Rightarrow> 'b) \<Rightarrow> 'a reader \<Rightarrow> 'b reader" where
  "rd_map f r = rd_bind r (\<lambda>a. rd_return (f a))"

definition read_slice :: "nat \<Rightarrow> bytes reader" where
  "read_slice n bs = (if n \<le> length bs then Ok (take n bs, drop n bs) else Err UnexpectedEnd)"

definition is_finished :: "bytes \<Rightarrow> bool" where
  "is_finished bs = (bs = [])"

text \<open>\<open>deserialize\<close>: nothing may be left over.\<close>

definition deserialize :: "'a reader \<Rightarrow> bytes \<Rightarrow> (ser_error, 'a) rust_result" where
  "deserialize r buffer = rbind (r buffer) (\<lambda>(result, rest). if is_finished rest then Ok result else Err UnreadData)"

text \<open>\<open>Vec::with_capacity\<close> and \<open>vec![0; n]\<close> panic when the size in bytes is above \<open>isize::MAX\<close>.\<close>

definition with_capacity :: "nat \<Rightarrow> u64 \<Rightarrow> unit reader" where
  "with_capacity elem_size n bs = (if elem_size * unat n < 2 ^ 63 then Ok ((), bs) else Panic)"

section \<open>Integers\<close>

definition le_bytes :: "nat \<Rightarrow> 'a::len word \<Rightarrow> bytes" where
  "le_bytes n w = map (\<lambda>i. ucast (drop_bit (8 * i) w)) [0..<n]"

fun of_le_bytes :: "bytes \<Rightarrow> 'a::len word" where
  "of_le_bytes [] = 0"
| "of_le_bytes (b # bs) = ucast b + push_bit 8 (of_le_bytes bs)"

definition ser_u8 :: "u8 \<Rightarrow> bytes" where "ser_u8 b = [b]"
definition ser_u16 :: "u16 \<Rightarrow> bytes" where "ser_u16 n = le_bytes 2 n"
definition ser_u32 :: "u32 \<Rightarrow> bytes" where "ser_u32 n = le_bytes 4 n"
definition ser_u64 :: "u64 \<Rightarrow> bytes" where "ser_u64 n = le_bytes 8 n"
definition ser_i32 :: "i32 \<Rightarrow> bytes" where "ser_i32 n = le_bytes 4 n"
definition ser_i64 :: "i64 \<Rightarrow> bytes" where "ser_i64 n = le_bytes 8 n"
definition ser_bool :: "bool \<Rightarrow> bytes" where "ser_bool b = [if b then 1 else 0]"

definition de_u8 :: "u8 reader" where "de_u8 = rd_map hd (read_slice 1)"
definition de_u16 :: "u16 reader" where "de_u16 = rd_map of_le_bytes (read_slice 2)"
definition de_u32 :: "u32 reader" where "de_u32 = rd_map of_le_bytes (read_slice 4)"
definition de_u64 :: "u64 reader" where "de_u64 = rd_map of_le_bytes (read_slice 8)"
definition de_i32 :: "i32 reader" where "de_i32 = rd_map of_le_bytes (read_slice 4)"
definition de_i64 :: "i64 reader" where "de_i64 = rd_map of_le_bytes (read_slice 8)"

definition de_bool :: "bool reader" where
  "de_bool = rd_bind de_u8 (\<lambda>value. if value = 0 then rd_return False
     else if value = 1 then rd_return True else rd_fail MalformedData)"

section \<open>\<open>CompactInteger\<close>\<close>

definition ser_compact :: "u64 \<Rightarrow> bytes" where
  "ser_compact n =
    (if n \<le> 0xfc then ser_u8 (ucast n)
     else if n \<le> 0xffff then ser_u8 0xfd @ ser_u16 (ucast n)
     else if n \<le> 0xffffffff then ser_u8 0xfe @ ser_u32 (ucast n)
     else ser_u8 0xff @ ser_u64 n)"

definition compact_serialized_length :: "u64 \<Rightarrow> nat" where
  "compact_serialized_length n =
    (if n \<le> 0xfc then 1 else if n \<le> 0xffff then 3 else if n \<le> 0xffffffff then 5 else 9)"

definition de_compact :: "u64 reader" where
  "de_compact = rd_bind de_u8 (\<lambda>i.
     if i \<le> 0xfc then rd_return (ucast i)
     else if i = 0xfd then rd_map ucast de_u16
     else if i = 0xfe then rd_map ucast de_u32
     else de_u64)"

definition compact_data_length :: "u8 \<Rightarrow> nat" where
  "compact_data_length flag = (if flag = 0xfd then 2 else if flag = 0xfe then 4 else if flag = 0xff then 8 else 0)"

text \<open>\<open>parse_compact_int\<close>, which \<open>spv_validation\<close> uses on slices.\<close>

definition parse_compact_int :: "bytes \<Rightarrow> string + u64" where
  "parse_compact_int buf =
    (case buf of
       [] \<Rightarrow> Inl ''Empty buffer!''
     | flag # _ \<Rightarrow>
       (let len = compact_data_length flag
        in if len = 0 then Inr (ucast flag)
           else if length buf < 1 + len then Inl ''Insufficient bytes!''
           else Inr (of_le_bytes (take len (drop 1 buf) @ replicate (8 - len) 0))))"

section \<open>Lists, bytes and hashes\<close>

definition append_list :: "('a \<Rightarrow> bytes) \<Rightarrow> 'a list \<Rightarrow> bytes" where
  "append_list ser xs = ser_compact (of_nat (length xs)) @ concat (map ser xs)"

fun read_times :: "'a reader \<Rightarrow> nat \<Rightarrow> 'a list reader" where
  "read_times r 0 = rd_return []"
| "read_times r (Suc n) = rd_bind r (\<lambda>x. rd_bind (read_times r n) (\<lambda>xs. rd_return (x # xs)))"

definition read_list :: "nat \<Rightarrow> 'a reader \<Rightarrow> 'a list reader" where
  "read_list elem_size r = rd_bind de_compact (\<lambda>len.
     rd_bind (with_capacity elem_size len) (\<lambda>_. read_times r (unat len)))"

definition read_list_max :: "nat \<Rightarrow> 'a reader \<Rightarrow> 'a list reader" where
  "read_list_max most r = rd_bind de_compact (\<lambda>len.
     if most < unat len then rd_fail MalformedData else read_times r (unat len))"

text \<open>\<open>impl_ser_for_hash\<close>: an array of a fixed size.\<close>

definition ser_hash :: "bytes \<Rightarrow> bytes" where "ser_hash h = h"

definition de_hash :: "nat \<Rightarrow> bytes reader" where "de_hash n = read_slice n"

definition ser_bytes :: "bytes \<Rightarrow> bytes" where
  "ser_bytes b = ser_compact (of_nat (length b)) @ b"

definition de_bytes :: "bytes reader" where
  "de_bytes = rd_bind de_compact (\<lambda>len.
     if 65536 < unat len then rd_fail MalformedData else read_slice (unat len))"

text \<open>The sizes the code computes without serialising.\<close>

definition bytes_serialized_size :: "bytes \<Rightarrow> nat" where
  "bytes_serialized_size b = compact_serialized_length (of_nat (length b)) + length b"

definition serialized_list_size :: "('a \<Rightarrow> nat) \<Rightarrow> 'a list \<Rightarrow> nat" where
  "serialized_list_size item_size xs = compact_serialized_length (of_nat (length xs)) + sum_list (map item_size xs)"

section \<open>Flags and chain variants\<close>

definition SERIALIZE_TRANSACTION_WITNESS :: u32 where "SERIALIZE_TRANSACTION_WITNESS = 0x40000000"

definition include_transaction_witness :: "u32 \<Rightarrow> bool" where
  "include_transaction_witness flags = (and flags SERIALIZE_TRANSACTION_WITNESS \<noteq> 0)"

datatype chain_variant = BTC | Qtum | LBC | Standard | PPC | RICK | MORTY | RVN | PIVX

definition is_kmd_assetchain :: "chain_variant \<Rightarrow> bool" where
  "is_kmd_assetchain v = (v = RICK \<or> v = MORTY)"

definition chain_variant_try_from :: "string \<Rightarrow> string + chain_variant" where
  "chain_variant_try_from value =
    (if value = ''BTC'' then Inr BTC else if value = ''QTUM'' then Inr Qtum else if value = ''LBC'' then Inr LBC
     else if value = ''PPC'' then Inr PPC else if value = ''RICK'' then Inr RICK else if value = ''MORTY'' then Inr MORTY
     else if value = ''RVN'' then Inr RVN else if value = ''PIVX'' then Inr PIVX
     else Inl (''Unknown chain variant: '' @ value))"

section \<open>Bytes of a word\<close>

lemma length_le_bytes [simp]: "length (le_bytes n w) = n"
  by (simp add: le_bytes_def)

lemma le_bytes_Suc: "le_bytes (Suc n) w = ucast w # le_bytes n (drop_bit 8 w)"
  by (simp add: le_bytes_def upt_conv_Cons map_Suc_upt[symmetric] add.commute del: upt_Suc)

lemma of_le_bytes_le_bytes:
  "of_le_bytes (le_bytes n w) = (take_bit (8 * n) w :: 'a::len word)"
proof (induction n arbitrary: w)
  case 0
  then show ?case by (simp add: le_bytes_def)
next
  case (Suc n)
  have split: "take_bit 8 w + push_bit 8 (take_bit k (drop_bit 8 w)) = take_bit (8 + k) w" for k
  proof -
    have "take_bit 8 w + push_bit 8 (take_bit k (drop_bit 8 w)) = or (take_bit 8 w) (push_bit 8 (take_bit k (drop_bit 8 w)))"
      by (rule disjunctive_add) (auto simp: bit_simps)
    also have "\<dots> = take_bit (8 + k) w" by (rule bit_word_eqI) (auto simp: bit_simps)
    finally show ?thesis .
  qed
  have "ucast (ucast w :: u8) = take_bit 8 w"
    by (rule bit_word_eqI) (auto simp: bit_simps)
  then show ?case using split[of "8 * n"] by (simp add: le_bytes_Suc Suc.IH)
qed

lemma of_le_bytes_full: "LENGTH('a) = 8 * n \<Longrightarrow> of_le_bytes (le_bytes n w) = (w :: 'a::len word)"
  using take_bit_length_eq[of w] by (simp add: of_le_bytes_le_bytes)

lemma of_le_bytes_zeros: "of_le_bytes (bs @ replicate n 0) = of_le_bytes bs"
proof (induction bs)
  case Nil
  show ?case by (induction n) simp_all
qed simp


section \<open>What a writer and a reader promise\<close>

lemma rd_simps [simp]:
  "rd_return a bs = Ok (a, bs)" "rd_fail e bs = Err e" "rd_bind r f bs = rbind (r bs) (\<lambda>(a, rest). f a rest)"
  "rd_map g r bs = rbind (r bs) (\<lambda>(a, rest). Ok (g a, rest))"
  by (simp_all add: rd_return_def rd_fail_def rd_bind_def rd_map_def)

lemma read_slice_append [simp]: "read_slice (length b) (b @ rest) = Ok (b, rest)"
  by (simp add: read_slice_def)

lemma read_slice_le_bytes [simp]: "read_slice n (le_bytes n w @ rest) = Ok (le_bytes n w, rest)"
  using read_slice_append[of "le_bytes n w" rest] by simp

text \<open>What a reader takes off the buffer: a prefix, and a non-empty one if it \<open>consumes\<close>.\<close>

definition takes_prefix :: "'a reader \<Rightarrow> bool" where
  "takes_prefix r = (\<forall>bs x rest. r bs = Ok (x, rest) \<longrightarrow> (\<exists>used. bs = used @ rest))"

definition consumes :: "'a reader \<Rightarrow> bool" where
  "consumes r = (\<forall>bs x rest. r bs = Ok (x, rest) \<longrightarrow> length rest < length bs)"

lemma takes_prefix_bind [intro]:
  assumes "takes_prefix r" "\<And>a. takes_prefix (f a)"
  shows "takes_prefix (rd_bind r f)"
  unfolding takes_prefix_def
proof (intro allI impI)
  fix bs x rest
  assume "rd_bind r f bs = Ok (x, rest)"
  then obtain a rest1 where r: "r bs = Ok (a, rest1)" "f a rest1 = Ok (x, rest)" by auto
  obtain used1 where "bs = used1 @ rest1" using r(1) assms(1) unfolding takes_prefix_def by blast
  moreover obtain used2 where "rest1 = used2 @ rest" using r(2) assms(2) unfolding takes_prefix_def by blast
  ultimately show "\<exists>used. bs = used @ rest" by (metis append_assoc)
qed

lemma takes_prefix_simps [simp, intro]:
  "takes_prefix (rd_return a)" "takes_prefix (rd_fail e)" "takes_prefix (read_slice n)" "takes_prefix (with_capacity m k)"
  by (auto simp: takes_prefix_def read_slice_def with_capacity_def split: if_splits) (metis append_take_drop_id)

lemma takes_prefix_map [intro]: "takes_prefix r \<Longrightarrow> takes_prefix (rd_map g r)"
  unfolding rd_map_def by (rule takes_prefix_bind) simp_all

lemma takes_prefix_if [intro]: "takes_prefix r \<Longrightarrow> takes_prefix r' \<Longrightarrow> takes_prefix (if P then r else r')"
  by simp

lemma takes_prefix_times [intro]: "takes_prefix r \<Longrightarrow> takes_prefix (read_times r n)"
  by (induction n) auto

lemma takes_prefix_length: "takes_prefix r \<Longrightarrow> r bs = Ok (x, rest) \<Longrightarrow> length rest \<le> length bs"
  by (auto simp: takes_prefix_def dest!: spec)

lemma takes_prefix_cond [intro]:
  "takes_prefix r \<Longrightarrow> takes_prefix r' \<Longrightarrow> takes_prefix (\<lambda>bs. if P bs then r bs else r' bs)"
  by (auto simp: takes_prefix_def)

lemma takes_prefix_prod [intro]: "(\<And>a b. takes_prefix (f a b)) \<Longrightarrow> takes_prefix (case p of (a, b) \<Rightarrow> f a b)"
  by (cases p) simp

lemma consumes_bind: "consumes r \<Longrightarrow> (\<And>a. takes_prefix (f a)) \<Longrightarrow> consumes (rd_bind r f)"
  unfolding consumes_def using takes_prefix_length by fastforce

text \<open>Readers that never panic, whatever the bytes.\<close>

definition panic_free :: "'a reader \<Rightarrow> bool" where
  "panic_free r = (\<forall>bs. r bs \<noteq> Panic)"

lemma panic_free_bind [intro]: "panic_free r \<Longrightarrow> (\<And>a. panic_free (f a)) \<Longrightarrow> panic_free (rd_bind r f)"
  unfolding panic_free_def by auto

lemma panic_free_simps [simp, intro]:
  "panic_free (rd_return a)" "panic_free (rd_fail e)" "panic_free (read_slice n)"
  by (auto simp: panic_free_def read_slice_def)

lemma panic_free_map [intro]: "panic_free r \<Longrightarrow> panic_free (rd_map g r)"
  unfolding panic_free_def by auto

lemma panic_free_if [intro]: "panic_free r \<Longrightarrow> panic_free r' \<Longrightarrow> panic_free (if P then r else r')"
  by simp

lemma panic_free_times [intro]: "panic_free r \<Longrightarrow> panic_free (read_times r n)"
  by (induction n) auto

lemma panic_free_prod [intro]: "(\<And>a b. panic_free (f a b)) \<Longrightarrow> panic_free (case p of (a, b) \<Rightarrow> f a b)"
  by (cases p) simp

locale codec =
  fixes ser :: "'a \<Rightarrow> bytes" and de :: "'a reader" and ok :: "'a \<Rightarrow> bool"
  assumes round_trip: "ok x \<Longrightarrow> de (ser x @ rest) = Ok (x, rest)"
    and takes_prefix: "takes_prefix de"
begin

lemma deserialize_ser: "ok x \<Longrightarrow> deserialize de (ser x) = Ok x"
  using round_trip[of x "[]"] by (simp add: deserialize_def is_finished_def)

lemma ser_injective: "ok x \<Longrightarrow> ok y \<Longrightarrow> ser x = ser y \<Longrightarrow> x = y"
  using deserialize_ser by (metis rust_result.inject(2))

lemma times_round_trip:
  "list_all ok xs \<Longrightarrow> read_times de (length xs) (concat (map ser xs) @ rest) = Ok (xs, rest)"
  by (induction xs) (simp_all add: round_trip)

end

section \<open>The pairs of the library\<close>

lemma integers_round_trip [simp]:
  "de_u8 (ser_u8 b @ rest) = Ok (b, rest)" "de_u16 (ser_u16 h @ rest) = Ok (h, rest)"
  "de_u32 (ser_u32 w @ rest) = Ok (w, rest)" "de_u64 (ser_u64 d @ rest) = Ok (d, rest)"
  "de_i32 (ser_i32 i @ rest) = Ok (i, rest)" "de_i64 (ser_i64 l @ rest) = Ok (l, rest)"
  "de_bool (ser_bool v @ rest) = Ok (v, rest)"
  by (simp_all add: de_u8_def ser_u8_def de_u16_def ser_u16_def de_u32_def ser_u32_def de_u64_def ser_u64_def
      de_i32_def ser_i32_def de_i64_def ser_i64_def de_bool_def ser_bool_def of_le_bytes_full read_slice_def)

lemma integers_take_prefix [simp, intro]:
  "takes_prefix de_u8" "takes_prefix de_u16" "takes_prefix de_u32" "takes_prefix de_u64" "takes_prefix de_i32"
  "takes_prefix de_i64" "takes_prefix de_bool"
  unfolding de_u8_def de_u16_def de_u32_def de_u64_def de_i32_def de_i64_def de_bool_def
  by (intro takes_prefix_map takes_prefix_bind takes_prefix_if takes_prefix_simps)+

lemma ucast_fits:
  fixes n :: "'a::len word"
  assumes "unat n < 2 ^ LENGTH('b::len)"
  shows "unat (ucast n :: 'b word) = unat n"
  using assms by (simp add: unsigned_ucast_eq take_bit_nat_eq_self)

lemma ucast_ucast_fits:
  fixes n :: "'a::len word"
  assumes "unat n < 2 ^ LENGTH('b::len)"
  shows "ucast (ucast n :: 'b word) = n"
proof -
  have "unat (ucast (ucast n :: 'b word) :: 'a word) = unat (ucast n :: 'b word)"
    by (rule ucast_fits) (simp add: ucast_fits[OF assms])
  then show ?thesis using ucast_fits[OF assms] by (simp add: word_unat_eq_iff)
qed

lemma compact_round_trip [simp]: "de_compact (ser_compact n @ rest) = Ok (n, rest)"
proof -
  consider "n \<le> 0xfc" | "\<not> n \<le> 0xfc" "n \<le> 0xffff" | "\<not> n \<le> 0xfc" "\<not> n \<le> 0xffff" "n \<le> 0xffffffff"
    | "\<not> n \<le> 0xfc" "\<not> n \<le> 0xffff" "\<not> n \<le> 0xffffffff" by blast
  then show ?thesis
  proof cases
    case 1
    then have "unat n \<le> 252" by (simp add: word_le_nat_alt)
    then have "ucast (ucast n :: u8) = n" "unat (ucast n :: u8) \<le> 252"
      using ucast_ucast_fits[of n, where 'b = 8] ucast_fits[of n, where 'b = 8] by simp_all
    then show ?thesis using 1 by (simp add: de_compact_def ser_compact_def word_le_nat_alt)
  next
    case 2
    then have "unat n \<le> 65535" by (simp add: word_le_nat_alt)
    then have "ucast (ucast n :: u16) = n" using ucast_ucast_fits[of n, where 'b = 16] by simp
    then show ?thesis using 2 by (simp add: de_compact_def ser_compact_def)
  next
    case 3
    then have "unat n \<le> 4294967295" by (simp add: word_le_nat_alt)
    then have "ucast (ucast n :: u32) = n" using ucast_ucast_fits[of n, where 'b = 32] by simp
    then show ?thesis using 3 by (simp add: de_compact_def ser_compact_def)
  next
    case 4
    then show ?thesis by (simp add: de_compact_def ser_compact_def)
  qed
qed

lemma compact_takes_prefix [simp, intro]: "takes_prefix de_compact"
  unfolding de_compact_def by (intro takes_prefix_bind takes_prefix_if takes_prefix_map takes_prefix_simps integers_take_prefix)

lemma integers_panic_free [simp, intro]:
  "panic_free de_u8" "panic_free de_u16" "panic_free de_u32" "panic_free de_u64" "panic_free de_i32" "panic_free de_i64"
  "panic_free de_compact" "panic_free (de_hash n)" "panic_free de_bytes"
  unfolding de_u8_def de_u16_def de_u32_def de_u64_def de_i32_def de_i64_def de_compact_def de_hash_def de_bytes_def
  by (intro panic_free_map panic_free_bind panic_free_if panic_free_simps)+

lemma read_list_max_panic_free [intro]: "panic_free r \<Longrightarrow> panic_free (read_list_max most r)"
  unfolding read_list_max_def by (intro panic_free_bind panic_free_if panic_free_simps panic_free_times integers_panic_free)

lemma length_ser_compact: "length (ser_compact n) = compact_serialized_length n"
  by (simp add: ser_compact_def compact_serialized_length_def ser_u8_def ser_u16_def ser_u32_def ser_u64_def)

lemma hash_round_trip [simp]: "length h = n \<Longrightarrow> de_hash n (ser_hash h @ rest) = Ok (h, rest)"
  by (auto simp: de_hash_def ser_hash_def)

lemma unat_of_nat_length: "length xs < 2 ^ 64 \<Longrightarrow> unat (of_nat (length xs) :: u64) = length xs"
  by (simp add: unsigned_of_nat take_bit_nat_eq_self)

lemma bytes_round_trip [simp]: "length b \<le> 65536 \<Longrightarrow> de_bytes (ser_bytes b @ rest) = Ok (b, rest)"
  by (simp add: de_bytes_def ser_bytes_def unat_of_nat_length)

lemma hash_bytes_take_prefix [simp, intro]: "takes_prefix (de_hash n)" "takes_prefix de_bytes"
  unfolding de_hash_def de_bytes_def
  by (intro takes_prefix_bind takes_prefix_if takes_prefix_simps compact_takes_prefix)+

interpretation compact_integer: codec ser_compact de_compact "\<lambda>_. True"
  by unfold_locales auto

interpretation short_bytes: codec ser_bytes de_bytes "\<lambda>b. length b \<le> 65536"
  by unfold_locales auto

interpretation byte: codec ser_u8 de_u8 "\<lambda>_. True"
  by unfold_locales auto

interpretation h256: codec ser_hash "de_hash 32" "\<lambda>h. length h = 32"
  by unfold_locales auto

text \<open>Lists of anything that is read back are read back, as long as their length is admitted.\<close>

context codec
begin

lemma list_max_round_trip:
  assumes "list_all ok xs" "length xs \<le> most" "length xs < 2 ^ 64"
  shows "read_list_max most de (append_list ser xs @ rest) = Ok (xs, rest)"
  using assms times_round_trip[OF assms(1), of rest] by (simp add: read_list_max_def append_list_def unat_of_nat_length)

lemma list_round_trip:
  assumes "list_all ok xs" "elem_size * length xs < 2 ^ 63" "length xs < 2 ^ 64"
  shows "read_list elem_size de (append_list ser xs @ rest) = Ok (xs, rest)"
  using assms times_round_trip[OF assms(1), of rest]
  by (simp add: read_list_def append_list_def with_capacity_def unat_of_nat_length)

lemma list_max_takes_prefix: "takes_prefix (read_list_max most de)"
  unfolding read_list_max_def
  by (intro takes_prefix_bind takes_prefix_if takes_prefix_times takes_prefix_simps compact_takes_prefix takes_prefix)

lemma list_takes_prefix: "takes_prefix (read_list elem_size de)"
  unfolding read_list_def
  by (intro takes_prefix_bind takes_prefix_times takes_prefix_simps compact_takes_prefix takes_prefix)

end

text \<open>
  A number has several encodings for the reader: it does not ask for the shortest one, and what it
  read may be written back differently.
\<close>

theorem compact_not_canonical:
  "de_compact [0xfd, 1, 0] = Ok (1, []) \<and> ser_compact 1 = [1]"
  by (simp add: de_compact_def ser_compact_def de_u8_def de_u16_def ser_u8_def read_slice_def)


section \<open>The parser on slices\<close>

fun le_nat :: "bytes \<Rightarrow> nat" where
  "le_nat [] = 0"
| "le_nat (b # bs) = unat b + 256 * le_nat bs"

lemma le_nat_less: "le_nat bs < 256 ^ length bs"
proof (induction bs)
  case (Cons b bs)
  have "unat b < 256" using unsigned_less[of b] by simp
  then show ?case using Cons by simp
qed simp

lemma unat_of_le_bytes: "8 * length bs \<le> LENGTH('a) \<Longrightarrow> unat (of_le_bytes bs :: 'a::len word) = le_nat bs"
proof (induction bs)
  case (Cons b bs)
  let ?w = "of_le_bytes bs :: 'a word"
  have IH: "unat ?w = le_nat bs" using Cons by simp
  have less: "le_nat (b # bs) < 2 ^ LENGTH('a)"
  proof -
    have "(256::nat) ^ length (b # bs) = 2 ^ (8 * length (b # bs))" by (simp only: power_mult) simp
    also have "\<dots> \<le> 2 ^ LENGTH('a)" using Cons.prems by (intro power_increasing) auto
    finally show ?thesis using le_nat_less[of "b # bs"] by linarith
  qed
  have "unat (push_bit 8 ?w) = take_bit LENGTH('a) (push_bit 8 (unat ?w))" by (rule unsigned_push_bit_eq)
  also have "\<dots> = 256 * le_nat bs" using less IH by (simp add: push_bit_eq_mult take_bit_nat_eq_self)
  finally have "unat (push_bit 8 ?w) = 256 * le_nat bs" .
  moreover have "unat (ucast b :: 'a word) = unat b"
    using less by (intro ucast_fits) simp
  ultimately show ?case using less by (simp add: unat_word_ariths)
qed simp

lemma of_le_bytes_padded:
  assumes "LENGTH('b) = 8 * k" "k \<le> length bs" "k \<le> 8"
  shows "(of_le_bytes (take k bs @ replicate (8 - k) 0) :: u64) = ucast (of_le_bytes (take k bs) :: 'b::len word)"
proof -
  let ?w = "of_le_bytes (take k bs) :: 'b word"
  have "unat ?w < 2 ^ LENGTH('b)" by (rule unsigned_less)
  also have "\<dots> \<le> 2 ^ 64" using assms(1,3) by (intro power_increasing) auto
  finally have "unat (ucast ?w :: u64) = unat ?w" by (intro ucast_fits) simp
  then show ?thesis using assms by (simp add: word_unat_eq_iff of_le_bytes_zeros unat_of_le_bytes)
qed

lemma de_u8_Cons [simp]: "de_u8 (b # bs) = Ok (b, bs)"
  by (simp add: de_u8_def read_slice_def)

lemma parse_compact_int_iff:
  "parse_compact_int buf = Inr n \<longleftrightarrow> (\<exists>rest. de_compact buf = Ok (n, rest))"
proof (cases buf)
  case Nil
  then show ?thesis by (simp add: parse_compact_int_def de_compact_def de_u8_def read_slice_def)
next
  case (Cons flag bs)
  have flags: "\<not> (0xfd::u8) \<le> 0xfc" "\<not> (0xfe::u8) \<le> 0xfc" "\<not> (0xff::u8) \<le> 0xfc" by simp_all
  consider "flag = 0xfd" | "flag = 0xfe" | "flag = 0xff" | "flag \<le> 0xfc"
  proof -
    have "flag \<le> 0xfc \<or> flag = 0xfd \<or> flag = 0xfe \<or> flag = 0xff"
    proof -
      have "unat flag < 256" using unsigned_less[of flag] by simp
      then have "unat flag \<le> 252 \<or> unat flag = 253 \<or> unat flag = 254 \<or> unat flag = 255" by linarith
      then show ?thesis by (simp add: word_le_nat_alt word_unat_eq_iff)
    qed
    with that show ?thesis by blast
  qed
  then show ?thesis
  proof cases
    case 1
    then show ?thesis using of_le_bytes_padded[of 2 bs, where 'b = 16] flags
      by (auto simp: Cons parse_compact_int_def compact_data_length_def de_compact_def de_u16_def read_slice_def)
  next
    case 2
    then show ?thesis using of_le_bytes_padded[of 4 bs, where 'b = 32] flags
      by (auto simp: Cons parse_compact_int_def compact_data_length_def de_compact_def de_u32_def read_slice_def)
  next
    case 3
    then show ?thesis using of_le_bytes_padded[of 8 bs, where 'b = 64] flags
      by (auto simp: Cons parse_compact_int_def compact_data_length_def de_compact_def de_u64_def read_slice_def)
  next
    case 4
    then have "flag \<noteq> 0xfd" "flag \<noteq> 0xfe" "flag \<noteq> 0xff" using flags by auto
    then show ?thesis using 4
      by (auto simp: Cons parse_compact_int_def compact_data_length_def de_compact_def Let_def)
  qed
qed

text \<open>
  \<open>parse_compact_int\<close>, the second parser of the same format, finds a number exactly when the reader
  does, and the same one.
\<close>

theorem parse_compact_int_agrees_with_reader:
  "parse_compact_int buf = Inr n \<longleftrightarrow> (\<exists>rest. de_compact buf = Ok (n, rest))"
  by (rule parse_compact_int_iff)

lemma parse_compact_int_ser [simp]: "parse_compact_int (ser_compact n @ rest) = Inr n"
  by (simp add: parse_compact_int_iff)

end
