(* ===== verification/Bitcoin_Tx.thy ===== *)
theory Bitcoin_Tx
  imports Wire_Format
begin

text \<open>
  Transactions of Bitcoin-like chains (\<open>mm2_bitcoin/chain/src/transaction.rs\<close>): how they are written, with
  and without witnesses, with the fields of Zcash, of proof-of-stake chains and of Firo, and how they are
  read, where the kind of the chain is a guess (\<open>TxType\<close>) and not part of the bytes. An array of two hashes
  is a pair, a hash is the list of its bytes; what is derived for the structs by \<open>serialization_derive\<close> is
  the concatenation of their fields in the order of declaration.
\<close>

section \<open>The data\<close>

definition WITNESS_MARKER :: u8 where "WITNESS_MARKER = 0"
definition WITNESS_FLAG :: u8 where "WITNESS_FLAG = 1"
definition MAX_LIST_SIZE :: nat where "MAX_LIST_SIZE = 8192"
definition SEQUENCE_FINAL :: u32 where "SEQUENCE_FINAL = 0xffffffff"
definition LOCKTIME_THRESHOLD :: u32 where "LOCKTIME_THRESHOLD = 500000000"

record out_point =
  opt_hash :: bytes
  opt_index :: u32

record tx_input =
  txi_previous_output :: out_point
  txi_script_sig :: bytes
  txi_sequence :: u32
  txi_script_witness :: "bytes list"

record tx_output =
  txo_value :: u64
  txo_script_pubkey :: bytes

record shielded_spend =
  shs_cv :: bytes
  shs_anchor :: bytes
  shs_nullifier :: bytes
  shs_rk :: bytes
  shs_zkproof :: bytes
  shs_spend_auth_sig :: bytes

record shielded_output =
  sho_cv :: bytes
  sho_cmu :: bytes
  sho_ephemeral_key :: bytes
  sho_enc_cipher_text :: bytes
  sho_out_cipher_text :: bytes
  sho_zkproof :: bytes

datatype join_split_proof = PHGR bytes | Groth bytes

record join_split =
  js_v_pub_old :: bytes
  js_v_pub_new :: bytes
  js_anchor :: bytes
  js_nullifiers :: "bytes \<times> bytes"
  js_commitments :: "bytes \<times> bytes"
  js_ephemeral_key :: bytes
  js_random_seed :: bytes
  js_macs :: "bytes \<times> bytes"
  js_zkproof :: join_split_proof
  js_ciphertexts :: "bytes \<times> bytes"

datatype tx_hash_algo = DSHA256 | SHA256

record transaction =
  btx_version :: i32
  btx_n_time :: "u32 option"
  btx_overwintered :: bool
  btx_version_group_id :: u32
  btx_inputs :: "tx_input list"
  btx_outputs :: "tx_output list"
  btx_lock_time :: u32
  btx_expiry_height :: u32
  btx_shielded_spends :: "shielded_spend list"
  btx_shielded_outputs :: "shielded_output list"
  btx_join_splits :: "join_split list"
  btx_value_balance :: i64
  btx_join_split_pubkey :: bytes
  btx_join_split_sig :: bytes
  btx_binding_sig :: bytes
  btx_zcash :: bool
  btx_posv :: bool
  btx_str_d_zeel :: "bytes option"
  btx_tx_hash_algo :: tx_hash_algo
  btx_v_extra_payload :: "bytes option"

definition hash_default :: "nat \<Rightarrow> bytes" where "hash_default n = replicate n 0"

definition is_zero :: "bytes \<Rightarrow> bool" where "is_zero h = list_all (\<lambda>b. b = 0) h"

definition out_point_null :: out_point where
  "out_point_null = \<lparr>opt_hash = hash_default 32, opt_index = - 1\<rparr>"

definition opt_is_null :: "out_point \<Rightarrow> bool" where
  "opt_is_null o1 = (is_zero (opt_hash o1) \<and> opt_index o1 = - 1)"

definition tx_input_coinbase :: "bytes \<Rightarrow> tx_input" where
  "tx_input_coinbase script_sig = \<lparr>txi_previous_output = out_point_null, txi_script_sig = script_sig,
     txi_sequence = SEQUENCE_FINAL, txi_script_witness = []\<rparr>"

definition txi_is_final :: "tx_input \<Rightarrow> bool" where "txi_is_final i = (txi_sequence i = SEQUENCE_FINAL)"
definition txi_has_witness :: "tx_input \<Rightarrow> bool" where "txi_has_witness i = (txi_script_witness i \<noteq> [])"

definition tx_output_default :: tx_output where
  "tx_output_default = \<lparr>txo_value = - 1, txo_script_pubkey = []\<rparr>"

section \<open>Properties of a transaction\<close>

definition btx_is_empty :: "transaction \<Rightarrow> bool" where
  "btx_is_empty t = (btx_inputs t = [] \<or> btx_outputs t = [])"

definition btx_is_null :: "transaction \<Rightarrow> bool" where
  "btx_is_null t = list_ex (\<lambda>i. opt_is_null (txi_previous_output i)) (btx_inputs t)"

definition btx_is_coinbase :: "transaction \<Rightarrow> bool" where
  "btx_is_coinbase t = (length (btx_inputs t) = 1 \<and> opt_is_null (txi_previous_output (hd (btx_inputs t))))"

definition btx_is_final :: "transaction \<Rightarrow> bool" where
  "btx_is_final t = (btx_lock_time t = 0 \<or> list_all txi_is_final (btx_inputs t))"

definition btx_is_final_in_block :: "transaction \<Rightarrow> u32 \<Rightarrow> u32 \<Rightarrow> bool" where
  "btx_is_final_in_block t block_height block_time =
    (if btx_lock_time t = 0 then True
     else let max_lock_time = if btx_lock_time t < LOCKTIME_THRESHOLD then block_height else block_time
       in if btx_lock_time t < max_lock_time then True else list_all txi_is_final (btx_inputs t))"

definition btx_has_witness :: "transaction \<Rightarrow> bool" where
  "btx_has_witness t = list_ex txi_has_witness (btx_inputs t)"

text \<open>\<open>total_spends\<close>: the sum saturates, with an early return.\<close>

fun total_spends_loop :: "u64 \<Rightarrow> tx_output list \<Rightarrow> u64" where
  "total_spends_loop result [] = result"
| "total_spends_loop result (output # outputs) =
    (if - 1 - result < txo_value output then - 1 else total_spends_loop (result + txo_value output) outputs)"

definition btx_total_spends :: "transaction \<Rightarrow> u64" where
  "btx_total_spends t = total_spends_loop 0 (btx_outputs t)"

definition btx_first_output :: "transaction \<Rightarrow> (unit, tx_output) rust_result" where
  "btx_first_output t = (case btx_outputs t of [] \<Rightarrow> Err () | o1 # _ \<Rightarrow> Ok o1)"

section \<open>Writing\<close>

definition ser_out_point :: "out_point \<Rightarrow> bytes" where
  "ser_out_point o1 = ser_hash (opt_hash o1) @ ser_u32 (opt_index o1)"

definition ser_tx_input :: "tx_input \<Rightarrow> bytes" where
  "ser_tx_input i = ser_out_point (txi_previous_output i) @ ser_bytes (txi_script_sig i) @ ser_u32 (txi_sequence i)"

definition ser_tx_output :: "tx_output \<Rightarrow> bytes" where
  "ser_tx_output o1 = ser_u64 (txo_value o1) @ ser_bytes (txo_script_pubkey o1)"

definition ser_shielded_spend :: "shielded_spend \<Rightarrow> bytes" where
  "ser_shielded_spend s = ser_hash (shs_cv s) @ ser_hash (shs_anchor s) @ ser_hash (shs_nullifier s)
     @ ser_hash (shs_rk s) @ ser_hash (shs_zkproof s) @ ser_hash (shs_spend_auth_sig s)"

definition ser_shielded_output :: "shielded_output \<Rightarrow> bytes" where
  "ser_shielded_output s = ser_hash (sho_cv s) @ ser_hash (sho_cmu s) @ ser_hash (sho_ephemeral_key s)
     @ ser_hash (sho_enc_cipher_text s) @ ser_hash (sho_out_cipher_text s) @ ser_hash (sho_zkproof s)"

fun ser_join_split_proof :: "join_split_proof \<Rightarrow> bytes" where
  "ser_join_split_proof (PHGR p) = ser_hash p"
| "ser_join_split_proof (Groth p) = ser_hash p"

definition ser_join_split :: "join_split \<Rightarrow> bytes" where
  "ser_join_split j = ser_hash (js_v_pub_old j) @ ser_hash (js_v_pub_new j) @ ser_hash (js_anchor j)
     @ ser_hash (fst (js_nullifiers j)) @ ser_hash (snd (js_nullifiers j))
     @ ser_hash (fst (js_commitments j)) @ ser_hash (snd (js_commitments j))
     @ ser_hash (js_ephemeral_key j) @ ser_hash (js_random_seed j)
     @ ser_hash (fst (js_macs j)) @ ser_hash (snd (js_macs j))
     @ ser_join_split_proof (js_zkproof j)
     @ ser_hash (fst (js_ciphertexts j)) @ ser_hash (snd (js_ciphertexts j))"

definition ser_option :: "('a \<Rightarrow> bytes) \<Rightarrow> 'a option \<Rightarrow> bytes" where
  "ser_option ser x = (case x of Some a \<Rightarrow> ser a | None \<Rightarrow> [])"

text \<open>The parts of a transaction behind its lock time.\<close>

definition ser_sapling :: "transaction \<Rightarrow> bytes" where
  "ser_sapling t =
    (if btx_overwintered t \<and> 3 \<le> sint (btx_version t)
     then ser_u32 (btx_expiry_height t) @
       (if 4 \<le> sint (btx_version t)
        then ser_i64 (btx_value_balance t) @ append_list ser_shielded_spend (btx_shielded_spends t)
          @ append_list ser_shielded_output (btx_shielded_outputs t)
        else [])
     else [])"

definition ser_join_splits :: "transaction \<Rightarrow> bytes" where
  "ser_join_splits t =
    (if btx_zcash t
     then (if btx_version t = 2 \<or> btx_overwintered t
           then append_list ser_join_split (btx_join_splits t)
             @ (if btx_join_splits t \<noteq> [] then ser_hash (btx_join_split_pubkey t) @ ser_hash (btx_join_split_sig t) else [])
           else [])
       @ (if 4 \<le> sint (btx_version t) \<and> btx_overwintered t
             \<and> \<not> (btx_shielded_outputs t = [] \<and> btx_shielded_spends t = [])
          then ser_hash (btx_binding_sig t) else [])
     else [])"

definition ser_tail :: "transaction \<Rightarrow> bytes" where
  "ser_tail t = ser_option (\<lambda>s. ser_compact (of_nat (length s)) @ s) (btx_str_d_zeel t)
     @ ser_option (\<lambda>p. if p \<noteq> [] then ser_compact (of_nat (length p)) @ p else []) (btx_v_extra_payload t)"

definition ser_transaction :: "u32 \<Rightarrow> transaction \<Rightarrow> bytes" where
  "ser_transaction flags t =
    (if \<not> (include_transaction_witness flags \<and> btx_has_witness t)
     then ser_i32 (if btx_overwintered t then or (btx_version t) (push_bit 31 1) else btx_version t)
       @ (if btx_overwintered t then ser_u32 (btx_version_group_id t) else [])
       @ (if \<not> btx_posv t then ser_option ser_u32 (btx_n_time t) else [])
       @ append_list ser_tx_input (btx_inputs t) @ append_list ser_tx_output (btx_outputs t)
       @ ser_u32 (btx_lock_time t)
       @ (if btx_posv t then ser_option ser_u32 (btx_n_time t) else [])
       @ ser_sapling t @ ser_join_splits t @ ser_tail t
     else ser_i32 (btx_version t) @ ser_u8 WITNESS_MARKER @ ser_u8 WITNESS_FLAG
       @ append_list ser_tx_input (btx_inputs t) @ append_list ser_tx_output (btx_outputs t)
       @ concat (map (\<lambda>i. append_list ser_bytes (txi_script_witness i)) (btx_inputs t))
       @ ser_u32 (btx_lock_time t))"

text \<open>\<open>hash\<close> and \<open>witness_hash\<close>, over the two hash functions of the crate \<open>crypto\<close>.\<close>

definition btx_hash :: "(bytes \<Rightarrow> bytes) \<Rightarrow> (bytes \<Rightarrow> bytes) \<Rightarrow> transaction \<Rightarrow> bytes" where
  "btx_hash dhash256 sha256 t = (let serialized = ser_transaction 0 t
     in case btx_tx_hash_algo t of DSHA256 \<Rightarrow> dhash256 serialized | SHA256 \<Rightarrow> sha256 serialized)"

definition btx_witness_hash :: "(bytes \<Rightarrow> bytes) \<Rightarrow> transaction \<Rightarrow> bytes" where
  "btx_witness_hash dhash256 t = dhash256 (ser_transaction SERIALIZE_TRANSACTION_WITNESS t)"

section \<open>Reading\<close>

definition de_out_point :: "out_point reader" where
  "de_out_point = rd_bind (de_hash 32) (\<lambda>h. rd_bind de_u32 (\<lambda>index.
     rd_return \<lparr>opt_hash = h, opt_index = index\<rparr>))"

definition de_tx_input :: "tx_input reader" where
  "de_tx_input = rd_bind de_out_point (\<lambda>previous_output. rd_bind de_bytes (\<lambda>script_sig. rd_bind de_u32 (\<lambda>sequence.
     rd_return \<lparr>txi_previous_output = previous_output, txi_script_sig = script_sig, txi_sequence = sequence,
       txi_script_witness = []\<rparr>)))"

definition de_tx_output :: "tx_output reader" where
  "de_tx_output = rd_bind de_u64 (\<lambda>v. rd_bind de_bytes (\<lambda>script_pubkey.
     rd_return \<lparr>txo_value = v, txo_script_pubkey = script_pubkey\<rparr>))"

definition de_shielded_spend :: "shielded_spend reader" where
  "de_shielded_spend = rd_bind (de_hash 32) (\<lambda>cv. rd_bind (de_hash 32) (\<lambda>anchor. rd_bind (de_hash 32) (\<lambda>nullifier.
     rd_bind (de_hash 32) (\<lambda>rk. rd_bind (de_hash 192) (\<lambda>zkproof. rd_bind (de_hash 64) (\<lambda>sig.
     rd_return \<lparr>shs_cv = cv, shs_anchor = anchor, shs_nullifier = nullifier, shs_rk = rk, shs_zkproof = zkproof,
       shs_spend_auth_sig = sig\<rparr>))))))"

definition de_shielded_output :: "shielded_output reader" where
  "de_shielded_output = rd_bind (de_hash 32) (\<lambda>cv. rd_bind (de_hash 32) (\<lambda>cmu. rd_bind (de_hash 32) (\<lambda>ephemeral_key.
     rd_bind (de_hash 580) (\<lambda>enc_cipher_text. rd_bind (de_hash 80) (\<lambda>out_cipher_text. rd_bind (de_hash 192) (\<lambda>zkproof.
     rd_return \<lparr>sho_cv = cv, sho_cmu = cmu, sho_ephemeral_key = ephemeral_key, sho_enc_cipher_text = enc_cipher_text,
       sho_out_cipher_text = out_cipher_text, sho_zkproof = zkproof\<rparr>))))))"

definition de_pair :: "nat \<Rightarrow> (bytes \<times> bytes) reader" where
  "de_pair n = rd_bind (de_hash n) (\<lambda>a. rd_bind (de_hash n) (\<lambda>b. rd_return (a, b)))"

definition deserialize_join_split :: "bool \<Rightarrow> join_split reader" where
  "deserialize_join_split use_groth =
    rd_bind (de_hash 8) (\<lambda>v_pub_old. rd_bind (de_hash 8) (\<lambda>v_pub_new. rd_bind (de_hash 32) (\<lambda>anchor.
    rd_bind (de_pair 32) (\<lambda>nullifiers. rd_bind (de_pair 32) (\<lambda>commitments.
    rd_bind (de_hash 32) (\<lambda>ephemeral_key. rd_bind (de_hash 32) (\<lambda>random_seed. rd_bind (de_pair 32) (\<lambda>macs.
    rd_bind (if use_groth then rd_map Groth (de_hash 192) else rd_map PHGR (de_hash 296)) (\<lambda>zkproof.
    rd_bind (de_pair 601) (\<lambda>ciphertexts.
    rd_return \<lparr>js_v_pub_old = v_pub_old, js_v_pub_new = v_pub_new, js_anchor = anchor, js_nullifiers = nullifiers,
      js_commitments = commitments, js_ephemeral_key = ephemeral_key, js_random_seed = random_seed, js_macs = macs,
      js_zkproof = zkproof, js_ciphertexts = ciphertexts\<rparr>))))))))))"

datatype tx_type = StandardWithWitness | Zcash | PosWithNTime | PosvWithNTime

definition uses_witness :: "tx_type \<Rightarrow> bool" where
  "uses_witness ty = (ty = StandardWithWitness \<or> ty = PosvWithNTime)"

text \<open>\<open>std::str::from_utf8\<close>, as far as it accepts.\<close>

definition utf8_cont :: "u8 \<Rightarrow> bool" where "utf8_cont b = (0x80 \<le> b \<and> b \<le> 0xBF)"

fun utf8_valid :: "bytes \<Rightarrow> bool" where
  "utf8_valid [] = True"
| "utf8_valid (b # bs) =
    (if b < 0x80 then utf8_valid bs
     else case bs of
       [] \<Rightarrow> False
     | c1 # bs1 \<Rightarrow>
       if 0xC2 \<le> b \<and> b \<le> 0xDF then utf8_cont c1 \<and> utf8_valid bs1
       else (case bs1 of
         [] \<Rightarrow> False
       | c2 # bs2 \<Rightarrow>
         if 0xE0 \<le> b \<and> b \<le> 0xEF
         then utf8_cont c1 \<and> (b = 0xE0 \<longrightarrow> 0xA0 \<le> c1) \<and> (b = 0xED \<longrightarrow> c1 \<le> 0x9F) \<and> utf8_cont c2 \<and> utf8_valid bs2
         else (case bs2 of
           [] \<Rightarrow> False
         | c3 # bs3 \<Rightarrow> 0xF0 \<le> b \<and> b \<le> 0xF4 \<and> utf8_cont c1 \<and> (b = 0xF0 \<longrightarrow> 0x90 \<le> c1)
             \<and> (b = 0xF4 \<longrightarrow> c1 \<le> 0x8F) \<and> utf8_cont c2 \<and> utf8_cont c3 \<and> utf8_valid bs3)))"

text \<open>The parts of \<open>deserialize_tx\<close>.\<close>

definition read_inputs :: "tx_type \<Rightarrow> bool \<Rightarrow> (tx_input list \<times> bool) reader" where
  "read_inputs ty overwintered = rd_bind (read_list_max MAX_LIST_SIZE de_tx_input) (\<lambda>inputs.
     if inputs = [] \<and> \<not> overwintered \<and> uses_witness ty
     then rd_bind de_u8 (\<lambda>witness_flag.
       if witness_flag \<noteq> WITNESS_FLAG then rd_fail MalformedData
       else rd_bind (read_list_max MAX_LIST_SIZE de_tx_input) (\<lambda>inputs. rd_return (inputs, True)))
     else rd_return (inputs, False))"

definition read_outputs :: "tx_type \<Rightarrow> tx_output list reader" where
  "read_outputs ty = rd_bind (read_list_max MAX_LIST_SIZE de_tx_output) (\<lambda>outputs.
     if outputs = [] \<and> uses_witness ty then rd_fail (CustomError ''Transaction has no output'') else rd_return outputs)"

fun read_witnesses :: "tx_input list \<Rightarrow> tx_input list reader" where
  "read_witnesses [] = rd_return []"
| "read_witnesses (i # inputs) = rd_bind (read_list_max MAX_LIST_SIZE de_bytes) (\<lambda>w.
     rd_bind (read_witnesses inputs) (\<lambda>inputs. rd_return (i\<lparr>txi_script_witness := w\<rparr> # inputs)))"

definition read_sapling :: "bool \<Rightarrow> i32 \<Rightarrow> (u32 \<times> i64 \<times> shielded_spend list \<times> shielded_output list) reader" where
  "read_sapling overwintered version =
    (if overwintered \<and> 3 \<le> sint version
     then rd_bind de_u32 (\<lambda>expiry_height.
       if 4 \<le> sint version
       then rd_bind de_i64 (\<lambda>value_balance. rd_bind (read_list_max MAX_LIST_SIZE de_shielded_spend) (\<lambda>spends.
         rd_bind (read_list_max MAX_LIST_SIZE de_shielded_output) (\<lambda>outputs.
         rd_return (expiry_height, value_balance, spends, outputs))))
       else rd_return (expiry_height, 0, [], []))
     else rd_return (0, 0, [], []))"

definition read_join_splits :: "bool \<Rightarrow> bool \<Rightarrow> i32 \<Rightarrow> (join_split list \<times> bytes \<times> bytes) reader" where
  "read_join_splits zcash overwintered version =
    (if zcash \<and> (version = 2 \<or> overwintered)
     then rd_bind de_compact (\<lambda>len.
       if unat len = 0 then rd_return ([], hash_default 32, hash_default 64)
       else if MAX_LIST_SIZE < unat len then rd_fail MalformedData
       else rd_bind (read_times (deserialize_join_split (2 < sint version)) (unat len)) (\<lambda>join_splits.
         rd_bind (de_hash 32) (\<lambda>pubkey. rd_bind (de_hash 64) (\<lambda>sig. rd_return (join_splits, pubkey, sig)))))
     else rd_return ([], hash_default 32, hash_default 64))"

definition read_binding_sig :: "bool \<Rightarrow> bool \<Rightarrow> i32 \<Rightarrow> bool \<Rightarrow> bytes reader" where
  "read_binding_sig zcash overwintered version no_shielded =
    (if zcash \<and> overwintered \<and> 4 \<le> sint version \<and> \<not> no_shielded then de_hash 64 else rd_return (hash_default 64))"

text \<open>A vector of the announced length, which may be too long for memory.\<close>

definition read_vec :: "bytes reader" where
  "read_vec = rd_bind de_compact (\<lambda>len. rd_bind (with_capacity 1 len) (\<lambda>_. read_slice (unat len)))"

definition read_str_d_zeel :: "tx_type \<Rightarrow> bytes option reader" where
  "read_str_d_zeel ty bs =
    (if ty = PosWithNTime \<and> \<not> is_finished bs
     then rd_bind read_vec (\<lambda>buf. if utf8_valid buf then rd_return (Some buf) else rd_fail MalformedData) bs
     else rd_return None bs)"

definition read_extra_payload :: "bool \<Rightarrow> bytes option reader" where
  "read_extra_payload maybe_spark bs =
    (if maybe_spark \<and> \<not> is_finished bs then rd_map Some read_vec bs else rd_return None bs)"

definition maybe_spark :: "i32 \<Rightarrow> bool" where
  "maybe_spark header = (and header 0xFFFF = 3)"

definition deserialize_tx :: "tx_type \<Rightarrow> transaction reader" where
  "deserialize_tx ty =
    rd_bind de_i32 (\<lambda>header.
    let overwintered = bit header 31;
        version = (if overwintered then and header 0x7FFFFFFF else header)
    in rd_bind (if overwintered then de_u32 else rd_return 0) (\<lambda>version_group_id.
    rd_bind (if ty = PosWithNTime then rd_map Some de_u32 else rd_return None) (\<lambda>n_time.
    rd_bind (read_inputs ty overwintered) (\<lambda>(inputs, read_witness).
    rd_bind (read_outputs ty) (\<lambda>outputs.
    rd_bind (if read_witness then read_witnesses inputs else rd_return inputs) (\<lambda>inputs.
    rd_bind de_u32 (\<lambda>lock_time.
    let posv = (ty = PosvWithNTime \<and> \<not> maybe_spark header)
    in rd_bind (if posv then rd_map Some de_u32 else rd_return n_time) (\<lambda>n_time.
    rd_bind (read_sapling overwintered version) (\<lambda>(expiry_height, value_balance, shielded_spends, shielded_outputs).
    let zcash = (overwintered \<or> ty = Zcash)
    in rd_bind (read_join_splits zcash overwintered version) (\<lambda>(join_splits, join_split_pubkey, join_split_sig).
    rd_bind (read_binding_sig zcash overwintered version (shielded_spends = [] \<and> shielded_outputs = [])) (\<lambda>binding_sig.
    rd_bind (read_str_d_zeel ty) (\<lambda>str_d_zeel.
    rd_bind (read_extra_payload (maybe_spark header)) (\<lambda>v_extra_payload.
    rd_return \<lparr>btx_version = version, btx_n_time = n_time, btx_overwintered = overwintered,
      btx_version_group_id = version_group_id, btx_inputs = inputs, btx_outputs = outputs, btx_lock_time = lock_time,
      btx_expiry_height = expiry_height, btx_shielded_spends = shielded_spends,
      btx_shielded_outputs = shielded_outputs, btx_join_splits = join_splits, btx_value_balance = value_balance,
      btx_join_split_pubkey = join_split_pubkey, btx_join_split_sig = join_split_sig, btx_binding_sig = binding_sig,
      btx_zcash = zcash, btx_posv = posv, btx_str_d_zeel = str_d_zeel, btx_tx_hash_algo = DSHA256,
      btx_v_extra_payload = v_extra_payload\<rparr>)))))))))))))"

text \<open>
  \<open>Transaction::deserialize\<close> reads everything there is and tries the kinds in turn, each on its own copy:
  bytes that a kind leaves over are dropped. A panic is not caught.
\<close>

definition first_ok :: "('e, 'a) rust_result \<Rightarrow> ('e, 'a) rust_result \<Rightarrow> ('e, 'a) rust_result" where
  "first_ok x y = (case x of Err _ \<Rightarrow> y | _ \<Rightarrow> x)"

definition de_transaction :: "transaction reader" where
  "de_transaction buffer = rbind
     (first_ok (deserialize_tx PosvWithNTime buffer)
       (first_ok (deserialize_tx StandardWithWitness buffer)
         (first_ok (deserialize_tx PosWithNTime buffer) (deserialize_tx Zcash buffer))))
     (\<lambda>(t, _). Ok (t, []))"

section \<open>The parts are read back\<close>

definition out_point_ok :: "out_point \<Rightarrow> bool" where
  "out_point_ok o1 = (length (opt_hash o1) = 32)"

definition tx_input_ok :: "tx_input \<Rightarrow> bool" where
  "tx_input_ok i = (out_point_ok (txi_previous_output i) \<and> length (txi_script_sig i) \<le> 65536)"

definition witness_ok :: "bytes list \<Rightarrow> bool" where
  "witness_ok w = (length w \<le> MAX_LIST_SIZE \<and> list_all (\<lambda>b. length b \<le> 65536) w)"

definition tx_output_ok :: "tx_output \<Rightarrow> bool" where
  "tx_output_ok o1 = (length (txo_script_pubkey o1) \<le> 65536)"

definition shielded_spend_ok :: "shielded_spend \<Rightarrow> bool" where
  "shielded_spend_ok s = (length (shs_cv s) = 32 \<and> length (shs_anchor s) = 32 \<and> length (shs_nullifier s) = 32
     \<and> length (shs_rk s) = 32 \<and> length (shs_zkproof s) = 192 \<and> length (shs_spend_auth_sig s) = 64)"

definition shielded_output_ok :: "shielded_output \<Rightarrow> bool" where
  "shielded_output_ok s = (length (sho_cv s) = 32 \<and> length (sho_cmu s) = 32 \<and> length (sho_ephemeral_key s) = 32
     \<and> length (sho_enc_cipher_text s) = 580 \<and> length (sho_out_cipher_text s) = 80 \<and> length (sho_zkproof s) = 192)"

definition pair_ok :: "nat \<Rightarrow> bytes \<times> bytes \<Rightarrow> bool" where
  "pair_ok n p = (length (fst p) = n \<and> length (snd p) = n)"

fun join_split_proof_ok :: "bool \<Rightarrow> join_split_proof \<Rightarrow> bool" where
  "join_split_proof_ok use_groth (PHGR p) = (\<not> use_groth \<and> length p = 296)"
| "join_split_proof_ok use_groth (Groth p) = (use_groth \<and> length p = 192)"

definition join_split_ok :: "bool \<Rightarrow> join_split \<Rightarrow> bool" where
  "join_split_ok use_groth j = (length (js_v_pub_old j) = 8 \<and> length (js_v_pub_new j) = 8 \<and> length (js_anchor j) = 32
     \<and> pair_ok 32 (js_nullifiers j) \<and> pair_ok 32 (js_commitments j) \<and> length (js_ephemeral_key j) = 32
     \<and> length (js_random_seed j) = 32 \<and> pair_ok 32 (js_macs j) \<and> join_split_proof_ok use_groth (js_zkproof j)
     \<and> pair_ok 601 (js_ciphertexts j))"

lemma out_point_round_trip [simp]: "out_point_ok o1 \<Longrightarrow> de_out_point (ser_out_point o1 @ rest) = Ok (o1, rest)"
  by (simp add: out_point_ok_def de_out_point_def ser_out_point_def)

lemma tx_input_round_trip [simp]:
  "tx_input_ok i \<Longrightarrow> de_tx_input (ser_tx_input i @ rest) = Ok (i\<lparr>txi_script_witness := []\<rparr>, rest)"
  by (simp add: tx_input_ok_def de_tx_input_def ser_tx_input_def)

lemma tx_output_round_trip [simp]: "tx_output_ok o1 \<Longrightarrow> de_tx_output (ser_tx_output o1 @ rest) = Ok (o1, rest)"
  by (simp add: tx_output_ok_def de_tx_output_def ser_tx_output_def)

lemma shielded_round_trip [simp]:
  "shielded_spend_ok s \<Longrightarrow> de_shielded_spend (ser_shielded_spend s @ rest) = Ok (s, rest)"
  "shielded_output_ok out \<Longrightarrow> de_shielded_output (ser_shielded_output out @ rest) = Ok (out, rest)"
  by (simp_all add: shielded_spend_ok_def de_shielded_spend_def ser_shielded_spend_def
      shielded_output_ok_def de_shielded_output_def ser_shielded_output_def)

lemma pair_round_trip [simp]:
  "pair_ok n p \<Longrightarrow> de_pair n (ser_hash (fst p) @ ser_hash (snd p) @ rest) = Ok (p, rest)"
  by (simp add: pair_ok_def de_pair_def)

lemma join_split_proof_round_trip [simp]:
  "join_split_proof_ok use_groth p \<Longrightarrow>
   (if use_groth then rd_map Groth (de_hash 192) else rd_map PHGR (de_hash 296)) (ser_join_split_proof p @ rest) = Ok (p, rest)"
  by (cases p) auto

lemma readers_take_prefix [simp, intro]:
  "takes_prefix de_out_point" "takes_prefix de_tx_input" "takes_prefix de_tx_output" "takes_prefix de_shielded_spend"
  "takes_prefix de_shielded_output" "takes_prefix (de_pair n)" "takes_prefix (deserialize_join_split g)"
  unfolding de_out_point_def de_tx_input_def de_tx_output_def de_shielded_spend_def de_shielded_output_def de_pair_def
    deserialize_join_split_def
  by (intro takes_prefix_bind takes_prefix_if takes_prefix_map takes_prefix_simps integers_take_prefix hash_bytes_take_prefix)+

interpretation out_point: codec ser_out_point de_out_point out_point_ok
  by unfold_locales auto

interpretation tx_input: codec ser_tx_input de_tx_input "\<lambda>i. tx_input_ok i \<and> txi_script_witness i = []"
  by unfold_locales auto

interpretation tx_output: codec ser_tx_output de_tx_output tx_output_ok
  by unfold_locales auto

interpretation shielded_spend: codec ser_shielded_spend de_shielded_spend shielded_spend_ok
  by unfold_locales auto

interpretation shielded_output: codec ser_shielded_output de_shielded_output shielded_output_ok
  by unfold_locales auto

lemma join_split_round_trip:
  assumes "join_split_ok g j"
  shows "deserialize_join_split g (ser_join_split j @ rest) = Ok (j, rest)"
proof -
  note ok = assms[unfolded join_split_ok_def]
  show ?thesis using ok
    by (simp add: deserialize_join_split_def ser_join_split_def del: rd_simps(4) split del: if_split)
qed

interpretation join_split: codec ser_join_split "deserialize_join_split g" "join_split_ok g" for g
  by unfold_locales (auto simp: join_split_round_trip)

lemmas input_list_round_trip = tx_input.list_max_round_trip
  and output_list_round_trip = tx_output.list_max_round_trip
  and witness_list_round_trip = short_bytes.list_max_round_trip

section \<open>A transaction is read back\<close>

definition written_header :: "transaction \<Rightarrow> i32" where
  "written_header t = (if btx_overwintered t then or (btx_version t) (push_bit 31 1) else btx_version t)"

definition base_ok :: "tx_type \<Rightarrow> transaction \<Rightarrow> bool" where
  "base_ok ty t = (\<not> bit (btx_version t) 31 \<and> (\<not> btx_overwintered t \<longrightarrow> btx_version_group_id t = 0)
     \<and> list_all tx_input_ok (btx_inputs t) \<and> length (btx_inputs t) \<le> MAX_LIST_SIZE
     \<and> list_all tx_output_ok (btx_outputs t) \<and> length (btx_outputs t) \<le> MAX_LIST_SIZE
     \<and> (uses_witness ty \<longrightarrow> btx_outputs t \<noteq> [] \<and> (btx_overwintered t \<or> btx_inputs t \<noteq> []))
     \<and> btx_zcash t = (btx_overwintered t \<or> ty = Zcash) \<and> btx_tx_hash_algo t = DSHA256)"

definition n_time_ok :: "tx_type \<Rightarrow> transaction \<Rightarrow> bool" where
  "n_time_ok ty t = (btx_posv t = (ty = PosvWithNTime \<and> \<not> maybe_spark (written_header t))
     \<and> (btx_n_time t \<noteq> None) = (ty = PosWithNTime \<or> btx_posv t))"

definition sapling_ok :: "transaction \<Rightarrow> bool" where
  "sapling_ok t =
    ((\<not> (btx_overwintered t \<and> 3 \<le> sint (btx_version t)) \<longrightarrow> btx_expiry_height t = 0)
     \<and> (if btx_overwintered t \<and> 4 \<le> sint (btx_version t)
        then list_all shielded_spend_ok (btx_shielded_spends t) \<and> length (btx_shielded_spends t) \<le> MAX_LIST_SIZE
          \<and> list_all shielded_output_ok (btx_shielded_outputs t) \<and> length (btx_shielded_outputs t) \<le> MAX_LIST_SIZE
        else btx_value_balance t = 0 \<and> btx_shielded_spends t = [] \<and> btx_shielded_outputs t = []))"

definition join_splits_ok :: "transaction \<Rightarrow> bool" where
  "join_splits_ok t =
    (if btx_zcash t \<and> (btx_version t = 2 \<or> btx_overwintered t) \<and> btx_join_splits t \<noteq> []
     then list_all (join_split_ok (2 < sint (btx_version t))) (btx_join_splits t) \<and> length (btx_join_splits t) \<le> MAX_LIST_SIZE
       \<and> length (btx_join_split_pubkey t) = 32 \<and> length (btx_join_split_sig t) = 64
     else btx_join_splits t = [] \<and> btx_join_split_pubkey t = hash_default 32 \<and> btx_join_split_sig t = hash_default 64)"

definition binding_sig_ok :: "transaction \<Rightarrow> bool" where
  "binding_sig_ok t =
    (if btx_zcash t \<and> btx_overwintered t \<and> 4 \<le> sint (btx_version t)
        \<and> \<not> (btx_shielded_spends t = [] \<and> btx_shielded_outputs t = [])
     then length (btx_binding_sig t) = 64 else btx_binding_sig t = hash_default 64)"

definition tail_ok :: "tx_type \<Rightarrow> transaction \<Rightarrow> bool" where
  "tail_ok ty t =
    ((\<forall>s. btx_str_d_zeel t = Some s \<longrightarrow> ty = PosWithNTime \<and> utf8_valid s \<and> length s < 2 ^ 63)
     \<and> (\<forall>p. btx_v_extra_payload t = Some p \<longrightarrow> p \<noteq> [] \<and> length p < 2 ^ 63 \<and> maybe_spark (written_header t)
          \<and> (ty = PosWithNTime \<longrightarrow> btx_str_d_zeel t \<noteq> None)))"

text \<open>What only the form with witnesses can carry, and what that form cannot.\<close>

definition witness_form :: "u32 \<Rightarrow> transaction \<Rightarrow> bool" where
  "witness_form flags t = (include_transaction_witness flags \<and> btx_has_witness t)"

definition form_ok :: "tx_type \<Rightarrow> u32 \<Rightarrow> transaction \<Rightarrow> bool" where
  "form_ok ty flags t =
    (if witness_form flags t
     then uses_witness ty \<and> list_all (\<lambda>i. witness_ok (txi_script_witness i)) (btx_inputs t)
       \<and> \<not> btx_overwintered t \<and> \<not> btx_posv t \<and> btx_str_d_zeel t = None \<and> btx_v_extra_payload t = None
     else \<not> btx_has_witness t)"

definition tx_ok :: "tx_type \<Rightarrow> u32 \<Rightarrow> transaction \<Rightarrow> bool" where
  "tx_ok ty flags t = (base_ok ty t \<and> n_time_ok ty t \<and> sapling_ok t \<and> join_splits_ok t \<and> binding_sig_ok t
     \<and> tail_ok ty t \<and> form_ok ty flags t)"

lemma header_bits:
  assumes "\<not> bit (btx_version t) 31"
  shows "bit (written_header t) 31 = btx_overwintered t"
    and "(if btx_overwintered t then and (written_header t) 0x7FFFFFFF else written_header t) = btx_version t"
proof -
  show "bit (written_header t) 31 = btx_overwintered t" using assms by (simp add: written_header_def bit_simps)
  have mask: "(0x7FFFFFFF :: i32) = mask 31" by (simp add: mask_eq_exp_minus_1)
  have "and (or (btx_version t) (push_bit 31 1)) (mask 31) = btx_version t"
  proof (rule bit_word_eqI)
    fix n assume "n < LENGTH(32)"
    then have "n < 31 \<or> n = 31" by auto
    moreover have "bit (push_bit 31 1 :: i32) n \<longleftrightarrow> n = 31"
      using \<open>n < LENGTH(32)\<close> by (simp only: push_bit_of_1 bit_exp_iff possible_bit_word) auto
    ultimately show "bit (and (or (btx_version t) (push_bit 31 1)) (mask 31)) n = bit (btx_version t) n"
      using assms \<open>n < LENGTH(32)\<close> by (auto simp only: bit_and_iff bit_or_iff bit_mask_iff possible_bit_word)
  qed
  then show "(if btx_overwintered t then and (written_header t) 0x7FFFFFFF else written_header t) = btx_version t"
    by (simp add: written_header_def mask)
qed

lemma read_inputs_plain:
  assumes "list_all tx_input_ok (btx_inputs t)" "length (btx_inputs t) \<le> MAX_LIST_SIZE" "\<not> btx_has_witness t"
    and "uses_witness ty \<longrightarrow> ow \<or> btx_inputs t \<noteq> []"
  shows "read_inputs ty ow (append_list ser_tx_input (btx_inputs t) @ rest) = Ok ((btx_inputs t, False), rest)"
proof -
  have "list_all (\<lambda>i. tx_input_ok i \<and> txi_script_witness i = []) (btx_inputs t)"
    using assms(1,3) by (auto simp: btx_has_witness_def txi_has_witness_def list_all_iff list_ex_iff)
  moreover have "length (btx_inputs t) < 2 ^ 64" using assms(2) by (simp add: MAX_LIST_SIZE_def)
  ultimately show ?thesis using assms(2,4)
    by (auto simp: read_inputs_def input_list_round_trip)
qed

definition strip_witness :: "tx_input \<Rightarrow> tx_input" where
  "strip_witness i = i\<lparr>txi_script_witness := []\<rparr>"

lemma append_inputs_stripped: "append_list ser_tx_input (map strip_witness inputs) = append_list ser_tx_input inputs"
proof -
  have "ser_tx_input \<circ> strip_witness = ser_tx_input" by (auto simp: ser_tx_input_def strip_witness_def)
  then show ?thesis by (simp add: append_list_def)
qed

lemma read_inputs_witness:
  assumes "list_all tx_input_ok (btx_inputs t)" "length (btx_inputs t) \<le> MAX_LIST_SIZE" "uses_witness ty"
  shows "read_inputs ty False (ser_u8 WITNESS_MARKER @ ser_u8 WITNESS_FLAG @ append_list ser_tx_input (btx_inputs t) @ rest)
    = Ok ((map strip_witness (btx_inputs t), True), rest)"
proof -
  let ?stripped = "map strip_witness (btx_inputs t)"
  have "list_all (\<lambda>i. tx_input_ok i \<and> txi_script_witness i = []) ?stripped"
    using assms(1) by (auto simp: list_all_iff strip_witness_def tx_input_ok_def)
  moreover have "length (btx_inputs t) < 2 ^ 64" using assms(2) by (simp add: MAX_LIST_SIZE_def)
  ultimately have "read_list_max MAX_LIST_SIZE de_tx_input (append_list ser_tx_input ?stripped @ rest) = Ok (?stripped, rest)"
    using assms(2) by (intro input_list_round_trip) auto
  moreover have "read_list_max MAX_LIST_SIZE de_tx_input (WITNESS_MARKER # rest') = Ok ([], rest')" for rest'
    by (simp add: read_list_max_def de_compact_def WITNESS_MARKER_def)
  ultimately show ?thesis using assms(3) by (simp add: read_inputs_def ser_u8_def append_inputs_stripped)
qed

lemma read_outputs_round_trip:
  assumes "list_all tx_output_ok (btx_outputs t)" "length (btx_outputs t) \<le> MAX_LIST_SIZE"
    "uses_witness ty \<longrightarrow> btx_outputs t \<noteq> []"
  shows "read_outputs ty (append_list ser_tx_output (btx_outputs t) @ rest) = Ok (btx_outputs t, rest)"
  using assms output_list_round_trip[of "btx_outputs t" MAX_LIST_SIZE rest] by (auto simp: read_outputs_def MAX_LIST_SIZE_def)

lemma read_witnesses_round_trip:
  "list_all (\<lambda>i. witness_ok (txi_script_witness i)) inputs \<Longrightarrow>
   read_witnesses (map strip_witness inputs) (concat (map (\<lambda>i. append_list ser_bytes (txi_script_witness i)) inputs) @ rest)
     = Ok (inputs, rest)"
proof (induction inputs)
  case (Cons i inputs)
  then have "read_list_max MAX_LIST_SIZE de_bytes (append_list ser_bytes (txi_script_witness i) @ rest') = Ok (txi_script_witness i, rest')" for rest'
    by (intro witness_list_round_trip) (auto simp: witness_ok_def MAX_LIST_SIZE_def)
  then show ?case using Cons by (simp add: strip_witness_def)
qed simp

lemma sapling_round_trip:
  assumes "sapling_ok t"
  shows "read_sapling (btx_overwintered t) (btx_version t) (ser_sapling t @ rest)
    = Ok ((btx_expiry_height t, btx_value_balance t, btx_shielded_spends t, btx_shielded_outputs t), rest)"
proof (cases "btx_overwintered t \<and> 4 \<le> sint (btx_version t)")
  case True
  then have "read_list_max MAX_LIST_SIZE de_shielded_spend (append_list ser_shielded_spend (btx_shielded_spends t) @ r)
      = Ok (btx_shielded_spends t, r)"
    "read_list_max MAX_LIST_SIZE de_shielded_output (append_list ser_shielded_output (btx_shielded_outputs t) @ r)
      = Ok (btx_shielded_outputs t, r)" for r
    using assms by (auto simp: sapling_ok_def MAX_LIST_SIZE_def
        intro!: shielded_spend.list_max_round_trip shielded_output.list_max_round_trip)
  then show ?thesis using True by (simp add: read_sapling_def ser_sapling_def)
next
  case False
  then show ?thesis using assms by (auto simp: sapling_ok_def read_sapling_def ser_sapling_def)
qed

lemma of_nat_length_0: "xs \<noteq> [] \<Longrightarrow> length xs < 2 ^ 64 \<Longrightarrow> unat (of_nat (length xs) :: u64) \<noteq> 0"
  by (simp only: unat_of_nat_length) simp

definition written_binding_sig :: "transaction \<Rightarrow> bytes" where
  "written_binding_sig t =
    (if btx_zcash t \<and> 4 \<le> sint (btx_version t) \<and> btx_overwintered t
        \<and> \<not> (btx_shielded_outputs t = [] \<and> btx_shielded_spends t = [])
     then ser_hash (btx_binding_sig t) else [])"

lemma join_splits_round_trip:
  assumes "join_splits_ok t"
  shows "read_join_splits (btx_zcash t) (btx_overwintered t) (btx_version t) (ser_join_splits t @ rest)
    = Ok ((btx_join_splits t, btx_join_split_pubkey t, btx_join_split_sig t), written_binding_sig t @ rest)"
proof (cases "btx_zcash t \<and> (btx_version t = 2 \<or> btx_overwintered t) \<and> btx_join_splits t \<noteq> []")
  case True
  then have fits: "length (btx_join_splits t) \<le> MAX_LIST_SIZE" "length (btx_join_splits t) < 2 ^ 64"
    and ok: "list_all (join_split_ok (2 < sint (btx_version t))) (btx_join_splits t)"
    using assms by (auto simp: join_splits_ok_def MAX_LIST_SIZE_def)
  show ?thesis
    using True assms fits of_nat_length_0[of "btx_join_splits t"] unat_of_nat_length[OF fits(2)]
      join_split.times_round_trip[OF ok]
    by (simp add: join_splits_ok_def read_join_splits_def ser_join_splits_def append_list_def written_binding_sig_def)
next
  case False
  then show ?thesis using assms
    by (auto simp: join_splits_ok_def read_join_splits_def ser_join_splits_def append_list_def written_binding_sig_def)
qed

lemma binding_sig_round_trip:
  assumes "binding_sig_ok t"
  shows "read_binding_sig (btx_zcash t) (btx_overwintered t) (btx_version t)
      (btx_shielded_spends t = [] \<and> btx_shielded_outputs t = []) (written_binding_sig t @ rest)
    = Ok (btx_binding_sig t, rest)"
  using assms by (auto simp: binding_sig_ok_def read_binding_sig_def written_binding_sig_def)

lemma read_vec_round_trip:
  "length s < 2 ^ 63 \<Longrightarrow> read_vec (ser_compact (of_nat (length s)) @ s @ rest) = Ok (s, rest)"
  by (simp add: read_vec_def with_capacity_def unat_of_nat_length)

lemma ser_compact_not_empty: "ser_compact n \<noteq> []"
  by (simp add: ser_compact_def ser_u8_def)

text \<open>What ends a transaction: the end of the buffer, or all the fields that are only read if there is more.\<close>

definition tx_ends :: "tx_type \<Rightarrow> transaction \<Rightarrow> bytes \<Rightarrow> bool" where
  "tx_ends ty t rest = (rest = [] \<or> (ty = PosWithNTime \<longrightarrow> btx_str_d_zeel t \<noteq> None)
     \<and> (maybe_spark (written_header t) \<longrightarrow> btx_v_extra_payload t \<noteq> None))"

lemma tail_round_trip:
  assumes "tail_ok ty t" "tx_ends ty t rest"
  obtains payload where "read_str_d_zeel ty (ser_tail t @ rest) = Ok (btx_str_d_zeel t, payload)"
    "read_extra_payload (maybe_spark (written_header t)) payload = Ok (btx_v_extra_payload t, rest)"
proof -
  define payload where "payload = ser_option (\<lambda>p. if p \<noteq> [] then ser_compact (of_nat (length p)) @ p else []) (btx_v_extra_payload t) @ rest"
  have "read_extra_payload (maybe_spark (written_header t)) payload = Ok (btx_v_extra_payload t, rest)"
  proof (cases "btx_v_extra_payload t")
    case None
    then show ?thesis using assms(2) by (auto simp: payload_def ser_option_def read_extra_payload_def is_finished_def tx_ends_def)
  next
    case (Some p)
    then show ?thesis using assms(1) read_vec_round_trip[of p rest]
      by (simp add: tail_ok_def payload_def ser_option_def read_extra_payload_def is_finished_def ser_compact_not_empty)
  qed
  moreover have "read_str_d_zeel ty (ser_tail t @ rest) = Ok (btx_str_d_zeel t, payload)"
  proof (cases "btx_str_d_zeel t")
    case None
    then have "payload = [] \<or> ty \<noteq> PosWithNTime" using assms
      by (cases "btx_v_extra_payload t") (auto simp: tail_ok_def payload_def ser_option_def tx_ends_def)
    then show ?thesis using None
      by (auto simp: read_str_d_zeel_def is_finished_def ser_tail_def ser_option_def payload_def)
  next
    case (Some s)
    then have "ser_tail t @ rest = ser_compact (of_nat (length s)) @ s @ payload"
      by (simp add: ser_tail_def payload_def ser_option_def)
    then show ?thesis using Some assms(1) read_vec_round_trip[of s payload]
      by (simp add: tail_ok_def read_str_d_zeel_def is_finished_def ser_compact_not_empty)
  qed
  ultimately show ?thesis using that by blast
qed

lemma n_time_round_trip:
  assumes "n_time_ok ty t"
  shows "(if ty = PosWithNTime then rd_map Some de_u32 else rd_return None)
      ((if \<not> btx_posv t then ser_option ser_u32 (btx_n_time t) else []) @ rest)
    = Ok (if btx_posv t then None else btx_n_time t, rest)"
    and "(if btx_posv t then rd_map Some de_u32 else rd_return (if btx_posv t then None else btx_n_time t))
      ((if btx_posv t then ser_option ser_u32 (btx_n_time t) else []) @ rest)
    = Ok (btx_n_time t, rest)"
  using assms by (auto simp: n_time_ok_def ser_option_def)

lemma version_group_round_trip:
  assumes "base_ok ty t"
  shows "(if btx_overwintered t then de_u32 else rd_return 0)
    ((if btx_overwintered t then ser_u32 (btx_version_group_id t) else []) @ rest) = Ok (btx_version_group_id t, rest)"
  using assms by (simp add: base_ok_def)

lemma deserialize_tx_plain:
  assumes ok: "tx_ok ty flags t" and plain: "\<not> witness_form flags t" and ends: "tx_ends ty t rest"
  shows "deserialize_tx ty (ser_transaction flags t @ rest) = Ok (t, rest)"
proof -
  have parts: "base_ok ty t" "n_time_ok ty t" "sapling_ok t" "join_splits_ok t" "binding_sig_ok t" "tail_ok ty t"
    "\<not> btx_has_witness t" using ok plain by (simp_all add: tx_ok_def form_ok_def)
  have base: "\<not> bit (btx_version t) 31" "list_all tx_input_ok (btx_inputs t)" "length (btx_inputs t) \<le> MAX_LIST_SIZE"
    "uses_witness ty \<longrightarrow> btx_overwintered t \<or> btx_inputs t \<noteq> []" "list_all tx_output_ok (btx_outputs t)"
    "length (btx_outputs t) \<le> MAX_LIST_SIZE" "uses_witness ty \<longrightarrow> btx_outputs t \<noteq> []"
    "btx_zcash t = (btx_overwintered t \<or> ty = Zcash)" "btx_tx_hash_algo t = DSHA256"
    using parts(1) by (auto simp: base_ok_def)
  have posv: "btx_posv t = (ty = PosvWithNTime \<and> \<not> maybe_spark (written_header t))"
    using parts(2) by (simp add: n_time_ok_def)
  obtain payload where tail: "read_str_d_zeel ty (ser_tail t @ rest) = Ok (btx_str_d_zeel t, payload)"
    "read_extra_payload (maybe_spark (written_header t)) payload = Ok (btx_v_extra_payload t, rest)"
    using tail_round_trip[OF parts(6) ends] .
  have bytes: "ser_transaction flags t @ rest = ser_i32 (written_header t)
      @ (if btx_overwintered t then ser_u32 (btx_version_group_id t) else [])
      @ (if \<not> btx_posv t then ser_option ser_u32 (btx_n_time t) else [])
      @ append_list ser_tx_input (btx_inputs t) @ append_list ser_tx_output (btx_outputs t) @ ser_u32 (btx_lock_time t)
      @ (if btx_posv t then ser_option ser_u32 (btx_n_time t) else [])
      @ ser_sapling t @ ser_join_splits t @ ser_tail t @ rest"
    using plain by (simp add: ser_transaction_def written_header_def witness_form_def)
  note steps = integers_round_trip(3,5) version_group_round_trip[OF parts(1)] n_time_round_trip[OF parts(2)]
    read_inputs_plain[OF base(2,3) parts(7) base(4)] read_outputs_round_trip[OF base(5,6,7)]
    sapling_round_trip[OF parts(3)] join_splits_round_trip[OF parts(4)] binding_sig_round_trip[OF parts(5)] tail
  show ?thesis
    unfolding deserialize_tx_def bytes
    by (simp only: rd_simps(1,3) rbind.simps steps Let_def header_bits[OF base(1)] posv[symmetric] base(8)[symmetric]
        prod.case if_False simp_thms) (simp add: base(9))
qed

lemma deserialize_tx_witness:
  assumes ok: "tx_ok ty flags t" and form: "witness_form flags t" and ends: "tx_ends ty t rest"
  shows "deserialize_tx ty (ser_transaction flags t @ rest) = Ok (t, rest)"
proof -
  have parts: "base_ok ty t" "n_time_ok ty t" "sapling_ok t" "join_splits_ok t" "binding_sig_ok t" "tail_ok ty t"
    using ok by (simp_all add: tx_ok_def)
  have witness: "uses_witness ty" "list_all (\<lambda>i. witness_ok (txi_script_witness i)) (btx_inputs t)"
    and plain: "btx_overwintered t = False" "btx_posv t = False" "btx_str_d_zeel t = None" "btx_v_extra_payload t = None"
    using ok form by (simp_all add: tx_ok_def form_ok_def)
  have base: "\<not> bit (btx_version t) 31" "list_all tx_input_ok (btx_inputs t)" "length (btx_inputs t) \<le> MAX_LIST_SIZE"
    "list_all tx_output_ok (btx_outputs t)" "length (btx_outputs t) \<le> MAX_LIST_SIZE" "btx_outputs t \<noteq> []"
    "btx_zcash t = False" "btx_tx_hash_algo t = DSHA256" "btx_version_group_id t = 0" "ty \<noteq> PosWithNTime" "ty \<noteq> Zcash"
    using parts(1) witness(1) plain by (auto simp: base_ok_def uses_witness_def)
  have header: "written_header t = btx_version t" by (simp add: written_header_def plain)
  have posv: "(ty = PosvWithNTime \<and> \<not> maybe_spark (btx_version t)) = False" "btx_n_time t = None"
    using parts(2) base(10) by (auto simp: n_time_ok_def plain header)
  have defaults: "ser_sapling t = []" "ser_join_splits t = []" "written_binding_sig t = []" "ser_tail t = []"
    by (simp_all add: ser_sapling_def ser_join_splits_def written_binding_sig_def ser_tail_def ser_option_def plain base(7))
  have tail: "read_str_d_zeel ty rest = Ok (None, rest)" "read_extra_payload (maybe_spark (btx_version t)) rest = Ok (None, rest)"
    using ends by (auto simp: read_str_d_zeel_def read_extra_payload_def is_finished_def tx_ends_def plain header)
  note steps = integers_round_trip(3,5) read_inputs_witness[OF base(2,3) witness(1)]
    read_outputs_round_trip[OF base(4,5) impI[OF base(6)]] read_witnesses_round_trip[OF witness(2)]
    sapling_round_trip[OF parts(3), of rest, unfolded plain defaults append_Nil]
    join_splits_round_trip[OF parts(4), of rest, unfolded plain base(7) defaults append_Nil]
    binding_sig_round_trip[OF parts(5), of rest, unfolded plain base(7) defaults append_Nil] tail
  have bytes: "ser_transaction flags t @ rest = ser_i32 (btx_version t) @ ser_u8 WITNESS_MARKER @ ser_u8 WITNESS_FLAG
      @ append_list ser_tx_input (btx_inputs t) @ append_list ser_tx_output (btx_outputs t)
      @ concat (map (\<lambda>i. append_list ser_bytes (txi_script_witness i)) (btx_inputs t)) @ ser_u32 (btx_lock_time t) @ rest"
    using form by (simp add: ser_transaction_def witness_form_def)
  show ?thesis
    unfolding deserialize_tx_def bytes
    by (simp only: rd_simps(1,3) rbind.simps steps Let_def if_True if_False prod.case simp_thms posv(1) base(1,10,11)) (simp add: base plain posv base(6))
qed

lemma deserialize_tx_round_trip:
  "tx_ok ty flags t \<Longrightarrow> tx_ends ty t rest \<Longrightarrow> deserialize_tx ty (ser_transaction flags t @ rest) = Ok (t, rest)"
  using deserialize_tx_plain deserialize_tx_witness by blast

text \<open>
  C32: A transaction that is written, in the form with witnesses or in the plain one, is read back as it was,
  for every kind of chain whose fields it has, and nothing of the bytes is left over.
\<close>

theorem transaction_round_trip:
  assumes "tx_ok ty flags t"
  shows "deserialize_tx ty (ser_transaction flags t) = Ok (t, [])"
  using deserialize_tx_round_trip[OF assms, of "[]"] by (simp add: tx_ends_def)

section \<open>Readers of transactions only take a prefix\<close>

lemma str_payload_take_prefix: "takes_prefix (read_str_d_zeel ty)" "takes_prefix (read_extra_payload c)"
proof -
  have vec: "takes_prefix read_vec" unfolding read_vec_def
    by (intro takes_prefix_bind takes_prefix_simps compact_takes_prefix)
  have "takes_prefix (\<lambda>bs. if ty = PosWithNTime \<and> \<not> is_finished bs
     then rd_bind read_vec (\<lambda>buf. if utf8_valid buf then rd_return (Some buf) else rd_fail MalformedData) bs
     else rd_return None bs)"
    by (intro takes_prefix_cond takes_prefix_bind takes_prefix_if takes_prefix_simps vec)
  then show "takes_prefix (read_str_d_zeel ty)" by (simp only: read_str_d_zeel_def[abs_def])
  have "takes_prefix (\<lambda>bs. if c \<and> \<not> is_finished bs then rd_map Some read_vec bs else rd_return None bs)"
    by (intro takes_prefix_cond takes_prefix_map takes_prefix_simps vec)
  then show "takes_prefix (read_extra_payload c)" by (simp only: read_extra_payload_def[abs_def])
qed

lemma read_list_max_takes_prefix: "takes_prefix r \<Longrightarrow> takes_prefix (read_list_max most r)"
  unfolding read_list_max_def
  by (intro takes_prefix_bind takes_prefix_if takes_prefix_times takes_prefix_simps compact_takes_prefix)

lemma read_witnesses_takes_prefix: "takes_prefix (read_witnesses inputs)"
proof (induction inputs)
  case (Cons i inputs)
  show ?case unfolding read_witnesses.simps
    by (intro takes_prefix_bind takes_prefix_simps read_list_max_takes_prefix hash_bytes_take_prefix Cons)
qed (simp only: read_witnesses.simps takes_prefix_simps)

lemma sections_take_prefix:
  "takes_prefix (read_inputs ty ow)" "takes_prefix (read_outputs ty)" "takes_prefix (read_sapling ow version)"
  "takes_prefix (read_join_splits zcash ow version)" "takes_prefix (read_binding_sig zcash ow version none)"
  unfolding read_inputs_def read_outputs_def read_sapling_def read_join_splits_def read_binding_sig_def
  by (intro takes_prefix_bind takes_prefix_if takes_prefix_simps takes_prefix_times read_list_max_takes_prefix
      integers_take_prefix compact_takes_prefix hash_bytes_take_prefix readers_take_prefix)+

lemma deserialize_tx_takes_prefix: "takes_prefix (deserialize_tx ty)"
  unfolding deserialize_tx_def Let_def
  by (intro takes_prefix_bind takes_prefix_if takes_prefix_map takes_prefix_simps takes_prefix_prod integers_take_prefix
      sections_take_prefix read_witnesses_takes_prefix str_payload_take_prefix)

section \<open>Malformed transactions\<close>

lemma parts_panic_free:
  "panic_free de_tx_input" "panic_free de_tx_output" "panic_free de_shielded_spend" "panic_free de_shielded_output"
  "panic_free (deserialize_join_split g)"
  unfolding de_tx_input_def de_out_point_def de_tx_output_def de_shielded_spend_def de_shielded_output_def de_pair_def
    deserialize_join_split_def
  by (intro panic_free_bind panic_free_if panic_free_map panic_free_simps integers_panic_free)+

lemma sections_panic_free:
  "panic_free (read_inputs ty ow)" "panic_free (read_outputs ty)" "panic_free (read_sapling ow version)"
  "panic_free (read_join_splits zcash ow version)" "panic_free (read_binding_sig zcash ow version none)"
  unfolding read_inputs_def read_outputs_def read_sapling_def read_join_splits_def read_binding_sig_def
  by (intro panic_free_bind panic_free_if panic_free_simps panic_free_times read_list_max_panic_free integers_panic_free
      parts_panic_free)+

lemma read_witnesses_panic_free: "panic_free (read_witnesses inputs)"
proof (induction inputs)
  case (Cons i inputs)
  show ?case unfolding read_witnesses.simps
    by (intro panic_free_bind panic_free_simps read_list_max_panic_free integers_panic_free Cons)
qed (simp only: read_witnesses.simps panic_free_simps)

lemma tail_panic_free:
  "ty \<noteq> PosWithNTime \<Longrightarrow> panic_free (read_str_d_zeel ty)" "panic_free (read_extra_payload False)"
  by (auto simp: panic_free_def read_str_d_zeel_def read_extra_payload_def)

lemma de_i32_takes_header: "de_i32 bs = Ok (header, rest) \<Longrightarrow> header = of_le_bytes (take 4 bs)"
  by (auto simp: de_i32_def read_slice_def split: if_splits)

lemma deserialize_tx_not_Panic:
  assumes "ty \<noteq> PosWithNTime" "\<not> maybe_spark (of_le_bytes (take 4 bs))"
  shows "deserialize_tx ty bs \<noteq> Panic"
proof (cases "de_i32 bs")
  case Panic
  then show ?thesis using integers_panic_free(5) by (simp add: panic_free_def)
next
  case (Err e)
  then show ?thesis by (simp add: deserialize_tx_def)
next
  case (Ok x)
  obtain header rest where x: "x = (header, rest)" by (cases x)
  then have spark: "maybe_spark header = False" using assms(2) de_i32_takes_header[of bs header rest] Ok by simp
  show ?thesis
    unfolding deserialize_tx_def rd_simps(3)[of de_i32] Ok x rbind.simps prod.case Let_def spark
    by (rule panic_free_def[THEN iffD1, rule_format])
      (intro panic_free_bind panic_free_if panic_free_map panic_free_simps panic_free_prod integers_panic_free
        sections_panic_free read_witnesses_panic_free tail_panic_free assms(1))
qed

text \<open>
  C33: Reading a transaction of the kinds of Bitcoin and of Zcash never panics, whatever the bytes are,
  unless its version announces the special transactions of Firo.
\<close>

theorem malformed_transactions_are_errors:
  assumes "ty \<noteq> PosWithNTime" "\<not> maybe_spark (of_le_bytes (take 4 bs))"
  shows "deserialize_tx ty bs \<noteq> Panic"
  using assms by (rule deserialize_tx_not_Panic)

theorem malformed_transactions_are_errors_witness: "deserialize_tx StandardWithWitness [1, 0, 0, 0, 0, 7] \<noteq> Panic"
  by (rule malformed_transactions_are_errors) (simp_all add: maybe_spark_def)

text \<open>
  For those, and for the kind with a time, a length of 2 to the power of 63 in the right place is a panic: the
  vector for it does not fit into memory. As all kinds are tried, \<open>Transaction::deserialize\<close> panics as well.
\<close>

theorem announced_length_panics:
  "de_transaction ([1, 0, 0, 0, 0, 0, 0, 0, 0, 0, 0, 0, 0, 0, 0xff] @ [0, 0, 0, 0, 0, 0, 0, 0x80]) = Panic"
  by (simp add: de_transaction_def first_ok_def WITNESS_FLAG_def maybe_spark_def deserialize_tx_def de_i32_def de_u32_def de_u64_def de_compact_def read_slice_def read_inputs_def
      read_outputs_def read_list_max_def uses_witness_def read_sapling_def read_join_splits_def read_binding_sig_def
      read_str_d_zeel_def is_finished_def read_vec_def with_capacity_def Let_def)

definition empty_transaction :: transaction where
  "empty_transaction = \<lparr>btx_version = 0, btx_n_time = None, btx_overwintered = False, btx_version_group_id = 0,
     btx_inputs = [], btx_outputs = [], btx_lock_time = 0, btx_expiry_height = 0, btx_shielded_spends = [],
     btx_shielded_outputs = [], btx_join_splits = [], btx_value_balance = 0, btx_join_split_pubkey = hash_default 32,
     btx_join_split_sig = hash_default 64, btx_binding_sig = hash_default 64, btx_zcash = False, btx_posv = False,
     btx_str_d_zeel = None, btx_tx_hash_algo = DSHA256, btx_v_extra_payload = None\<rparr>"

definition demo_input :: "bytes list \<Rightarrow> tx_input" where
  "demo_input w = \<lparr>txi_previous_output = \<lparr>opt_hash = replicate 32 7, opt_index = 1\<rparr>, txi_script_sig = [],
     txi_sequence = SEQUENCE_FINAL, txi_script_witness = w\<rparr>"

definition demo_output :: tx_output where
  "demo_output = \<lparr>txo_value = 70000, txo_script_pubkey = [0x6a, 1, 9]\<rparr>"

text \<open>A transaction with a witness, and a shielded one of the fourth version with one spend.\<close>

definition demo_segwit_tx :: transaction where
  "demo_segwit_tx = empty_transaction\<lparr>btx_version := 2, btx_inputs := [demo_input [[1, 2, 3], []]],
     btx_outputs := [demo_output], btx_lock_time := 500\<rparr>"

definition demo_sapling_tx :: transaction where
  "demo_sapling_tx = empty_transaction\<lparr>btx_version := 4, btx_overwintered := True, btx_version_group_id := 0x892f2085,
     btx_outputs := [demo_output], btx_expiry_height := 12, btx_value_balance := - 5,
     btx_shielded_spends := [\<lparr>shs_cv = hash_default 32, shs_anchor = hash_default 32, shs_nullifier = hash_default 32,
       shs_rk = hash_default 32, shs_zkproof = hash_default 192, shs_spend_auth_sig = hash_default 64\<rparr>],
     btx_binding_sig := replicate 64 3, btx_zcash := True\<rparr>"

lemmas tx_ok_defs = tx_ok_def base_ok_def n_time_ok_def sapling_ok_def join_splits_ok_def binding_sig_ok_def tail_ok_def
  form_ok_def witness_form_def btx_has_witness_def txi_has_witness_def include_transaction_witness_def witness_ok_def
  tx_input_ok_def out_point_ok_def tx_output_ok_def shielded_spend_ok_def uses_witness_def written_header_def
  MAX_LIST_SIZE_def SERIALIZE_TRANSACTION_WITNESS_def hash_default_def

theorem transaction_round_trip_witness:
  "deserialize_tx StandardWithWitness (ser_transaction SERIALIZE_TRANSACTION_WITNESS demo_segwit_tx) = Ok (demo_segwit_tx, [])
   \<and> deserialize_tx Zcash (ser_transaction 0 demo_sapling_tx) = Ok (demo_sapling_tx, [])"
proof
  have "tx_ok StandardWithWitness SERIALIZE_TRANSACTION_WITNESS demo_segwit_tx"
    by (simp add: tx_ok_defs demo_segwit_tx_def empty_transaction_def demo_input_def demo_output_def maybe_spark_def)
  then show "deserialize_tx StandardWithWitness (ser_transaction SERIALIZE_TRANSACTION_WITNESS demo_segwit_tx) = Ok (demo_segwit_tx, [])"
    by (rule transaction_round_trip)
  have "tx_ok Zcash 0 demo_sapling_tx"
    by (simp add: tx_ok_defs demo_sapling_tx_def empty_transaction_def demo_output_def)
  then show "deserialize_tx Zcash (ser_transaction 0 demo_sapling_tx) = Ok (demo_sapling_tx, [])"
    by (rule transaction_round_trip)
qed

end
