(* ===== verification/Block_Header.thy ===== *)
theory Block_Header
  imports Bitcoin_Tx
begin

text \<open>
  Block headers (\<open>mm2_bitcoin/chain/src/block_header.rs\<close>, \<open>raw_block.rs\<close>, \<open>block.rs\<close>) and the merkle root of a
  block (\<open>merkle_root.rs\<close>). A header carries what its chain needs: merged mining, which nests another header,
  programmatic proof of work, the roots of Zcash, PIVX, LBC and Qtum. What a header looks like is decided by
  its version and by the variant of the chain the reader was made with.
\<close>

section \<open>The data\<close>

datatype compact = Compact u32

fun compact_u32 :: "compact \<Rightarrow> u32" where "compact_u32 (Compact n) = n"

datatype block_header_nonce = NonceU32 u32 | NonceH256 bytes
datatype block_header_bits = BitsCompact compact | BitsU32 u32

fun bits_u32 :: "block_header_bits \<Rightarrow> u32" where
  "bits_u32 (BitsCompact c) = compact_u32 c"
| "bits_u32 (BitsU32 n) = n"

fun bits_compact :: "block_header_bits \<Rightarrow> compact" where
  "bits_compact (BitsCompact c) = c"
| "bits_compact (BitsU32 n) = Compact n"

definition AUXPOW_VERSION_FLAG :: u32 where "AUXPOW_VERSION_FLAG = push_bit 8 1"
definition MTP_POW_VERSION :: u32 where "MTP_POW_VERSION = 0x20001000"
definition PROG_POW_SWITCH_TIME :: u32 where "PROG_POW_SWITCH_TIME = 1635228000"
definition BIP9_NO_SOFT_FORK_BLOCK_HEADER_VERSION :: u32 where "BIP9_NO_SOFT_FORK_BLOCK_HEADER_VERSION = 536870912"
definition KAWPOW_VERSION :: u32 where "KAWPOW_VERSION = 805306368"

record merkle_branch =
  mb_branch_hashes :: "bytes list"
  mb_branch_side_mask :: i32

record prog_pow =
  pp_n_height :: u32
  pp_n_nonce_64 :: u64
  pp_mix_hash :: bytes

record mtp_pow =
  mtp_n_version_mtp :: i32
  mtp_hash_value :: bytes
  mtp_reserved_0 :: bytes
  mtp_reserved_1 :: bytes

datatype block_header = BlockHeader
    (bh_version: u32) (bh_previous_header_hash: bytes) (bh_merkle_root_hash: bytes) (bh_claim_trie_root: "bytes option")
    (bh_hash_final_sapling_root: "bytes option") (bh_time: u32) (bh_bits: block_header_bits) (bh_nonce: block_header_nonce)
    (bh_solution: "bytes option") (bh_aux_pow: "aux_pow option") (bh_prog_pow: "prog_pow option")
    (bh_mtp_pow: "mtp_pow option") (bh_is_verus: bool) (bh_hash_state_root: "bytes option")
    (bh_hash_utxo_root: "bytes option") (bh_prevout_stake: "out_point option") (bh_vch_block_sig_dlgt: "bytes option")
    (bh_n_height: "u32 option") (bh_n_nonce_u64: "u64 option") (bh_mix_hash: "bytes option")
  and aux_pow = AuxPow
    (ap_coinbase_tx: transaction) (ap_parent_block_hash: bytes) (ap_coinbase_branch: merkle_branch)
    (ap_blockchain_branch: merkle_branch) (ap_parent_block_header: block_header)

definition bh_is_prog_pow :: "u32 \<Rightarrow> u32 \<Rightarrow> bool" where
  "bh_is_prog_pow version time = (version = MTP_POW_VERSION \<and> PROG_POW_SWITCH_TIME \<le> time)"

section \<open>Writing\<close>

fun ser_nonce :: "block_header_nonce \<Rightarrow> bytes" where
  "ser_nonce (NonceU32 n) = ser_u32 n"
| "ser_nonce (NonceH256 h) = ser_hash h"

fun ser_bits :: "block_header_bits \<Rightarrow> bytes" where
  "ser_bits (BitsCompact c) = ser_u32 (compact_u32 c)"
| "ser_bits (BitsU32 n) = ser_u32 n"

definition ser_merkle_branch :: "merkle_branch \<Rightarrow> bytes" where
  "ser_merkle_branch b = append_list ser_hash (mb_branch_hashes b) @ ser_i32 (mb_branch_side_mask b)"

definition ser_prog_pow :: "prog_pow \<Rightarrow> bytes" where
  "ser_prog_pow p = ser_u32 (pp_n_height p) @ ser_u64 (pp_n_nonce_64 p) @ ser_hash (pp_mix_hash p)"

definition ser_mtp_pow :: "mtp_pow \<Rightarrow> bytes" where
  "ser_mtp_pow p = ser_i32 (mtp_n_version_mtp p) @ ser_hash (mtp_hash_value p) @ ser_hash (mtp_reserved_0 p)
     @ ser_hash (mtp_reserved_1 p)"

fun ser_block_header :: "u32 \<Rightarrow> block_header \<Rightarrow> bytes" and ser_aux_pow :: "u32 \<Rightarrow> aux_pow \<Rightarrow> bytes" where
  "ser_block_header flags (BlockHeader version prev merkle claim sapling_root time bits nonce solution aux prog mtp is_verus
      state_root utxo_root prevout sig n_height n_nonce mix_hash) =
    ser_u32 (if is_verus then xor version 0x00010000 else version)
    @ ser_hash prev @ ser_hash merkle
    @ ser_option ser_hash claim
    @ (if solution \<noteq> None then ser_option ser_hash sapling_root else [])
    @ ser_u32 time @ ser_bits bits
    @ (if \<not> bh_is_prog_pow version time \<and> (version \<noteq> KAWPOW_VERSION \<or> nonce \<noteq> NonceU32 0) then ser_nonce nonce else [])
    @ (if solution = None then ser_option ser_hash sapling_root else [])
    @ ser_option (append_list ser_u8) solution
    @ (case aux of Some pow \<Rightarrow> ser_aux_pow flags pow | None \<Rightarrow> [])
    @ ser_option ser_prog_pow prog
    @ ser_option ser_mtp_pow mtp
    @ ser_option ser_hash state_root
    @ ser_option ser_hash utxo_root
    @ ser_option ser_out_point prevout
    @ ser_option (append_list ser_u8) sig
    @ ser_option ser_u32 n_height
    @ ser_option ser_u64 n_nonce
    @ ser_option ser_hash mix_hash"
| "ser_aux_pow flags (AuxPow tx parent_hash coinbase_branch blockchain_branch parent) =
    ser_transaction flags tx @ ser_hash parent_hash @ ser_merkle_branch coinbase_branch
    @ ser_merkle_branch blockchain_branch @ ser_block_header flags parent"

text \<open>\<open>hash\<close>, over the hash function of the crate \<open>crypto\<close>.\<close>

definition bh_hash :: "(bytes \<Rightarrow> bytes) \<Rightarrow> block_header \<Rightarrow> bytes" where
  "bh_hash dhash256 h = dhash256 (ser_block_header 0 h)"

section \<open>Reading\<close>

definition de_merkle_branch :: "merkle_branch reader" where
  "de_merkle_branch = rd_bind (read_list 32 (de_hash 32)) (\<lambda>hashes. rd_bind de_i32 (\<lambda>mask.
     rd_return \<lparr>mb_branch_hashes = hashes, mb_branch_side_mask = mask\<rparr>))"

definition de_prog_pow :: "prog_pow reader" where
  "de_prog_pow = rd_bind de_u32 (\<lambda>n_height. rd_bind de_u64 (\<lambda>n_nonce_64. rd_bind (de_hash 32) (\<lambda>mix_hash.
     rd_return \<lparr>pp_n_height = n_height, pp_n_nonce_64 = n_nonce_64, pp_mix_hash = mix_hash\<rparr>)))"

definition de_mtp_pow :: "mtp_pow reader" where
  "de_mtp_pow = rd_bind de_i32 (\<lambda>n_version_mtp. rd_bind (de_hash 32) (\<lambda>mtp_hash_value.
     rd_bind (de_hash 32) (\<lambda>reserved_0. rd_bind (de_hash 32) (\<lambda>reserved_1.
     rd_return \<lparr>mtp_n_version_mtp = n_version_mtp, mtp_hash_value = mtp_hash_value, mtp_reserved_0 = reserved_0,
       mtp_reserved_1 = reserved_1\<rparr>))))"

definition rd_if :: "bool \<Rightarrow> 'a reader \<Rightarrow> 'a option reader" where
  "rd_if c r = (if c then rd_map Some r else rd_return None)"

definition is_zcash_style :: "chain_variant \<Rightarrow> u32 \<Rightarrow> bool" where
  "is_zcash_style v version = ((version = 4 \<and> v \<noteq> BTC \<and> v \<noteq> PPC) \<or> is_kmd_assetchain v)"

definition read_bits :: "bool \<Rightarrow> block_header_bits reader" where
  "read_bits zcash_style = (if zcash_style then rd_map BitsU32 de_u32 else rd_map (BitsCompact \<circ> Compact) de_u32)"

definition read_nonce :: "chain_variant \<Rightarrow> u32 \<Rightarrow> u32 \<Rightarrow> bool \<Rightarrow> block_header_nonce reader" where
  "read_nonce v version time zcash_style =
    (if zcash_style then rd_map NonceH256 (de_hash 32)
     else if (version = KAWPOW_VERSION \<and> v = RVN) \<or> (version = MTP_POW_VERSION \<and> PROG_POW_SWITCH_TIME \<le> time)
     then rd_return (NonceU32 0)
     else rd_map NonceU32 de_u32)"

definition read_byte_list :: "bytes reader" where "read_byte_list = read_list 1 de_u8"

definition read_aux_pow :: "block_header reader \<Rightarrow> aux_pow reader" where
  "read_aux_pow read_header =
    rd_bind (deserialize_tx StandardWithWitness) (\<lambda>coinbase_tx. rd_bind (de_hash 32) (\<lambda>parent_block_hash.
    rd_bind de_merkle_branch (\<lambda>coinbase_branch. rd_bind de_merkle_branch (\<lambda>blockchain_branch.
    rd_bind read_header (\<lambda>parent_block_header.
    rd_return (AuxPow coinbase_tx parent_block_hash coinbase_branch blockchain_branch parent_block_header))))))"

text \<open>The header of the parent chain is read by the same function; the fuel is the number of bytes left.\<close>

fun de_block_header_fuel :: "nat \<Rightarrow> chain_variant \<Rightarrow> block_header reader" where
  "de_block_header_fuel 0 v = rd_fail UnexpectedEnd"
| "de_block_header_fuel (Suc fuel) v =
    rd_bind de_u32 (\<lambda>read_version.
    let is_verus = (xor read_version 0x00010000 = 4);
        version = (if is_verus then xor read_version 0x00010000 else read_version)
    in rd_bind (de_hash 32) (\<lambda>previous_header_hash.
    rd_bind (de_hash 32) (\<lambda>merkle_root_hash.
    rd_bind (rd_if (version = BIP9_NO_SOFT_FORK_BLOCK_HEADER_VERSION \<and> v = LBC) (de_hash 32)) (\<lambda>claim_trie_root.
    let zcash_style = is_zcash_style v version
    in rd_bind (rd_if zcash_style (de_hash 32)) (\<lambda>hash_final_sapling_root.
    rd_bind de_u32 (\<lambda>time.
    rd_bind (read_bits zcash_style) (\<lambda>bits.
    rd_bind (read_nonce v version time zcash_style) (\<lambda>nonce.
    rd_bind (if v = PIVX then rd_map Some (de_hash 32) else rd_return hash_final_sapling_root) (\<lambda>hash_final_sapling_root.
    rd_bind (rd_if zcash_style read_byte_list) (\<lambda>solution.
    rd_bind (rd_if (and version AUXPOW_VERSION_FLAG \<noteq> 0 \<and> v \<noteq> BTC) (read_aux_pow (de_block_header_fuel fuel v))) (\<lambda>aux_pow.
    rd_bind (rd_if (version = MTP_POW_VERSION \<and> PROG_POW_SWITCH_TIME \<le> time) de_prog_pow) (\<lambda>prog_pow.
    rd_bind (rd_if (version = MTP_POW_VERSION \<and> time < PROG_POW_SWITCH_TIME \<and> prog_pow = None) de_mtp_pow) (\<lambda>mtp_pow.
    let qtum = (version = BIP9_NO_SOFT_FORK_BLOCK_HEADER_VERSION \<and> v = Qtum)
    in rd_bind (rd_if qtum (de_hash 32)) (\<lambda>hash_state_root.
    rd_bind (rd_if qtum (de_hash 32)) (\<lambda>hash_utxo_root.
    rd_bind (rd_if qtum de_out_point) (\<lambda>prevout_stake.
    rd_bind (rd_if qtum read_byte_list) (\<lambda>vch_block_sig_dlgt.
    let kawpow = (version = KAWPOW_VERSION \<and> v = RVN)
    in rd_bind (rd_if kawpow de_u32) (\<lambda>n_height.
    rd_bind (rd_if kawpow de_u64) (\<lambda>n_nonce_u64.
    rd_bind (rd_if kawpow (de_hash 32)) (\<lambda>mix_hash.
    rd_return (BlockHeader version previous_header_hash merkle_root_hash claim_trie_root hash_final_sapling_root time bits
      nonce solution aux_pow prog_pow mtp_pow is_verus hash_state_root hash_utxo_root prevout_stake vch_block_sig_dlgt
      n_height n_nonce_u64 mix_hash)))))))))))))))))))))"

definition de_block_header :: "chain_variant \<Rightarrow> block_header reader" where
  "de_block_header v bs = de_block_header_fuel (length bs) v bs"

text \<open>\<open>raw_block.rs\<close>: the fields at their places in the first eighty bytes.\<close>

definition MIN_RAW_HEADER_SIZE :: nat where "MIN_RAW_HEADER_SIZE = 80"

datatype raw_header_error = WrongRawHeaderLength nat

definition raw_block_header_new :: "bytes \<Rightarrow> raw_header_error + bytes" where
  "raw_block_header_new buf = (if length buf < MIN_RAW_HEADER_SIZE then Inl (WrongRawHeaderLength MIN_RAW_HEADER_SIZE) else Inr buf)"

definition raw_extract_merkle_root :: "bytes \<Rightarrow> bytes" where
  "raw_extract_merkle_root raw = take 32 (drop 36 raw)"

definition raw_parent :: "bytes \<Rightarrow> bytes" where
  "raw_parent raw = take 32 (drop 4 raw)"

section \<open>The merkle root\<close>

definition merkle_node_hash :: "(bytes \<Rightarrow> bytes) \<Rightarrow> bytes \<Rightarrow> bytes \<Rightarrow> bytes" where
  "merkle_node_hash dhash256 left right = dhash256 (left @ right)"

text \<open>One row above another: pairs, the last hash with itself if there is no partner for it.\<close>

fun merkle_row :: "(bytes \<Rightarrow> bytes) \<Rightarrow> bytes list \<Rightarrow> bytes list" where
  "merkle_row H (a # b # hashes) = merkle_node_hash H a b # merkle_row H hashes"
| "merkle_row H [a] = [merkle_node_hash H a a]"
| "merkle_row H [] = []"

text \<open>For no hashes at all the recursion of \<open>merkle_root\<close> never ends, which is \<open>None\<close>.\<close>

partial_function (option) merkle_root :: "(bytes \<Rightarrow> bytes) \<Rightarrow> bytes list \<Rightarrow> bytes option" where
  "merkle_root H hashes = (if length hashes = 1 then Some (hd hashes) else merkle_root H (merkle_row H hashes))"

record block =
  blk_block_header :: block_header
  blk_transactions :: "transaction list"

definition blk_merkle_root :: "(bytes \<Rightarrow> bytes) \<Rightarrow> (bytes \<Rightarrow> bytes) \<Rightarrow> block \<Rightarrow> bytes option" where
  "blk_merkle_root dhash256 sha256 b = merkle_root dhash256 (map (btx_hash dhash256 sha256) (blk_transactions b))"

definition blk_witness_merkle_root :: "(bytes \<Rightarrow> bytes) \<Rightarrow> block \<Rightarrow> bytes option" where
  "blk_witness_merkle_root dhash256 b = (let hashes = (case blk_transactions b of
       [] \<Rightarrow> []
     | _ # rest \<Rightarrow> hash_default 32 # map (btx_witness_hash dhash256) rest)
   in merkle_root dhash256 hashes)"

section \<open>The fuel is enough\<close>

text \<open>Two readers that agree on buffers below a length; a reader that consumes makes room for one more.\<close>

definition agree_below :: "nat \<Rightarrow> 'a reader \<Rightarrow> 'a reader \<Rightarrow> bool" where
  "agree_below n r r' = (\<forall>bs. length bs < n \<longrightarrow> r bs = r' bs)"

lemma agree_below_refl [simp, intro]: "agree_below n r r"
  by (simp add: agree_below_def)

lemma agree_below_bind:
  assumes "takes_prefix r" "agree_below n r r'" "\<And>a. agree_below n (f a) (f' a)"
  shows "agree_below n (rd_bind r f) (rd_bind r' f')"
  unfolding agree_below_def
proof (intro allI impI)
  fix bs :: bytes assume less: "length bs < n"
  then have same: "r' bs = r bs" using assms(2) by (simp add: agree_below_def)
  show "rd_bind r f bs = rd_bind r' f' bs"
  proof (cases "r bs")
    case (Ok x)
    then have "length (snd x) < n" using takes_prefix_length[OF assms(1), of bs "fst x" "snd x"] less by simp
    then show ?thesis using assms(3)[of "fst x"] Ok same by (cases x) (simp add: agree_below_def)
  qed (simp_all add: same)
qed

lemma agree_below_consumes:
  assumes "consumes r" "\<And>a. agree_below n (f a) (f' a)"
  shows "agree_below (Suc n) (rd_bind r f) (rd_bind r f')"
  unfolding agree_below_def
proof (intro allI impI)
  fix bs :: bytes assume less: "length bs < Suc n"
  show "rd_bind r f bs = rd_bind r f' bs"
  proof (cases "r bs")
    case (Ok x)
    then have "length (snd x) < length bs" using assms(1)[unfolded consumes_def, rule_format, of bs "fst x" "snd x"] by simp
    then have "length (snd x) < n" using less by simp
    then show ?thesis using assms(2)[of "fst x"] Ok by (cases x) (simp add: agree_below_def)
  qed simp_all
qed

lemma rd_if_takes_prefix: "takes_prefix r \<Longrightarrow> takes_prefix (rd_if c r)"
  unfolding rd_if_def by (intro takes_prefix_if takes_prefix_map takes_prefix_simps)

lemma header_parts_take_prefix:
  "takes_prefix de_merkle_branch" "takes_prefix de_prog_pow" "takes_prefix de_mtp_pow" "takes_prefix (read_bits z)"
  "takes_prefix (read_nonce v version time z)" "takes_prefix read_byte_list"
  unfolding de_merkle_branch_def de_prog_pow_def de_mtp_pow_def read_bits_def read_nonce_def read_byte_list_def
  by (intro takes_prefix_bind takes_prefix_if takes_prefix_map takes_prefix_simps integers_take_prefix
      hash_bytes_take_prefix h256.list_takes_prefix byte.list_takes_prefix)+

lemma read_aux_pow_takes_prefix: "takes_prefix r \<Longrightarrow> takes_prefix (read_aux_pow r)"
  unfolding read_aux_pow_def
  by (intro takes_prefix_bind takes_prefix_simps deserialize_tx_takes_prefix hash_bytes_take_prefix header_parts_take_prefix)

lemmas header_prefix_rules = takes_prefix_bind takes_prefix_if takes_prefix_map takes_prefix_simps integers_take_prefix
  hash_bytes_take_prefix header_parts_take_prefix rd_if_takes_prefix readers_take_prefix

lemma de_block_header_fuel_takes_prefix: "takes_prefix (de_block_header_fuel n v)"
proof (induction n)
  case (Suc n)
  show ?case unfolding de_block_header_fuel.simps Let_def
    by (intro header_prefix_rules read_aux_pow_takes_prefix Suc)
qed (simp only: de_block_header_fuel.simps takes_prefix_simps)

lemma de_u32_consumes: "consumes de_u32"
  by (auto simp: consumes_def de_u32_def read_slice_def split: if_splits)

lemma read_aux_pow_agree: "takes_prefix r \<Longrightarrow> agree_below n r r' \<Longrightarrow> agree_below n (read_aux_pow r) (read_aux_pow r')"
  unfolding read_aux_pow_def
  by (intro agree_below_bind agree_below_refl deserialize_tx_takes_prefix header_prefix_rules)

lemma rd_if_agree: "takes_prefix r \<Longrightarrow> agree_below n r r' \<Longrightarrow> agree_below n (rd_if c r) (rd_if c r')"
  unfolding rd_if_def rd_map_def by (cases c) (auto intro: agree_below_bind)

lemma de_block_header_fuel_agree:
  "n \<le> m \<Longrightarrow> agree_below (Suc n) (de_block_header_fuel n v) (de_block_header_fuel m v)"
proof (induction n arbitrary: m)
  case 0
  have "de_block_header_fuel m v [] = Err UnexpectedEnd"
    by (cases m) (simp_all add: de_u32_def read_slice_def)
  then show ?case by (simp add: agree_below_def)
next
  case (Suc n)
  then obtain m' where m: "m = Suc m'" "n \<le> m'" by (cases m) auto
  note prefix = de_block_header_fuel_takes_prefix
  note aux = rd_if_agree[OF read_aux_pow_takes_prefix[OF prefix] read_aux_pow_agree[OF prefix Suc.IH[OF m(2)]]]
  show ?case unfolding m(1) de_block_header_fuel.simps Let_def
    apply (rule agree_below_consumes[OF de_u32_consumes])
    apply (rule agree_below_bind[OF _ agree_below_refl], (intro header_prefix_rules)[1])+
    apply (rule agree_below_bind[OF rd_if_takes_prefix[OF read_aux_pow_takes_prefix[OF prefix]] aux agree_below_refl])
    done
qed

text \<open>Any amount of fuel that is not below the number of bytes gives the same.\<close>

lemma de_block_header_fuel_enough:
  "length bs \<le> n \<Longrightarrow> de_block_header_fuel n v bs = de_block_header v bs"
  using de_block_header_fuel_agree[of "length bs" n v]
  by (simp add: de_block_header_def agree_below_def del: de_block_header_fuel.simps)

lemma de_block_header_takes_prefix: "takes_prefix (de_block_header v)"
  using de_block_header_fuel_takes_prefix unfolding takes_prefix_def de_block_header_def by blast

section \<open>A header is read back\<close>

definition merkle_branch_ok :: "merkle_branch \<Rightarrow> bool" where
  "merkle_branch_ok b = (list_all (\<lambda>h. length h = 32) (mb_branch_hashes b) \<and> length (mb_branch_hashes b) < 2 ^ 58)"

definition prog_pow_ok :: "prog_pow \<Rightarrow> bool" where "prog_pow_ok p = (length (pp_mix_hash p) = 32)"

definition mtp_pow_ok :: "mtp_pow \<Rightarrow> bool" where
  "mtp_pow_ok p = (length (mtp_hash_value p) = 32 \<and> length (mtp_reserved_0 p) = 32 \<and> length (mtp_reserved_1 p) = 32)"

text \<open>An optional part is there exactly when it is expected, and it is well formed.\<close>

definition expected :: "bool \<Rightarrow> ('a \<Rightarrow> bool) \<Rightarrow> 'a option \<Rightarrow> bool" where
  "expected c ok x = ((x \<noteq> None) = c \<and> pred_option ok x)"

abbreviation hash_ok :: "bytes \<Rightarrow> bool" where "hash_ok h \<equiv> length h = 32"
abbreviation byte_list_ok :: "bytes \<Rightarrow> bool" where "byte_list_ok b \<equiv> length b < 2 ^ 63"

definition version_ok :: "u32 \<Rightarrow> bool \<Rightarrow> bool" where
  "version_ok version is_verus = (if is_verus then version = 4 else xor version 0x00010000 \<noteq> 4)"

definition nonce_ok :: "chain_variant \<Rightarrow> u32 \<Rightarrow> u32 \<Rightarrow> block_header_nonce \<Rightarrow> bool" where
  "nonce_ok v version time nonce =
    (if is_zcash_style v version then \<not> bh_is_prog_pow version time \<and> (\<exists>h. nonce = NonceH256 h \<and> hash_ok h)
     else if (version = KAWPOW_VERSION \<and> v = RVN) \<or> bh_is_prog_pow version time then nonce = NonceU32 0
     else \<exists>n. nonce = NonceU32 n \<and> (version = KAWPOW_VERSION \<longrightarrow> n \<noteq> 0))"

definition bits_ok :: "bool \<Rightarrow> block_header_bits \<Rightarrow> bool" where
  "bits_ok zcash_style bits = (case bits of BitsU32 _ \<Rightarrow> zcash_style | BitsCompact _ \<Rightarrow> \<not> zcash_style)"

fun header_ok :: "chain_variant \<Rightarrow> u32 \<Rightarrow> block_header \<Rightarrow> bool"
  and aux_pow_ok :: "chain_variant \<Rightarrow> u32 \<Rightarrow> aux_pow \<Rightarrow> bool" where
  "header_ok v flags (BlockHeader version prev merkle claim sapling_root time bits nonce solution aux prog mtp is_verus
      state_root utxo_root prevout sig n_height n_nonce mix_hash) =
    (let zcash_style = is_zcash_style v version;
         qtum = (version = BIP9_NO_SOFT_FORK_BLOCK_HEADER_VERSION \<and> v = Qtum);
         kawpow = (version = KAWPOW_VERSION \<and> v = RVN)
     in version_ok version is_verus \<and> hash_ok prev \<and> hash_ok merkle
       \<and> expected (version = BIP9_NO_SOFT_FORK_BLOCK_HEADER_VERSION \<and> v = LBC) hash_ok claim
       \<and> expected (zcash_style \<or> v = PIVX) hash_ok sapling_root \<and> \<not> (zcash_style \<and> v = PIVX)
       \<and> bits_ok zcash_style bits \<and> nonce_ok v version time nonce
       \<and> expected zcash_style byte_list_ok solution
       \<and> (case aux of Some pow \<Rightarrow> and version AUXPOW_VERSION_FLAG \<noteq> 0 \<and> v \<noteq> BTC \<and> aux_pow_ok v flags pow
          | None \<Rightarrow> \<not> (and version AUXPOW_VERSION_FLAG \<noteq> 0 \<and> v \<noteq> BTC))
       \<and> expected (bh_is_prog_pow version time) prog_pow_ok prog
       \<and> expected (version = MTP_POW_VERSION \<and> \<not> bh_is_prog_pow version time) mtp_pow_ok mtp
       \<and> expected qtum hash_ok state_root \<and> expected qtum hash_ok utxo_root
       \<and> expected qtum out_point_ok prevout \<and> expected qtum byte_list_ok sig
       \<and> expected kawpow (\<lambda>_. True) n_height \<and> expected kawpow (\<lambda>_. True) n_nonce \<and> expected kawpow hash_ok mix_hash)"
| "aux_pow_ok v flags (AuxPow tx parent_hash coinbase_branch blockchain_branch parent) =
    (tx_ok StandardWithWitness flags tx \<and> (maybe_spark (written_header tx) \<longrightarrow> btx_v_extra_payload tx \<noteq> None)
     \<and> hash_ok parent_hash \<and> merkle_branch_ok coinbase_branch \<and> merkle_branch_ok blockchain_branch
     \<and> header_ok v flags parent)"

lemma rd_if_round_trip:
  assumes "expected c ok x" "\<And>a rest. ok a \<Longrightarrow> r (ser a @ rest) = Ok (a, rest)"
  shows "rd_if c r (ser_option ser x @ rest) = Ok (x, rest)"
  using assms by (cases x) (auto simp: expected_def rd_if_def ser_option_def)

lemma merkle_branch_round_trip:
  "merkle_branch_ok b \<Longrightarrow> de_merkle_branch (ser_merkle_branch b @ rest) = Ok (b, rest)"
  by (simp add: merkle_branch_ok_def de_merkle_branch_def ser_merkle_branch_def h256.list_round_trip)

lemma byte_list_round_trip:
  "byte_list_ok b \<Longrightarrow> read_byte_list (append_list ser_u8 b @ rest) = Ok (b, rest)"
  by (simp add: read_byte_list_def byte.list_round_trip list_all_iff)

lemma pow_round_trip:
  "prog_pow_ok p \<Longrightarrow> de_prog_pow (ser_prog_pow p @ rest) = Ok (p, rest)"
  "mtp_pow_ok m \<Longrightarrow> de_mtp_pow (ser_mtp_pow m @ rest) = Ok (m, rest)"
  by (simp_all add: prog_pow_ok_def de_prog_pow_def ser_prog_pow_def mtp_pow_ok_def de_mtp_pow_def ser_mtp_pow_def)

lemma bits_round_trip: "bits_ok z bits \<Longrightarrow> read_bits z (ser_bits bits @ rest) = Ok (bits, rest)"
  by (cases bits; cases "bits_compact bits") (auto simp: bits_ok_def read_bits_def)

lemma nonce_round_trip:
  assumes "nonce_ok v version time nonce"
  shows "read_nonce v version time (is_zcash_style v version)
      ((if \<not> bh_is_prog_pow version time \<and> (version \<noteq> KAWPOW_VERSION \<or> nonce \<noteq> NonceU32 0) then ser_nonce nonce else []) @ rest)
    = Ok (nonce, rest)"
  using assms by (auto simp: nonce_ok_def read_nonce_def bh_is_prog_pow_def split: if_splits)

lemma version_round_trip:
  assumes "version_ok version is_verus"
  defines "w \<equiv> (if is_verus then xor version 0x00010000 else version)"
  shows "(xor w 0x00010000 = 4) = is_verus" and "(if is_verus then xor w 0x00010000 else w) = version"
  using assms by (auto simp: version_ok_def xor.assoc)

lemma sapling_root_round_trip:
  assumes "expected (z \<or> v = PIVX) hash_ok sroot" "\<not> (z \<and> v = PIVX)" "expected z byte_list_ok solution"
  shows "rd_if z (de_hash 32) ((if solution \<noteq> None then ser_option ser_hash sroot else []) @ rest)
      = Ok (if z then sroot else None, rest)"
    and "(if v = PIVX then rd_map Some (de_hash 32) else rd_return (if z then sroot else None))
        ((if solution = None then ser_option ser_hash sroot else []) @ rest) = Ok (sroot, rest)"
  using assms by (auto simp: expected_def rd_if_def ser_option_def)

lemma aux_pow_round_trip:
  assumes "aux_pow_ok v flags pow"
    and "read_header (ser_block_header flags (ap_parent_block_header pow) @ rest) = Ok (ap_parent_block_header pow, rest)"
  shows "read_aux_pow read_header (ser_aux_pow flags pow @ rest) = Ok (pow, rest)"
proof (cases pow)
  case (AuxPow tx parent_hash coinbase_branch blockchain_branch parent)
  then have ok: "tx_ok StandardWithWitness flags tx" "tx_ends StandardWithWitness tx r" "hash_ok parent_hash"
    "merkle_branch_ok coinbase_branch" "merkle_branch_ok blockchain_branch" for r
    using assms(1) by (auto simp: tx_ends_def)
  show ?thesis using assms(2) deserialize_tx_round_trip[OF ok(1,2)] ok(3-)
    by (simp add: AuxPow read_aux_pow_def merkle_branch_round_trip)
qed

lemma parent_is_shorter: "length (ser_block_header flags (ap_parent_block_header pow)) \<le> length (ser_aux_pow flags pow)"
  by (cases pow) simp

lemma de_block_header_fuel_round_trip:
  "header_ok v flags h \<Longrightarrow> length (ser_block_header flags h) \<le> n \<Longrightarrow>
   de_block_header_fuel n v (ser_block_header flags h @ rest) = Ok (h, rest)"
proof (induction n arbitrary: h rest)
  case 0
  then show ?case by (cases h) (simp add: ser_u32_def)
next
  case (Suc n)
  obtain version prev merkle claim sapling_root time bits nonce solution aux prog mtp is_verus state_root utxo_root
    prevout sig n_height n_nonce mix_hash where h: "h = BlockHeader version prev merkle claim sapling_root time bits nonce
      solution aux prog mtp is_verus state_root utxo_root prevout sig n_height n_nonce mix_hash"
    by (rule block_header.exhaust[of h])
  note ok = Suc.prems(1)[unfolded h header_ok.simps Let_def]
  have aux: "rd_if (and version AUXPOW_VERSION_FLAG \<noteq> 0 \<and> v \<noteq> BTC) (read_aux_pow (de_block_header_fuel n v))
      ((case aux of Some pow \<Rightarrow> ser_aux_pow flags pow | None \<Rightarrow> []) @ r) = Ok (aux, r)" for r
  proof (cases aux)
    case None
    then show ?thesis using ok by (simp add: rd_if_def)
  next
    case (Some pow)
    have "length (ser_block_header flags (ap_parent_block_header pow)) \<le> n"
      using Suc.prems(2) parent_is_shorter[of flags pow] by (simp add: h Some ser_u32_def)
    moreover have pow_ok: "aux_pow_ok v flags pow" using ok by (simp add: Some)
    ultimately have "de_block_header_fuel n v (ser_block_header flags (ap_parent_block_header pow) @ r)
        = Ok (ap_parent_block_header pow, r)"
      by (intro Suc.IH) (cases pow, simp_all)
    then show ?thesis using ok aux_pow_round_trip[OF pow_ok] by (simp add: Some rd_if_def)
  qed
  let ?zcash = "is_zcash_style v version"
  let ?qtum = "version = BIP9_NO_SOFT_FORK_BLOCK_HEADER_VERSION \<and> v = Qtum"
  let ?kawpow = "version = KAWPOW_VERSION \<and> v = RVN"
  have version: "version_ok version is_verus" and hashes: "hash_ok prev" "hash_ok merkle"
    and claim: "expected (version = BIP9_NO_SOFT_FORK_BLOCK_HEADER_VERSION \<and> v = LBC) hash_ok claim"
    and sapling: "expected (?zcash \<or> v = PIVX) hash_ok sapling_root" "\<not> (?zcash \<and> v = PIVX)" "expected ?zcash byte_list_ok solution"
    and bits: "bits_ok ?zcash bits" and nonce: "nonce_ok v version time nonce"
    and qtum: "expected ?qtum hash_ok state_root" "expected ?qtum hash_ok utxo_root" "expected ?qtum out_point_ok prevout"
      "expected ?qtum byte_list_ok sig"
    and kawpow: "expected ?kawpow (\<lambda>_. True) n_height" "expected ?kawpow (\<lambda>_. True) n_nonce" "expected ?kawpow hash_ok mix_hash"
    and prog: "expected (bh_is_prog_pow version time) prog_pow_ok prog"
    and mtp: "expected (version = MTP_POW_VERSION \<and> \<not> bh_is_prog_pow version time) mtp_pow_ok mtp"
    using ok by blast+
  have prog_mtp: "expected (version = MTP_POW_VERSION \<and> PROG_POW_SWITCH_TIME \<le> time) prog_pow_ok prog"
    "expected (version = MTP_POW_VERSION \<and> time < PROG_POW_SWITCH_TIME \<and> prog = None) mtp_pow_ok mtp"
    using prog mtp by (auto simp: bh_is_prog_pow_def expected_def not_le)
  note hash_if = rd_if_round_trip[where r = "de_hash 32" and ser = ser_hash, OF _ hash_round_trip]
  note list_if = rd_if_round_trip[where r = read_byte_list and ser = "append_list ser_u8", OF _ byte_list_round_trip]
  note steps = integers_round_trip(3) hashes[THEN hash_round_trip] version_round_trip[OF version]
    sapling_root_round_trip[OF sapling] bits_round_trip[OF bits] nonce_round_trip[OF nonce] aux
    hash_if[OF claim] hash_if[OF qtum(1)] hash_if[OF qtum(2)] hash_if[OF kawpow(3)] list_if[OF sapling(3)] list_if[OF qtum(4)]
    rd_if_round_trip[where r = de_prog_pow and ser = ser_prog_pow, OF prog_mtp(1) pow_round_trip(1)]
    rd_if_round_trip[where r = de_mtp_pow and ser = ser_mtp_pow, OF prog_mtp(2) pow_round_trip(2)]
    rd_if_round_trip[where r = de_out_point and ser = ser_out_point, OF qtum(3) out_point_round_trip]
    rd_if_round_trip[where r = de_u32 and ser = ser_u32, OF kawpow(1) integers_round_trip(3)]
    rd_if_round_trip[where r = de_u64 and ser = ser_u64, OF kawpow(2) integers_round_trip(4)]
  show ?case
    unfolding h de_block_header_fuel.simps ser_block_header.simps append_assoc
    by (simp only: rd_simps(1,3) rbind.simps Let_def prod.case steps)
qed


text \<open>A header that is merged mined with a block of another chain, and a header with the root of PIVX.\<close>

definition demo_parent_header :: block_header where
  "demo_parent_header = BlockHeader 2 (hash_default 32) (hash_default 32) None None 1000 (BitsCompact (Compact 0x1d00ffff))
     (NonceU32 5) None None None None False None None None None None None None"

definition demo_branch :: merkle_branch where
  "demo_branch = \<lparr>mb_branch_hashes = [hash_default 32], mb_branch_side_mask = 1\<rparr>"

definition demo_merged_header :: block_header where
  "demo_merged_header = BlockHeader 0x620104 (hash_default 32) (hash_default 32) None None 2000 (BitsCompact (Compact 0x1d00ffff))
     (NonceU32 0) None (Some (AuxPow (demo_segwit_tx\<lparr>btx_inputs := [demo_input []]\<rparr>) (hash_default 32) demo_branch demo_branch demo_parent_header))
     None None False None None None None None None None"

definition demo_pivx_header :: block_header where
  "demo_pivx_header = BlockHeader 8 (hash_default 32) (hash_default 32) None (Some (replicate 32 9)) 2000
     (BitsCompact (Compact 0x1d00ffff)) (NonceU32 0) None None None None False None None None None None None None"

lemmas header_ok_defs = hash_default_def version_ok_def expected_def bits_ok_def nonce_ok_def is_zcash_style_def
  is_kmd_assetchain_def bh_is_prog_pow_def KAWPOW_VERSION_def MTP_POW_VERSION_def AUXPOW_VERSION_FLAG_def
  BIP9_NO_SOFT_FORK_BLOCK_HEADER_VERSION_def merkle_branch_ok_def


end
