(* ===== verification/Spv_Validation.thy ===== *)
theory Spv_Validation
  imports Block_Header
begin

text \<open>
  Simplified payment verification (the crate \<open>mm2_bitcoin/spv_validation\<close>, with \<open>Compact\<close> of \<open>primitives\<close> and
  \<open>dhash256\<close> of \<open>crypto\<close>): merkle proofs, the shape of the inputs and outputs that come with one, the
  difficulty a header must announce, and the validation of a chain of headers.

  SHA-256 and the storage of the headers are parameters: a function from bytes to bytes, and what the two
  queries return while a chain is validated. A \<open>U256\<close> is a word of 256 bits; its multiplication panics on
  overflow, as the crate \<open>uint\<close> documents. The sums on \<open>usize\<close> wrap around, as in a release build.
\<close>

type_synonym u256 = "256 word"

section \<open>Hashes\<close>

definition dhash256 :: "(bytes \<Rightarrow> bytes) \<Rightarrow> bytes \<Rightarrow> bytes" where
  "dhash256 sha256 input = sha256 (sha256 input)"

definition hash256 :: "(bytes \<Rightarrow> bytes) \<Rightarrow> bytes list \<Rightarrow> bytes" where
  "hash256 sha256 preimages = sha256 (sha256 (concat preimages))"

section \<open>\<open>Compact\<close> targets\<close>

definition compact_to_u256 :: "compact \<Rightarrow> u256 + u256" where
  "compact_to_u256 c =
    (let n = compact_u32 c; size = unat (drop_bit 24 n); word = and n 0x007fffff;
         word' = (if size \<le> 3 then drop_bit (8 * (3 - size)) word else word);
         result = (if size \<le> 3 then ucast word' else push_bit (8 * (size - 3)) (ucast word'));
         is_negative = (word' \<noteq> 0 \<and> and n 0x00800000 \<noteq> 0);
         is_overflow = ((word' \<noteq> 0 \<and> 34 < size) \<or> (0xff < word' \<and> 33 < size) \<or> (0xffff < word' \<and> 32 < size))
     in if is_negative \<or> is_overflow then Inl result else Inr result)"

text \<open>\<open>From<Compact> for U256\<close>: overflows and negative values are ignored.\<close>

definition u256_of_compact :: "compact \<Rightarrow> u256" where
  "u256_of_compact c = (case compact_to_u256 c of Inr x \<Rightarrow> x | Inl x \<Rightarrow> x)"

text \<open>\<open>U256::bits\<close>.\<close>

fun bit_length :: "nat \<Rightarrow> nat" where
  "bit_length n = (if n = 0 then 0 else Suc (bit_length (n div 2)))"

declare bit_length.simps [simp del]

definition compact_from_u256 :: "u256 \<Rightarrow> ('e, compact) rust_result" where
  "compact_from_u256 val =
    (let size = (bit_length (unat val) + 7) div 8;
         compact = (if size \<le> 3 then ucast (push_bit (8 * (3 - size)) (ucast val :: u64)) else ucast (drop_bit (8 * (size - 3)) val)) :: u32;
         shift = (and compact 0x00800000 \<noteq> 0);
         compact' = (if shift then drop_bit 8 compact else compact);
         size' = (if shift then size + 1 else size)
     in if and compact' (not 0x007fffff) \<noteq> 0 then Panic
        else if 256 \<le> size' then Panic
        else Ok (Compact (or compact' (push_bit 24 (of_nat size')))))"

definition bh_target :: "block_header \<Rightarrow> u256 + u256" where
  "bh_target h = (case bh_bits h of BitsCompact c \<Rightarrow> compact_to_u256 c | BitsU32 nb \<Rightarrow> Inr (ucast nb))"

section \<open>Errors, configuration and storage\<close>

datatype storage_error = AddToStorageError string string | GetFromStorageError string string
  | CantRetrieveTableError string string | UnableToDeleteHeaders u64 u64 string string | QueryError string string
  | InitializationError string string | DecodeError string string | StorageInternal string

datatype next_block_bits_error = StorageError storage_error | NoSuchBlockHeader string u64
  | NoBlockHeaderWithNoMaxBits string

datatype spv_error = InitialValidationError string | ReadOverrun | BadCompactInt | MalformattedOutput
  | UnableToGetHeader string | WrongLengthHeader | UnexpectedDifficultyChange | InsufficientWork
  | DifficultyCalculationError next_block_bits_error | WrongDigest | WrongMerkleRoot | WrongPrevHash | InvalidVin
  | InvalidVout | BadMerkleProof | UnableToGetMerkle string string | InvalidHeight string | SpvTimeout
  | HeaderStorageError storage_error | WrongRetargetHeight string u64 | SpvInternal string
  | ParentHashMismatch string u64

text \<open>The two queries of \<open>BlockHeaderStorageOps\<close> the validation uses.\<close>

record header_storage =
  get_block_header :: "u64 \<Rightarrow> storage_error + block_header option"
  get_last_block_header_with_non_max_bits :: "u32 \<Rightarrow> storage_error + block_header option"

record spv_block_header =
  sbh_height :: u64
  sbh_hash :: bytes
  sbh_time :: u32
  sbh_bits :: block_header_bits

definition from_block_header_and_height :: "(bytes \<Rightarrow> bytes) \<Rightarrow> block_header \<Rightarrow> u64 \<Rightarrow> spv_block_header" where
  "from_block_header_and_height sha256 header height =
    \<lparr>sbh_height = height, sbh_hash = bh_hash (dhash256 sha256) header, sbh_time = bh_time header, sbh_bits = bh_bits header\<rparr>"

datatype difficulty_algorithm = BitcoinMainnet | BitcoinTestnet

record block_header_validation_params =
  vp_difficulty_check :: bool
  vp_constant_difficulty :: bool
  vp_difficulty_algorithm :: "difficulty_algorithm option"

record spv_conf =
  sc_starting_block_header :: spv_block_header
  sc_max_stored_block_headers :: "u64 option"
  sc_validation_params :: "block_header_validation_params option"

section \<open>The difficulty of the next block\<close>

definition RETARGETING_FACTOR :: u32 where "RETARGETING_FACTOR = 4"
definition TARGET_SPACING_SECONDS :: u32 where "TARGET_SPACING_SECONDS = 10 * 60"
definition TARGET_TIMESPAN_SECONDS :: u32 where "TARGET_TIMESPAN_SECONDS = 2 * 7 * 24 * 60 * 60"
definition RETARGETING_INTERVAL :: u32 where "RETARGETING_INTERVAL = TARGET_TIMESPAN_SECONDS div TARGET_SPACING_SECONDS"
definition MIN_TIMESPAN :: u32 where "MIN_TIMESPAN = TARGET_TIMESPAN_SECONDS div RETARGETING_FACTOR"
definition MAX_TIMESPAN :: u32 where "MAX_TIMESPAN = TARGET_TIMESPAN_SECONDS * RETARGETING_FACTOR"
definition MAX_BITS_BTC :: u32 where "MAX_BITS_BTC = 486604799"

definition is_retarget_height :: "u64 \<Rightarrow> bool" where
  "is_retarget_height height = (height mod ucast RETARGETING_INTERVAL = 0)"

definition range_constrain :: "int \<Rightarrow> int \<Rightarrow> int \<Rightarrow> int" where
  "range_constrain v least most = min (max v least) most"

definition retarget_timespan :: "u32 \<Rightarrow> u32 \<Rightarrow> u32" where
  "retarget_timespan retarget_timestamp last_timestamp =
    (let timespan = uint last_timestamp - uint retarget_timestamp
     in word_of_int (range_constrain timespan (uint MIN_TIMESPAN) (uint MAX_TIMESPAN)))"

text \<open>\<open>U256 * U256\<close> panics when the product does not fit.\<close>

definition u256_mul :: "u256 \<Rightarrow> u256 \<Rightarrow> ('e, u256) rust_result" where
  "u256_mul a b = (if unat a * unat b < 2 ^ 256 then Ok (a * b) else Panic)"

definition query :: "('e \<Rightarrow> 'f) \<Rightarrow> 'e + 'a \<Rightarrow> ('f, 'a) rust_result" where
  "query f r = (case r of Inl e \<Rightarrow> Err (f e) | Inr a \<Rightarrow> Ok a)"

definition btc_retarget_bits :: "(bytes \<Rightarrow> bytes) \<Rightarrow> string \<Rightarrow> spv_block_header \<Rightarrow> header_storage
    \<Rightarrow> (next_block_bits_error, block_header_bits) rust_result" where
  "btc_retarget_bits sha256 coin last_block_header storage =
    (let max_bits_compact = Compact MAX_BITS_BTC;
         retarget_ref = sbh_height last_block_header + 1 - ucast RETARGETING_INTERVAL
     in if retarget_ref = 0 then Ok (BitsCompact max_bits_compact)
     else rbind (query StorageError (get_block_header storage retarget_ref)) (\<lambda>header.
       case map_option (\<lambda>h. from_block_header_and_height sha256 h retarget_ref) header of
         None \<Rightarrow> Err (NoSuchBlockHeader coin retarget_ref)
       | Some retarget_header \<Rightarrow>
         let retarget_timestamp = sbh_time retarget_header;
             last_timestamp = sbh_time last_block_header;
             retarget = u256_of_compact (bits_compact (sbh_bits last_block_header))
         in rbind (u256_mul retarget (ucast (retarget_timespan retarget_timestamp last_timestamp))) (\<lambda>retarget.
            let retarget = retarget div ucast TARGET_TIMESPAN_SECONDS;
                max_bits = u256_of_compact max_bits_compact
            in if max_bits < retarget then Ok (BitsCompact max_bits_compact)
               else rbind (compact_from_u256 retarget) (\<lambda>c. Ok (BitsCompact c)))))"

definition btc_mainnet_next_block_bits :: "(bytes \<Rightarrow> bytes) \<Rightarrow> string \<Rightarrow> spv_block_header \<Rightarrow> header_storage
    \<Rightarrow> (next_block_bits_error, block_header_bits) rust_result" where
  "btc_mainnet_next_block_bits sha256 coin last_block_header storage =
    (if sbh_height last_block_header = 0 then Ok (BitsCompact (Compact MAX_BITS_BTC))
     else let next_height = sbh_height last_block_header + 1;
              last_block_bits = sbh_bits last_block_header
       in if is_retarget_height next_height then btc_retarget_bits sha256 coin last_block_header storage
          else Ok last_block_bits)"

definition btc_testnet_next_block_bits :: "(bytes \<Rightarrow> bytes) \<Rightarrow> string \<Rightarrow> u32 \<Rightarrow> spv_block_header \<Rightarrow> header_storage
    \<Rightarrow> (next_block_bits_error, block_header_bits) rust_result" where
  "btc_testnet_next_block_bits sha256 coin current_block_timestamp last_block_header storage =
    (let max_bits = BitsCompact (Compact MAX_BITS_BTC)
     in if sbh_height last_block_header = 0 then Ok max_bits
     else let next_height = sbh_height last_block_header + 1;
              last_block_bits = sbh_bits last_block_header;
              max_time_gap = sbh_time last_block_header + 2 * TARGET_SPACING_SECONDS
       in if is_retarget_height next_height then btc_retarget_bits sha256 coin last_block_header storage
          else if max_time_gap < current_block_timestamp then Ok max_bits
          else if last_block_bits \<noteq> max_bits then Ok last_block_bits
          else rbind (query StorageError (get_last_block_header_with_non_max_bits storage MAX_BITS_BTC)) (\<lambda>header.
            Ok (unwrap_or max_bits (map_option bh_bits header))))"

definition next_block_bits :: "(bytes \<Rightarrow> bytes) \<Rightarrow> string \<Rightarrow> u32 \<Rightarrow> spv_block_header \<Rightarrow> header_storage
    \<Rightarrow> difficulty_algorithm \<Rightarrow> (next_block_bits_error, block_header_bits) rust_result" where
  "next_block_bits sha256 coin current_block_timestamp last_block_header storage algorithm =
    (case algorithm of
       BitcoinMainnet \<Rightarrow> btc_mainnet_next_block_bits sha256 coin last_block_header storage
     | BitcoinTestnet \<Rightarrow> btc_testnet_next_block_bits sha256 coin current_block_timestamp last_block_header storage)"

section \<open>Configuration checks\<close>

definition validate_btc_max_stored_headers_value :: "u64 \<Rightarrow> (spv_error, unit) rust_result" where
  "validate_btc_max_stored_headers_value most =
    (if ucast most < RETARGETING_INTERVAL
     then Err (InitialValidationError ''max_stored_block_headers must be greater than retargeting interval'') else Ok ())"

definition validate_btc_spv_header_height :: "string \<Rightarrow> u64 \<Rightarrow> (spv_error, unit) rust_result" where
  "validate_btc_spv_header_height coin height =
    (let is_retarget = height mod ucast RETARGETING_INTERVAL
     in if is_retarget \<noteq> 0 then Err (WrongRetargetHeight coin (height - is_retarget)) else Ok ())"

definition spv_conf_validate :: "spv_conf \<Rightarrow> string \<Rightarrow> (spv_error, unit) rust_result" where
  "spv_conf_validate conf coin =
    (case sc_validation_params conf of
       None \<Rightarrow> Ok ()
     | Some params \<Rightarrow>
       (case vp_difficulty_algorithm params of
          None \<Rightarrow> Ok ()
        | Some BitcoinMainnet \<Rightarrow>
            rbind (validate_btc_spv_header_height coin (sbh_height (sc_starting_block_header conf))) (\<lambda>_.
              case sc_max_stored_block_headers conf of
                Some most \<Rightarrow> validate_btc_max_stored_headers_value most
              | None \<Rightarrow> Ok ())
        | Some BitcoinTestnet \<Rightarrow> Err (SpvInternal ''Bitcoin Testnet is not supported yet.'')))"

definition validate_rpc_starting_header :: "(bytes \<Rightarrow> bytes) \<Rightarrow> spv_conf \<Rightarrow> u64 \<Rightarrow> block_header
    \<Rightarrow> (spv_error, unit) rust_result" where
  "validate_rpc_starting_header sha256 conf height rpc_header =
    (let rpc_header = from_block_header_and_height sha256 rpc_header height;
         spv_header = sc_starting_block_header conf
     in if bits_u32 (sbh_bits rpc_header) \<noteq> bits_u32 (sbh_bits spv_header)
        then Err (InitialValidationError ''Starting block header bits not acceptable'')
        else if sbh_hash rpc_header \<noteq> sbh_hash spv_header
        then Err (InitialValidationError ''Starting block header hash not acceptable'')
        else if sbh_time rpc_header \<noteq> sbh_time spv_header
        then Err (InitialValidationError ''Starting block header time not acceptable'')
        else Ok ())"

section \<open>Merkle proofs\<close>

definition merkle_array_new :: "bytes \<Rightarrow> (spv_error, bytes) rust_result" where
  "merkle_array_new hs = (if length hs mod 32 = 0 then Ok hs else Err BadMerkleProof)"

definition merkle_array_len :: "bytes \<Rightarrow> nat" where "merkle_array_len hs = length hs div 32"

definition merkle_array_index :: "bytes \<Rightarrow> nat \<Rightarrow> (spv_error, bytes) rust_result" where
  "merkle_array_index hs index =
    (let to_index = (index + 1) * 32
     in if length hs < to_index then Err BadMerkleProof else Ok (take 32 (drop (index * 32) hs)))"

definition hash256_merkle_step :: "(bytes \<Rightarrow> bytes) \<Rightarrow> bytes \<Rightarrow> bytes \<Rightarrow> bytes" where
  "hash256_merkle_step sha256 a b = hash256 sha256 [a, b]"

text \<open>The loop over the rest of the proof: the position, the index that is shifted, and the hash so far.\<close>

fun verify_merkle_loop :: "(bytes \<Rightarrow> bytes) \<Rightarrow> bytes \<Rightarrow> nat list \<Rightarrow> u64 \<Rightarrow> bytes \<Rightarrow> (spv_error, bytes) rust_result" where
  "verify_merkle_loop sha256 nodes [] idx current = Ok current"
| "verify_merkle_loop sha256 nodes (i # is) idx current =
    rbind (merkle_array_index nodes i) (\<lambda>nxt.
      verify_merkle_loop sha256 nodes is (drop_bit 1 idx)
        (if idx mod 2 = 1 then hash256_merkle_step sha256 nxt current else hash256_merkle_step sha256 current nxt))"

definition verify_hash256_merkle :: "(bytes \<Rightarrow> bytes) \<Rightarrow> bytes \<Rightarrow> bytes \<Rightarrow> bytes \<Rightarrow> u64 \<Rightarrow> (spv_error, unit) rust_result" where
  "verify_hash256_merkle sha256 txid root_hash intermediate_nodes index =
    (let proof_len = merkle_array_len intermediate_nodes
     in if (proof_len = 0 \<and> txid = root_hash) \<or> proof_len = 1 then Ok ()
     else rbind (verify_merkle_loop sha256 intermediate_nodes [0..<proof_len] index txid) (\<lambda>current.
       if current \<noteq> root_hash then Err BadMerkleProof else Ok ()))"

definition merkle_prove :: "(bytes \<Rightarrow> bytes) \<Rightarrow> bytes \<Rightarrow> bytes \<Rightarrow> bytes list \<Rightarrow> u64 \<Rightarrow> (spv_error, unit) rust_result" where
  "merkle_prove sha256 txid root_hash intermediate_nodes index =
    (if txid = root_hash \<and> index = 0 \<and> intermediate_nodes = [] then Ok ()
     else rbind (merkle_array_new (concat intermediate_nodes)) (\<lambda>nodes.
       verify_hash256_merkle sha256 txid root_hash nodes index))"

section \<open>Inputs and outputs of a proof\<close>

abbreviation usize_of :: "nat \<Rightarrow> u64" where "usize_of n \<equiv> of_nat n"

definition determine_input_length :: "bytes \<Rightarrow> (spv_error, u64) rust_result" where
  "determine_input_length tx_in =
    (if length tx_in < 37 then Err ReadOverrun
     else case parse_compact_int (drop 36 tx_in) of
       Inl _ \<Rightarrow> Err BadCompactInt
     | Inr script_sig_len \<Rightarrow> Ok (40 + usize_of (compact_serialized_length script_sig_len) + script_sig_len))"

definition determine_output_length :: "bytes \<Rightarrow> (spv_error, u64) rust_result" where
  "determine_output_length tx_out =
    (if length tx_out < 9 then Err MalformattedOutput
     else case parse_compact_int (drop 8 tx_out) of
       Inl _ \<Rightarrow> Err BadCompactInt
     | Inr script_pubkey_len \<Rightarrow> Ok (8 + usize_of (compact_serialized_length script_pubkey_len) + script_pubkey_len))"

fun walk_items :: "(bytes \<Rightarrow> (spv_error, u64) rust_result) \<Rightarrow> bytes \<Rightarrow> nat \<Rightarrow> u64 \<Rightarrow> u64 option" where
  "walk_items item_length v 0 offset = Some offset"
| "walk_items item_length v (Suc n) offset =
    (if length v \<le> unat offset then None
     else case item_length (drop (unat offset) v) of Ok l \<Rightarrow> walk_items item_length v n (offset + l) | _ \<Rightarrow> None)"

definition validate_items :: "(bytes \<Rightarrow> (spv_error, u64) rust_result) \<Rightarrow> bytes \<Rightarrow> bool" where
  "validate_items item_length v =
    (case parse_compact_int v of
       Inl _ \<Rightarrow> False
     | Inr n \<Rightarrow> if n = 0 then False
       else (case walk_items item_length v (unat n) (usize_of (compact_serialized_length n)) of
         None \<Rightarrow> False
       | Some offset \<Rightarrow> unat offset = length v))"

definition validate_vin :: "bytes \<Rightarrow> bool" where "validate_vin vin = validate_items determine_input_length vin"
definition validate_vout :: "bytes \<Rightarrow> bool" where "validate_vout vout = validate_items determine_output_length vout"

record spv_proof =
  sp_tx_id :: bytes
  sp_vin :: bytes
  sp_vout :: bytes
  sp_index :: u64
  sp_intermediate_nodes :: "bytes list"

definition spv_proof_validate :: "(bytes \<Rightarrow> bytes) \<Rightarrow> spv_proof \<Rightarrow> block_header \<Rightarrow> (spv_error, unit) rust_result" where
  "spv_proof_validate sha256 p validated_header =
    (if \<not> validate_vin (sp_vin p) then Err InvalidVin
     else if \<not> validate_vout (sp_vout p) then Err InvalidVout
     else merkle_prove sha256 (sp_tx_id p) (bh_merkle_root_hash validated_header) (sp_intermediate_nodes p) (sp_index p))"

section \<open>Chains of headers\<close>

text \<open>One step of the loop: the header is checked against the one before it.\<close>

definition validate_next_header :: "(bytes \<Rightarrow> bytes) \<Rightarrow> string \<Rightarrow> header_storage \<Rightarrow> spv_conf \<Rightarrow> u64 \<Rightarrow> spv_block_header
    \<Rightarrow> block_header \<Rightarrow> (spv_error, unit) rust_result" where
  "validate_next_header sha256 coin storage conf last_height last_header header =
    (if bh_previous_header_hash header \<noteq> sbh_hash last_header then Err (ParentHashMismatch coin (last_height + 1))
     else case sc_validation_params conf of
       None \<Rightarrow> Ok ()
     | Some params \<Rightarrow>
       if vp_constant_difficulty params \<and> vp_difficulty_check params \<and> bh_bits header \<noteq> sbh_bits last_header
       then Err UnexpectedDifficultyChange
       else case vp_difficulty_algorithm params of
         None \<Rightarrow> Ok ()
       | Some algorithm \<Rightarrow>
         (case next_block_bits sha256 coin (bh_time header) last_header storage algorithm of
            Panic \<Rightarrow> Panic
          | Err e \<Rightarrow> Err (DifficultyCalculationError e)
          | Ok bits \<Rightarrow>
            if \<not> vp_constant_difficulty params \<and> vp_difficulty_check params \<and> bh_bits header \<noteq> bits
            then Err InsufficientWork else Ok ()))"

fun validate_headers_loop :: "(bytes \<Rightarrow> bytes) \<Rightarrow> string \<Rightarrow> header_storage \<Rightarrow> spv_conf \<Rightarrow> u64 \<Rightarrow> spv_block_header
    \<Rightarrow> block_header list \<Rightarrow> (spv_error, unit) rust_result" where
  "validate_headers_loop sha256 coin storage conf last_height last_header [] = Ok ()"
| "validate_headers_loop sha256 coin storage conf last_height last_header (header # headers) =
    rbind (validate_next_header sha256 coin storage conf last_height last_header header) (\<lambda>_.
      validate_headers_loop sha256 coin storage conf (last_height + 1)
        (from_block_header_and_height sha256 header (last_height + 1)) headers)"

definition last_validated :: "(bytes \<Rightarrow> bytes) \<Rightarrow> string \<Rightarrow> u64 \<Rightarrow> header_storage \<Rightarrow> spv_conf
    \<Rightarrow> (spv_error, spv_block_header) rust_result" where
  "last_validated sha256 coin last_validated_height storage conf =
    (if last_validated_height = sbh_height (sc_starting_block_header conf) then Ok (sc_starting_block_header conf)
     else rbind (query HeaderStorageError (get_block_header storage last_validated_height)) (\<lambda>header.
       case header of
         None \<Rightarrow> Err (HeaderStorageError (GetFromStorageError coin ''Header is not found in storage''))
       | Some header \<Rightarrow> Ok (from_block_header_and_height sha256 header last_validated_height)))"

definition validate_headers :: "(bytes \<Rightarrow> bytes) \<Rightarrow> string \<Rightarrow> u64 \<Rightarrow> block_header list \<Rightarrow> header_storage \<Rightarrow> spv_conf
    \<Rightarrow> (spv_error, unit) rust_result" where
  "validate_headers sha256 coin last_validated_height headers_to_validate storage conf =
    rbind (last_validated sha256 coin last_validated_height storage conf) (\<lambda>last_header.
      validate_headers_loop sha256 coin storage conf last_validated_height last_header headers_to_validate)"

section \<open>Merkle proofs are complete\<close>

text \<open>The rows of the tree of a block above its leaves, and the hashes beside the way up from a leaf.\<close>

lemma length_merkle_row: "length (merkle_row H hashes) = (length hashes + 1) div 2"
  by (induction H hashes rule: merkle_row.induct) auto

function merkle_branch_nodes :: "(bytes \<Rightarrow> bytes) \<Rightarrow> bytes list \<Rightarrow> nat \<Rightarrow> bytes list" where
  "merkle_branch_nodes H hashes i =
    (if length hashes \<le> 1 then []
     else (if odd i then hashes ! (i - 1) else if i + 1 < length hashes then hashes ! (i + 1) else hashes ! i)
       # merkle_branch_nodes H (merkle_row H hashes) (i div 2))"
  by pat_completeness auto

termination by (relation "measure (\<lambda>(H, hashes, i). length hashes)") (auto simp: length_merkle_row)

declare merkle_branch_nodes.simps [simp del]

lemma merkle_branch_nodes_leaf: "length hashes \<le> 1 \<Longrightarrow> merkle_branch_nodes H hashes i = []"
  by (subst merkle_branch_nodes.simps) simp

lemma merkle_branch_nodes_up:
  "2 \<le> length hashes \<Longrightarrow> merkle_branch_nodes H hashes i =
    (if odd i then hashes ! (i - 1) else if i + 1 < length hashes then hashes ! (i + 1) else hashes ! i)
    # merkle_branch_nodes H (merkle_row H hashes) (i div 2)"
  by (subst merkle_branch_nodes.simps) simp

lemma merkle_row_nth:
  "i < length hashes \<Longrightarrow> merkle_row H hashes ! (i div 2) =
    (if odd i then merkle_node_hash H (hashes ! (i - 1)) (hashes ! i)
     else merkle_node_hash H (hashes ! i) (if i + 1 < length hashes then hashes ! (i + 1) else hashes ! i))"
proof (induction H hashes arbitrary: i rule: merkle_row.induct)
  case (1 H a b hashes)
  show ?case
  proof (cases "i < 2")
    case True
    then have "i = 0 \<or> i = 1" by auto
    then show ?thesis by auto
  next
    case False
    then obtain j where i: "i = Suc (Suc j)" by (metis add_2_eq_Suc le_Suc_ex not_less)
    show ?thesis using 1(1)[of j] 1(2) by (auto simp: i nth_Cons' elim!: oddE)
  qed
qed auto

text \<open>The root of a tree is reached unless there is no leaf.\<close>

lemma merkle_root_single: "merkle_root H [h] = Some h"
  by (subst merkle_root.simps) simp

lemma merkle_root_up: "length hashes \<noteq> 1 \<Longrightarrow> merkle_root H hashes = merkle_root H (merkle_row H hashes)"
  by (subst merkle_root.simps) simp

lemma merkle_root_not_empty:
  assumes "merkle_root H hashes = Some r"
  shows "hashes \<noteq> []"
proof (rule merkle_root.raw_induct[OF _ assms, where P = "\<lambda>H hashes r. hashes \<noteq> []"])
  fix rec :: "(bytes \<Rightarrow> bytes) \<Rightarrow> bytes list \<Rightarrow> bytes option" and H hashes r
  assume IH: "\<And>H hashes r. rec H hashes = Some r \<Longrightarrow> hashes \<noteq> []"
    and step: "(if length hashes = 1 then Some (hd hashes) else rec H (merkle_row H hashes)) = Some r"
  show "hashes \<noteq> []"
  proof
    assume "hashes = []"
    then show False using IH[of H "[]" r] step by simp
  qed
qed

text \<open>
  C37: The merkle root of a block is computed exactly when the block has a transaction: for none the
  recursion never ends.
\<close>

theorem merkle_root_returns_unless_empty:
  "(\<exists>r. merkle_root H hashes = Some r) \<longleftrightarrow> hashes \<noteq> []"
proof
  assume "hashes \<noteq> []"
  then show "\<exists>r. merkle_root H hashes = Some r"
  proof (induction "length hashes" arbitrary: hashes rule: less_induct)
    case less
    show ?case
    proof (cases "length hashes = 1")
      case True
      then show ?thesis by (auto simp: length_Suc_conv merkle_root_single)
    next
      case False
      then have "2 \<le> length hashes" using less.prems by (cases hashes rule: remdups_adj.cases) auto
      then have "length (merkle_row H hashes) < length hashes" "merkle_row H hashes \<noteq> []"
        by (auto simp: length_merkle_row simp flip: length_greater_0_conv)
      then show ?thesis using less.hyps by (simp add: merkle_root_up[OF False])
    qed
  qed
qed (auto dest: merkle_root_not_empty)

text \<open>The loop of the verification, without the packed array.\<close>

fun climb :: "(bytes \<Rightarrow> bytes) \<Rightarrow> bytes list \<Rightarrow> nat \<Rightarrow> bytes \<Rightarrow> bytes" where
  "climb H [] i current = current"
| "climb H (n # nodes) i current =
    climb H nodes (i div 2) (if odd i then merkle_node_hash H n current else merkle_node_hash H current n)"

lemma climb_branch:
  "i < length hashes \<Longrightarrow> merkle_root H hashes = Some (climb H (merkle_branch_nodes H hashes i) i (hashes ! i))"
proof (induction "length hashes" arbitrary: hashes i rule: less_induct)
  case less
  show ?case
  proof (cases "length hashes = 1")
    case True
    then show ?thesis using less.prems
      by (auto simp: length_Suc_conv merkle_root_single merkle_branch_nodes_leaf)
  next
    case False
    then have long: "2 \<le> length hashes" using less.prems by linarith
    then have "length (merkle_row H hashes) < length hashes" "i div 2 < length (merkle_row H hashes)"
      using less.prems by (auto simp: length_merkle_row)
    then have "merkle_root H (merkle_row H hashes)
        = Some (climb H (merkle_branch_nodes H (merkle_row H hashes) (i div 2)) (i div 2) (merkle_row H hashes ! (i div 2)))"
      by (rule less.hyps)
    then show ?thesis unfolding merkle_root_up[OF False] merkle_row_nth[OF less.prems]
      by (cases "odd i") (simp_all add: merkle_branch_nodes_up[OF long])
  qed
qed

abbreviation hashes_ok :: "bytes list \<Rightarrow> bool" where "hashes_ok hashes \<equiv> list_all hash_ok hashes"

lemma length_concat_hashes: "hashes_ok nodes \<Longrightarrow> length (concat nodes) = 32 * length nodes"
  by (induction nodes) auto

lemma merkle_array_index_concat:
  "hashes_ok nodes \<Longrightarrow> i < length nodes \<Longrightarrow> merkle_array_index (concat nodes) i = Ok (nodes ! i)"
proof (induction nodes arbitrary: i)
  case (Cons n nodes)
  show ?case
  proof (cases i)
    case 0
    then show ?thesis using Cons.prems by (simp add: merkle_array_index_def)
  next
    case (Suc j)
    have "drop (Suc j * 32) (n @ concat nodes) = drop (j * 32) (concat nodes)" using Cons.prems by simp
    moreover have "(length (n @ concat nodes) < (Suc j + 1) * 32) = (length (concat nodes) < (j + 1) * 32)"
      using Cons.prems by auto
    ultimately show ?thesis using Cons.IH[of j] Cons.prems Suc
      by (simp only: merkle_array_index_def Let_def concat.simps nth_Cons_Suc) simp
  qed
qed simp

lemma odd_idx: "(idx mod 2 = 1) = odd (unat (idx :: u64))"
  by (simp add: word_unat_eq_iff unat_mod odd_iff_mod_2_eq_one)

lemma half_idx: "unat (drop_bit (Suc 0) (idx :: u64)) = unat idx div 2"
proof -
  have "unat idx < 2 ^ 64" using unsigned_less[of idx] by simp
  then have "unat (drop_bit (Suc 0) idx) = drop_bit (Suc 0) (unat idx)"
    by (simp only: unsigned_drop_bit_eq) (simp add: take_bit_nat_eq_self)
  then show ?thesis by (simp only:) (simp add: drop_bit_Suc)
qed

lemma verify_merkle_loop_climb:
  assumes "hashes_ok nodes"
  shows "k \<le> length nodes \<Longrightarrow> verify_merkle_loop sha256 (concat nodes) [k..<length nodes] idx current
    = Ok (climb (dhash256 sha256) (drop k nodes) (unat idx) current)"
proof (induction "length nodes - k" arbitrary: k idx current)
  case (Suc d)
  then have k: "k < length nodes" by simp
  show ?case
    using Suc.hyps(1)[of "Suc k"] Suc.hyps(2) k
    by (simp add: upt_conv_Cons[OF k] Cons_nth_drop_Suc[OF k, symmetric] merkle_array_index_concat[OF assms k]
        odd_idx half_idx hash256_merkle_step_def hash256_def merkle_node_hash_def dhash256_def)
qed simp

text \<open>What the check accepts, apart from proofs of one node, which it does not look at.\<close>

lemma merkle_prove_iff:
  assumes "hashes_ok nodes" "length nodes \<noteq> 1"
  shows "merkle_prove sha256 txid root_hash nodes index = Ok () \<longleftrightarrow> climb (dhash256 sha256) nodes (unat index) txid = root_hash"
  using assms verify_merkle_loop_climb[OF assms(1), of 0 sha256 index txid]
  by (auto simp: merkle_prove_def merkle_array_new_def verify_hash256_merkle_def merkle_array_len_def length_concat_hashes)

theorem one_node_proofs_are_not_checked:
  "hash_ok node \<Longrightarrow> merkle_prove sha256 txid root_hash [node] index = Ok ()"
  by (simp add: merkle_prove_def merkle_array_new_def verify_hash256_merkle_def merkle_array_len_def)

lemma hashes_ok_row: "(\<And>x. hash_ok (H x)) \<Longrightarrow> hashes_ok (merkle_row H hashes)"
  by (induction H hashes rule: merkle_row.induct) (auto simp: merkle_node_hash_def)

lemma hashes_ok_branch:
  assumes H: "\<And>x. hash_ok (H x)"
  shows "hashes_ok hashes \<Longrightarrow> i < length hashes \<Longrightarrow> hashes_ok (merkle_branch_nodes H hashes i)"
proof (induction "length hashes" arbitrary: hashes i rule: less_induct)
  case less
  show ?case
  proof (cases "length hashes \<le> 1")
    case False
    then have long: "2 \<le> length hashes" by simp
    have "hashes_ok (merkle_branch_nodes H (merkle_row H hashes) (i div 2))"
      using less.prems(2) long hashes_ok_row[OF H] by (intro less.hyps) (auto simp: length_merkle_row)
    moreover have "hash_ok (hashes ! (i - 1))" "hash_ok (hashes ! i)" "i + 1 < length hashes \<Longrightarrow> hash_ok (hashes ! (i + 1))"
      using less.prems by (auto simp: list_all_length)
    ultimately show ?thesis by (simp add: merkle_branch_nodes_up[OF long])
  qed (simp add: merkle_branch_nodes_leaf)
qed

lemma leaf_proof_accepted:
  assumes sha256: "\<And>x. length (sha256 x) = 32"
    and leaves: "\<forall>h \<in> set hashes. length h = 32" "i < length hashes" "length hashes < 2 ^ 64"
    and root_hash: "merkle_root (dhash256 sha256) hashes = Some root_hash"
  shows "merkle_prove sha256 (hashes ! i) root_hash (merkle_branch_nodes (dhash256 sha256) hashes i) (of_nat i) = Ok ()"
proof (cases "length (merkle_branch_nodes (dhash256 sha256) hashes i) = 1")
  case True
  have ok: "hashes_ok (merkle_branch_nodes (dhash256 sha256) hashes i)"
    using leaves sha256 by (intro hashes_ok_branch) (auto simp: dhash256_def list_all_iff)
  from True obtain n where "merkle_branch_nodes (dhash256 sha256) hashes i = [n]" by (auto simp: length_Suc_conv)
  then show ?thesis using ok
    by (simp add: merkle_prove_def merkle_array_new_def verify_hash256_merkle_def merkle_array_len_def)
next
  case False
  have "hashes_ok (merkle_branch_nodes (dhash256 sha256) hashes i)"
    using leaves sha256 by (intro hashes_ok_branch) (auto simp: dhash256_def list_all_iff)
  moreover have "unat (of_nat i :: u64) = i" using leaves by (simp add: unsigned_of_nat take_bit_nat_eq_self)
  ultimately show ?thesis using root_hash climb_branch[OF leaves(2), of "dhash256 sha256"] False
    by (simp add: merkle_prove_iff)
qed

text \<open>
  For every transaction of a block, the hashes beside its way up the tree of the block are a proof that
  \<open>merkle_prove\<close> accepts against the merkle root of the block.
\<close>

theorem merkle_proof_of_every_leaf_accepted:
  assumes "\<And>x. length (sha256 x) = 32" "\<forall>h \<in> set hashes. length h = 32" "i < length hashes" "length hashes < 2 ^ 64"
    and "merkle_root (dhash256 sha256) hashes = Some root_hash"
  shows "merkle_prove sha256 (hashes ! i) root_hash (merkle_branch_nodes (dhash256 sha256) hashes i) (of_nat i) = Ok ()"
  using assms by (rule leaf_proof_accepted)

section \<open>Merkle proofs are sound\<close>

text \<open>What is hashed while the tree of a block is built, and while a proof is checked.\<close>

fun row_preimages :: "bytes list \<Rightarrow> bytes list" where
  "row_preimages (a # b # hashes) = (a @ b) # row_preimages hashes"
| "row_preimages [a] = [a @ a]"
| "row_preimages [] = []"

lemma merkle_row_preimages: "merkle_row H hashes = map H (row_preimages hashes)"
  by (induction H hashes rule: merkle_row.induct) (auto simp: merkle_node_hash_def)

lemma length_row_preimages: "length (row_preimages hashes) = (length hashes + 1) div 2"
  by (induction hashes rule: row_preimages.induct) auto

function tree_preimages :: "(bytes \<Rightarrow> bytes) \<Rightarrow> bytes list \<Rightarrow> bytes list" where
  "tree_preimages H hashes =
    (if length hashes \<le> 1 then [] else row_preimages hashes @ tree_preimages H (merkle_row H hashes))"
  by pat_completeness auto

termination by (relation "measure (\<lambda>(H, hashes). length hashes)") (auto simp: length_merkle_row)

declare tree_preimages.simps [simp del]

fun proof_preimages :: "(bytes \<Rightarrow> bytes) \<Rightarrow> bytes list \<Rightarrow> nat \<Rightarrow> bytes \<Rightarrow> bytes list" where
  "proof_preimages H [] i current = []"
| "proof_preimages H (n # nodes) i current = (let pre = (if odd i then n @ current else current @ n)
     in pre # proof_preimages H nodes (i div 2) (H pre))"

definition no_collision :: "(bytes \<Rightarrow> bytes) \<Rightarrow> bytes list \<Rightarrow> bytes list \<Rightarrow> bool" where
  "no_collision H xs ys = list_all (\<lambda>x. list_all (\<lambda>y. H x = H y \<longrightarrow> x = y) ys) xs"

lemma row_preimages_nth:
  "i < length hashes \<Longrightarrow> row_preimages hashes ! (i div 2) =
    (if odd i then hashes ! (i - 1) @ hashes ! i
     else hashes ! i @ (if i + 1 < length hashes then hashes ! (i + 1) else hashes ! i))"
proof (induction hashes arbitrary: i rule: row_preimages.induct)
  case (1 a b hashes)
  show ?case
  proof (cases "i < 2")
    case True
    then have "i = 0 \<or> i = 1" by auto
    then show ?thesis by auto
  next
    case False
    then obtain j where i: "i = Suc (Suc j)" by (metis add_2_eq_Suc le_Suc_ex not_less)
    show ?thesis using 1(1)[of j] 1(2) by (auto simp: i nth_Cons' elim!: oddE)
  qed
qed auto

lemma climb_sound:
  assumes H: "\<And>x. hash_ok (H x)"
  shows "\<lbrakk>hashes_ok hashes; hashes_ok nodes; hash_ok current; i < length hashes;
     length nodes = length (merkle_branch_nodes H hashes i); merkle_root H hashes = Some (climb H nodes i current);
     no_collision H (proof_preimages H nodes i current) (tree_preimages H hashes)\<rbrakk> \<Longrightarrow> current = hashes ! i"
proof (induction "length hashes" arbitrary: hashes nodes i current rule: less_induct)
  case less
  show ?case
  proof (cases "length hashes = 1")
    case True
    then show ?thesis using less.prems by (auto simp: length_Suc_conv merkle_root_single merkle_branch_nodes_leaf)
  next
    case False
    then have long: "2 \<le> length hashes" using less.prems(4) by linarith
    then obtain n nodes' where nodes: "nodes = n # nodes'"
      using less.prems(5) by (cases nodes) (auto simp: merkle_branch_nodes_up[OF long])
    define pre where "pre = (if odd i then n @ current else current @ n)"
    have "H pre = merkle_row H hashes ! (i div 2)"
    proof (rule less.hyps)
      show "length (merkle_row H hashes) < length hashes" "i div 2 < length (merkle_row H hashes)"
        using long less.prems(4) by (auto simp: length_merkle_row)
      show "hashes_ok (merkle_row H hashes)" "hashes_ok nodes'" "hash_ok (H pre)"
        using hashes_ok_row[OF H] less.prems(2) H by (auto simp: nodes)
      show "length nodes' = length (merkle_branch_nodes H (merkle_row H hashes) (i div 2))"
        using less.prems(5) by (simp add: nodes merkle_branch_nodes_up[OF long])
      show "merkle_root H (merkle_row H hashes) = Some (climb H nodes' (i div 2) (H pre))"
        using less.prems(6) by (simp add: nodes merkle_root_up[OF False] merkle_node_hash_def pre_def split: if_splits)
      show "no_collision H (proof_preimages H nodes' (i div 2) (H pre)) (tree_preimages H (merkle_row H hashes))"
        using less.prems(7) long tree_preimages.simps[of H hashes]
        by (auto simp: no_collision_def nodes pre_def list_all_iff Let_def split: if_splits)
    qed
    moreover have at: "i div 2 < length (row_preimages hashes)" using less.prems(4) by (simp add: length_row_preimages)
    ultimately have "H pre = H (row_preimages hashes ! (i div 2))" by (simp add: merkle_row_preimages)
    moreover have "row_preimages hashes ! (i div 2) \<in> set (tree_preimages H hashes)"
      using at long tree_preimages.simps[of H hashes] by simp
    moreover have "pre \<in> set (proof_preimages H nodes i current)" by (simp add: nodes pre_def Let_def)
    ultimately have "pre = row_preimages hashes ! (i div 2)"
      using less.prems(7) by (simp add: no_collision_def list_all_iff)
    moreover have "hash_ok n" "hash_ok (hashes ! (i - 1))" "hash_ok (hashes ! i)"
      using less.prems(1,2,4) by (auto simp: nodes list_all_length)
    ultimately show ?thesis using less.prems(3,4) row_preimages_nth[OF less.prems(4)]
      by (auto simp: pre_def split: if_splits)
  qed
qed


section \<open>Inputs and outputs\<close>

text \<open>A length the validation computes without reading the item: it is the one that was written.\<close>

locale sized_item =
  fixes ser :: "'a \<Rightarrow> bytes" and item_length :: "bytes \<Rightarrow> (spv_error, u64) rust_result" and ok :: "'a \<Rightarrow> bool"
  assumes item_length: "ok x \<Longrightarrow> item_length (ser x @ rest) = Ok (of_nat (length (ser x)))"
    and not_empty: "ser x \<noteq> []"
begin

lemma walk_written:
  "list_all ok xs \<Longrightarrow> length (pre @ concat (map ser xs)) < 2 ^ 64 \<Longrightarrow>
   walk_items item_length (pre @ concat (map ser xs)) (length xs) (of_nat (length pre))
     = Some (of_nat (length (pre @ concat (map ser xs))))"
proof (induction xs arbitrary: pre)
  case (Cons x xs)
  have "unat (of_nat (length pre) :: u64) = length pre"
    using Cons.prems(2) by (simp add: unsigned_of_nat take_bit_nat_eq_self)
  moreover have "walk_items item_length ((pre @ ser x) @ concat (map ser xs)) (length xs) (of_nat (length (pre @ ser x)))
      = Some (of_nat (length ((pre @ ser x) @ concat (map ser xs))))"
    using Cons.prems by (intro Cons.IH) auto
  ultimately show ?case using Cons.prems(1) not_empty[of x] item_length[of x] by (simp add: add.assoc)
qed simp

lemma written_list_valid:
  assumes "list_all ok xs" "xs \<noteq> []" "length (append_list ser xs) < 2 ^ 64"
  shows "validate_items item_length (append_list ser xs)"
proof -
  have each: "length xs \<le> length (concat (map ser xs))" for xs :: "'a list"
  proof (induction xs)
    case (Cons x xs)
    then show ?case using not_empty[of x] by (cases "ser x") auto
  qed simp
  have "length xs < 2 ^ 64" using assms(3) each[of xs] by (simp add: append_list_def)
  then have n: "unat (of_nat (length xs) :: u64) = length xs" by (simp add: unsigned_of_nat take_bit_nat_eq_self)
  then have "(of_nat (length xs) :: u64) \<noteq> 0" using assms(2) by (auto simp: word_unat_eq_iff)
  moreover have "unat (of_nat (length (append_list ser xs)) :: u64) = length (append_list ser xs)"
    using assms(3) by (simp add: unsigned_of_nat take_bit_nat_eq_self)
  ultimately show ?thesis
    using walk_written[OF assms(1), of "ser_compact (of_nat (length xs))"] assms(3) n
    by (simp add: validate_items_def append_list_def length_ser_compact del: of_nat_add)
qed

end

lemma length_le_bytes_ser: "length (ser_u32 w) = 4" "length (ser_u64 d) = 8"
  by (simp_all add: ser_u32_def ser_u64_def)

lemma length_ser_bytes: "length (ser_bytes b) = compact_serialized_length (of_nat (length b)) + length b"
  by (simp add: ser_bytes_def length_ser_compact)

lemma length_ser_out_point: "out_point_ok o1 \<Longrightarrow> length (ser_out_point o1) = 36"
  by (simp add: out_point_ok_def ser_out_point_def ser_hash_def length_le_bytes_ser)

lemma compact_length_pos: "0 < compact_serialized_length n"
  by (simp add: compact_serialized_length_def)

lemma input_length_written:
  assumes "tx_input_ok i"
  shows "determine_input_length (ser_tx_input i @ rest) = Ok (of_nat (length (ser_tx_input i)))"
proof -
  have "length (ser_out_point (txi_previous_output i)) = 36"
    using assms by (simp add: tx_input_ok_def length_ser_out_point)
  then show ?thesis using compact_length_pos[of "of_nat (length (txi_script_sig i))"]
    by (simp add: determine_input_length_def ser_tx_input_def ser_bytes_def length_le_bytes_ser length_ser_compact)
qed

lemma output_length_written:
  "determine_output_length (ser_tx_output o1 @ rest) = Ok (of_nat (length (ser_tx_output o1)))"
  using compact_length_pos[of "of_nat (length (txo_script_pubkey o1))"]
  by (simp add: determine_output_length_def ser_tx_output_def ser_bytes_def length_le_bytes_ser length_ser_compact)

lemma items_not_empty: "ser_tx_input i \<noteq> []" "ser_tx_output o1 \<noteq> []"
  by (simp_all add: ser_tx_input_def ser_tx_output_def length_le_bytes_ser flip: length_greater_0_conv)

interpretation sized_input: sized_item ser_tx_input determine_input_length tx_input_ok
  by unfold_locales (simp_all only: input_length_written items_not_empty not_False_eq_True)

interpretation sized_output: sized_item ser_tx_output determine_output_length "\<lambda>_. True"
  by unfold_locales (simp_all only: output_length_written items_not_empty not_False_eq_True)


end
