(* ===== verification/Spv_Headers.thy ===== *)
theory Spv_Headers
  imports Spv_Validation
begin

text \<open>
  What the validation of headers guarantees: what is lost when a target is packed into the bits of a header,
  that the difficulty never falls below the one of the first block, and what the headers of an accepted chain
  have in common.
\<close>

section \<open>Packing a target\<close>

lemma bit_length_0 [simp]: "bit_length 0 = 0"
  by (subst bit_length.simps) simp

lemma bit_length_bounds: "n < 2 ^ bit_length n \<and> (0 < n \<longrightarrow> 2 ^ (bit_length n - 1) \<le> n)"
proof (induction n rule: bit_length.induct)
  case (1 n)
  show ?case
  proof (cases "n = 0")
    case False
    note IH = 1[OF False]
    show ?thesis
    proof (cases "n div 2 = 0")
      case True
      then have "n = 1" using False by linarith
      moreover have "bit_length 1 = 1" by (subst bit_length.simps) (simp add: bit_length_0)
      ultimately show ?thesis by simp
    next
      case half: False
      then have "bit_length (n div 2) \<noteq> 0" by (subst bit_length.simps) simp
      then obtain k where k: "bit_length (n div 2) = Suc k" by (cases "bit_length (n div 2)") auto
      then have "bit_length n = Suc (Suc k)" using False by (subst bit_length.simps) simp
      moreover have "n div 2 < 2 ^ Suc k" "2 ^ k \<le> n div 2" using IH half k by auto
      then have "n < 4 * 2 ^ k \<and> 2 * 2 ^ k \<le> n" by (simp only: power_Suc) linarith
      ultimately show ?thesis by simp
    qed
  qed (simp add: bit_length_0)
qed

text \<open>The size in bytes and the mantissa the packing starts with.\<close>

definition byte_size :: "nat \<Rightarrow> nat" where "byte_size v = (bit_length v + 7) div 8"

definition mantissa :: "nat \<Rightarrow> nat" where
  "mantissa v = (if byte_size v \<le> 3 then v * 2 ^ (8 * (3 - byte_size v)) else v div 2 ^ (8 * (byte_size v - 3)))"

lemma byte_size_bounds:
  shows "v < 2 ^ (8 * byte_size v)" and "0 < v \<Longrightarrow> 2 ^ (8 * (byte_size v - 1)) \<le> v"
    and "v < 2 ^ 256 \<Longrightarrow> byte_size v \<le> 32"
proof -
  have "bit_length v \<le> 8 * byte_size v" by (simp add: byte_size_def)
  then have "(2::nat) ^ bit_length v \<le> 2 ^ (8 * byte_size v)" by (intro power_increasing) auto
  then show "v < 2 ^ (8 * byte_size v)" using bit_length_bounds[of v] by linarith
  assume "0 < v"
  then have low: "2 ^ (bit_length v - 1) \<le> v" using bit_length_bounds[of v] by simp
  have "8 * (byte_size v - 1) \<le> bit_length v - 1" by (simp add: byte_size_def)
  then have "(2::nat) ^ (8 * (byte_size v - 1)) \<le> 2 ^ (bit_length v - 1)" by (intro power_increasing) auto
  then show "2 ^ (8 * (byte_size v - 1)) \<le> v" using low by linarith
next
  assume "v < 2 ^ 256"
  show "byte_size v \<le> 32"
  proof (cases "v = 0")
    case False
    then have "(2::nat) ^ (bit_length v - 1) < 2 ^ 256" using bit_length_bounds[of v] \<open>v < 2 ^ 256\<close> by linarith
    then have "bit_length v - 1 < 256" by (rule power_less_imp_less_exp[rotated]) simp
    then show ?thesis by (simp add: byte_size_def)
  qed (simp add: byte_size_def bit_length_0)
qed

lemma mantissa_less: "mantissa v < 2 ^ 24"
proof (cases "byte_size v \<le> 3")
  case True
  have "v * 2 ^ (8 * (3 - byte_size v)) < 2 ^ (8 * byte_size v) * 2 ^ (8 * (3 - byte_size v))"
    using byte_size_bounds(1)[of v] by simp
  also have "\<dots> = 2 ^ (8 * byte_size v + 8 * (3 - byte_size v))" by (simp only: power_add)
  also have "8 * byte_size v + 8 * (3 - byte_size v) = 24" using True by simp
  finally show ?thesis using True by (simp add: mantissa_def)
next
  case False
  have "8 * byte_size v = 8 * (byte_size v - 3) + 24" using False by simp
  then have "v < 2 ^ (8 * (byte_size v - 3)) * 2 ^ 24"
    using byte_size_bounds(1)[of v] by (simp only: power_add)
  then show ?thesis using False by (simp add: mantissa_def less_mult_imp_div_less mult.commute)
qed

lemma mantissa_large: "3 < byte_size v \<Longrightarrow> 2 ^ 16 \<le> mantissa v"
proof -
  assume size: "3 < byte_size v"
  then have "0 < v" by (cases "v = 0") (simp_all add: byte_size_def bit_length_0)
  then have "2 ^ (8 * (byte_size v - 1)) \<le> v" by (rule byte_size_bounds(2))
  moreover have "8 * (byte_size v - 1) = 16 + 8 * (byte_size v - 3)" using size by simp
  ultimately have "2 ^ 16 * 2 ^ (8 * (byte_size v - 3)) \<le> v" by (simp only: power_add)
  moreover have "0 < (2::nat) ^ (8 * (byte_size v - 3))" by simp
  ultimately have "2 ^ 16 \<le> v div 2 ^ (8 * (byte_size v - 3))" by (simp only: less_eq_div_iff_mult_less_eq)
  then show ?thesis using size by (simp add: mantissa_def)
qed

text \<open>What is unpacked again: the mantissa, shifted by a byte if its highest bit is set.\<close>

definition unpacked :: "nat \<Rightarrow> nat" where
  "unpacked v =
    (let shift = (2 ^ 23 \<le> mantissa v); m = (if shift then mantissa v div 256 else mantissa v);
         s = (if shift then byte_size v + 1 else byte_size v)
     in if s \<le> 3 then m div 2 ^ (8 * (3 - s)) else m * 2 ^ (8 * (s - 3)))"

lemma div_mult_close: "(v div p * p \<le> v) \<and> v - v div p * p < p" if "0 < p" for v p :: nat
  using that by (simp add: minus_div_mult_eq_mod)

lemma unpacked_close: "unpacked v \<le> v \<and> (v - unpacked v) * 2 ^ 15 \<le> v"
proof -
  have close: "w \<le> v \<and> (v - w) * 2 ^ 15 \<le> v" if "w = v div p * p" "2 ^ 15 * p \<le> v" "0 < p" for w p
    using div_mult_close[OF that(3), of v] that by (auto simp: mult.commute intro: order_trans[OF mult_le_mono2[OF less_imp_le]])
  consider "byte_size v < 3" | "byte_size v = 3" "mantissa v < 2 ^ 23" | "byte_size v = 3" "2 ^ 23 \<le> mantissa v"
    | "3 < byte_size v" "mantissa v < 2 ^ 23" | "3 < byte_size v" "2 ^ 23 \<le> mantissa v" by linarith
  then show ?thesis
  proof cases
    case 1
    then have "unpacked v = v"
    proof -
      have "byte_size v \<in> {0, 1, 2}" using 1 by auto
      moreover have "v < 2 ^ (8 * byte_size v)" by (rule byte_size_bounds(1))
      ultimately show ?thesis by (auto simp: unpacked_def mantissa_def Let_def)
    qed
    then show ?thesis by simp
  next
    case 2
    then show ?thesis by (simp add: unpacked_def mantissa_def)
  next
    case 3
    then have "unpacked v = v div 256 * 256" "2 ^ 15 * 256 \<le> v" by (simp_all add: unpacked_def mantissa_def)
    then show ?thesis by (intro close) auto
  next
    case 4
    define p where "p = (2::nat) ^ (8 * (byte_size v - 3))"
    have "2 ^ 16 \<le> v div p" using mantissa_large[OF 4(1)] 4 by (simp add: mantissa_def p_def)
    then have "2 ^ 15 * p \<le> v" by (simp add: less_eq_div_iff_mult_less_eq p_def)
    moreover have "unpacked v = v div p * p" using 4 by (simp add: unpacked_def mantissa_def p_def)
    ultimately show ?thesis by (intro close) (auto simp: p_def)
  next
    case 5
    define p where "p = (2::nat) ^ (8 * (byte_size v - 3)) * 256"
    have size: "8 * (byte_size v + 1 - 3) = 8 * (byte_size v - 3) + 8" using 5(1) by simp
    have "2 ^ 15 \<le> mantissa v div 256" using 5(2) by (simp add: less_eq_div_iff_mult_less_eq)
    then have "2 ^ 15 \<le> v div p" using 5 by (simp add: mantissa_def p_def div_mult2_eq)
    then have "2 ^ 15 * p \<le> v" by (simp add: less_eq_div_iff_mult_less_eq p_def)
    moreover have "unpacked v = v div p * p" using 5 size by (simp add: unpacked_def mantissa_def p_def div_mult2_eq power_add)
    ultimately show ?thesis by (intro close) (auto simp: p_def)
  qed
qed

text \<open>The same on words.\<close>

lemma word_and_bit: "(and n (2 ^ k) \<noteq> 0) = bit n k" for n :: "'a::len word"
  by (simp add: and_exp_eq_0_iff_not_bit)

lemma high_bit_iff:
  fixes c :: u32
  assumes "unat c < 2 ^ 24"
  shows "bit c 23 = (2 ^ 23 \<le> unat c)"
proof -
  have "bit c 23 = bit (unat c) 23" by (simp add: bit_unsigned_iff)
  also have "\<dots> = odd (unat c div 2 ^ 23)" by (simp only: bit_iff_odd)
  finally have "bit c 23 = odd (unat c div 2 ^ 23)" .
  moreover have "unat c div 2 ^ 23 < 2" using assms by (simp add: less_mult_imp_div_less)
  moreover have "(unat c div 2 ^ 23 = 0) = (unat c < 2 ^ 23)" by (simp add: div_eq_0_iff)
  ultimately show ?thesis by (cases "unat c div 2 ^ 23") auto
qed

lemma take_bit_fits: "unat c < 2 ^ n \<Longrightarrow> take_bit n c = c" for c :: "'a::len word"
  by (simp add: word_unat_eq_iff unsigned_take_bit_eq take_bit_nat_eq_self)

text \<open>A mantissa of 23 bits and a size of one byte, put together and taken apart.\<close>

lemma packed_parts:
  fixes m :: u32 and s :: nat
  assumes "unat m < 2 ^ 23" "s < 256"
  defines "n \<equiv> or m (push_bit 24 (of_nat s))"
  shows "unat (drop_bit 24 n) = s" "and n 0x007fffff = m" "and n 0x00800000 = 0" "and m (not 0x007fffff) = 0"
proof -
  have m_bits: "\<not> bit m k" if "23 \<le> k" for k
    using take_bit_fits[OF assms(1)] that by (metis bit_take_bit_iff not_less)
  have masks: "(0x007fffff :: u32) = mask 23" "(0x00800000 :: u32) = 2 ^ 23" by (simp_all add: mask_eq_exp_minus_1)
  have "drop_bit 24 n = drop_bit 24 (push_bit 24 (of_nat s))"
    by (rule bit_word_eqI) (auto simp: n_def bit_simps m_bits)
  also have "\<dots> = of_nat s"
  proof (rule bit_word_eqI)
    fix k
    have "\<not> bit (of_nat s :: u32) j" if "8 \<le> j" for j
    proof -
      have "take_bit 8 (of_nat s :: u32) = of_nat s"
        using assms(2) by (intro take_bit_fits) (simp add: unsigned_of_nat take_bit_nat_eq_self)
      then show ?thesis using that by (metis bit_take_bit_iff not_less)
    qed
    then show "bit (drop_bit 24 (push_bit 24 (of_nat s :: u32))) k = bit (of_nat s :: u32) k"
      by (cases "k < 8") (auto simp: bit_simps)
  qed
  finally show "unat (drop_bit 24 n) = s" using assms(2) by (simp add: unsigned_of_nat take_bit_nat_eq_self)
  show "and n 0x007fffff = m" unfolding masks
    by (rule bit_word_eqI) (auto simp: n_def bit_simps, meson m_bits not_less)
  have "\<not> bit n 23" by (simp add: n_def bit_simps m_bits)
  then show "and n 0x00800000 = 0" unfolding masks by (simp only: and_exp_eq_0_iff_not_bit not_False_eq_True)
  show "and m (not 0x007fffff) = 0" unfolding masks
    by (rule bit_word_eqI) (auto simp: bit_simps, meson m_bits not_less)
qed

lemma drop_bit_unat: "unat (drop_bit k w) = unat w div 2 ^ k" for w :: "'a::len word"
  unfolding unat_drop_bit_eq by (rule drop_bit_eq_div)

lemma push_bit_unat: "unat w * 2 ^ k < 2 ^ LENGTH('a) \<Longrightarrow> unat (push_bit k w) = unat w * 2 ^ k" for w :: "'a::len word"
  unfolding unsigned_push_bit_eq by (simp add: push_bit_eq_mult take_bit_nat_eq_self)

lemma ucast_u256: "unat (ucast w :: u256) = unat w" for w :: u32
proof -
  have "unat w < 2 ^ LENGTH(32)" by (rule unsigned_less)
  then show ?thesis by (intro ucast_fits) simp
qed

lemma mantissa_word:
  fixes val :: u256
  shows "unat (if byte_size (unat val) \<le> 3 then ucast (push_bit (8 * (3 - byte_size (unat val))) (ucast val :: u64))
    else ucast (drop_bit (8 * (byte_size (unat val) - 3)) val) :: u32) = mantissa (unat val)"
proof (cases "byte_size (unat val) \<le> 3")
  case True
  let ?k = "8 * (3 - byte_size (unat val))"
  have m: "unat val * 2 ^ ?k < 2 ^ 24" using mantissa_less[of "unat val"] True by (simp add: mantissa_def)
  have "unat val \<le> unat val * 2 ^ ?k" by simp
  then have "unat val < 2 ^ 24" using m by linarith
  then have "unat (ucast val :: u64) = unat val" by (intro ucast_fits) simp
  then have "unat (push_bit ?k (ucast val :: u64)) = unat val * 2 ^ ?k"
    using m push_bit_unat[of "ucast val :: u64" ?k] by simp
  moreover from this have "unat (ucast (push_bit ?k (ucast val :: u64)) :: u32) = unat (push_bit ?k (ucast val :: u64))"
    using m by (intro ucast_fits) simp
  ultimately show ?thesis using True by (simp add: mantissa_def)
next
  case False
  let ?k = "8 * (byte_size (unat val) - 3)"
  have "unat (drop_bit ?k val) = unat val div 2 ^ ?k" by (rule drop_bit_unat)
  moreover have "unat val div 2 ^ ?k < 2 ^ 24" using mantissa_less[of "unat val"] False by (simp add: mantissa_def)
  moreover from calculation have "unat (ucast (drop_bit ?k val) :: u32) = unat (drop_bit ?k val)"
    by (intro ucast_fits) simp
  ultimately show ?thesis using False by (simp add: mantissa_def)
qed

lemma compact_from_u256_unpacked:
  obtains c w where "compact_from_u256 val = Ok c" "compact_to_u256 c = Inr w" "unat w = unpacked (unat val)"
proof -
  define s where "s = byte_size (unat val)"
  define c where "c = (if s \<le> 3 then ucast (push_bit (8 * (3 - s)) (ucast val :: u64)) else ucast (drop_bit (8 * (s - 3)) val) :: u32)"
  define shift where "shift = (and c 0x00800000 \<noteq> 0)"
  define m where "m = (if shift then drop_bit 8 c else c)"
  define s' where "s' = (if shift then s + 1 else s)"
  define n where "n = or m (push_bit 24 (of_nat s'))"
  have c: "unat c = mantissa (unat val)" unfolding c_def s_def by (rule mantissa_word)
  have "unat val < 2 ^ 256" using unsigned_less[of val] by simp
  then have s: "s \<le> 32" unfolding s_def by (rule byte_size_bounds(3))
  have "shift = bit c 23" unfolding shift_def using word_and_bit[of c 23] by simp
  then have shift: "shift = (2 ^ 23 \<le> mantissa (unat val))"
    using high_bit_iff[of c] c mantissa_less[of "unat val"] by simp
  have m: "unat m = (if shift then mantissa (unat val) div 256 else mantissa (unat val))"
    using drop_bit_unat[of 8 c] by (simp add: m_def c)
  then have m_less: "unat m < 2 ^ 23" using mantissa_less[of "unat val"] by (auto simp: shift less_mult_imp_div_less)
  have s': "s' < 256" using s by (simp add: s'_def)
  note parts = packed_parts[OF m_less s', folded n_def]
  have "compact_from_u256 val = Ok (Compact n)"
    unfolding compact_from_u256_def Let_def byte_size_def[symmetric] s_def[symmetric] c_def[symmetric]
      shift_def[symmetric] m_def[symmetric] s'_def[symmetric] n_def[symmetric]
    using parts(4) s' by simp
  moreover
  define word where "word = (if s' \<le> 3 then drop_bit (8 * (3 - s')) m else m)"
  define w :: u256 where "w = (if s' \<le> 3 then ucast word else push_bit (8 * (s' - 3)) (ucast word))"
  have small: "\<not> (0xffff < word \<and> 32 < s')"
  proof
    assume "0xffff < word \<and> 32 < s'"
    then have "s' = 33" "shift" "word = m" using s by (auto simp: s'_def word_def split: if_splits)
    moreover have "mantissa (unat val) div 256 < 2 ^ 16" using mantissa_less[of "unat val"] by (simp add: less_mult_imp_div_less)
    ultimately show False using \<open>0xffff < word \<and> 32 < s'\<close> m by (simp add: word_less_nat_alt)
  qed
  have "compact_to_u256 (Compact n) = Inr w"
    unfolding compact_to_u256_def Let_def compact_u32.simps parts(1-3) word_def[symmetric] w_def[symmetric]
    using small s by (auto simp: s'_def split: if_splits)
  moreover
  have u: "unpacked (unat val) = (if s' \<le> 3 then unat m div 2 ^ (8 * (3 - s')) else unat m * 2 ^ (8 * (s' - 3)))"
    unfolding unpacked_def Let_def m s'_def shift s_def by simp
  have "unat w = unpacked (unat val)"
  proof (cases "s' \<le> 3")
    case True
    have "unat (ucast word :: u256) = unat word" by (rule ucast_u256)
    then show ?thesis using True u drop_bit_unat[of "8 * (3 - s')" m] by (simp add: w_def word_def)
  next
    case False
    have "unpacked (unat val) \<le> unat val" using unpacked_close by blast
    then have fits: "unat m * 2 ^ (8 * (s' - 3)) < 2 ^ 256" using u False \<open>unat val < 2 ^ 256\<close> by simp
    have "unat (ucast m :: u256) = unat m" by (rule ucast_u256)
    then show ?thesis using False u fits push_bit_unat[of "ucast m :: u256" "8 * (s' - 3)"] by (simp add: w_def word_def)
  qed
  ultimately show ?thesis using that by blast
qed

text \<open>
  C38: Packing a number into the bits of a header never panics, and unpacking it gives a valid target that is
  not above the number and falls short of it by at most one part in 32768.
\<close>

theorem compact_keeps_the_target:
  "\<exists>c w. compact_from_u256 val = Ok c \<and> compact_to_u256 c = Inr w
     \<and> w \<le> val \<and> (unat val - unat w) * 2 ^ 15 \<le> unat val"
  using compact_from_u256_unpacked[of val] unpacked_close[of "unat val"] by (metis word_le_nat_alt)

section \<open>The difficulty of the next block\<close>

definition max_target :: u256 where "max_target = u256_of_compact (Compact MAX_BITS_BTC)"

definition target_of_bits :: "block_header_bits \<Rightarrow> u256" where
  "target_of_bits bits = u256_of_compact (bits_compact bits)"

lemma max_target_value: "max_target = push_bit 208 0xffff"
  by (simp add: max_target_def u256_of_compact_def compact_to_u256_def MAX_BITS_BTC_def Let_def)

lemma timespan_constants: "TARGET_TIMESPAN_SECONDS = 1209600" "MIN_TIMESPAN = 302400" "MAX_TIMESPAN = 4838400"
  "RETARGETING_INTERVAL = 2016"
  by (simp_all add: TARGET_TIMESPAN_SECONDS_def MIN_TIMESPAN_def MAX_TIMESPAN_def RETARGETING_FACTOR_def
      RETARGETING_INTERVAL_def TARGET_SPACING_SECONDS_def)

lemma retarget_timespan_bounds:
  "302400 \<le> unat (retarget_timespan a b)" "unat (retarget_timespan a b) \<le> 4838400"
proof -
  define t where "t = range_constrain (uint b - uint a) 302400 4838400"
  have t: "302400 \<le> t" "t \<le> 4838400" by (auto simp: t_def range_constrain_def)
  have "retarget_timespan a b = word_of_int t" by (simp add: retarget_timespan_def timespan_constants t_def)
  then have "uint (retarget_timespan a b) = t" using t by (simp add: unsigned_of_int take_bit_int_eq_self)
  then have "int (unat (retarget_timespan a b)) = t" by simp
  then show "302400 \<le> unat (retarget_timespan a b)" "unat (retarget_timespan a b) \<le> 4838400" using t by linarith+
qed

lemma packed_below:
  "\<exists>c. compact_from_u256 x = (Ok c :: (next_block_bits_error, compact) rust_result) \<and> u256_of_compact c \<le> x"
proof -
  obtain c w where "compact_from_u256 x = (Ok c :: (next_block_bits_error, compact) rust_result)"
    "compact_to_u256 c = Inr w" "unat w = unpacked (unat x)"
    by (rule compact_from_u256_unpacked)
  then show ?thesis using unpacked_close[of "unat x"]
    by (intro exI[of _ c]) (simp add: u256_of_compact_def word_le_nat_alt)
qed

lemma retarget_safe:
  assumes "target_of_bits (sbh_bits lst) \<le> max_target"
  shows "btc_retarget_bits sha256 coin lst storage \<noteq> Panic"
    and "btc_retarget_bits sha256 coin lst storage = Ok bits \<Longrightarrow> target_of_bits bits \<le> max_target"
proof -
  have max_bits: "target_of_bits (BitsCompact (Compact MAX_BITS_BTC)) \<le> max_target"
    by (simp add: target_of_bits_def max_target_def)
  have product: "unat (u256_of_compact (bits_compact (sbh_bits lst))) * unat (ucast (retarget_timespan a b) :: u256) < 2 ^ 256" for a b
  proof -
    have "unat (u256_of_compact (bits_compact (sbh_bits lst))) \<le> 2 ^ 224"
      using assms by (simp add: target_of_bits_def max_target_value word_le_nat_alt)
    then have "unat (u256_of_compact (bits_compact (sbh_bits lst))) * unat (ucast (retarget_timespan a b) :: u256) \<le> 2 ^ 224 * 4838400"
      using retarget_timespan_bounds(2)[of a b] by (intro mult_le_mono) (simp_all add: ucast_u256)
    then show ?thesis by simp
  qed
  obtain pack where pack: "\<And>x. compact_from_u256 x = (Ok (pack x) :: (next_block_bits_error, compact) rust_result)"
    "\<And>x. u256_of_compact (pack x) \<le> x" using packed_below by metis
  show "btc_retarget_bits sha256 coin lst storage \<noteq> Panic"
    using product
    by (simp add: btc_retarget_bits_def Let_def query_def u256_mul_def pack split: option.split sum.split)
  show "target_of_bits bits \<le> max_target" if result: "btc_retarget_bits sha256 coin lst storage = Ok bits"
  proof -
    have "bits = BitsCompact (Compact MAX_BITS_BTC) \<or> (\<exists>x. x \<le> max_target \<and> bits = BitsCompact (pack x))"
      using result product
      by (simp add: btc_retarget_bits_def Let_def query_def u256_mul_def pack max_target_def[symmetric] not_less
          split: option.splits sum.splits if_splits) auto
    then show ?thesis using max_bits order_trans[OF pack(2)] by (auto simp: target_of_bits_def)
  qed
qed

lemma mainnet_safe:
  assumes "target_of_bits (sbh_bits lst) \<le> max_target"
  shows "btc_mainnet_next_block_bits sha256 coin lst storage \<noteq> Panic
    \<and> (\<forall>bits. btc_mainnet_next_block_bits sha256 coin lst storage = Ok bits \<longrightarrow> target_of_bits bits \<le> max_target)"
  using retarget_safe[OF assms] assms
  by (auto simp: btc_mainnet_next_block_bits_def Let_def target_of_bits_def max_target_def)

text \<open>
  The mainnet rule never panics and never asks for less work than the first block did: from a target
  that is not above the easiest one it computes another such target.
\<close>

theorem mainnet_difficulty_floor:
  assumes "target_of_bits (sbh_bits lst) \<le> max_target"
  shows "btc_mainnet_next_block_bits sha256 coin lst storage \<noteq> Panic
    \<and> (\<forall>bits. btc_mainnet_next_block_bits sha256 coin lst storage = Ok bits \<longrightarrow> target_of_bits bits \<le> max_target)"
  by (rule mainnet_safe[OF assms])

section \<open>Chains of headers\<close>

text \<open>The header the one at a place of the list is compared with.\<close>

definition header_before :: "(bytes \<Rightarrow> bytes) \<Rightarrow> u64 \<Rightarrow> spv_block_header \<Rightarrow> block_header list \<Rightarrow> nat \<Rightarrow> spv_block_header" where
  "header_before sha256 height lst headers i =
    (if i = 0 then lst else from_block_header_and_height sha256 (headers ! (i - 1)) (height + of_nat i))"

lemma header_before_Cons:
  "header_before sha256 height lst (h # headers) (Suc i) =
   header_before sha256 (height + 1) (from_block_header_and_height sha256 h (height + 1)) headers i"
  by (cases i) (simp_all add: header_before_def add.assoc)

lemma validate_headers_loop_iff:
  "validate_headers_loop sha256 coin storage conf height lst headers = Ok () \<longleftrightarrow>
   (\<forall>i < length headers. validate_next_header sha256 coin storage conf (height + of_nat i)
      (header_before sha256 height lst headers i) (headers ! i) = Ok ())"
proof (induction headers arbitrary: height lst)
  case (Cons h headers)
  show ?case
    by (simp add: Cons All_less_Suc2 header_before_Cons header_before_def[where i = 0] ac_simps)
qed simp

lemma validate_headers_iff:
  "validate_headers sha256 coin height headers storage conf = Ok () \<longleftrightarrow>
   (\<exists>lst. last_validated sha256 coin height storage conf = Ok lst
     \<and> (\<forall>i < length headers. validate_next_header sha256 coin storage conf (height + of_nat i)
          (header_before sha256 height lst headers i) (headers ! i) = Ok ()))"
  by (simp add: validate_headers_def validate_headers_loop_iff)

lemma next_header_accepted:
  assumes "validate_next_header sha256 coin storage conf height lst header = Ok ()"
  shows "bh_previous_header_hash header = sbh_hash lst"
    and "\<lbrakk>sc_validation_params conf = Some params; vp_difficulty_check params; vp_constant_difficulty params\<rbrakk>
      \<Longrightarrow> bh_bits header = sbh_bits lst"
    and "\<lbrakk>sc_validation_params conf = Some params; vp_difficulty_check params; \<not> vp_constant_difficulty params;
        vp_difficulty_algorithm params = Some algorithm\<rbrakk>
      \<Longrightarrow> next_block_bits sha256 coin (bh_time header) lst storage algorithm = Ok (bh_bits header)"
  using assms by (auto simp: validate_next_header_def split: if_splits option.splits rust_result.splits)

text \<open>
  C39: The headers of an accepted chain are linked, each by the hash of the one before it, from the last one
  that was validated before; and where the difficulty is checked, each has the bits of the one before it, if
  the difficulty is constant, or else the bits the rule of the chain computes from the one before it.
\<close>

theorem accepted_headers_form_a_chain:
  assumes "validate_headers sha256 coin height headers storage conf = Ok ()"
  shows "\<exists>lst. last_validated sha256 coin height storage conf = Ok lst
    \<and> (\<forall>i < length headers. let before = header_before sha256 height lst headers i in
        bh_previous_header_hash (headers ! i) = sbh_hash before
        \<and> (\<forall>params. sc_validation_params conf = Some params \<and> vp_difficulty_check params \<longrightarrow>
            (if vp_constant_difficulty params then bh_bits (headers ! i) = sbh_bits before
             else \<forall>algorithm. vp_difficulty_algorithm params = Some algorithm \<longrightarrow>
               next_block_bits sha256 coin (bh_time (headers ! i)) before storage algorithm = Ok (bh_bits (headers ! i)))))"
  using assms unfolding validate_headers_iff Let_def
  by (elim exE conjE, intro exI conjI allI impI) (auto dest: next_header_accepted)

text \<open>
  C40: On mainnet rules a chain that starts at a header with a target that is not above the easiest one has
  only such headers: no header of an accepted chain is easier than the first block.
\<close>

theorem accepted_headers_are_not_too_easy:
  assumes accepted: "validate_headers sha256 coin height headers storage conf = Ok ()"
    and params: "sc_validation_params conf = Some params" "vp_difficulty_check params" "\<not> vp_constant_difficulty params"
      "vp_difficulty_algorithm params = Some BitcoinMainnet"
    and start: "last_validated sha256 coin height storage conf = Ok lst" "target_of_bits (sbh_bits lst) \<le> max_target"
    and i: "i < length headers"
  shows "target_of_bits (bh_bits (headers ! i)) \<le> max_target"
  using i
proof (induction i)
  case 0
  then have "next_block_bits sha256 coin (bh_time (headers ! 0)) lst storage BitcoinMainnet = Ok (bh_bits (headers ! 0))"
    using accepted params start(1) unfolding validate_headers_iff
    by (auto dest!: spec[of _ 0] intro: next_header_accepted(3) simp: header_before_def)
  then show ?case using mainnet_safe[OF start(2)] by (simp add: next_block_bits_def)
next
  case (Suc i)
  let ?before = "from_block_header_and_height sha256 (headers ! i) (height + of_nat (Suc i))"
  have "next_block_bits sha256 coin (bh_time (headers ! Suc i)) ?before storage BitcoinMainnet = Ok (bh_bits (headers ! Suc i))"
    using accepted params Suc.prems unfolding validate_headers_iff
    by (auto dest!: spec[of _ "Suc i"] intro: next_header_accepted(3) simp: header_before_def)
  moreover have "target_of_bits (sbh_bits ?before) \<le> max_target"
    using Suc by (simp add: from_block_header_and_height_def)
  ultimately show ?case using mainnet_safe[of ?before] by (simp add: next_block_bits_def)
qed

section \<open>The hypotheses can hold\<close>

text \<open>A function with hashes of 32 bytes, and a tree of three leaves for which it has no collision.\<close>

definition demo_sha256 :: "bytes \<Rightarrow> bytes" where
  "demo_sha256 x = (if length x = 64 then replicate 32 (x ! 0 + 3 * x ! 32) else take 32 (x @ replicate 32 0))"

lemma demo_sha256_length: "length (demo_sha256 x) = 32"
  by (simp add: demo_sha256_def min_def)

lemma demo_node: "dhash256 demo_sha256 (replicate 32 a @ replicate 32 b) = replicate 32 (a + 3 * b)"
  by (simp add: dhash256_def demo_sha256_def nth_append)

definition demo_leaves :: "bytes list" where "demo_leaves = [replicate 32 1, replicate 32 2, replicate 32 3]"

lemma demo_row: "merkle_row (dhash256 demo_sha256) demo_leaves = [replicate 32 7, replicate 32 12]"
  by (simp add: demo_leaves_def merkle_node_hash_def demo_node)

lemma demo_root: "merkle_root (dhash256 demo_sha256) demo_leaves = Some (replicate 32 43)"
  using merkle_root_up[of demo_leaves "dhash256 demo_sha256"]
    merkle_root_up[of "[replicate 32 7, replicate 32 12]" "dhash256 demo_sha256"]
  by (simp add: demo_row merkle_root_single merkle_node_hash_def demo_node) (simp add: demo_leaves_def)

lemma demo_nodes: "merkle_branch_nodes (dhash256 demo_sha256) demo_leaves 2 = [replicate 32 3, replicate 32 7]"
proof -
  have "merkle_branch_nodes (dhash256 demo_sha256) demo_leaves 2
      = replicate 32 3 # merkle_branch_nodes (dhash256 demo_sha256) (merkle_row (dhash256 demo_sha256) demo_leaves) 1"
    by (subst merkle_branch_nodes_up) (simp_all add: demo_leaves_def)
  then show ?thesis unfolding demo_row
    by (simp add: merkle_branch_nodes_up merkle_branch_nodes_leaf)
qed

theorem merkle_proof_of_every_leaf_accepted_witness:
  "merkle_prove demo_sha256 (replicate 32 3) (replicate 32 43) [replicate 32 3, replicate 32 7] 2 = Ok ()"
  using merkle_proof_of_every_leaf_accepted[OF demo_sha256_length _ _ _ demo_root, of 2]
  by (simp add: demo_nodes) (simp add: demo_leaves_def)

lemma demo_no_collision:
  "no_collision (dhash256 demo_sha256) (proof_preimages (dhash256 demo_sha256) [replicate 32 3, replicate 32 7] 2 (replicate 32 3))
    (tree_preimages (dhash256 demo_sha256) demo_leaves)"
proof -
  have "tree_preimages (dhash256 demo_sha256) demo_leaves = [replicate 32 1 @ replicate 32 2, replicate 32 3 @ replicate 32 3,
      replicate 32 7 @ replicate 32 12]"
    using tree_preimages.simps[of "dhash256 demo_sha256" demo_leaves]
      tree_preimages.simps[of "dhash256 demo_sha256" "[replicate 32 7, replicate 32 12]"]
      tree_preimages.simps[of "dhash256 demo_sha256" "merkle_row (dhash256 demo_sha256) [replicate 32 7, replicate 32 12]"]
    by (simp add: demo_row) (simp add: demo_leaves_def)
  moreover have "proof_preimages (dhash256 demo_sha256) [replicate 32 3, replicate 32 7] 2 (replicate 32 3)
      = [replicate 32 3 @ replicate 32 3, replicate 32 7 @ replicate 32 12]"
    by (simp add: Let_def demo_node)
  ultimately show ?thesis by (simp add: no_collision_def demo_node)
qed


text \<open>A block of one transaction, and the headers of a chain on mainnet rules.\<close>

definition demo_header :: "bytes \<Rightarrow> bytes \<Rightarrow> block_header" where
  "demo_header prev merkle = BlockHeader 2 prev merkle None None 1000 (BitsCompact (Compact MAX_BITS_BTC)) (NonceU32 5)
     None None None None False None None None None None None None"


definition demo_spv_conf :: spv_conf where
  "demo_spv_conf = \<lparr>sc_starting_block_header = from_block_header_and_height demo_sha256 (demo_header [] []) 4032,
     sc_max_stored_block_headers = None,
     sc_validation_params = Some \<lparr>vp_difficulty_check = True, vp_constant_difficulty = False,
       vp_difficulty_algorithm = Some BitcoinMainnet\<rparr>\<rparr>"

definition demo_header_storage :: header_storage where
  "demo_header_storage = \<lparr>get_block_header = (\<lambda>_. Inr None), get_last_block_header_with_non_max_bits = (\<lambda>_. Inr None)\<rparr>"

definition demo_chain :: "block_header list" where
  "demo_chain = (let h1 = demo_header (bh_hash (dhash256 demo_sha256) (demo_header [] [])) []
     in [h1, demo_header (bh_hash (dhash256 demo_sha256) h1) [1]])"

lemma demo_chain_accepted: "validate_headers demo_sha256 ''BTC'' 4032 demo_chain demo_header_storage demo_spv_conf = Ok ()"
proof -
  have bits: "bh_bits (demo_header p m) = BitsCompact (Compact MAX_BITS_BTC)" "bh_previous_header_hash (demo_header p m) = p" for p m
    by (simp_all add: demo_header_def)
  show ?thesis
    by (simp add: validate_headers_def last_validated_def demo_spv_conf_def demo_chain_def Let_def validate_next_header_def
        from_block_header_and_height_def next_block_bits_def btc_mainnet_next_block_bits_def is_retarget_height_def
        timespan_constants bits)
qed

theorem accepted_headers_form_a_chain_witness:
  "bh_previous_header_hash (demo_chain ! 1) = bh_hash (dhash256 demo_sha256) (demo_chain ! 0)"
  using accepted_headers_form_a_chain[OF demo_chain_accepted]
  by (auto simp: Let_def demo_chain_def header_before_def from_block_header_and_height_def dest!: spec[of _ 1])

lemma demo_start: "last_validated demo_sha256 ''BTC'' 4032 demo_header_storage demo_spv_conf = Ok (sc_starting_block_header demo_spv_conf)"
  by (simp add: last_validated_def demo_spv_conf_def from_block_header_and_height_def)

theorem accepted_headers_are_not_too_easy_witness: "target_of_bits (bh_bits (demo_chain ! 1)) \<le> max_target"
  by (rule accepted_headers_are_not_too_easy[OF demo_chain_accepted _ _ _ _ demo_start, where params =
        "\<lparr>vp_difficulty_check = True, vp_constant_difficulty = False, vp_difficulty_algorithm = Some BitcoinMainnet\<rparr>"])
    (simp_all add: demo_spv_conf_def demo_chain_def Let_def from_block_header_and_height_def demo_header_def target_of_bits_def max_target_def)

theorem mainnet_difficulty_floor_witness:
  "btc_mainnet_next_block_bits demo_sha256 ''BTC'' (sc_starting_block_header demo_spv_conf) demo_header_storage
     = Ok (BitsCompact (Compact MAX_BITS_BTC)) \<and> target_of_bits (BitsCompact (Compact MAX_BITS_BTC)) \<le> max_target"
proof
  show "btc_mainnet_next_block_bits demo_sha256 ''BTC'' (sc_starting_block_header demo_spv_conf) demo_header_storage
     = Ok (BitsCompact (Compact MAX_BITS_BTC))"
    by (simp add: btc_mainnet_next_block_bits_def demo_spv_conf_def from_block_header_and_height_def demo_header_def
        is_retarget_height_def timespan_constants)
  moreover have "target_of_bits (sbh_bits (sc_starting_block_header demo_spv_conf)) \<le> max_target"
    by (simp add: demo_spv_conf_def from_block_header_and_height_def demo_header_def target_of_bits_def max_target_def)
  ultimately show "target_of_bits (BitsCompact (Compact MAX_BITS_BTC)) \<le> max_target"
    using mainnet_difficulty_floor by blast
qed

end
