(* ===== verification/Spec2Isabelle.thy ===== *)
theory Spec2Isabelle
  imports Ordermatch_Loop Taker_Swap_Runs Spv_Headers
begin

text \<open>
  A verification library of the order matching service of deXFG (\<open>mm2_main/src/lp_ordermatch.rs\<close>).
\<close>

end
